(* ===== verification/Prelude.thy ===== *)
theory Prelude
  imports Complex_Main "HOL-Library.AList"
begin

text \<open>
  Shared vocabulary of the development: the lemma collections the component
  theories extend, insertion-ordered association lists (the Python dict and the
  Redis hash), and a few list and option facts.  Nothing here is about one
  component of the program.
\<close>

named_theorems dict_simps "reading and writing insertion-ordered dictionaries"
named_theorems wf_intros "preservation of well-formedness"

subsection \<open>Association lists as dictionaries\<close>

text \<open>
  \<open>AList.update\<close> replaces the value of an existing key in place and appends a new
  key at the end, as assignment to a Python dict does; \<open>AList.delete\<close> is
  \<open>dict.pop\<close>.
\<close>

lemma map_of_AList_update [simp, dict_simps]:
  "map_of (AList.update k v d) k' = (if k = k' then Some v else map_of d k')"
  by (simp add: update_conv' fun_upd_def)

lemma map_of_AList_delete [simp, dict_simps]:
  "map_of (AList.delete k d) k' = (if k = k' then None else map_of d k')"
  by (simp add: delete_conv' fun_upd_def)

lemma fst_set_AList_update [simp]:
  "fst ` set (AList.update k v d) = insert k (fst ` set d)"
  by (simp add: dom_update)

lemma fst_set_AList_delete [simp]:
  "fst ` set (AList.delete k d) = fst ` set d - {k}"
  by (induction d) auto

lemma length_AList_update:
  "length (AList.update k v d) = (if k \<in> fst ` set d then length d else Suc (length d))"
  by (induction d) (auto split: if_splits)

lemma AList_delete_absent [simp]: "k \<notin> fst ` set d \<Longrightarrow> AList.delete k d = d"
  by (induction d) auto

lemma length_AList_delete:
  "distinct (map fst d) \<Longrightarrow>
    length (AList.delete k d) = (if k \<in> fst ` set d then length d - 1 else length d)"
proof (induction d)
  case Nil
  then show ?case by simp
next
  case (Cons p d)
  show ?case
  proof (cases "fst p = k")
    case True
    with Cons.prems have "k \<notin> fst ` set d" by auto
    with True show ?thesis by (cases p) simp
  next
    case False
    then show ?thesis
      using Cons length_pos_if_in_set [of _ d] by (cases p) fastforce
  qed
qed

lemma distinct_AList_update [simp, wf_intros]:
  "distinct (map fst d) \<Longrightarrow> distinct (map fst (AList.update k v d))"
  by (rule distinct_update)

lemma distinct_AList_delete [simp, wf_intros]:
  "distinct (map fst d) \<Longrightarrow> distinct (map fst (AList.delete k d))"
  by (rule distinct_delete)

lemma map_of_None_fst: "map_of d k = None \<longleftrightarrow> k \<notin> fst ` set d"
  by (rule map_of_eq_None_iff)

lemma map_of_Some_fst: "map_of d k = Some v \<Longrightarrow> k \<in> fst ` set d"
  by (metis map_of_eq_None_iff option.distinct(1))

subsection \<open>The last elements of a list\<close>

text \<open>\<open>xs[-n:]\<close>, also the effect of \<open>del xs[:-n]\<close>.\<close>

definition last_n :: "nat \<Rightarrow> 'a list \<Rightarrow> 'a list" where
  "last_n n xs = drop (length xs - n) xs"

lemma length_last_n [simp]: "length (last_n n xs) = min n (length xs)"
  by (simp add: last_n_def)

lemma set_last_n: "set (last_n n xs) \<subseteq> set xs"
  by (simp add: last_n_def set_drop_subset)

lemma last_n_id [simp]: "length xs \<le> n \<Longrightarrow> last_n n xs = xs"
  by (simp add: last_n_def)

lemma last_last_n: "xs \<noteq> [] \<Longrightarrow> 0 < n \<Longrightarrow> last (last_n n xs) = last xs"
  by (simp add: last_n_def last_drop)

subsection \<open>Sorted prefixes and filtered dictionaries\<close>

lemma sorted_take_drop:
  assumes "sorted xs" and "x \<in> set (take n xs)" and "y \<in> set (drop n xs)"
  shows "x \<le> y"
  using assms sorted_append [of "take n xs" "drop n xs"] by simp

lemma AList_update_absent: "k \<notin> fst ` set d \<Longrightarrow> AList.update k v d = d @ [(k, v)]"
  by (induction d) auto

lemma AList_delete_filter: "AList.delete k d = filter (\<lambda>p. fst p \<noteq> k) d"
  by (induction d) auto

lemma map_of_filter_key:
  "map_of (filter (\<lambda>p. P (fst p)) d) k = (if P k then map_of d k else None)"
  by (induction d) auto

lemma length_filter_keys:
  assumes "distinct (map fst d)" and "distinct ks" and "set ks \<subseteq> fst ` set d"
  shows "length (filter (\<lambda>p. fst p \<notin> set ks) d) = length d - length ks"
proof -
  have "set (map fst (filter (\<lambda>p. fst p \<notin> set ks) d)) = fst ` set d - set ks" by auto
  moreover have "distinct (map fst (filter (\<lambda>p. fst p \<notin> set ks) d))"
    using assms(1) by (rule distinct_map_filter)
  ultimately have "length (filter (\<lambda>p. fst p \<notin> set ks) d) = card (fst ` set d - set ks)"
    by (metis distinct_card length_map)
  also have "\<dots> = card (fst ` set d) - card (set ks)"
    using assms(3) by (intro card_Diff_subset) auto
  also have "card (fst ` set d) = length d" using assms(1) by (metis distinct_card length_map set_map)
  finally show ?thesis using assms(2) by (simp add: distinct_card)
qed

subsection \<open>Results\<close>

text \<open>
  A call that may raise has a value of the sum type: \<open>Inl\<close> the exception,
  \<open>Inr\<close> the returned value.
\<close>

fun is_ok :: "'e + 'a \<Rightarrow> bool" where
  "is_ok (Inl e) = False"
| "is_ok (Inr a) = True"

lemma map_sum_id_Inr [simp]: "map_sum id f r = Inr b \<longleftrightarrow> (\<exists>a. r = Inr a \<and> b = f a)"
  by (cases r) auto

lemma map_sum_id_Inl [simp]: "map_sum id f r = Inl e \<longleftrightarrow> r = Inl e"
  by (cases r) auto

lemma is_ok_iff: "is_ok r \<longleftrightarrow> (\<exists>a. r = Inr a)"
  by (cases r) auto

end
