(* ===== verification/PyValues.thy ===== *)
theory PyValues
  imports Prelude
begin

text \<open>
  The Python values the services exchange: JSON documents as their parse trees,
  floats as exact rationals plus the three special values, dicts as
  insertion-ordered association lists, and the handful of built-in operations
  the modelled code applies to values of unknown type (\<open>dict.get\<close>,
  \<open>isinstance\<close> tests, equality, membership in a set of strings, truthiness,
  \<open>str.strip\<close>).  A string is the list of its code points, restricted to those
  below 256.  Rounding of float arithmetic is not modelled.
\<close>

subsection \<open>Values\<close>

datatype pyfloat = Finite rat | PosInf | NegInf | NaN

datatype json =
    JNull
  | JBool bool
  | JInt int
  | JFloat pyfloat
  | JStr string
  | JList "json list"
  | JDict "(string \<times> json) list"

type_synonym dict = "(string \<times> json) list"

subsection \<open>Exceptions\<close>

text \<open>
  The exceptions of the program that callers tell apart.  The store errors carry
  which of the fixed messages of the code they have; a \<open>ServiceError\<close> carries its
  HTTP status and its message.  \<open>TranslationJobLeaseLost\<close> is a subclass of
  \<open>TranslationJobStoreError\<close> in the code (\<open>is_translation_store_error\<close>).
\<close>

datatype store_fault =
    CannotRead
  | CannotWrite
  | CannotUpdate
  | BadData
  | BadRecord
  | Contention

datatype exn =
    TypeError
  | ValueError
  | KeyError
  | AttributeError
  | RuntimeError
  | OtherError string
  | RedisError
  | CheckJobStoreError store_fault
  | CheckJobExecutionSuperseded
  | TranslationJobStoreError store_fault
  | TranslationJobLeaseLost
  | PageCheckReviewQueueError string
  | PageCheckerSettingsValidationError string
  | PageCheckerSettingsStoreError string
  | DefinitionTranslationSettingsValidationError
  | DefinitionTranslationSettingsStoreError string
  | ServiceError nat string
  | WiktionaryReviewError string
  | SqliteError

type_synonym 'a res = "exn + 'a"

fun is_translation_store_error :: "exn \<Rightarrow> bool" where
  "is_translation_store_error (TranslationJobStoreError f) = True"
| "is_translation_store_error TranslationJobLeaseLost = True"
| "is_translation_store_error e = False"

text \<open>Sequencing: an exception of the first call skips the rest.\<close>

definition bnd :: "'a res \<Rightarrow> ('a \<Rightarrow> 'b res) \<Rightarrow> 'b res" where
  "bnd r f = (case r of Inl e \<Rightarrow> Inl e | Inr a \<Rightarrow> f a)"

lemma bnd_simps [simp]: "bnd (Inl e) f = Inl e" "bnd (Inr a) f = f a"
  by (simp_all add: bnd_def)

lemma bnd_Inr_iff: "bnd r f = Inr b \<longleftrightarrow> (\<exists>a. r = Inr a \<and> f a = Inr b)"
  by (cases r) auto

lemma bnd_Inr_E:
  assumes "bnd r f = Inr b"
  obtains a where "r = Inr a" and "f a = Inr b"
  using assms by (auto simp: bnd_Inr_iff)

fun map_res :: "('a \<Rightarrow> 'b res) \<Rightarrow> 'a list \<Rightarrow> 'b list res" where
  "map_res f [] = Inr []"
| "map_res f (x # xs) = bnd (f x) (\<lambda>y. bnd (map_res f xs) (\<lambda>ys. Inr (y # ys)))"

text \<open>The same for calls that also change a state, kept when they raise.\<close>

definition sbind :: "('s \<Rightarrow> 's \<times> 'a res) \<Rightarrow> ('a \<Rightarrow> 's \<Rightarrow> 's \<times> 'b res) \<Rightarrow> 's \<Rightarrow> 's \<times> 'b res" where
  "sbind f g s = (case f s of (s', Inl e) \<Rightarrow> (s', Inl e) | (s', Inr a) \<Rightarrow> g a s')"

definition sreturn :: "'a res \<Rightarrow> 's \<Rightarrow> 's \<times> 'a res" where
  "sreturn r s = (s, r)"

lemma sbind_cases:
  assumes "sbind f g s = (s', r)"
  obtains (raised) e where "f s = (s', Inl e)" and "r = Inl e"
    | (ran) s1 a where "f s = (s1, Inr a)" and "g a s1 = (s', r)"
  using assms by (auto simp: sbind_def split: prod.splits sum.splits)

text \<open>Every call of \<open>f\<close> keeps a relation of states.\<close>

definition stays :: "('s \<Rightarrow> 's \<Rightarrow> bool) \<Rightarrow> ('s \<Rightarrow> 's \<times> 'a) \<Rightarrow> bool" where
  "stays R f \<longleftrightarrow> (\<forall>s. R s (fst (f s)))"

lemma staysD: "stays R f \<Longrightarrow> f s = (s', a) \<Longrightarrow> R s s'"
  unfolding stays_def by (metis fst_conv)

lemma stays_sbind:
  assumes "transp R" and "stays R f" and "\<And>a. stays R (g a)"
  shows "stays R (sbind f g)"
  unfolding stays_def
proof
  fix s
  obtain s1 r where f: "f s = (s1, r)" by (cases "f s")
  have 1: "R s s1" using staysD [OF assms(2) f] .
  show "R s (fst (sbind f g s))"
  proof (cases r)
    case (Inl e)
    with f 1 show ?thesis by (simp add: sbind_def)
  next
    case (Inr a)
    have "R s1 (fst (g a s1))" using assms(3) by (simp add: stays_def)
    with 1 assms(1) f Inr show ?thesis by (auto simp: sbind_def dest: transpD)
  qed
qed

lemma stays_sreturn: "reflp R \<Longrightarrow> stays R (sreturn r)"
  by (simp add: stays_def sreturn_def reflpD)

subsection \<open>Dictionaries\<close>

definition dget :: "string \<Rightarrow> dict \<Rightarrow> json" where
  "dget k d = (case map_of d k of None \<Rightarrow> JNull | Some v \<Rightarrow> v)"

definition dget_or :: "string \<Rightarrow> json \<Rightarrow> dict \<Rightarrow> json" where
  "dget_or k v d = (case map_of d k of None \<Rightarrow> v | Some w \<Rightarrow> w)"

definition dhas :: "string \<Rightarrow> dict \<Rightarrow> bool" where
  "dhas k d \<longleftrightarrow> map_of d k \<noteq> None"

definition dset :: "string \<Rightarrow> json \<Rightarrow> dict \<Rightarrow> dict" where
  "dset = AList.update"

definition dpop :: "string \<Rightarrow> dict \<Rightarrow> dict" where
  "dpop = AList.delete"

definition dsetdefault :: "string \<Rightarrow> json \<Rightarrow> dict \<Rightarrow> dict" where
  "dsetdefault k v d = (if dhas k d then d else dset k v d)"

definition dindex :: "string \<Rightarrow> dict \<Rightarrow> json res" where
  "dindex k d = (case map_of d k of None \<Rightarrow> Inl KeyError | Some v \<Rightarrow> Inr v)"

definition keys_are :: "string list \<Rightarrow> dict \<Rightarrow> bool" where
  "keys_are ks d \<longleftrightarrow> (\<forall>k \<in> set ks. dhas k d) \<and> (\<forall>p \<in> set d. fst p \<in> set ks)"

lemma dget_dset [simp, dict_simps]: "dget k (dset k' v d) = (if k' = k then v else dget k d)"
  by (simp add: dget_def dset_def)

lemma dget_or_dset [simp, dict_simps]:
  "dget_or k w (dset k' v d) = (if k' = k then v else dget_or k w d)"
  by (simp add: dget_or_def dset_def)

lemma dhas_dset [simp, dict_simps]: "dhas k (dset k' v d) \<longleftrightarrow> k' = k \<or> dhas k d"
  by (simp add: dhas_def dset_def)

lemma dget_dpop [simp, dict_simps]: "dget k (dpop k' d) = (if k' = k then JNull else dget k d)"
  by (simp add: dget_def dpop_def)

lemma dget_or_dpop [simp, dict_simps]:
  "dget_or k w (dpop k' d) = (if k' = k then w else dget_or k w d)"
  by (simp add: dget_or_def dpop_def)

lemma dhas_dpop [simp, dict_simps]: "dhas k (dpop k' d) \<longleftrightarrow> k' \<noteq> k \<and> dhas k d"
  by (simp add: dhas_def dpop_def)

lemma dget_absent: "\<not> dhas k d \<Longrightarrow> dget k d = JNull"
  by (simp add: dget_def dhas_def)

lemma dget_dsetdefault [simp, dict_simps]:
  "dget k (dsetdefault k' v d) = (if k' = k \<and> \<not> dhas k d then v else dget k d)"
  by (auto simp: dsetdefault_def)

lemma dget_or_dsetdefault [simp, dict_simps]:
  "dget_or k w (dsetdefault k' v d) = (if k' = k \<and> \<not> dhas k d then v else dget_or k w d)"
  by (auto simp: dsetdefault_def)

lemma dhas_dsetdefault [simp, dict_simps]: "dhas k (dsetdefault k' v d) \<longleftrightarrow> k' = k \<or> dhas k d"
  by (auto simp: dsetdefault_def)

lemma dget_or_dget: "dhas k d \<Longrightarrow> dget_or k w d = dget k d"
  by (auto simp: dget_def dget_or_def dhas_def)

lemma dget_or_absent: "\<not> dhas k d \<Longrightarrow> dget_or k w d = w"
  by (auto simp: dget_or_def dhas_def)

lemma dindex_ok: "dhas k d \<Longrightarrow> dindex k d = Inr (dget k d)"
  by (auto simp: dindex_def dhas_def dget_def)

lemma dindex_Inr_iff: "dindex k d = Inr v \<longleftrightarrow> dhas k d \<and> dget k d = v"
  by (auto simp: dindex_def dhas_def dget_def split: option.splits)

lemma dget_dhas: "dget k d \<noteq> JNull \<Longrightarrow> dhas k d"
  using dget_absent by blast

subsection \<open>Numbers\<close>

text \<open>
  \<open>num_of\<close> is the test \<open>isinstance(v, (int, float)) and not isinstance(v, bool)\<close>
  together with the value; \<open>val_of\<close> also reads a bool as 0 or 1, as Python's
  comparisons and arithmetic do.
\<close>

fun num_of :: "json \<Rightarrow> pyfloat option" where
  "num_of (JInt i) = Some (Finite (of_int i))"
| "num_of (JFloat f) = Some f"
| "num_of v = None"

fun val_of :: "json \<Rightarrow> pyfloat option" where
  "val_of (JBool b) = Some (Finite (if b then 1 else 0))"
| "val_of v = num_of v"

fun isfinite :: "pyfloat \<Rightarrow> bool" where
  "isfinite (Finite r) = True"
| "isfinite f = False"

fun f_less :: "pyfloat \<Rightarrow> pyfloat \<Rightarrow> bool" where
  "f_less (Finite a) (Finite b) = (a < b)"
| "f_less (Finite a) PosInf = True"
| "f_less NegInf (Finite b) = True"
| "f_less NegInf PosInf = True"
| "f_less a b = False"

fun f_eq :: "pyfloat \<Rightarrow> pyfloat \<Rightarrow> bool" where
  "f_eq (Finite a) (Finite b) = (a = b)"
| "f_eq PosInf PosInf = True"
| "f_eq NegInf NegInf = True"
| "f_eq a b = False"

definition f_le :: "pyfloat \<Rightarrow> pyfloat \<Rightarrow> bool" where
  "f_le a b \<longleftrightarrow> f_less a b \<or> f_eq a b"

text \<open>\<open>f_sub t f\<close> is \<open>t - f\<close> for a finite clock reading \<open>t\<close>.\<close>

fun f_sub :: "rat \<Rightarrow> pyfloat \<Rightarrow> pyfloat" where
  "f_sub t (Finite r) = Finite (t - r)"
| "f_sub t PosInf = NegInf"
| "f_sub t NegInf = PosInf"
| "f_sub t NaN = NaN"

lemma f_le_Finite [simp]: "f_le (Finite a) (Finite b) \<longleftrightarrow> a \<le> b"
  by (auto simp: f_le_def)

text \<open>\<open>int(v)\<close> truncates towards zero; it raises on NaN and on the infinities.\<close>

definition trunc_rat :: "rat \<Rightarrow> int" where
  "trunc_rat r = (if 0 \<le> r then floor r else ceiling r)"

fun py_int :: "pyfloat \<Rightarrow> int res" where
  "py_int (Finite r) = Inr (trunc_rat r)"
| "py_int NaN = Inl ValueError"
| "py_int f = Inl (OtherError ''OverflowError'')"

lemma trunc_rat_of_int [simp]: "trunc_rat (of_int i) = i"
  by (simp add: trunc_rat_def)

subsection \<open>Equality, truth and membership\<close>

fun py_eq :: "json \<Rightarrow> json \<Rightarrow> bool"
  and py_eqs :: "json list \<Rightarrow> json list \<Rightarrow> bool"
  and py_eqd :: "(string \<times> json) list \<Rightarrow> (string \<times> json) list \<Rightarrow> bool"
where
  "py_eq JNull w = (w = JNull)"
| "py_eq (JStr s) w = (w = JStr s)"
| "py_eq (JList xs) w = (case w of JList ys \<Rightarrow> py_eqs xs ys | _ \<Rightarrow> False)"
| "py_eq (JDict d) w =
    (case w of JDict e \<Rightarrow> length d = length e \<and> py_eqd d e | _ \<Rightarrow> False)"
| "py_eq v w =
    (case (val_of v, val_of w) of (Some a, Some b) \<Rightarrow> f_eq a b | _ \<Rightarrow> False)"
| "py_eqs [] ys = (ys = [])"
| "py_eqs (x # xs) ys = (case ys of [] \<Rightarrow> False | y # zs \<Rightarrow> py_eq x y \<and> py_eqs xs zs)"
| "py_eqd [] e = True"
| "py_eqd (p # d) e =
    ((case map_of e (fst p) of None \<Rightarrow> False | Some w \<Rightarrow> py_eq (snd p) w) \<and> py_eqd d e)"

text \<open>Lists and dicts are not hashable: testing them against a set raises.\<close>

fun hashable :: "json \<Rightarrow> bool" where
  "hashable (JList xs) = False"
| "hashable (JDict d) = False"
| "hashable v = True"

fun in_strs :: "json \<Rightarrow> string list \<Rightarrow> bool" where
  "in_strs (JStr s) ss = (s \<in> set ss)"
| "in_strs v ss = False"

definition py_in :: "json \<Rightarrow> string list \<Rightarrow> bool res" where
  "py_in v ss = (if hashable v then Inr (in_strs v ss) else Inl TypeError)"

fun truthy :: "json \<Rightarrow> bool" where
  "truthy JNull = False"
| "truthy (JBool b) = b"
| "truthy (JInt i) = (i \<noteq> 0)"
| "truthy (JFloat f) = (\<not> f_eq f (Finite 0))"
| "truthy (JStr s) = (s \<noteq> [])"
| "truthy (JList xs) = (xs \<noteq> [])"
| "truthy (JDict d) = (d \<noteq> [])"

fun is_str :: "json \<Rightarrow> bool" where
  "is_str (JStr s) = True"
| "is_str v = False"

fun is_bool :: "json \<Rightarrow> bool" where
  "is_bool (JBool b) = True"
| "is_bool v = False"

fun is_dict :: "json \<Rightarrow> bool" where
  "is_dict (JDict d) = True"
| "is_dict v = False"

fun is_list :: "json \<Rightarrow> bool" where
  "is_list (JList xs) = True"
| "is_list v = False"

lemma in_strs_iff: "in_strs v ss \<longleftrightarrow> (\<exists>s. v = JStr s \<and> s \<in> set ss)"
  by (cases v) auto

lemma in_strs_hashable: "in_strs v ss \<Longrightarrow> hashable v"
  by (cases v) auto

lemma py_in_Inr_iff: "py_in v ss = Inr b \<longleftrightarrow> hashable v \<and> b = in_strs v ss"
  by (auto simp: py_in_def)

lemma py_in_True_iff: "py_in v ss = Inr True \<longleftrightarrow> in_strs v ss"
  by (auto simp: py_in_def dest: in_strs_hashable)

lemma py_in_JStr [simp]: "py_in (JStr s) ss = Inr (s \<in> set ss)"
  by (simp add: py_in_def)

lemma is_dict_iff: "is_dict v \<longleftrightarrow> (\<exists>d. v = JDict d)"
  by (cases v) auto

lemma is_str_iff: "is_str v \<longleftrightarrow> (\<exists>s. v = JStr s)"
  by (cases v) auto

subsection \<open>Strings\<close>

definition code :: "char \<Rightarrow> nat" where
  "code c = of_char c"

text \<open>The white space of \<open>str.strip\<close> and \<open>str.split\<close> below code point 256.\<close>

definition py_space :: "char \<Rightarrow> bool" where
  "py_space c \<longleftrightarrow> (let n = code c in
     n = 32 \<or> (9 \<le> n \<and> n \<le> 13) \<or> (28 \<le> n \<and> n \<le> 31) \<or> n = 133 \<or> n = 160)"

definition strip :: "string \<Rightarrow> string" where
  "strip s = rev (dropWhile py_space (rev (dropWhile py_space s)))"

definition startswith :: "string \<Rightarrow> string \<Rightarrow> bool" where
  "startswith s p \<longleftrightarrow> take (length p) s = p"

text \<open>\<open>str.lower\<close> below code point 256, and \<open>sub in s\<close>.\<close>

definition lower_char :: "char \<Rightarrow> char" where
  "lower_char c = (let n = code c in
     if (65 \<le> n \<and> n \<le> 90) \<or> (192 \<le> n \<and> n \<le> 222 \<and> n \<noteq> 215) then char_of (n + 32) else c)"

definition lower :: "string \<Rightarrow> string" where
  "lower s = map lower_char s"

definition contains :: "string \<Rightarrow> string \<Rightarrow> bool" where
  "contains s sub \<longleftrightarrow> list_ex (\<lambda>n. startswith (drop n s) sub) [0..<length s + 1]"

text \<open>The length of the UTF-8 encoding: one byte below 128, two from there to 255.\<close>

definition utf8_len :: "string \<Rightarrow> nat" where
  "utf8_len s = sum_list (map (\<lambda>c. if code c < 128 then 1 else 2) s)"

definition digit :: "nat \<Rightarrow> char" where
  "digit n = char_of (n + 48)"

fun nat_str :: "nat \<Rightarrow> string" where
  "nat_str n = (if n < 10 then [digit n] else nat_str (n div 10) @ [digit (n mod 10)])"

declare nat_str.simps [simp del]

definition int_str :: "int \<Rightarrow> string" where
  "int_str i = (if i < 0 then CHR ''-'' # nat_str (nat (- i)) else nat_str (nat i))"

text \<open>
  \<open>str(v)\<close>.  A finite float is written with at most 17 fractional digits; the
  exponent notation of very large and very small floats is not modelled.
\<close>

fun frac_digits :: "nat \<Rightarrow> rat \<Rightarrow> string" where
  "frac_digits 0 r = []"
| "frac_digits (Suc n) r =
    (if r = 0 then [] else digit (nat (floor (10 * r))) # frac_digits n (10 * r - of_int (floor (10 * r))))"

fun float_str :: "pyfloat \<Rightarrow> string" where
  "float_str (Finite r) =
    (let a = \<bar>r\<bar>; ds = frac_digits 17 (a - of_int (floor a)) in
     (if r < 0 then ''-'' else []) @ int_str (floor a) @ ''.'' @ (if ds = [] then ''0'' else ds))"
| "float_str PosInf = ''inf''"
| "float_str NegInf = ''-inf''"
| "float_str NaN = ''nan''"

definition repr_char :: "char \<Rightarrow> string" where
  "repr_char c = (let n = code c in
     if n = 39 \<or> n = 92 then [char_of (92::nat), c]
     else if n = 10 then [char_of (92::nat), CHR ''n'']
     else if n = 13 then [char_of (92::nat), CHR ''r'']
     else if n = 9 then [char_of (92::nat), CHR ''t'']
     else [c])"

definition repr_str :: "string \<Rightarrow> string" where
  "repr_str s = [char_of (39::nat)] @ concat (map repr_char s) @ [char_of (39::nat)]"

fun join :: "string \<Rightarrow> string list \<Rightarrow> string" where
  "join sep [] = []"
| "join sep [x] = x"
| "join sep (x # xs) = x @ sep @ join sep xs"

fun py_repr :: "json \<Rightarrow> string" where
  "py_repr JNull = ''None''"
| "py_repr (JBool b) = (if b then ''True'' else ''False'')"
| "py_repr (JInt i) = int_str i"
| "py_repr (JFloat f) = float_str f"
| "py_repr (JStr s) = repr_str s"
| "py_repr (JList xs) = ''['' @ join '', '' (map py_repr xs) @ '']''"
| "py_repr (JDict d) =
    ''{'' @ join '', '' (map (\<lambda>p. repr_str (fst p) @ '': '' @ py_repr (snd p)) d) @ ''}''"

fun py_str :: "json \<Rightarrow> string" where
  "py_str (JStr s) = s"
| "py_str v = py_repr v"

definition py_or :: "json \<Rightarrow> json \<Rightarrow> json" where
  "py_or v w = (if truthy v then v else w)"

lemma dropWhile_idem_space: "dropWhile p (dropWhile p xs) = dropWhile p xs"
  by (induction xs) auto

lemma strip_Nil [simp]: "strip [] = []"
  by (simp add: strip_def)

lemma hd_dropWhile_not: "dropWhile p xs \<noteq> [] \<Longrightarrow> \<not> p (hd (dropWhile p xs))"
  by (rule hd_dropWhile)

lemma strip_ends:
  assumes "strip s \<noteq> []"
  shows "\<not> py_space (hd (strip s))" and "\<not> py_space (last (strip s))"
proof -
  let ?t = "dropWhile py_space s"
  let ?u = "dropWhile py_space (rev ?t)"
  have u: "?u \<noteq> []" using assms by (simp add: strip_def)
  then have t: "?t \<noteq> []" by (metis dropWhile.simps(1) rev.simps(1))
  have "\<not> py_space (hd ?u)" using u by (rule hd_dropWhile)
  then show "\<not> py_space (last (strip s))" using u by (simp add: strip_def last_rev)
  obtain v where v: "rev ?t = v @ ?u" by (metis takeWhile_dropWhile_id)
  then have "?t = rev ?u @ rev v" by (metis rev_append rev_rev_ident)
  moreover have "rev ?u \<noteq> []" using u by (simp only: rev_is_Nil_conv not_False_eq_True)
  ultimately have "hd ?t = hd (strip s)" unfolding strip_def by (metis hd_append2)
  then show "\<not> py_space (hd (strip s))" using t hd_dropWhile by metis
qed

lemma strip_id:
  assumes "s \<noteq> []" and "\<not> py_space (hd s)" and "\<not> py_space (last s)"
  shows "strip s = s"
proof -
  have d: "dropWhile py_space t = t" if "t \<noteq> []" "\<not> py_space (hd t)" for t
    using that by (cases t) auto
  have "dropWhile py_space s = s" using assms d by blast
  moreover have "dropWhile py_space (rev s) = rev s"
    using assms by (intro d) (auto simp: hd_rev)
  ultimately show ?thesis by (simp add: strip_def)
qed

lemma strip_strip [simp]: "strip (strip s) = strip s"
proof (cases "strip s = []")
  case True
  then show ?thesis by simp
next
  case False
  then show ?thesis using strip_ends [OF False] by (intro strip_id)
qed

subsection \<open>Serialisation\<close>

text \<open>
  A Redis value holds text.  A text that parses is represented by its parse tree
  (key order included), any other text by itself; \<open>json.dumps\<close> with
  \<open>allow_nan=False\<close> raises on a non-finite float.
\<close>

datatype raw = Text json | Garbage string

fun json_finite :: "json \<Rightarrow> bool" where
  "json_finite (JFloat f) = isfinite f"
| "json_finite (JList xs) = list_all json_finite xs"
| "json_finite (JDict d) = list_all (\<lambda>p. json_finite (snd p)) d"
| "json_finite v = True"

definition dumps :: "json \<Rightarrow> raw res" where
  "dumps v = (if json_finite v then Inr (Text v) else Inl ValueError)"

fun loads :: "raw \<Rightarrow> json res" where
  "loads (Text v) = Inr v"
| "loads (Garbage s) = Inl ValueError"

lemma loads_dumps: "dumps v = Inr r \<Longrightarrow> loads r = Inr v"
  by (auto simp: dumps_def split: if_splits)

lemma list_all_AList_update:
  "list_all (\<lambda>p. P (snd p)) d \<Longrightarrow> P v \<Longrightarrow> list_all (\<lambda>p. P (snd p)) (AList.update k v d)"
  by (induction d) auto

lemma list_all_AList_delete:
  "list_all P d \<Longrightarrow> list_all P (AList.delete k d)"
  by (induction d) auto

lemma json_finite_dset [intro]:
  "json_finite (JDict d) \<Longrightarrow> json_finite v \<Longrightarrow> json_finite (JDict (dset k v d))"
  by (simp add: dset_def list_all_AList_update)

lemma json_finite_dpop [intro]: "json_finite (JDict d) \<Longrightarrow> json_finite (JDict (dpop k d))"
  by (simp add: dpop_def list_all_AList_delete)

lemma json_finite_dget: "json_finite (JDict d) \<Longrightarrow> json_finite (dget k d)"
  by (auto simp: dget_def list_all_iff dest!: map_of_SomeD split: option.splits)

end
