(* ===== verification/CheckJobs.thy ===== *)
theory CheckJobs
  imports PyValues
begin

text \<open>
  The page-check job record of \<open>api/services/entry_translator_service.py\<close>: the
  normalisation of stored records, the claimability of a review handoff, the
  outcome of a finished job, and the two functions that move a job's displayed
  stage (\<open>_check_progress_state\<close>, \<open>_set_check_job_state\<close>).  A job is a
  dictionary of JSON values, as it is in the code.
\<close>

subsection \<open>Normalising a stored job\<close>

definition check_job_timeline_limit :: nat where
  "check_job_timeline_limit = 30"

definition default_stage :: "json \<Rightarrow> string" where
  "default_stage status =
    (if status = JStr ''pending'' then ''queued''
     else if status = JStr ''running'' then ''checking''
     else if status = JStr ''done'' then ''completed''
     else if status = JStr ''error'' then ''failed''
     else ''queued'')"

definition default_message :: "json \<Rightarrow> json \<Rightarrow> string" where
  "default_message status err =
    (if status = JStr ''pending'' then ''Waiting for a page-check worker.''
     else if status = JStr ''running'' then ''Checking the page against its sources.''
     else if status = JStr ''done'' then ''Page check completed.''
     else if status = JStr ''error'' then py_str (py_or err (JStr ''Page check failed.''))
     else ''Waiting for a page-check worker.'')"

fun normal_timeline :: "json \<Rightarrow> json" where
  "normal_timeline (JList es) = JList (last_n check_job_timeline_limit (filter is_dict es))"
| "normal_timeline v = JList []"

definition normalise_check_job :: "dict \<Rightarrow> dict res" where
  "normalise_check_job job =
    (let status = dget_or ''status'' (JStr ''pending'') job in
     if \<not> hashable status then Inl TypeError
     else
       let j1 = dsetdefault ''stage'' (JStr (default_stage status)) job;
           j2 = dsetdefault ''message''
                  (JStr (default_message status (dget ''error'' job))) j1;
           j3 = dset ''timeline'' (normal_timeline (dget ''timeline'' j2)) j2;
           j4 = dsetdefault ''review_queue_state'' (JStr ''not_needed'') j3;
           j5 = dsetdefault ''review_event_id'' JNull j4;
           j6 = dsetdefault ''review_queue_error'' JNull j5
       in Inr j6)"

text \<open>The fields normalisation may write.\<close>

definition display_fields :: "string list" where
  "display_fields = [''stage'', ''message'', ''timeline'', ''review_queue_state'',
     ''review_event_id'', ''review_queue_error'']"

lemma normalise_frame:
  assumes "normalise_check_job job = Inr j" and "k \<notin> set display_fields"
  shows "dget k j = dget k job" and "dhas k j = dhas k job"
  using assms by (auto simp: normalise_check_job_def Let_def display_fields_def split: if_splits)

lemma normalise_keeps:
  assumes "normalise_check_job job = Inr j" and "dhas k job" and "k \<noteq> ''timeline''"
  shows "dget k j = dget k job"
  using assms by (auto simp: normalise_check_job_def Let_def split: if_splits)

lemma normalise_display_fields:
  assumes "normalise_check_job job = Inr j"
  shows "\<forall>k \<in> set display_fields. dhas k j"
  using assms by (auto simp: normalise_check_job_def Let_def display_fields_def split: if_splits)

lemma normal_timeline_idem [simp]: "normal_timeline (normal_timeline v) = normal_timeline v"
proof (cases v)
  case (JList es)
  have "filter is_dict (last_n n (filter is_dict es)) = last_n n (filter is_dict es)" for n
    using set_last_n [of n "filter is_dict es"] by (intro filter_True) auto
  with JList show ?thesis by simp
qed simp_all

definition timeline_bounded :: "dict \<Rightarrow> bool" where
  "timeline_bounded job \<longleftrightarrow> (case dget ''timeline'' job of
     JList es \<Rightarrow> length es \<le> check_job_timeline_limit | _ \<Rightarrow> False)"

lemma normalise_timeline:
  assumes "normalise_check_job job = Inr j"
  shows "dget ''timeline'' j = normal_timeline (dget ''timeline'' job)"
  using assms by (auto simp: normalise_check_job_def Let_def split: if_splits)

lemma normalise_timeline_bounded:
  assumes "normalise_check_job job = Inr j"
  shows "timeline_bounded j"
proof -
  have "timeline_bounded j \<longleftrightarrow> (case normal_timeline (dget ''timeline'' job) of
     JList es \<Rightarrow> length es \<le> check_job_timeline_limit | _ \<Rightarrow> False)"
    using normalise_timeline [OF assms] by (simp add: timeline_bounded_def)
  then show ?thesis by (cases "dget ''timeline'' job") simp_all
qed

lemma dset_same: "dhas k d \<Longrightarrow> dget k d = v \<Longrightarrow> dset k v d = d"
  unfolding dset_def dhas_def dget_def by (induction d) (auto split: if_splits)

lemma dsetdefault_has [simp]: "dhas k d \<Longrightarrow> dsetdefault k v d = d"
  by (simp add: dsetdefault_def)

text \<open>
  A normal job is one that normalisation leaves alone.  Normalising twice is
  normalising once: reading a stored job repairs it for good.
\<close>

definition normal_job :: "dict \<Rightarrow> bool" where
  "normal_job j \<longleftrightarrow> hashable (dget_or ''status'' (JStr ''pending'') j) \<and>
     (\<forall>k \<in> set display_fields. dhas k j) \<and>
     normal_timeline (dget ''timeline'' j) = dget ''timeline'' j"

lemma normalise_normal: "normalise_check_job job = Inr j \<Longrightarrow> normal_job j"
proof -
  assume n: "normalise_check_job job = Inr j"
  have "hashable (dget_or ''status'' (JStr ''pending'') j)"
    using n by (auto simp: normalise_check_job_def Let_def split: if_splits)
  with normalise_display_fields [OF n] normalise_timeline [OF n]
  show ?thesis by (simp add: normal_job_def)
qed

lemma normal_job_fixed: "normal_job j \<Longrightarrow> normalise_check_job j = Inr j"
proof -
  assume n: "normal_job j"
  then have "dset ''timeline'' (normal_timeline (dget ''timeline'' j)) j = j"
    by (intro dset_same) (auto simp: normal_job_def display_fields_def)
  with n show ?thesis
    by (simp add: normalise_check_job_def Let_def normal_job_def display_fields_def)
qed

lemma normalise_idem: "normalise_check_job job = Inr j \<Longrightarrow> normalise_check_job j = Inr j"
  by (blast intro: normalise_normal normal_job_fixed)

lemma normal_job_bounded: "normal_job j \<Longrightarrow> timeline_bounded j"
  by (blast intro: normal_job_fixed normalise_timeline_bounded)

lemma normal_job_dset [wf_intros]:
  assumes "normal_job j" and "k \<noteq> ''timeline''" and "hashable v"
  shows "normal_job (dset k v j)"
  using assms by (auto simp: normal_job_def)

lemma normal_job_dpop [wf_intros]:
  assumes "normal_job j" and "k \<notin> set display_fields"
  shows "normal_job (dpop k j)"
  using assms by (auto simp: normal_job_def display_fields_def)

subsection \<open>When a review handoff may be claimed\<close>

definition claimable_states :: "string list" where
  "claimable_states = [''pending'', ''failed'', ''publishing'']"

definition review_handoff_is_claimable :: "dict \<Rightarrow> rat \<Rightarrow> rat \<Rightarrow> bool res" where
  "review_handoff_is_claimable job now lease =
    (let state = dget ''review_queue_state'' job in
     bnd (py_in state claimable_states) (\<lambda>known.
       if \<not> known then Inr False
       else if state = JStr ''failed'' \<and>
               (case num_of (dget ''review_queue_next_attempt_at'' job) of
                  None \<Rightarrow> False | Some next_at \<Rightarrow> f_less (Finite now) next_at)
       then Inr False
       else if state = JStr ''publishing'' \<and>
               (case num_of (dget ''review_queue_claimed_at'' job) of
                  None \<Rightarrow> False | Some claimed_at \<Rightarrow> f_less (f_sub now claimed_at) (Finite lease))
       then Inr False
       else Inr True))"

lemma claimable_state:
  "review_handoff_is_claimable job now lease = Inr True \<Longrightarrow>
    in_strs (dget ''review_queue_state'' job) claimable_states"
  by (auto simp: review_handoff_is_claimable_def Let_def bnd_Inr_iff py_in_def split: if_splits)

lemma claimable_publishing:
  assumes "dget ''review_queue_state'' job = JStr ''publishing''"
    and "dget ''review_queue_claimed_at'' job = JFloat (Finite c)"
  shows "review_handoff_is_claimable job now lease = Inr (\<not> now - c < lease)"
  using assms by (simp add: review_handoff_is_claimable_def claimable_states_def)

lemma claimable_failed:
  assumes "dget ''review_queue_state'' job = JStr ''failed''"
    and "dget ''review_queue_next_attempt_at'' job = JFloat (Finite n)"
  shows "review_handoff_is_claimable job now lease = Inr (\<not> now < n)"
  using assms by (simp add: review_handoff_is_claimable_def claimable_states_def)

lemma claimable_pending:
  assumes "dget ''review_queue_state'' job = JStr ''pending''"
  shows "review_handoff_is_claimable job now lease = Inr True"
  using assms by (simp add: review_handoff_is_claimable_def claimable_states_def)

lemma not_claimable_other:
  assumes "dget ''review_queue_state'' job = JStr s" and "s \<notin> set claimable_states"
  shows "review_handoff_is_claimable job now lease = Inr False"
  using assms by (simp add: review_handoff_is_claimable_def)

subsection \<open>Outcomes\<close>

definition terminal_statuses :: "string list" where
  "terminal_statuses = [''done'', ''error'']"

definition unfinished_statuses :: "string list" where
  "unfinished_statuses = [''pending'', ''running'']"

definition outcomes :: "string list" where
  "outcomes = [''good'', ''fixed'', ''unverifiable'', ''error'']"

text \<open>
  The membership tests are against tuples, so they compare and do not hash.
\<close>

definition page_check_job_outcome :: "dict \<Rightarrow> string option" where
  "page_check_job_outcome job =
    (let status = dget ''status'' job in
     if \<not> in_strs status terminal_statuses then None
     else if status = JStr ''error'' then Some ''error''
     else case dget ''results'' job of
       JList [JDict result] \<Rightarrow>
         (case dget ''status'' result of
            JStr o' \<Rightarrow> if o' \<in> set outcomes then Some o' else Some ''error''
          | _ \<Rightarrow> Some ''error'')
     | _ \<Rightarrow> Some ''error'')"

lemma page_check_job_outcome_range:
  "page_check_job_outcome job = Some v \<Longrightarrow> v \<in> set outcomes"
  by (auto simp: page_check_job_outcome_def Let_def outcomes_def
      split: if_splits json.splits list.splits)

lemma page_check_job_outcome_None:
  "page_check_job_outcome job = None \<longleftrightarrow> \<not> in_strs (dget ''status'' job) terminal_statuses"
  by (auto simp: page_check_job_outcome_def Let_def split: json.splits list.splits)

subsection \<open>The displayed stage\<close>

definition check_progress_state :: "int \<Rightarrow> string \<times> string" where
  "check_progress_state progress =
    (if progress < 15 then (''loading_target'', ''Loading the current Wiktionary page.'')
     else if progress < 30 then (''resolving_source'', ''Resolving the linked source entry.'')
     else if progress < 50
       then (''loading_source'', ''Loading and parsing the source Wiktionary page.'')
     else if progress < 55
       then (''loading_reference'', ''Loading the tenymalagasy.org reference.'')
     else if progress < 75
       then (''verifying'', ''Comparing the current definitions with their sources.'')
     else if progress < 95
       then (''generating_fix'', ''Generating and validating a proposed correction.'')
     else if progress < 100
       then (''queueing_publication'',
             ''Revalidating the pages and queueing the correction.'')
     else (''finalising'', ''Finalising the page-check result.''))"

definition timeline_event :: "json \<Rightarrow> string \<Rightarrow> string \<Rightarrow> json" where
  "timeline_event ts stage message =
    JDict [(''timestamp'', ts), (''stage'', JStr stage), (''message'', JStr message)]"

fun timeline_list :: "json \<Rightarrow> json list" where
  "timeline_list (JList es) = es"
| "timeline_list v = []"

definition push_event :: "json \<Rightarrow> string \<Rightarrow> string \<Rightarrow> json list \<Rightarrow> json list" where
  "push_event ts stage message timeline =
    (case rev timeline of
       JDict ev # older \<Rightarrow>
         if dget ''stage'' ev = JStr stage
         then rev older @ [JDict (dset ''timestamp'' ts (dset ''message'' (JStr message) ev))]
         else last_n check_job_timeline_limit (timeline @ [timeline_event ts stage message])
     | _ \<Rightarrow> last_n check_job_timeline_limit (timeline @ [timeline_event ts stage message]))"

text \<open>
  \<open>job["last_updated_at"]\<close> raises \<open>KeyError\<close> when the field is missing; every
  caller has just written it.
\<close>

definition set_check_job_state :: "dict \<Rightarrow> string \<Rightarrow> string \<Rightarrow> dict res" where
  "set_check_job_state job stage message =
    (let j1 = dset ''message'' (JStr message) (dset ''stage'' (JStr stage) job);
         timeline = timeline_list (dget ''timeline'' j1)
     in bnd (dindex ''last_updated_at'' j1) (\<lambda>ts.
       Inr (dset ''timeline'' (JList (push_event ts stage message timeline)) j1)))"

lemma push_event_last:
  obtains es ev where "push_event ts stage message timeline = es @ [JDict ev]"
    and "dget ''stage'' ev = JStr stage" and "dget ''message'' ev = JStr message"
    and "dget ''timestamp'' ev = ts"
proof -
  let ?new = "timeline_event ts stage message"
  have ev: "\<exists>d. ?new = JDict d \<and> dget ''stage'' d = JStr stage \<and>
      dget ''message'' d = JStr message \<and> dget ''timestamp'' d = ts"
    by (simp add: timeline_event_def dget_def)
  have app: "\<exists>es. last_n check_job_timeline_limit (timeline @ [?new]) = es @ [?new]"
    by (simp add: last_n_def check_job_timeline_limit_def)
  have "\<exists>es e. push_event ts stage message timeline = es @ [JDict e] \<and>
      dget ''stage'' e = JStr stage \<and> dget ''message'' e = JStr message \<and>
      dget ''timestamp'' e = ts"
  proof (cases "\<exists>e older. rev timeline = JDict e # older \<and> dget ''stage'' e = JStr stage")
    case True
    then show ?thesis by (auto simp: push_event_def)
  next
    case False
    then have "push_event ts stage message timeline =
        last_n check_job_timeline_limit (timeline @ [?new])"
      by (auto simp: push_event_def split: list.splits json.splits)
    with ev app show ?thesis by metis
  qed
  then show ?thesis using that by blast
qed

lemma push_event_length:
  assumes "length timeline \<le> check_job_timeline_limit"
  shows "length (push_event ts stage message timeline) \<le> check_job_timeline_limit"
proof (cases "\<exists>e older. rev timeline = JDict e # older \<and> dget ''stage'' e = JStr stage")
  case True
  then obtain e older where r: "rev timeline = JDict e # older" "dget ''stage'' e = JStr stage"
    by blast
  then have "length timeline = Suc (length older)" by (metis length_Cons length_rev)
  with r assms show ?thesis by (simp add: push_event_def)
next
  case False
  then have "push_event ts stage message timeline =
      last_n check_job_timeline_limit (timeline @ [timeline_event ts stage message])"
    by (auto simp: push_event_def split: list.splits json.splits)
  then show ?thesis by simp
qed

lemma set_state_ok:
  "dhas ''last_updated_at'' job \<Longrightarrow> \<exists>j. set_check_job_state job stage message = Inr j"
  by (simp add: set_check_job_state_def Let_def dindex_ok)

lemma set_state_Inr:
  assumes "set_check_job_state job stage message = Inr j"
  shows "dget ''stage'' j = JStr stage" and "dget ''message'' j = JStr message"
    and "dget ''timeline'' j = JList (push_event (dget ''last_updated_at'' job) stage message
           (timeline_list (dget ''timeline'' job)))"
    and "k \<notin> {''stage'', ''message'', ''timeline''} \<Longrightarrow> dget k j = dget k job"
    and "k \<notin> {''stage'', ''message'', ''timeline''} \<Longrightarrow> dhas k j = dhas k job"
  using assms
  by (auto simp: set_check_job_state_def Let_def bnd_Inr_iff dindex_Inr_iff)

lemma set_state_timeline:
  assumes "set_check_job_state job stage message = Inr j"
  obtains es ev where "dget ''timeline'' j = JList (es @ [JDict ev])"
    and "dget ''stage'' ev = JStr stage"
    and "dget ''message'' ev = JStr message"
    and "dget ''timestamp'' ev = dget ''last_updated_at'' job"
  using set_state_Inr(3) [OF assms] push_event_last that by metis

lemma set_state_bounded:
  assumes "set_check_job_state job stage message = Inr j" and "timeline_bounded job"
  shows "timeline_bounded j"
proof -
  obtain es where "dget ''timeline'' job = JList es" "length es \<le> check_job_timeline_limit"
    using assms(2) by (auto simp: timeline_bounded_def split: json.splits)
  then show ?thesis
    using push_event_length set_state_Inr(3) [OF assms(1)] by (simp add: timeline_bounded_def)
qed

end
