(* ===== verification/RedisIO.thy ===== *)
theory RedisIO
  imports PyValues
begin

text \<open>
  What the stores see of Redis: hashes of raw texts, calls that may fail before or
  after they run, and the reading of a decoded record by a Lua script.
\<close>

type_synonym rhash = "(string \<times> raw) list"

text \<open>
  A Redis write either is acknowledged, fails before it runs, or runs and then
  fails to answer (a timeout): in both failing cases the client sees a
  \<open>RedisError\<close>.
\<close>

datatype io = Acked | Refused | Unacked

definition redis_call :: "io \<Rightarrow> ('s \<Rightarrow> 's \<times> 'a res) \<Rightarrow> 's \<Rightarrow> 's \<times> 'a res" where
  "redis_call i f s =
    (case i of
       Acked \<Rightarrow> f s
     | Refused \<Rightarrow> (s, Inl RedisError)
     | Unacked \<Rightarrow> (fst (f s), Inl RedisError))"

lemma redis_call_Inr: "redis_call i f s = (s', Inr a) \<Longrightarrow> i = Acked \<and> f s = (s', Inr a)"
  by (auto simp: redis_call_def split: io.splits)

lemma redis_call_state: "redis_call i f s = (s', r) \<Longrightarrow> s' = s \<or> s' = fst (f s)"
  by (auto simp: redis_call_def split: io.splits)

lemma redis_call_Inl:
  "redis_call i f s = (s', Inl e) \<Longrightarrow> e = RedisError \<or> f s = (s', Inl e)"
  by (auto simp: redis_call_def split: io.splits)

subsection \<open>Fields of a decoded record in Lua\<close>

text \<open>
  Indexing a Lua table with an absent key gives nil, and so does indexing a string
  with a name that is no string function (the scripts only use names with an
  underscore on untested values); indexing a number, a boolean or the null value of
  \<open>cjson\<close> aborts the script.  A text that is not JSON makes \<open>cjson.decode\<close> abort it.
\<close>

fun lua_index :: "string \<Rightarrow> json \<Rightarrow> json option res" where
  "lua_index k (JDict d) = Inr (map_of d k)"
| "lua_index k (JList xs) = Inr None"
| "lua_index k (JStr s) = Inr None"
| "lua_index k v = Inl RedisError"

fun lua_decode :: "raw \<Rightarrow> json res" where
  "lua_decode (Text v) = Inr v"
| "lua_decode (Garbage s) = Inl RedisError"

fun lua_is_table :: "json \<Rightarrow> bool" where
  "lua_is_table (JDict d) = True"
| "lua_is_table (JList xs) = True"
| "lua_is_table v = False"

text \<open>
  A number stored as text: the text \<open>str\<close> writes for a float is represented by the
  float (texts are equal iff the floats are the same value), any other text by itself.
\<close>

datatype num_text = NumText pyfloat | OtherText string

fun float_of_text :: "num_text \<Rightarrow> pyfloat res" where
  "float_of_text (NumText f) = Inr f"
| "float_of_text (OtherText s) = Inl ValueError"

text \<open>\<open>float(v)\<close>: a string is read in decimal notation, without exponents.\<close>

definition is_digit :: "char \<Rightarrow> bool" where
  "is_digit c \<longleftrightarrow> 48 \<le> code c \<and> code c \<le> 57"

definition digits_nat :: "string \<Rightarrow> nat" where
  "digits_nat s = foldl (\<lambda>n c. 10 * n + (code c - 48)) 0 s"

text \<open>\<open>int(text)\<close>: decimal notation without underscores.\<close>

definition parse_int :: "string \<Rightarrow> int res" where
  "parse_int text =
    (let s = strip text; signed = startswith s ''-'' \<or> startswith s ''+'';
         body = (if signed then tl s else s)
     in if body \<noteq> [] \<and> list_all is_digit body
        then Inr (if startswith s ''-'' then - int (digits_nat body) else int (digits_nat body))
        else Inl ValueError)"

definition unsigned_decimal :: "string \<Rightarrow> rat option" where
  "unsigned_decimal s =
    (let whole = takeWhile is_digit s; rest = dropWhile is_digit s in
     if rest = [] then (if whole = [] then None else Some (of_nat (digits_nat whole)))
     else if hd rest = CHR ''.'' \<and> list_all is_digit (tl rest) \<and> (whole \<noteq> [] \<or> tl rest \<noteq> [])
       then Some (of_nat (digits_nat whole) + of_nat (digits_nat (tl rest)) / 10 ^ length (tl rest))
     else None)"

definition parse_float :: "string \<Rightarrow> pyfloat res" where
  "parse_float text =
    (let s = strip text;
         neg = startswith s ''-'';
         body = (if startswith s ''-'' \<or> startswith s ''+'' then tl s else s)
     in if body = ''nan'' then Inr NaN
        else if body = ''inf'' \<or> body = ''infinity'' then Inr (if neg then NegInf else PosInf)
        else (case unsigned_decimal body of
                None \<Rightarrow> Inl ValueError
              | Some r \<Rightarrow> Inr (Finite (if neg then - r else r))))"

fun py_float :: "json \<Rightarrow> pyfloat res" where
  "py_float (JStr s) = parse_float s"
| "py_float v = (case val_of v of Some f \<Rightarrow> Inr f | None \<Rightarrow> Inl TypeError)"

end
