(* ===== verification/CheckJobStore.thy ===== *)
theory CheckJobStore
  imports CheckJobs RedisIO "HOL-Library.List_Lexorder" "HOL-Library.Char_ord" "HOL-Library.Product_Lexorder"
begin

text \<open>
  \<open>RedisCheckJobStore\<close> of \<open>api/services/entry_translator_service.py\<close>: page-check jobs
  as JSON values of one Redis hash shared by all translator processes.  The hash
  is an insertion-ordered association list of raw texts.  The Lua scripts run
  atomically inside Redis and are functions of the hash.  The optimistic update
  loop \<open>_update_existing\<close> is modelled attempt by attempt with an explicit
  environment: what the other processes write before the read and between the
  read and the compare-and-set, and whether each Redis call succeeds.
\<close>

subsection \<open>Records as text\<close>

definition serialise_job :: "dict \<Rightarrow> raw res" where
  "serialise_job job =
    (case dget ''job_id'' job of
       JStr s \<Rightarrow>
         if s = [] then Inl (CheckJobStoreError BadRecord)
         else (case dumps (JDict job) of
             Inl e \<Rightarrow> Inl (CheckJobStoreError BadRecord)
           | Inr r \<Rightarrow> Inr r)
     | _ \<Rightarrow> Inl (CheckJobStoreError BadRecord))"

definition deserialise_job :: "string \<Rightarrow> raw \<Rightarrow> dict res" where
  "deserialise_job jid raw =
    (case loads raw of
       Inl e \<Rightarrow> Inl (CheckJobStoreError BadData)
     | Inr (JDict d) \<Rightarrow> normalise_check_job (dset ''job_id'' (JStr jid) d)
     | Inr v \<Rightarrow> Inl (CheckJobStoreError BadData))"

lemma serialise_job_Inr_iff:
  "serialise_job job = Inr raw \<longleftrightarrow>
    (\<exists>s. dget ''job_id'' job = JStr s \<and> s \<noteq> []) \<and> json_finite (JDict job) \<and> raw = Text (JDict job)"
  by (auto simp: serialise_job_def dumps_def split: json.splits if_splits)

lemma serialise_job_error:
  "serialise_job job = Inl e \<Longrightarrow> e = CheckJobStoreError BadRecord"
  by (auto simp: serialise_job_def split: json.splits if_splits sum.splits)

lemma deserialise_job_id:
  "deserialise_job jid raw = Inr job \<Longrightarrow> dget ''job_id'' job = JStr jid"
  by (auto simp: deserialise_job_def display_fields_def normalise_frame(1)
      split: sum.splits json.splits)

lemma deserialise_normal:
  "deserialise_job jid raw = Inr job \<Longrightarrow> normal_job job"
  by (auto simp: deserialise_job_def intro: normalise_normal split: sum.splits json.splits)

text \<open>A record that was read can be written back and read again unchanged.\<close>

lemma deserialise_serialise:
  assumes "serialise_job job = Inr raw" and "normal_job job"
    and "dget ''job_id'' job = JStr jid"
  shows "deserialise_job jid raw = Inr job"
proof -
  have "dhas ''job_id'' job" using assms(3) by (intro dget_dhas) simp
  then have "dset ''job_id'' (JStr jid) job = job" using assms(3) by (rule dset_same)
  with assms(1,2) show ?thesis
    by (auto simp: serialise_job_Inr_iff deserialise_job_def normal_job_fixed)
qed

text \<open>The job a hash holds under an id, when its text is valid.\<close>

definition stored :: "string \<Rightarrow> rhash \<Rightarrow> dict option" where
  "stored jid h =
    (case map_of h jid of
       None \<Rightarrow> None
     | Some raw \<Rightarrow> (case deserialise_job jid raw of Inl e \<Rightarrow> None | Inr job \<Rightarrow> Some job))"

lemma stored_normal: "stored jid h = Some job \<Longrightarrow> normal_job job"
  by (auto simp: stored_def deserialise_normal split: option.splits sum.splits)

lemma stored_id: "stored jid h = Some job \<Longrightarrow> dget ''job_id'' job = JStr jid"
  by (auto simp: stored_def deserialise_job_id split: option.splits sum.splits)

lemma stored_update_other [simp]: "k \<noteq> jid \<Longrightarrow> stored k (AList.update jid raw h) = stored k h"
  by (simp add: stored_def)

lemma stored_update_same:
  assumes "serialise_job rep = Inr raw" and "normal_job rep" and "dget ''job_id'' rep = JStr jid"
  shows "stored jid (AList.update jid raw h) = Some rep"
  using deserialise_serialise [OF assms] by (simp add: stored_def)

lemma stored_Some_iff:
  "stored jid h = Some job \<longleftrightarrow> (\<exists>raw. map_of h jid = Some raw \<and> deserialise_job jid raw = Inr job)"
  by (auto simp: stored_def split: option.splits sum.splits)

subsection \<open>The optimistic update loop\<close>

text \<open>The compare-and-set script: 0 for a missing record, -1 for a changed one.\<close>

definition compare_and_set :: "string \<Rightarrow> raw \<Rightarrow> raw \<Rightarrow> rhash \<Rightarrow> rhash \<times> int" where
  "compare_and_set jid expected payload h =
    (case map_of h jid of
       None \<Rightarrow> (h, 0)
     | Some cur \<Rightarrow> if cur \<noteq> expected then (h, -1) else (AList.update jid payload h, 1))"

record cas_env =
  before_read :: "rhash \<Rightarrow> rhash"
  read_ok :: bool
  before_write :: "rhash \<Rightarrow> rhash"
  write_io :: io

definition quiet :: cas_env where
  "quiet = \<lparr>before_read = id, read_ok = True, before_write = id, write_io = Acked\<rparr>"

lemma quiet_simps [simp]:
  "before_read quiet h = h" "read_ok quiet" "before_write quiet h = h" "write_io quiet = Acked"
  by (simp_all add: quiet_def)

text \<open>
  The result holds the hash, the last record handed to \<open>update\<close> (which \<open>put\<close>
  remembers in its closure) and the returned record.  The list of environments has
  one element per attempt of \<open>range(8)\<close>.
\<close>

fun update_existing ::
  "cas_env list \<Rightarrow> (dict \<Rightarrow> dict option res) \<Rightarrow> string \<Rightarrow> dict \<Rightarrow> rhash
    \<Rightarrow> rhash \<times> dict \<times> dict option res" where
  "update_existing [] upd jid seen h = (h, seen, Inl (CheckJobStoreError Contention))"
| "update_existing (e # es) upd jid seen h =
    (let h1 = before_read e h in
     if \<not> read_ok e then (h1, seen, Inl (CheckJobStoreError CannotRead))
     else case map_of h1 jid of
       None \<Rightarrow> (h1, seen, Inr None)
     | Some raw \<Rightarrow>
       (case deserialise_job jid raw of
          Inl x \<Rightarrow> (h1, seen, Inl x)
        | Inr cur \<Rightarrow>
          (case upd cur of
             Inl x \<Rightarrow> (h1, cur, Inl x)
           | Inr None \<Rightarrow> (h1, cur, Inr None)
           | Inr (Some replacement) \<Rightarrow>
             (case serialise_job replacement of
                Inl x \<Rightarrow> (h1, cur, Inl x)
              | Inr payload \<Rightarrow>
                let h2 = before_write e h1 in
                (case write_io e of
                   Refused \<Rightarrow> (h2, cur, Inl (CheckJobStoreError CannotWrite))
                 | Unacked \<Rightarrow> (fst (compare_and_set jid raw payload h2), cur,
                     Inl (CheckJobStoreError CannotWrite))
                 | Acked \<Rightarrow>
                   (let (h3, result) = compare_and_set jid raw payload h2 in
                    if result = 1 then (h3, cur, map_sum id Some (deserialise_job jid payload))
                    else if result = 0 then (h3, cur, Inr None)
                    else update_existing es upd jid cur h3))))))"

text \<open>The specification: one read-modify-write that nobody interrupts.\<close>

definition atomic_update ::
  "(dict \<Rightarrow> dict option res) \<Rightarrow> string \<Rightarrow> rhash \<Rightarrow> rhash \<times> dict option res" where
  "atomic_update upd jid h =
    (case map_of h jid of
       None \<Rightarrow> (h, Inr None)
     | Some raw \<Rightarrow>
       (case bnd (deserialise_job jid raw) upd of
          Inl x \<Rightarrow> (h, Inl x)
        | Inr None \<Rightarrow> (h, Inr None)
        | Inr (Some replacement) \<Rightarrow>
          (case serialise_job replacement of
             Inl x \<Rightarrow> (h, Inl x)
           | Inr payload \<Rightarrow>
             (AList.update jid payload h, map_sum id Some (deserialise_job jid payload)))))"

text \<open>The states the hash goes through by the writes of the other processes alone.\<close>

fun instants :: "cas_env list \<Rightarrow> rhash \<Rightarrow> rhash list" where
  "instants [] h = [h]"
| "instants (e # es) h =
    (let h1 = before_read e h; h2 = before_write e h1 in h1 # h2 # instants es h2)"

definition store_failure :: "'a res \<Rightarrow> bool" where
  "store_failure r \<longleftrightarrow> (\<exists>f \<in> {CannotRead, CannotWrite, Contention}. r = Inl (CheckJobStoreError f))"

text \<open>
  A call behaves as one atomic update at some instant of the interleaving, or
  reports a storage failure; a failed call wrote nothing of its own, or it wrote
  exactly what the atomic update would have written.
\<close>

definition update_outcome ::
  "(dict \<Rightarrow> dict option res) \<Rightarrow> string \<Rightarrow> rhash \<Rightarrow> rhash \<Rightarrow> dict option res \<Rightarrow> bool" where
  "update_outcome upd jid h1 h' r \<longleftrightarrow>
    (h', r) = atomic_update upd jid h1 \<or>
    store_failure r \<and> (h' = h1 \<or> h' = fst (atomic_update upd jid h1))"

lemma compare_and_set_changed:
  "compare_and_set jid raw payload h = (h', c) \<Longrightarrow> c \<noteq> 1 \<Longrightarrow> h' = h"
  by (auto simp: compare_and_set_def split: option.splits if_splits)

lemma compare_and_set_missing:
  "compare_and_set jid raw payload h = (h', 0) \<Longrightarrow> map_of h jid = None \<and> h' = h"
  by (auto simp: compare_and_set_def split: option.splits if_splits)

lemma compare_and_set_done:
  "compare_and_set jid raw payload h = (h', 1) \<Longrightarrow>
    map_of h jid = Some raw \<and> h' = AList.update jid payload h"
  by (auto simp: compare_and_set_def split: option.splits if_splits)

lemma compare_and_set_range:
  "compare_and_set jid raw payload h = (h', c) \<Longrightarrow> c \<in> {0, 1, -1}"
  by (auto simp: compare_and_set_def split: option.splits if_splits)

text \<open>The last attempt that reached the compare-and-set.\<close>

lemma update_attempt:
  assumes raw: "deserialise_job jid raw = Inr cur" "upd cur = Inr (Some rep)"
    "serialise_job rep = Inr payload"
    and cas: "compare_and_set jid raw payload h2 = (h3, c)"
  shows "c = 1 \<Longrightarrow> atomic_update upd jid h2 = (h3, map_sum id Some (deserialise_job jid payload))"
    and "c = 0 \<Longrightarrow> atomic_update upd jid h2 = (h3, Inr None)"
    and "h3 = h2 \<or> h3 = fst (atomic_update upd jid h2)"
proof -
  show one: "atomic_update upd jid h2 = (h3, map_sum id Some (deserialise_job jid payload))"
    if "c = 1" using cas raw that compare_and_set_done [of jid raw payload h2 h3]
    by (simp add: atomic_update_def)
  show "atomic_update upd jid h2 = (h3, Inr None)"
    if "c = 0" using cas that compare_and_set_missing [of jid raw payload h2 h3]
    by (simp add: atomic_update_def)
  show "h3 = h2 \<or> h3 = fst (atomic_update upd jid h2)"
    using compare_and_set_changed [OF cas] one by (cases "c = 1") auto
qed

lemma update_existing_atomic:
  assumes "update_existing es upd jid seen h = (h', s', r)"
  shows "\<exists>h1 \<in> set (instants es h). update_outcome upd jid h1 h' r"
  using assms
proof (induction es arbitrary: seen h)
  case Nil
  then show ?case by (auto simp: update_outcome_def store_failure_def)
next
  case (Cons e es)
  let ?h1 = "before_read e h"
  let ?h2 = "before_write e ?h1"
  have at1: "(h', r) = atomic_update upd jid ?h1 \<Longrightarrow> ?case"
    by (auto simp: Let_def update_outcome_def)
  have fail1: "store_failure r \<Longrightarrow> h' = ?h1 \<Longrightarrow> ?case"
    by (auto simp: Let_def update_outcome_def)
  have at2: "update_outcome upd jid ?h2 h' r \<Longrightarrow> ?case"
    by (auto simp: Let_def)
  show ?case
  proof (cases "read_ok e")
    case False
    with Cons.prems have "r = Inl (CheckJobStoreError CannotRead)" "h' = ?h1" by auto
    then show ?thesis by (intro fail1) (auto simp: store_failure_def)
  next
    case ok: True
    show ?thesis
    proof (cases "\<exists>raw cur rep payload. map_of ?h1 jid = Some raw \<and>
        deserialise_job jid raw = Inr cur \<and> upd cur = Inr (Some rep) \<and>
        serialise_job rep = Inr payload")
      case False
      with ok Cons.prems show ?thesis
        by (intro at1) (auto simp: Let_def atomic_update_def bnd_def
            split: option.splits sum.splits)
    next
      case True
      then obtain raw cur rep payload where
        m: "map_of ?h1 jid = Some raw" and
        d: "deserialise_job jid raw = Inr cur" "upd cur = Inr (Some rep)"
          "serialise_job rep = Inr payload" by blast
      obtain h3 c where cas: "compare_and_set jid raw payload ?h2 = (h3, c)"
        by (cases "compare_and_set jid raw payload ?h2")
      note step = update_attempt [of jid raw cur upd, OF d cas]
      show ?thesis
      proof (cases "write_io e")
        case Refused
        with ok m d Cons.prems show ?thesis
          by (intro at2) (auto simp: update_outcome_def store_failure_def)
      next
        case Unacked
        with ok m d cas Cons.prems have "h' = h3" "r = Inl (CheckJobStoreError CannotWrite)"
          by auto
        with step(3) show ?thesis
          by (intro at2) (auto simp: update_outcome_def store_failure_def)
      next
        case Acked
        consider "c = 1" | "c = 0" | "c \<noteq> 1" "c \<noteq> 0" by blast
        then show ?thesis
        proof cases
          case 1
          with Acked ok m d cas Cons.prems step(1) show ?thesis
            by (intro at2) (auto simp: update_outcome_def)
        next
          case 2
          with Acked ok m d cas Cons.prems step(2) show ?thesis
            by (intro at2) (auto simp: update_outcome_def)
        next
          case 3
          with Acked ok m d cas Cons.prems
          have "update_existing es upd jid cur h3 = (h', s', r)" by auto
          moreover have "h3 = ?h2" using compare_and_set_changed [OF cas] 3 by simp
          ultimately have "\<exists>h1 \<in> set (instants es ?h2). update_outcome upd jid h1 h' r"
            using Cons.IH by blast
          then show ?thesis by (auto simp: Let_def)
        qed
      qed
    qed
  qed
qed

text \<open>What a call may have written, whatever it answered.\<close>

definition wrote :: "(dict \<Rightarrow> dict option res) \<Rightarrow> string \<Rightarrow> rhash \<Rightarrow> rhash \<Rightarrow> bool" where
  "wrote upd jid h1 h' \<longleftrightarrow>
    (\<exists>cur rep raw. stored jid h1 = Some cur \<and> upd cur = Inr (Some rep) \<and>
       serialise_job rep = Inr raw \<and> h' = AList.update jid raw h1)"

lemma atomic_update_effect:
  "fst (atomic_update upd jid h1) = h1 \<or> wrote upd jid h1 (fst (atomic_update upd jid h1))"
  by (auto simp: atomic_update_def wrote_def stored_Some_iff bnd_def
      split: option.splits sum.splits)

lemma update_existing_effect:
  assumes "update_existing es upd jid seen h = (h', s', r)"
  shows "\<exists>h1 \<in> set (instants es h). h' = h1 \<or> wrote upd jid h1 h'"
  using update_existing_atomic [OF assms] atomic_update_effect
  unfolding update_outcome_def by (metis fst_conv)

text \<open>A call that returns a record has written it at one instant.\<close>

lemma atomic_update_Some:
  assumes "atomic_update upd jid h1 = (h', Inr (Some job))"
  obtains cur rep raw where "stored jid h1 = Some cur" and "upd cur = Inr (Some rep)"
    and "serialise_job rep = Inr raw" and "h' = AList.update jid raw h1"
    and "deserialise_job jid raw = Inr job"
  using assms
  by (auto simp: atomic_update_def stored_Some_iff bnd_def split: option.splits sum.splits)

lemma atomic_update_None:
  assumes "atomic_update upd jid h1 = (h', Inr None)"
  shows "h' = h1" and "stored jid h1 = Some cur \<Longrightarrow> upd cur = Inr None"
  using assms
  by (auto simp: atomic_update_def stored_Some_iff bnd_def split: option.splits sum.splits)

lemma update_existing_Some:
  assumes "update_existing es upd jid seen h = (h', s', Inr (Some job))"
  obtains h1 cur rep raw where "h1 \<in> set (instants es h)" and "stored jid h1 = Some cur"
    and "upd cur = Inr (Some rep)" and "serialise_job rep = Inr raw"
    and "h' = AList.update jid raw h1" and "deserialise_job jid raw = Inr job"
proof -
  obtain h1 where h1: "h1 \<in> set (instants es h)"
    and o: "update_outcome upd jid h1 h' (Inr (Some job))"
    using update_existing_atomic [OF assms] by blast
  from o have "atomic_update upd jid h1 = (h', Inr (Some job))"
    by (auto simp: update_outcome_def store_failure_def)
  then show ?thesis by (rule atomic_update_Some) (use that h1 in blast)
qed

lemma update_existing_None:
  assumes "update_existing es upd jid seen h = (h', s', Inr None)"
  shows "h' \<in> set (instants es h)" and "stored jid h' = Some cur \<Longrightarrow> upd cur = Inr None"
proof -
  obtain h1 where h1: "h1 \<in> set (instants es h)"
    and o: "update_outcome upd jid h1 h' (Inr None)"
    using update_existing_atomic [OF assms] by blast
  from o have a: "atomic_update upd jid h1 = (h', Inr None)"
    by (auto simp: update_outcome_def store_failure_def)
  show "h' \<in> set (instants es h)" using atomic_update_None(1) [OF a] h1 by simp
  show "upd cur = Inr None" if "stored jid h' = Some cur"
    using atomic_update_None [OF a] that by simp
qed

text \<open>Without interference the first attempt decides.\<close>

lemma update_existing_quiet:
  "update_existing (quiet # es) upd jid seen h = (h', s', r) \<Longrightarrow>
    atomic_update upd jid h = (h', r)"
  by (auto simp: quiet_def atomic_update_def Let_def bnd_def compare_and_set_def
      split: option.splits sum.splits)

end
