(* ===== verification/CheckJobOps.thy ===== *)
theory CheckJobOps
  imports CheckJobStore
begin

text \<open>
  The operations of \<open>RedisCheckJobStore\<close> that read, replace or remove one record.
  Each \<open>_update\<close> definition is the closure the method hands to
  \<open>_update_existing\<close>; the methods themselves take the environments of the eight
  attempts.
\<close>

definition attempts_limit :: nat where
  "attempts_limit = 8"

subsection \<open>put\<close>

definition review_fields :: "string list" where
  "review_fields = [''review_queue_state'', ''review_event_id'', ''review_queue_error'',
     ''review_message'', ''review_queue_claim'', ''review_queue_claimed_at'',
     ''review_queue_attempts'', ''review_queue_next_attempt_at'']"

fun copy_fields :: "string list \<Rightarrow> dict \<Rightarrow> dict \<Rightarrow> dict" where
  "copy_fields [] source target = target"
| "copy_fields (k # ks) source target =
    copy_fields ks source
      (case map_of source k of Some v \<Rightarrow> dset k v target | None \<Rightarrow> dpop k target)"

definition copy_review_fields :: "dict \<Rightarrow> dict \<Rightarrow> dict" where
  "copy_review_fields source target = copy_fields review_fields source target"

definition put_update :: "dict \<Rightarrow> dict \<Rightarrow> dict option res" where
  "put_update incoming current =
    (let token = dget ''execution_token'' current in
     if is_str token \<and> token \<noteq> dget ''execution_token'' incoming then Inr None
     else if is_dict (dget ''review_message'' current)
             \<or> dget ''review_queue_state'' current = JStr ''invalid''
       then Inr (Some (copy_review_fields current incoming))
     else Inr (Some incoming))"

text \<open>
  \<open>put\<close> also copies the stored review fields into the caller's job, which is the
  last component of the result.  When the record is missing \<open>stored\<close> is the empty
  dict, so the caller's review fields are removed.
\<close>

definition put ::
  "cas_env list \<Rightarrow> dict \<Rightarrow> rhash \<Rightarrow> rhash \<times> bool res \<times> dict" where
  "put es job h =
    (let jid = py_str (dget ''job_id'' job) in
     case bnd (serialise_job job) (deserialise_job jid) of
       Inl x \<Rightarrow> (h, Inl x, job)
     | Inr incoming \<Rightarrow>
       (case update_existing es (put_update incoming) jid [] h of
          (h', seen, Inl x) \<Rightarrow> (h', Inl x, job)
        | (h', seen, Inr result) \<Rightarrow>
          let stored = (case result of None \<Rightarrow> seen | Some s \<Rightarrow> s) in
          (h', Inr (stored \<noteq> [] \<and>
                 py_eq (dget ''execution_token'' stored) (dget ''execution_token'' job)),
           copy_review_fields stored job)))"

subsection \<open>Reading and removing\<close>

definition get_job :: "bool \<Rightarrow> string \<Rightarrow> rhash \<Rightarrow> dict option res" where
  "get_job ok jid h =
    (if \<not> ok then Inl (CheckJobStoreError CannotRead)
     else case map_of h jid of
       None \<Rightarrow> Inr None
     | Some raw \<Rightarrow> map_sum id Some (deserialise_job jid raw))"

fun deserialise_all :: "rhash \<Rightarrow> dict list res" where
  "deserialise_all [] = Inr []"
| "deserialise_all (p # h) =
    bnd (deserialise_job (fst p) (snd p)) (\<lambda>job. bnd (deserialise_all h) (\<lambda>jobs. Inr (job # jobs)))"

definition all_jobs :: "bool \<Rightarrow> rhash \<Rightarrow> dict list res" where
  "all_jobs ok h = (if \<not> ok then Inl (CheckJobStoreError CannotRead) else deserialise_all h)"

definition remove_job :: "io \<Rightarrow> string \<Rightarrow> rhash \<Rightarrow> rhash \<times> unit res" where
  "remove_job wio jid h =
    (case wio of
       Acked \<Rightarrow> (AList.delete jid h, Inr ())
     | Refused \<Rightarrow> (h, Inl (CheckJobStoreError CannotUpdate))
     | Unacked \<Rightarrow> (AList.delete jid h, Inl (CheckJobStoreError CannotUpdate)))"

subsection \<open>Claims and leases\<close>

definition claim_stale_update ::
  "pyfloat \<Rightarrow> rat \<Rightarrow> rat \<Rightarrow> string \<Rightarrow> dict \<Rightarrow> dict option res" where
  "claim_stale_update observed now timeout token job =
    bnd (py_in (dget ''status'' job) unfinished_statuses) (\<lambda>unfinished.
      if \<not> unfinished then Inr None
      else case num_of (dget ''last_updated_at'' job) of
        None \<Rightarrow> Inr None
      | Some updated \<Rightarrow>
        if \<not> f_eq updated observed \<or> f_le (f_sub now updated) (Finite timeout) then Inr None
        else case num_of (dget_or ''attempts'' (JInt 0) job) of
          None \<Rightarrow> Inl (CheckJobStoreError BadData)
        | Some attempts \<Rightarrow> bnd (py_int attempts) (\<lambda>n.
            Inr (Some (dset ''execution_token'' (JStr token)
              (dset ''last_updated_at'' (JFloat (Finite now))
              (dset ''error'' JNull
              (dset ''progress'' (JInt 0)
              (dset ''status'' (JStr ''pending'')
              (dset ''attempts'' (JInt (n + 1)) job)))))))))"

definition claim_stale_job ::
  "cas_env list \<Rightarrow> string \<Rightarrow> pyfloat \<Rightarrow> rat \<Rightarrow> rat \<Rightarrow> string \<Rightarrow> rhash \<Rightarrow> rhash \<times> dict option res" where
  "claim_stale_job es jid observed now timeout token h =
    (case update_existing es (claim_stale_update observed now timeout token) jid [] h of
       (h', seen, r) \<Rightarrow> (h', r))"

definition claim_handoff_update ::
  "string \<Rightarrow> rat \<Rightarrow> rat \<Rightarrow> dict \<Rightarrow> dict option res" where
  "claim_handoff_update claim now lease job =
    bnd (review_handoff_is_claimable job now lease) (\<lambda>claimable.
      if \<not> claimable then Inr None
      else case num_of (dget_or ''review_queue_attempts'' (JInt 0) job) of
        None \<Rightarrow> Inl (CheckJobStoreError BadData)
      | Some attempts \<Rightarrow> bnd (py_int attempts) (\<lambda>n.
          Inr (Some (dset ''review_queue_attempts'' (JInt (n + 1))
            (dset ''review_queue_claimed_at'' (JFloat (Finite now))
            (dset ''review_queue_claim'' (JStr claim)
            (dset ''review_queue_state'' (JStr ''publishing'') job)))))))"

definition claim_review_handoff ::
  "cas_env list \<Rightarrow> string \<Rightarrow> string \<Rightarrow> rat \<Rightarrow> rat \<Rightarrow> rhash \<Rightarrow> rhash \<times> dict option res" where
  "claim_review_handoff es jid claim now lease h =
    (case update_existing es (claim_handoff_update claim now lease) jid [] h of
       (h', seen, r) \<Rightarrow> (h', r))"

definition handoff_exponent :: "int \<Rightarrow> nat" where
  "handoff_exponent attempts = nat (min (max (attempts - 1) 0) 6)"

definition retry_delay :: "int \<Rightarrow> rat" where
  "retry_delay attempts = 5 * 2 ^ handoff_exponent attempts"

definition opt_str :: "string option \<Rightarrow> json" where
  "opt_str v = (case v of None \<Rightarrow> JNull | Some s \<Rightarrow> JStr s)"

definition finish_handoff_update ::
  "string \<Rightarrow> string \<Rightarrow> string \<Rightarrow> string option \<Rightarrow> rat \<Rightarrow> dict \<Rightarrow> dict option res" where
  "finish_handoff_update claim state event_id err now job =
    (if dget ''review_queue_state'' job \<noteq> JStr ''publishing''
        \<or> dget ''review_queue_claim'' job \<noteq> JStr claim then Inr None
     else
       let j = dpop ''review_queue_claimed_at'' (dpop ''review_queue_claim''
                 (dset ''review_queue_error'' (opt_str err)
                 (dset ''review_event_id'' (JStr event_id)
                 (dset ''review_queue_state'' (JStr state) job))))
       in if state = ''failed'' then
            (case num_of (dget_or ''review_queue_attempts'' (JInt 1) j) of
               None \<Rightarrow> Inl (CheckJobStoreError BadData)
             | Some attempts \<Rightarrow> bnd (py_int attempts) (\<lambda>n.
                 Inr (Some (dset ''review_queue_next_attempt_at''
                   (JFloat (Finite (now + retry_delay n))) j))))
          else Inr (Some (dpop ''review_queue_next_attempt_at'' j)))"

definition finish_review_handoff ::
  "cas_env list \<Rightarrow> string \<Rightarrow> string \<Rightarrow> string \<Rightarrow> string \<Rightarrow> string option \<Rightarrow> rat \<Rightarrow> rhash
    \<Rightarrow> rhash \<times> bool res" where
  "finish_review_handoff es jid claim state event_id err now h =
    (if state \<notin> {''queued'', ''failed'', ''invalid''} then (h, Inl ValueError)
     else case update_existing es (finish_handoff_update claim state event_id err now) jid [] h of
       (h', seen, r) \<Rightarrow> (h', map_sum id (\<lambda>stored. stored \<noteq> None) r))"

definition touch_update :: "string \<Rightarrow> rat \<Rightarrow> dict \<Rightarrow> dict option res" where
  "touch_update token touched_at job =
    bnd (py_in (dget ''status'' job) unfinished_statuses) (\<lambda>unfinished.
      if \<not> unfinished \<or> dget ''execution_token'' job \<noteq> JStr token then Inr None
      else Inr (Some (dset ''last_updated_at'' (JFloat (Finite touched_at)) job)))"

definition touch_execution ::
  "cas_env list \<Rightarrow> string \<Rightarrow> string \<Rightarrow> rat \<Rightarrow> rhash \<Rightarrow> rhash \<times> bool res" where
  "touch_execution es jid token touched_at h =
    (case update_existing es (touch_update token touched_at) jid [] h of
       (h', seen, r) \<Rightarrow> (h', map_sum id (\<lambda>stored. stored \<noteq> None) r))"

subsection \<open>What the updates may change\<close>

lemma copy_fields_frame [simp]: "k \<notin> set ks \<Longrightarrow> dget k (copy_fields ks source target) = dget k target"
  by (induction ks arbitrary: target) (auto split: option.splits)

lemma dhas_copy_fields [simp]:
  "dhas k (copy_fields ks source target) \<longleftrightarrow> (if k \<in> set ks then dhas k source else dhas k target)"
  by (induction ks arbitrary: target) (auto simp: dhas_def [of _ source] split: option.splits)

lemma dget_copy_fields: "k \<in> set ks \<Longrightarrow> dget k (copy_fields ks source target) = dget k source"
proof (induction ks arbitrary: target)
  case Nil
  then show ?case by simp
next
  case (Cons a ks)
  show ?case
  proof (cases "k \<in> set ks")
    case True
    then show ?thesis using Cons.IH by simp
  next
    case False
    with Cons.prems have ka: "k = a" by simp
    have "dget k source = (case map_of source a of None \<Rightarrow> JNull | Some v \<Rightarrow> v)"
      unfolding ka by (rule dget_def)
    then show ?thesis using False ka by (cases "map_of source a") simp_all
  qed
qed

lemma dget_or_copy_fields_frame:
  "k \<notin> set ks \<Longrightarrow> dget_or k w (copy_fields ks source target) = dget_or k w target"
  by (induction ks arbitrary: target) (auto split: option.splits)

lemma copy_review_fields_review [simp]:
  "k \<in> set review_fields \<Longrightarrow> dget k (copy_review_fields source target) = dget k source"
  by (simp add: copy_review_fields_def dget_copy_fields)

lemma copy_review_fields_frame [simp]:
  "k \<notin> set review_fields \<Longrightarrow> dget k (copy_review_fields source target) = dget k target"
  by (simp add: copy_review_fields_def)

lemma dhas_copy_review_fields [simp]:
  "dhas k (copy_review_fields source target) \<longleftrightarrow>
    (if k \<in> set review_fields then dhas k source else dhas k target)"
  by (simp add: copy_review_fields_def)

lemma dget_or_copy_review_fields [simp]:
  "k \<notin> set review_fields \<Longrightarrow>
    dget_or k w (copy_review_fields source target) = dget_or k w target"
  by (simp add: copy_review_fields_def dget_or_copy_fields_frame)

lemma normal_copy_review_fields:
  assumes "normal_job source" and "normal_job target"
  shows "normal_job (copy_review_fields source target)"
proof -
  have "dget ''timeline'' (copy_review_fields source target) = dget ''timeline'' target"
    by (simp add: review_fields_def)
  moreover have "dget_or ''status'' v (copy_review_fields source target) = dget_or ''status'' v target" for v
    by (simp add: review_fields_def)
  ultimately show ?thesis
    using assms by (auto simp: normal_job_def display_fields_def review_fields_def)
qed

text \<open>
  The owner test of \<open>put\<close>: a record whose execution token is a string only yields to
  a job with the same token.
\<close>

definition may_write :: "dict \<Rightarrow> dict \<Rightarrow> bool" where
  "may_write current job \<longleftrightarrow> (is_str (dget ''execution_token'' current) \<longrightarrow>
     dget ''execution_token'' current = dget ''execution_token'' job)"

definition fenced :: "string \<Rightarrow> json \<Rightarrow> rhash \<Rightarrow> bool" where
  "fenced jid token h =
    (case stored jid h of
       None \<Rightarrow> False
     | Some cur \<Rightarrow> is_str (dget ''execution_token'' cur) \<and> dget ''execution_token'' cur \<noteq> token)"

lemma put_update_None:
  "put_update incoming current = Inr None \<longleftrightarrow> \<not> may_write current incoming"
  by (auto simp: put_update_def may_write_def Let_def)

lemma put_update_Some:
  assumes "put_update incoming current = Inr (Some rep)"
  shows "may_write current incoming"
    and "is_dict (dget ''review_message'' current) \<Longrightarrow> rep = copy_review_fields current incoming"
    and "rep = incoming \<or> rep = copy_review_fields current incoming"
  using assms by (auto simp: put_update_def may_write_def Let_def split: if_splits)

lemma put_incoming:
  assumes "serialise_job job = Inr raw" and "deserialise_job jid raw = Inr incoming"
    and "jid = py_str (dget ''job_id'' job)"
  shows "dget ''execution_token'' incoming = dget ''execution_token'' job"
    and "dget ''job_id'' incoming = JStr jid" and "normal_job incoming"
proof -
  from assms(1) have raw: "raw = Text (JDict job)" by (simp add: serialise_job_Inr_iff)
  with assms(2) have n: "normalise_check_job (dset ''job_id'' (JStr jid) job) = Inr incoming"
    by (simp add: deserialise_job_def)
  have "dget ''execution_token'' incoming = dget ''execution_token'' (dset ''job_id'' (JStr jid) job)"
    using n by (rule normalise_frame(1)) (simp add: display_fields_def)
  then show "dget ''execution_token'' incoming = dget ''execution_token'' job" by simp
  show "dget ''job_id'' incoming = JStr jid" using assms(2) by (rule deserialise_job_id)
  show "normal_job incoming" using assms(2) by (rule deserialise_normal)
qed

text \<open>
  \<open>put\<close> changes at most the record of its job, at one instant, and only when the
  record there may be written by this execution.
\<close>

definition put_wrote :: "string \<Rightarrow> dict \<Rightarrow> rhash \<Rightarrow> rhash \<Rightarrow> bool" where
  "put_wrote jid job h1 h' \<longleftrightarrow>
    (\<exists>cur new raw. stored jid h1 = Some cur \<and> may_write cur job \<and>
       h' = AList.update jid raw h1 \<and> stored jid h' = Some new \<and>
       dget ''execution_token'' new = dget ''execution_token'' job \<and>
       (is_dict (dget ''review_message'' cur) \<longrightarrow>
          (\<forall>k \<in> set review_fields. dget k new = dget k cur)))"

lemma put_effect:
  assumes "put es job h = (h', r, job')"
  shows "\<exists>h1 \<in> set (h # instants es h).
    h' = h1 \<or> put_wrote (py_str (dget ''job_id'' job)) job h1 h'"
proof -
  let ?jid = "py_str (dget ''job_id'' job)"
  show ?thesis
  proof (cases "bnd (serialise_job job) (deserialise_job ?jid)")
    case (Inl e)
    with assms show ?thesis by (simp add: put_def Let_def)
  next
    case (Inr incoming)
    then obtain raw where raw: "serialise_job job = Inr raw" "deserialise_job ?jid raw = Inr incoming"
      by (auto simp: bnd_Inr_iff)
    note inc = put_incoming [OF raw refl]
    obtain s' res where u: "update_existing es (put_update incoming) ?jid [] h = (h', s', res)"
      using assms Inr by (auto simp: put_def Let_def split: sum.splits prod.splits)
    obtain h1 where h1: "h1 \<in> set (instants es h)" "h' = h1 \<or> wrote (put_update incoming) ?jid h1 h'"
      using update_existing_effect [OF u] by blast
    show ?thesis
    proof (cases "h' = h1")
      case True
      with h1 show ?thesis by auto
    next
      case False
      then obtain cur rep raw' where w: "stored ?jid h1 = Some cur"
        "put_update incoming cur = Inr (Some rep)" "serialise_job rep = Inr raw'"
        "h' = AList.update ?jid raw' h1"
        using h1(2) by (auto simp: wrote_def)
      note up = put_update_Some [OF w(2)]
      have rep: "normal_job rep" "dget ''job_id'' rep = JStr ?jid"
        "dget ''execution_token'' rep = dget ''execution_token'' job"
        using up(3) inc stored_normal [OF w(1)] normal_copy_review_fields
        by (auto simp: review_fields_def)
      have "stored ?jid h' = Some rep"
        using stored_update_same [OF w(3) rep(1,2)] w(4) by simp
      moreover have "may_write cur job" using up(1) inc(1) by (simp add: may_write_def)
      moreover have "is_dict (dget ''review_message'' cur) \<longrightarrow>
          (\<forall>k \<in> set review_fields. dget k rep = dget k cur)" using up(2) by simp
      ultimately have "put_wrote ?jid job h1 h'"
        unfolding put_wrote_def using w(1,4) rep(3) by blast
      then show ?thesis using h1(1) by auto
    qed
  qed
qed

text \<open>A fenced execution is never told that its job was stored.\<close>

lemma py_eq_JStr: "py_eq (JStr s) w \<longleftrightarrow> w = JStr s"
  by simp

lemma put_fenced_refused:
  assumes "put es job h = (h', r, job')"
    and "\<forall>h1 \<in> set (instants es h).
      fenced (py_str (dget ''job_id'' job)) (dget ''execution_token'' job) h1"
  shows "h' \<in> set (h # instants es h)" and "r \<noteq> Inr True"
proof -
  let ?jid = "py_str (dget ''job_id'' job)"
  have fence: "\<exists>cur s. stored ?jid h1 = Some cur \<and> dget ''execution_token'' cur = JStr s \<and>
      dget ''execution_token'' job \<noteq> JStr s" if "h1 \<in> set (instants es h)" for h1
  proof -
    have "fenced ?jid (dget ''execution_token'' job) h1" using assms(2) that by blast
    then obtain cur where "stored ?jid h1 = Some cur" "is_str (dget ''execution_token'' cur)"
      "dget ''execution_token'' cur \<noteq> dget ''execution_token'' job"
      by (auto simp: fenced_def split: option.splits)
    then show ?thesis unfolding is_str_iff by metis
  qed
  show "r \<noteq> Inr True" and "h' \<in> set (h # instants es h)"
  proof -
    consider e where "bnd (serialise_job job) (deserialise_job ?jid) = Inl e"
      | incoming where "bnd (serialise_job job) (deserialise_job ?jid) = Inr incoming"
      by (cases "bnd (serialise_job job) (deserialise_job ?jid)")
    then have "h' \<in> set (h # instants es h) \<and> r \<noteq> Inr True"
    proof cases
      case 1
      with assms(1) show ?thesis by (auto simp: put_def Let_def)
    next
      case (2 incoming)
      then obtain raw where raw: "serialise_job job = Inr raw" "deserialise_job ?jid raw = Inr incoming"
        by (auto simp: bnd_Inr_iff)
      note tok = put_incoming(1) [OF raw refl]
      show ?thesis
      proof (cases es)
        case Nil
        with 2 assms(1) show ?thesis by (auto simp: put_def Let_def)
      next
        case (Cons e es')
        let ?h1 = "before_read e h"
        have in1: "?h1 \<in> set (instants es h)" using Cons by (simp add: Let_def)
        obtain cur s where cur: "stored ?jid ?h1 = Some cur" "dget ''execution_token'' cur = JStr s"
          "dget ''execution_token'' job \<noteq> JStr s" using fence [OF in1] by blast
        obtain raw1 where m: "map_of ?h1 ?jid = Some raw1" "deserialise_job ?jid raw1 = Inr cur"
          using cur(1) by (auto simp: stored_Some_iff)
        have "put_update incoming cur = Inr None"
          using cur tok by (simp add: put_update_None may_write_def)
        then have "update_existing es (put_update incoming) ?jid [] h =
            (?h1, if read_ok e then cur else [],
             if read_ok e then Inr None else Inl (CheckJobStoreError CannotRead))"
          using Cons m by (simp add: Let_def)
        with 2 assms(1) cur in1 show ?thesis
          by (auto simp: put_def Let_def split: if_splits)
      qed
    qed
    then show "r \<noteq> Inr True" and "h' \<in> set (h # instants es h)" by auto
  qed
qed

subsection \<open>The contract of an update closure\<close>

text \<open>
  Every closure but that of \<open>put\<close> edits the record it is given: it keeps the record
  normal and keeps its id.  Under this contract the record a call returns is the
  record the hash holds afterwards, and one instant of the interleaving had the
  record the closure edited.
\<close>

locale job_update =
  fixes upd :: "dict \<Rightarrow> dict option res"
  assumes keeps_normal: "normal_job cur \<Longrightarrow> upd cur = Inr (Some rep) \<Longrightarrow> normal_job rep"
    and keeps_id: "upd cur = Inr (Some rep) \<Longrightarrow> dget ''job_id'' rep = dget ''job_id'' cur"
begin

lemma returned_is_stored:
  assumes "update_existing es upd jid seen h = (h', s', Inr (Some job))"
  obtains h1 cur raw where "h1 \<in> set (instants es h)" and "stored jid h1 = Some cur"
    and "upd cur = Inr (Some job)" and "h' = AList.update jid raw h1"
    and "stored jid h' = Some job"
proof -
  obtain h1 cur rep raw where
    w: "h1 \<in> set (instants es h)" "stored jid h1 = Some cur" "upd cur = Inr (Some rep)"
      "serialise_job rep = Inr raw" "h' = AList.update jid raw h1" "deserialise_job jid raw = Inr job"
    by (rule update_existing_Some [OF assms])
  have n: "normal_job rep" by (rule keeps_normal [OF stored_normal [OF w(2)] w(3)])
  have i: "dget ''job_id'' rep = JStr jid" using keeps_id [OF w(3)] stored_id [OF w(2)] by simp
  have "stored jid h' = Some rep" using stored_update_same [OF w(4) n i] w(5) by simp
  moreover have "rep = job" using deserialise_serialise [OF w(4) n i] w(6) by simp
  ultimately show ?thesis using that w by blast
qed

lemma others_untouched:
  assumes "update_existing es upd jid seen h = (h', s', r)"
  shows "\<exists>h1 \<in> set (instants es h). \<forall>k. k \<noteq> jid \<longrightarrow> map_of h' k = map_of h1 k"
  using update_existing_effect [OF assms] by (auto simp: wrote_def)

end

lemma claim_stale_update_Some:
  assumes "claim_stale_update observed now timeout token cur = Inr (Some rep)"
  obtains updated attempts n where "in_strs (dget ''status'' cur) unfinished_statuses"
    and "num_of (dget ''last_updated_at'' cur) = Some updated" and "f_eq updated observed"
    and "\<not> f_le (f_sub now updated) (Finite timeout)"
    and "num_of (dget_or ''attempts'' (JInt 0) cur) = Some attempts" and "py_int attempts = Inr n"
    and "rep = dset ''execution_token'' (JStr token)
              (dset ''last_updated_at'' (JFloat (Finite now))
              (dset ''error'' JNull
              (dset ''progress'' (JInt 0)
              (dset ''status'' (JStr ''pending'')
              (dset ''attempts'' (JInt (n + 1)) cur)))))"
  using assms
  by (auto simp: claim_stale_update_def bnd_Inr_iff py_in_Inr_iff split: if_splits option.splits)

interpretation stale: job_update "claim_stale_update observed now timeout token"
  for observed now timeout token
proof unfold_locales
  fix cur rep
  assume "claim_stale_update observed now timeout token cur = Inr (Some rep)"
  note r = claim_stale_update_Some [OF this]
  show "normal_job rep" if "normal_job cur"
    using that by (rule_tac r) (simp add: normal_job_dset)
  show "dget ''job_id'' rep = dget ''job_id'' cur"
    by (rule_tac r) simp
qed

lemma claim_handoff_update_Some:
  assumes "claim_handoff_update claim now lease cur = Inr (Some rep)"
  obtains attempts n where "review_handoff_is_claimable cur now lease = Inr True"
    and "num_of (dget_or ''review_queue_attempts'' (JInt 0) cur) = Some attempts"
    and "py_int attempts = Inr n"
    and "rep = dset ''review_queue_attempts'' (JInt (n + 1))
            (dset ''review_queue_claimed_at'' (JFloat (Finite now))
            (dset ''review_queue_claim'' (JStr claim)
            (dset ''review_queue_state'' (JStr ''publishing'') cur)))"
  using assms
  by (auto simp: claim_handoff_update_def bnd_Inr_iff split: if_splits option.splits)

interpretation handoff: job_update "claim_handoff_update claim now lease" for claim now lease
proof unfold_locales
  fix cur rep
  assume "claim_handoff_update claim now lease cur = Inr (Some rep)"
  note r = claim_handoff_update_Some [OF this]
  show "normal_job rep" if "normal_job cur"
    using that by (rule_tac r) (simp add: normal_job_dset)
  show "dget ''job_id'' rep = dget ''job_id'' cur"
    by (rule_tac r) simp
qed

lemma finish_handoff_update_Some:
  assumes "finish_handoff_update claim state event_id err now cur = Inr (Some rep)"
  shows "dget ''review_queue_state'' cur = JStr ''publishing''"
    and "dget ''review_queue_claim'' cur = JStr claim"
    and "dget ''review_queue_state'' rep = JStr state"
    and "dget ''review_event_id'' rep = JStr event_id"
    and "dget ''review_queue_error'' rep = opt_str err"
    and "\<not> dhas ''review_queue_claim'' rep"
    and "dget ''job_id'' rep = dget ''job_id'' cur"
    and "normal_job cur \<Longrightarrow> normal_job rep"
  using assms
  by (auto simp: finish_handoff_update_def Let_def bnd_Inr_iff normal_job_dset normal_job_dpop
      display_fields_def opt_str_def split: if_splits option.splits)

lemma finish_handoff_update_failed:
  assumes "finish_handoff_update claim ''failed'' event_id err now cur = Inr (Some rep)"
  obtains attempts n where "num_of (dget_or ''review_queue_attempts'' (JInt 1) cur) = Some attempts"
    and "py_int attempts = Inr n"
    and "dget ''review_queue_next_attempt_at'' rep = JFloat (Finite (now + retry_delay n))"
  using assms
  by (auto simp: finish_handoff_update_def Let_def bnd_Inr_iff split: if_splits option.splits)

interpretation finish: job_update "finish_handoff_update claim state event_id err now"
  for claim state event_id err now
  by unfold_locales (auto dest: finish_handoff_update_Some)

lemma touch_update_Some:
  "touch_update token touched_at cur = Inr (Some rep) \<longleftrightarrow>
    in_strs (dget ''status'' cur) unfinished_statuses \<and>
    dget ''execution_token'' cur = JStr token \<and>
    rep = dset ''last_updated_at'' (JFloat (Finite touched_at)) cur"
  by (auto simp: touch_update_def bnd_Inr_iff py_in_Inr_iff py_in_True_iff
      dest: in_strs_hashable split: if_splits)

interpretation touch: job_update "touch_update token touched_at" for token touched_at
  by unfold_locales (auto simp: touch_update_Some normal_job_dset)

lemma retry_delay_bounds: "5 \<le> retry_delay n" "retry_delay n \<le> 320"
proof -
  have e: "handoff_exponent n \<le> 6" by (simp add: handoff_exponent_def)
  have "(1::rat) \<le> 2 ^ handoff_exponent n" by simp
  then show "5 \<le> retry_delay n" by (simp add: retry_delay_def)
  have "(2::rat) ^ handoff_exponent n \<le> 2 ^ 6" using e by (intro power_increasing) auto
  then show "retry_delay n \<le> 320" by (simp add: retry_delay_def)
qed

lemma retry_delay_mono: "m \<le> n \<Longrightarrow> retry_delay m \<le> retry_delay n"
  by (auto simp: retry_delay_def handoff_exponent_def intro!: power_increasing nat_mono)

end
