(* ===== verification/CheckJobCapacity.thy ===== *)
theory CheckJobCapacity
  imports CheckJobOps "HOL-Library.Multiset"
begin

text \<open>
  The bounded side of \<open>RedisCheckJobStore\<close>: \<open>put_many\<close>, the Lua script behind
  \<open>put_many_bounded\<close> (admission control and trimming of the terminal history in
  one atomic step) and the script behind \<open>remove_terminal\<close>.  \<open>cjson\<close> decodes JSON
  objects and arrays to Lua tables; a field of an array is absent.  A stored
  non-finite number counts as invalid data (the code never writes one).
\<close>

subsection \<open>Reading a record in Lua\<close>

fun lua_table :: "raw \<Rightarrow> dict option" where
  "lua_table (Text (JDict d)) = Some d"
| "lua_table (Text (JList xs)) = Some []"
| "lua_table r = None"

fun finite_num :: "json \<Rightarrow> rat option" where
  "finite_num (JInt i) = Some (of_int i)"
| "finite_num (JFloat (Finite r)) = Some r"
| "finite_num v = None"

datatype lua_class = Unfinished | TrimmableAt rat | Protected

text \<open>
  The three kinds of valid record: unfinished, terminal and removable, terminal
  with a review handoff that is not finished.  \<open>None\<close> is the script's answer -2.
\<close>

definition classify :: "raw \<Rightarrow> lua_class option" where
  "classify raw =
    (case lua_table raw of
       None \<Rightarrow> None
     | Some job \<Rightarrow>
       (case finite_num (dget ''created_at'' job) of
          None \<Rightarrow> None
        | Some created_at \<Rightarrow>
          if in_strs (dget ''status'' job) unfinished_statuses then Some Unfinished
          else if in_strs (dget ''status'' job) terminal_statuses then
            (if in_strs (dget ''review_queue_state'' job) claimable_states then Some Protected
             else Some (TrimmableAt created_at))
          else None))"

fun terminal_records :: "rhash \<Rightarrow> (rat \<times> string) list" where
  "terminal_records [] = []"
| "terminal_records (p # h) =
    (case classify (snd p) of
       Some (TrimmableAt t) \<Rightarrow> (t, fst p) # terminal_records h
     | _ \<Rightarrow> terminal_records h)"

definition unfinished_count :: "rhash \<Rightarrow> nat" where
  "unfinished_count h = length (filter (\<lambda>p. classify (snd p) = Some Unfinished) h)"

definition all_valid :: "rhash \<Rightarrow> bool" where
  "all_valid h \<longleftrightarrow> list_all (\<lambda>p. classify (snd p) \<noteq> None) h"

fun hset_all :: "(string \<times> raw) list \<Rightarrow> rhash \<Rightarrow> rhash" where
  "hset_all [] h = h"
| "hset_all (p # ps) h = hset_all ps (AList.update (fst p) (snd p) h)"

fun hdel_all :: "string list \<Rightarrow> rhash \<Rightarrow> rhash" where
  "hdel_all [] h = h"
| "hdel_all (k # ks) h = hdel_all ks (AList.delete k h)"

text \<open>
  \<open>table.sort\<close> orders by creation time, then by id.
\<close>

definition put_many_bounded_script ::
  "nat \<Rightarrow> nat \<Rightarrow> (string \<times> raw) list \<Rightarrow> rhash \<Rightarrow> rhash \<times> int" where
  "put_many_bounded_script maximum maximum_unfinished incoming h =
    (if \<not> all_valid h then (h, -2)
     else
       let terminal = terminal_records h;
           record_count = length h + length incoming;
           overflow = record_count - maximum
       in if maximum_unfinished < unfinished_count h + length incoming then (h, -1)
          else if length terminal < overflow then (h, -3)
          else
            let h1 = hset_all incoming h in
            if record_count \<le> maximum then (h1, int record_count)
            else (hdel_all (map snd (take overflow (sort terminal))) h1,
                  int (record_count - overflow)))"

fun serialise_jobs :: "dict list \<Rightarrow> (string \<times> raw) list res" where
  "serialise_jobs [] = Inr []"
| "serialise_jobs (job # jobs) =
    bnd (dindex ''job_id'' job) (\<lambda>jid.
    bnd (serialise_job job) (\<lambda>raw.
    bnd (serialise_jobs jobs) (\<lambda>rest. Inr ((py_str jid, raw) # rest))))"

definition put_many_bounded ::
  "io \<Rightarrow> dict list \<Rightarrow> nat \<Rightarrow> nat \<Rightarrow> rhash \<Rightarrow> rhash \<times> bool res" where
  "put_many_bounded wio jobs maximum maximum_unfinished h =
    (if jobs = [] then (h, Inr True)
     else case serialise_jobs jobs of
       Inl e \<Rightarrow> (h, Inl e)
     | Inr incoming \<Rightarrow>
       (case put_many_bounded_script maximum maximum_unfinished incoming h of
          (h', result) \<Rightarrow>
            (case wio of
               Refused \<Rightarrow> (h, Inl (CheckJobStoreError CannotWrite))
             | Unacked \<Rightarrow> (h', Inl (CheckJobStoreError CannotWrite))
             | Acked \<Rightarrow>
               if result = -2 then (h', Inl (CheckJobStoreError BadData))
               else (h', Inr (0 \<le> result)))))"

definition put_many :: "io \<Rightarrow> dict list \<Rightarrow> rhash \<Rightarrow> rhash \<times> unit res" where
  "put_many wio jobs h =
    (if jobs = [] then (h, Inr ())
     else case serialise_jobs jobs of
       Inl e \<Rightarrow> (h, Inl e)
     | Inr payloads \<Rightarrow>
       (case wio of
          Refused \<Rightarrow> (h, Inl (CheckJobStoreError CannotWrite))
        | Unacked \<Rightarrow> (hset_all payloads h, Inl (CheckJobStoreError CannotWrite))
        | Acked \<Rightarrow> (hset_all payloads h, Inr ())))"

definition remove_terminal_script :: "string \<Rightarrow> rhash \<Rightarrow> rhash \<times> int" where
  "remove_terminal_script jid h =
    (case map_of h jid of
       None \<Rightarrow> (h, 0)
     | Some raw \<Rightarrow>
       (case lua_table raw of
          None \<Rightarrow> (h, -1)
        | Some job \<Rightarrow>
          if in_strs (dget ''status'' job) terminal_statuses
             \<and> \<not> in_strs (dget ''review_queue_state'' job) claimable_states
          then (AList.delete jid h, 1)
          else (h, 0)))"

definition remove_terminal :: "io \<Rightarrow> string \<Rightarrow> rhash \<Rightarrow> rhash \<times> bool res" where
  "remove_terminal wio jid h =
    (case remove_terminal_script jid h of
       (h', result) \<Rightarrow>
         (case wio of
            Refused \<Rightarrow> (h, Inl (CheckJobStoreError CannotUpdate))
          | Unacked \<Rightarrow> (h', Inl (CheckJobStoreError CannotUpdate))
          | Acked \<Rightarrow>
            if result = -1 then (h', Inl (CheckJobStoreError BadData))
            else (h', Inr (result = 1))))"

subsection \<open>Admission and trimming\<close>

lemma terminal_records_set:
  "set (terminal_records h) =
    {(t, k). \<exists>raw. (k, raw) \<in> set h \<and> classify raw = Some (TrimmableAt t)}"
  by (induction h) (auto split: option.splits lua_class.splits)

lemma terminal_records_keys: "set (map snd (terminal_records h)) \<subseteq> fst ` set h"
  by (force simp: terminal_records_set image_iff)

lemma terminal_records_distinct:
  "distinct (map fst h) \<Longrightarrow> distinct (map snd (terminal_records h))"
proof (induction h)
  case Nil
  then show ?case by simp
next
  case (Cons p h)
  have "fst p \<notin> set (map snd (terminal_records h))"
    using Cons.prems terminal_records_keys [of h] by auto
  with Cons show ?case by (auto split: option.splits lua_class.splits)
qed

lemma hset_all_fresh:
  "distinct (map fst ps) \<Longrightarrow> fst ` set ps \<inter> fst ` set h = {} \<Longrightarrow> hset_all ps h = h @ ps"
proof (induction ps arbitrary: h)
  case Nil
  then show ?case by simp
next
  case (Cons p ps)
  have "AList.update (fst p) (snd p) h = h @ [p]"
    using Cons.prems by (simp add: AList_update_absent)
  moreover have "hset_all ps (h @ [p]) = (h @ [p]) @ ps"
    using Cons.prems by (intro Cons.IH) auto
  ultimately show ?case by simp
qed

lemma hdel_all_filter: "hdel_all ks h = filter (\<lambda>p. fst p \<notin> set ks) h"
  by (induction ks arbitrary: h) (auto simp: AList_delete_filter intro!: filter_cong)

definition victims :: "nat \<Rightarrow> rhash \<Rightarrow> string list" where
  "victims overflow h = map snd (take overflow (sort (terminal_records h)))"

lemma victims_distinct: "distinct (map fst h) \<Longrightarrow> distinct (victims n h)"
proof -
  assume d: "distinct (map fst h)"
  have "mset (map snd (sort (terminal_records h))) = mset (map snd (terminal_records h))"
    by simp
  then have "distinct (map snd (sort (terminal_records h)))"
    using terminal_records_distinct [OF d] by (metis mset_eq_imp_distinct_iff)
  then show ?thesis by (simp add: victims_def take_map [symmetric] distinct_take)
qed

lemma victims_trimmable:
  assumes "k \<in> set (victims n h)"
  obtains t raw where "(k, raw) \<in> set h" and "classify raw = Some (TrimmableAt t)"
    and "(t, k) \<in> set (take n (sort (terminal_records h)))"
proof -
  obtain t where t: "(t, k) \<in> set (take n (sort (terminal_records h)))"
    using assms by (auto simp: victims_def)
  then have "(t, k) \<in> set (terminal_records h)" by (metis in_set_takeD set_sort)
  then show ?thesis using that t by (auto simp: terminal_records_set)
qed

lemma victims_oldest:
  assumes "k \<in> set (victims n h)" and "k' \<notin> set (victims n h)"
    and "(k', raw') \<in> set h" and "classify raw' = Some (TrimmableAt t')"
  obtains t raw where "(k, raw) \<in> set h" and "classify raw = Some (TrimmableAt t)"
    and "(t, k) \<le> (t', k')"
proof -
  obtain t raw where k: "(k, raw) \<in> set h" "classify raw = Some (TrimmableAt t)"
    "(t, k) \<in> set (take n (sort (terminal_records h)))"
    by (rule victims_trimmable [OF assms(1)])
  let ?s = "sort (terminal_records h)"
  have "(t', k') \<in> set ?s" using assms(3,4) by (auto simp: terminal_records_set)
  then have "(t', k') \<in> set (take n ?s) \<union> set (drop n ?s)"
    by (metis append_take_drop_id set_append)
  moreover have "(t', k') \<notin> set (take n ?s)"
    using assms(2) by (force simp: victims_def)
  ultimately have "(t', k') \<in> set (drop n ?s)" by blast
  with k show ?thesis using that sorted_take_drop [of ?s] by force
qed

lemma victims_length:
  "n \<le> length (terminal_records h) \<Longrightarrow> length (victims n h) = n"
  by (simp add: victims_def)

text \<open>The effect of an accepted call, on new ids.\<close>

lemma put_many_accepted:
  assumes "put_many_bounded_script maximum maximum_unfinished incoming h = (h', n)" and "0 \<le> n"
    and "distinct (map fst incoming)" and "fst ` set incoming \<inter> fst ` set h = {}"
  shows "h' = filter (\<lambda>p. fst p \<notin> set (victims (length h + length incoming - maximum) h)) (h @ incoming)"
    and "unfinished_count h + length incoming \<le> maximum_unfinished"
    and "all_valid h"
    and "length h + length incoming - maximum \<le> length (terminal_records h)"
    and "n = int (min maximum (length h + length incoming))"
  using assms
  by (auto simp: put_many_bounded_script_def Let_def hset_all_fresh hdel_all_filter victims_def
      split: if_splits)

lemma put_many_rejected:
  "put_many_bounded_script maximum maximum_unfinished incoming h = (h', n) \<Longrightarrow> n < 0 \<Longrightarrow> h' = h"
  by (auto simp: put_many_bounded_script_def Let_def split: if_splits)

lemma put_many_length:
  assumes "put_many_bounded_script maximum maximum_unfinished incoming h = (h', n)" and "0 \<le> n"
    and "distinct (map fst h)"
    and "distinct (map fst incoming)" and "fst ` set incoming \<inter> fst ` set h = {}"
  shows "int (length h') = n" and "distinct (map fst h')"
proof -
  let ?o = "length h + length incoming - maximum"
  note a = put_many_accepted [OF assms(1,2,4,5)]
  have d: "distinct (map fst (h @ incoming))" using assms(3-5) by auto
  have sub: "set (victims ?o h) \<subseteq> fst ` set (h @ incoming)"
  proof
    fix k assume "k \<in> set (victims ?o h)"
    then obtain t raw where "(k, raw) \<in> set h" by (rule victims_trimmable)
    then show "k \<in> fst ` set (h @ incoming)" by force
  qed
  show "distinct (map fst h')" unfolding a(1) using d by (rule distinct_map_filter)
  have "length h' = length (h @ incoming) - length (victims ?o h)"
    unfolding a(1) by (rule length_filter_keys [OF d victims_distinct [OF assms(3)] sub])
  then show "int (length h') = n" using a(4,5) by (simp add: victims_length)
qed

end
