(* ===== verification/CheckJobProps.thy ===== *)
theory CheckJobProps
  imports CheckJobCapacity
begin

text \<open>
  The properties of the page-check job store, each with a run of the model in which
  its hypotheses hold.
\<close>

subsection \<open>Sample records\<close>

definition demo_job :: "string \<Rightarrow> string \<Rightarrow> string \<Rightarrow> dict" where
  "demo_job jid status token =
    [(''job_id'', JStr jid), (''execution_token'', JStr token), (''status'', JStr status),
     (''created_at'', JInt 5), (''last_updated_at'', JInt 10), (''attempts'', JInt 0),
     (''error'', JNull), (''stage'', JStr ''queued''), (''message'', JStr ''m''),
     (''timeline'', JList []), (''review_queue_state'', JStr ''not_needed''),
     (''review_event_id'', JNull), (''review_queue_error'', JNull)]"

definition demo_hash :: rhash where
  "demo_hash = [(''a'', Text (JDict (demo_job ''a'' ''running'' ''t1'')))]"

definition review_job :: dict where
  "review_job = dset ''review_queue_state'' (JStr ''pending'') (demo_job ''a'' ''done'' ''t1'')"

definition review_hash :: rhash where
  "review_hash = [(''a'', Text (JDict review_job))]"

fun took :: "'a \<times> 'b option res \<Rightarrow> bool" where
  "took (a, Inr (Some b)) = True"
| "took p = False"

fun accepted :: "'a \<times> bool res \<Rightarrow> bool" where
  "accepted (a, Inr b) = b"
| "accepted p = False"

lemma took_obtain: "took p \<Longrightarrow> \<exists>a b. p = (a, Inr (Some b))"
  by (cases p rule: took.cases) auto

lemma accepted_obtain: "accepted p \<Longrightarrow> \<exists>a. p = (a, Inr True)"
  by (cases p rule: accepted.cases) auto

subsection \<open>The update loop\<close>

text \<open>
  C1: A call of the optimistic update loop behaves, whatever the other processes
  write between its reads and its compare-and-sets and whichever Redis calls fail,
  as one uninterrupted read-modify-write at some instant of the interleaving, or it
  reports a storage failure and has written nothing or exactly that update.
\<close>

theorem update_loop_is_atomic:
  "\<exists>h1. h1 \<in> set (instants es h) \<and>
     update_outcome upd jid h1 (fst (update_existing es upd jid seen h))
       (snd (snd (update_existing es upd jid seen h)))"
proof -
  obtain h' s' r where u: "update_existing es upd jid seen h = (h', s', r)"
    by (cases "update_existing es upd jid seen h")
  then show ?thesis using update_existing_atomic [OF u] by auto
qed

text \<open>
  C2: Once another execution owns the record (its stored execution token is a string
  different from the job's), \<open>put\<close> writes nothing and does not report acceptance.
\<close>

theorem fenced_execution_never_writes:
  assumes "put es job h = (h', r, job')"
    and "\<forall>h1 \<in> set (instants es h).
      fenced (py_str (dget ''job_id'' job)) (dget ''execution_token'' job) h1"
  shows "h' \<in> set (h # instants es h) \<and> r \<noteq> Inr True"
  using put_fenced_refused [OF assms] by blast

lemma demo_fenced: "fenced ''a'' (JStr ''t0'') demo_hash"
  by code_simp

theorem fenced_execution_never_writes_witness:
  "\<exists>r job'. put [quiet] (demo_job ''a'' ''done'' ''t0'') demo_hash = (demo_hash, r, job') \<and>
     r \<noteq> Inr True"
proof -
  let ?job = "demo_job ''a'' ''done'' ''t0''"
  obtain h' r job' where p: "put [quiet] ?job demo_hash = (h', r, job')"
    by (cases "put [quiet] ?job demo_hash")
  have f: "\<forall>h1 \<in> set (instants [quiet] demo_hash).
      fenced (py_str (dget ''job_id'' ?job)) (dget ''execution_token'' ?job) h1"
    using demo_fenced by (simp add: demo_job_def dget_def)
  from fenced_execution_never_writes [OF p f] have "h' = demo_hash \<and> r \<noteq> Inr True"
    by simp
  with p show ?thesis by blast
qed

text \<open>
  C3: Stale recovery takes a job over only if it is unfinished, unchanged since it
  was observed and older than the timeout; the stored record then belongs to the new
  execution token, every other execution is fenced, the attempt count is one higher
  and the progress is reset.
\<close>

theorem stale_claim_takes_over:
  assumes "claim_stale_job es jid observed now timeout token h = (h', Inr (Some job))"
  shows "stored jid h' = Some job \<and> dget ''status'' job = JStr ''pending'' \<and>
    dget ''progress'' job = JInt 0 \<and> dget ''last_updated_at'' job = JFloat (Finite now) \<and>
    (\<forall>old. old = JStr token \<or> fenced jid old h') \<and>
    (\<exists>h1 cur updated attempts n. h1 \<in> set (instants es h) \<and> stored jid h1 = Some cur \<and>
       in_strs (dget ''status'' cur) unfinished_statuses \<and>
       num_of (dget ''last_updated_at'' cur) = Some updated \<and> f_eq updated observed \<and>
       \<not> f_le (f_sub now updated) (Finite timeout) \<and>
       num_of (dget_or ''attempts'' (JInt 0) cur) = Some attempts \<and> py_int attempts = Inr n \<and>
       dget ''attempts'' job = JInt (n + 1))"
proof -
  obtain s' where u: "update_existing es (claim_stale_update observed now timeout token) jid [] h =
      (h', s', Inr (Some job))"
    using assms by (auto simp: claim_stale_job_def split: prod.splits)
  obtain h1 cur raw where w: "h1 \<in> set (instants es h)" "stored jid h1 = Some cur"
    "claim_stale_update observed now timeout token cur = Inr (Some job)" "stored jid h' = Some job"
    by (rule stale.returned_is_stored [OF u])
  obtain updated attempts n where c: "in_strs (dget ''status'' cur) unfinished_statuses"
    "num_of (dget ''last_updated_at'' cur) = Some updated" "f_eq updated observed"
    "\<not> f_le (f_sub now updated) (Finite timeout)"
    "num_of (dget_or ''attempts'' (JInt 0) cur) = Some attempts" "py_int attempts = Inr n"
    and job: "job = dset ''execution_token'' (JStr token)
              (dset ''last_updated_at'' (JFloat (Finite now))
              (dset ''error'' JNull
              (dset ''progress'' (JInt 0)
              (dset ''status'' (JStr ''pending'')
              (dset ''attempts'' (JInt (n + 1)) cur)))))"
    by (rule claim_stale_update_Some [OF w(3)])
  have "\<forall>old. old = JStr token \<or> fenced jid old h'"
    using w(4) by (auto simp: fenced_def job)
  moreover have "dget ''status'' job = JStr ''pending''" "dget ''progress'' job = JInt 0"
    "dget ''last_updated_at'' job = JFloat (Finite now)" "dget ''attempts'' job = JInt (n + 1)"
    by (simp_all add: job)
  ultimately show ?thesis using w(1,2,4) c by blast
qed

theorem stale_claim_takes_over_witness:
  "\<exists>h' job. claim_stale_job [quiet] ''a'' (Finite 10) 2000 900 ''t2'' demo_hash =
       (h', Inr (Some job)) \<and> fenced ''a'' (JStr ''t1'') h'"
proof -
  have "took (claim_stale_job [quiet] ''a'' (Finite 10) 2000 900 ''t2'' demo_hash)"
    by code_simp
  then obtain h' job where c: "claim_stale_job [quiet] ''a'' (Finite 10) 2000 900 ''t2'' demo_hash =
      (h', Inr (Some job))"
    by (blast dest: took_obtain)
  have "\<forall>old. old = JStr ''t2'' \<or> fenced ''a'' old h'"
    using stale_claim_takes_over [OF c] by (elim conjE)
  then have "JStr ''t1'' = JStr ''t2'' \<or> fenced ''a'' (JStr ''t1'') h'" by (rule spec)
  with c show ?thesis by simp
qed

subsection \<open>The review handoff\<close>

text \<open>
  A review handoff is leased to one publisher at a time: while the record stays
  as the claim left it, no other claim within the lease succeeds or writes.
\<close>

theorem review_lease_is_exclusive:
  assumes "claim_review_handoff es jid claim now lease h = (h', Inr (Some job))"
    and "now' - now < lease"
    and "\<forall>x \<in> set (instants es' h'). stored jid x = Some job"
  shows "fst (claim_review_handoff es' jid claim' now' lease h') \<in> set (instants es' h') \<and>
    snd (claim_review_handoff es' jid claim' now' lease h') \<noteq> Inr (Some job')"
proof -
  obtain s' where u: "update_existing es (claim_handoff_update claim now lease) jid [] h =
      (h', s', Inr (Some job))"
    using assms(1) by (auto simp: claim_review_handoff_def split: prod.splits)
  obtain cur where "claim_handoff_update claim now lease cur = Inr (Some job)"
    by (rule handoff.returned_is_stored [OF u])
  then obtain n where "job = dset ''review_queue_attempts'' (JInt (n + 1))
            (dset ''review_queue_claimed_at'' (JFloat (Finite now))
            (dset ''review_queue_claim'' (JStr claim)
            (dset ''review_queue_state'' (JStr ''publishing'') cur)))"
    by (rule claim_handoff_update_Some)
  then have no: "claim_handoff_update claim' now' lease job = Inr None"
    using assms(2) claimable_publishing [of job now now' lease]
    by (simp add: claim_handoff_update_def)
  obtain h2 s2 r2 where u2: "update_existing es' (claim_handoff_update claim' now' lease) jid [] h' =
      (h2, s2, r2)" by (cases "update_existing es' (claim_handoff_update claim' now' lease) jid [] h'")
  have nw: "\<not> wrote (claim_handoff_update claim' now' lease) jid x y" if "x \<in> set (instants es' h')" for x y
    using that assms(3) no by (auto simp: wrote_def)
  have "h2 \<in> set (instants es' h')" using update_existing_effect [OF u2] nw by blast
  moreover have "r2 \<noteq> Inr (Some job')"
  proof
    assume "r2 = Inr (Some job')"
    then show False using u2 no assms(3) by (auto elim!: update_existing_Some)
  qed
  ultimately show ?thesis using u2 by (simp add: claim_review_handoff_def)
qed

theorem review_lease_is_exclusive_witness:
  "\<exists>h'. fst (claim_review_handoff [quiet] ''a'' ''c1'' 100 120 review_hash) = h' \<and>
     fst (claim_review_handoff [quiet] ''a'' ''c2'' 150 120 h') = h'"
proof -
  have "took (claim_review_handoff [quiet] ''a'' ''c1'' 100 120 review_hash)"
    by code_simp
  then obtain h' job where c: "claim_review_handoff [quiet] ''a'' ''c1'' 100 120 review_hash =
      (h', Inr (Some job))"
    by (blast dest: took_obtain)
  then obtain s' where "update_existing [quiet] (claim_handoff_update ''c1'' 100 120) ''a'' [] review_hash =
      (h', s', Inr (Some job))"
    by (auto simp: claim_review_handoff_def split: prod.splits)
  then have s: "stored ''a'' h' = Some job" by (rule handoff.returned_is_stored)
  have l: "(150::rat) - 100 < 120" by simp
  have i: "\<forall>x \<in> set (instants [quiet] h'). stored ''a'' x = Some job"
    using s by simp
  from review_lease_is_exclusive [OF c l i, of "''c2''" "[]"] c show ?thesis
    by simp
qed

text \<open>
  Only the publisher that holds the claim can finish a review handoff.  A failed
  handoff may be claimed again after a delay between 5 and 320 seconds and not
  before; a queued or invalid one is never claimed again.
\<close>

theorem review_handoff_finish:
  assumes "finish_review_handoff es jid claim state event_id err now h = (h', Inr True)"
  shows "\<exists>job h1 cur. stored jid h' = Some job \<and> h1 \<in> set (instants es h) \<and>
    stored jid h1 = Some cur \<and> dget ''review_queue_claim'' cur = JStr claim \<and>
    dget ''review_queue_state'' cur = JStr ''publishing'' \<and>
    dget ''review_queue_state'' job = JStr state \<and> \<not> dhas ''review_queue_claim'' job \<and>
    (if state = ''failed'' then \<exists>d. 5 \<le> d \<and> d \<le> 320 \<and>
        (\<forall>t lease. review_handoff_is_claimable job t lease = Inr (now + d \<le> t))
     else \<forall>t lease. review_handoff_is_claimable job t lease = Inr False)"
proof -
  obtain s' job where st: "state \<in> {''queued'', ''failed'', ''invalid''}"
    and u: "update_existing es (finish_handoff_update claim state event_id err now) jid [] h =
      (h', s', Inr (Some job))"
    using assms by (auto simp: finish_review_handoff_def split: if_splits prod.splits option.splits)
  obtain h1 cur raw where w: "h1 \<in> set (instants es h)" "stored jid h1 = Some cur"
    "finish_handoff_update claim state event_id err now cur = Inr (Some job)" "stored jid h' = Some job"
    by (rule finish.returned_is_stored [OF u])
  note f = finish_handoff_update_Some [OF w(3)]
  have "if state = ''failed'' then \<exists>d. 5 \<le> d \<and> d \<le> 320 \<and>
        (\<forall>t lease. review_handoff_is_claimable job t lease = Inr (now + d \<le> t))
     else \<forall>t lease. review_handoff_is_claimable job t lease = Inr False"
  proof (cases "state = ''failed''")
    case True
    obtain n where n: "dget ''review_queue_next_attempt_at'' job = JFloat (Finite (now + retry_delay n))"
      using w(3) unfolding True by (rule finish_handoff_update_failed)
    have "\<forall>t lease. review_handoff_is_claimable job t lease = Inr (now + retry_delay n \<le> t)"
      using claimable_failed [OF _ n] f(3) True by (simp add: not_less)
    then have "5 \<le> retry_delay n \<and> retry_delay n \<le> 320 \<and>
        (\<forall>t lease. review_handoff_is_claimable job t lease = Inr (now + retry_delay n \<le> t))"
      using retry_delay_bounds by blast
    then have "\<exists>d. 5 \<le> d \<and> d \<le> 320 \<and>
        (\<forall>t lease. review_handoff_is_claimable job t lease = Inr (now + d \<le> t))"
      by blast
    then show ?thesis unfolding if_P [OF True] .
  next
    case False
    with st have "state \<notin> set claimable_states" by (auto simp: claimable_states_def)
    then show ?thesis using False not_claimable_other [OF f(3)] by simp
  qed
  then show ?thesis using w(1,2,4) f(1-3,6) by blast
qed

theorem review_handoff_finish_witness:
  "\<exists>h' job. finish_review_handoff [quiet] ''a'' ''c1'' ''failed'' ''e'' None 200
      (fst (claim_review_handoff [quiet] ''a'' ''c1'' 100 120 review_hash)) = (h', Inr True) \<and>
     stored ''a'' h' = Some job"
proof -
  have "accepted (finish_review_handoff [quiet] ''a'' ''c1'' ''failed'' ''e'' None 200
      (fst (claim_review_handoff [quiet] ''a'' ''c1'' 100 120 review_hash)))"
    by code_simp
  then obtain h' where c: "finish_review_handoff [quiet] ''a'' ''c1'' ''failed'' ''e'' None 200
      (fst (claim_review_handoff [quiet] ''a'' ''c1'' 100 120 review_hash)) = (h', Inr True)"
    by (blast dest: accepted_obtain)
  show ?thesis using review_handoff_finish [OF c] c by blast
qed

text \<open>
  \<open>put\<close> touches no record but its own, writes only records this execution may
  write, and leaves the whole review state of a record that already carries a review
  event exactly as it was.
\<close>

theorem put_keeps_the_review_event:
  assumes "put es job h = (h', r, job')"
  shows "\<exists>h1. h1 \<in> set (h # instants es h) \<and>
    (h' = h1 \<or> put_wrote (py_str (dget ''job_id'' job)) job h1 h')"
  using put_effect [OF assms] by blast

theorem put_keeps_the_review_event_witness:
  "\<exists>h' r job'. put [quiet] (demo_job ''a'' ''done'' ''t1'') demo_hash = (h', r, job') \<and>
     (h' = demo_hash \<or> put_wrote ''a'' (demo_job ''a'' ''done'' ''t1'') demo_hash h')"
proof -
  obtain h' r job' where p: "put [quiet] (demo_job ''a'' ''done'' ''t1'') demo_hash = (h', r, job')"
    by (cases "put [quiet] (demo_job ''a'' ''done'' ''t1'') demo_hash")
  have "py_str (dget ''job_id'' (demo_job ''a'' ''done'' ''t1'')) = ''a''"
    by (simp add: demo_job_def dget_def)
  then show ?thesis using put_keeps_the_review_event [OF p] p by auto
qed

subsection \<open>Capacity\<close>

text \<open>
  C4: When a batch of new jobs is admitted, all of them are stored, the store holds at
  most the configured number of records, at most the configured number is unfinished,
  no unfinished record and no record with an open review handoff is dropped, and the
  dropped terminal records are the oldest ones.
\<close>

theorem bounded_store_admission:
  assumes "put_many_bounded Acked jobs maximum maximum_unfinished h = (h', Inr True)"
    and "serialise_jobs jobs = Inr incoming" and "jobs \<noteq> []"
    and "distinct (map fst h)" and "distinct (map fst incoming)"
    and "fst ` set incoming \<inter> fst ` set h = {}"
  shows "length h' \<le> maximum \<and> unfinished_count h + length incoming \<le> maximum_unfinished \<and>
    (\<forall>k raw. map_of incoming k = Some raw \<longrightarrow> map_of h' k = Some raw) \<and>
    (\<forall>k raw. map_of h k = Some raw \<longrightarrow> (\<forall>t. classify raw \<noteq> Some (TrimmableAt t)) \<longrightarrow>
       map_of h' k = Some raw) \<and>
    (\<forall>k k' raw' t'. map_of h k \<noteq> None \<longrightarrow> map_of h' k = None \<longrightarrow>
       map_of h k' = Some raw' \<longrightarrow> classify raw' = Some (TrimmableAt t') \<longrightarrow>
       map_of h' k' \<noteq> None \<longrightarrow>
       (\<exists>raw t. map_of h k = Some raw \<and> classify raw = Some (TrimmableAt t) \<and> (t, k) \<le> (t', k')))"
proof -
  obtain n where s: "put_many_bounded_script maximum maximum_unfinished incoming h = (h', n)"
    and n: "0 \<le> n"
    using assms(1-3) by (auto simp: put_many_bounded_def split: prod.splits if_splits)
  let ?v = "set (victims (length h + length incoming - maximum) h)"
  note a = put_many_accepted [OF s n assms(5,6)]
  have len: "length h' \<le> maximum"
    using put_many_length(1) [OF s n assms(4-6)] a(5) by simp
  have m: "map_of h' k = (if k \<notin> ?v then map_of (h @ incoming) k else None)" for k
    unfolding a(1) using map_of_filter_key [where P = "\<lambda>k. k \<notin> ?v" and d = "h @ incoming"] by simp
  have vh: "\<exists>t raw. map_of h k = Some raw \<and> classify raw = Some (TrimmableAt t)" if "k \<in> ?v" for k
    using victims_trimmable [OF that] assms(4) by (metis map_of_is_SomeI)
  have old: "map_of h k = Some raw \<Longrightarrow> map_of incoming k = None" for k raw
    using assms(6) by (auto simp: map_of_None_fst dest!: map_of_Some_fst)
  have new: "map_of incoming k = Some raw \<Longrightarrow> map_of h k = None" for k raw
    using old by (cases "map_of h k") auto
  have in_ok: "map_of h' k = Some raw" if "map_of incoming k = Some raw" for k raw
    using that new [OF that] vh [of k] by (auto simp: m map_add_def)
  have prot: "map_of h' k = Some raw"
    if "map_of h k = Some raw" "\<forall>t. classify raw \<noteq> Some (TrimmableAt t)" for k raw
    using that old [OF that(1)] vh [of k] by (auto simp: m map_add_def)
  have order: "\<exists>raw t. map_of h k = Some raw \<and> classify raw = Some (TrimmableAt t) \<and> (t, k) \<le> (t', k')"
    if "map_of h k \<noteq> None" "map_of h' k = None" "map_of h k' = Some raw'"
      "classify raw' = Some (TrimmableAt t')" "map_of h' k' \<noteq> None" for k k' raw' t'
  proof -
    note c = that(4)
    have "k \<in> ?v" using that(1,2) by (auto simp: m map_add_def split: if_splits option.splits)
    moreover have "k' \<notin> ?v" using that(5) by (auto simp: m split: if_splits)
    moreover have "(k', raw') \<in> set h" using that(3) by (rule map_of_SomeD)
    ultimately obtain t raw where "(k, raw) \<in> set h" "classify raw = Some (TrimmableAt t)"
      "(t, k) \<le> (t', k')" using c by (rule victims_oldest)
    then show ?thesis using assms(4) by (metis map_of_is_SomeI)
  qed
  show ?thesis using len a(2) in_ok prot order by blast
qed

theorem bounded_store_admission_witness:
  "\<exists>h'. put_many_bounded Acked [demo_job ''b'' ''pending'' ''t''] 1 5
       [(''a'', Text (JDict (demo_job ''a'' ''done'' ''t1'')))] = (h', Inr True) \<and> length h' \<le> 1"
proof -
  let ?h = "[(''a'', Text (JDict (demo_job ''a'' ''done'' ''t1'')))]"
  let ?inc = "[(''b'', Text (JDict (demo_job ''b'' ''pending'' ''t'')))]"
  have "accepted (put_many_bounded Acked [demo_job ''b'' ''pending'' ''t''] 1 5 ?h)"
    by code_simp
  then obtain h' where p: "put_many_bounded Acked [demo_job ''b'' ''pending'' ''t''] 1 5 ?h = (h', Inr True)"
    by (blast dest: accepted_obtain)
  have s: "serialise_jobs [demo_job ''b'' ''pending'' ''t''] = Inr ?inc"
    by code_simp
  have "length h' \<le> 1"
    using bounded_store_admission [OF p s] by simp
  with p show ?thesis by blast
qed

text \<open>
  \<open>remove_terminal\<close> removes nothing but the named record, and that one only if it
  is done or failed and its review handoff is not open.
\<close>

theorem remove_terminal_is_safe:
  assumes "remove_terminal wio jid h = (h', r)" and "h' \<noteq> h"
  shows "h' = AList.delete jid h \<and>
    (\<exists>job. map_of h jid = Some (Text (JDict job)) \<and>
       in_strs (dget ''status'' job) terminal_statuses \<and>
       \<not> in_strs (dget ''review_queue_state'' job) claimable_states)"
proof -
  have "remove_terminal_script jid h = (h', 1)"
    using assms by (auto simp: remove_terminal_def remove_terminal_script_def
        split: option.splits if_splits io.splits)
  then obtain raw job where m: "map_of h jid = Some raw" "lua_table raw = Some job"
    "in_strs (dget ''status'' job) terminal_statuses"
    "\<not> in_strs (dget ''review_queue_state'' job) claimable_states" "h' = AList.delete jid h"
    by (auto simp: remove_terminal_script_def split: option.splits if_splits)
  then have "raw = Text (JDict job)"
    by (cases raw rule: lua_table.cases) (auto simp: dget_def)
  with m show ?thesis by blast
qed

theorem remove_terminal_is_safe_witness:
  "\<exists>h' r. remove_terminal Acked ''a'' [(''a'', Text (JDict (demo_job ''a'' ''done'' ''t'')))] = (h', r) \<and>
     h' = AList.delete ''a'' [(''a'', Text (JDict (demo_job ''a'' ''done'' ''t'')))]"
proof -
  let ?h = "[(''a'', Text (JDict (demo_job ''a'' ''done'' ''t'')))]"
  have p: "remove_terminal Acked ''a'' ?h = ([], Inr True)"
    by code_simp
  have ne: "[] \<noteq> ?h" by simp
  show ?thesis using remove_terminal_is_safe [OF p ne] p by blast
qed

end
