(* ===== verification/JobCounter.thy ===== *)
theory JobCounter
  imports RedisIO
begin

text \<open>
  The active-job counter of \<open>api/services/entry_translator_service.py\<close>: the
  interface \<open>JobCounter\<close> (a \<open>Protocol\<close> class) as a locale of lease laws, and the
  in-process implementation \<open>QueueCounter\<close>.  A lease is the association of an active
  job with the token of the execution that owns it; \<open>claim_job\<close> takes one,
  \<open>touch_job\<close> and \<open>owns_job\<close> check it, \<open>finish_job\<close> gives it up and
  \<open>recover_stale_jobs\<close> takes it away.
\<close>

subsection \<open>QueueCounter\<close>

record active_job =
  aj_job_id :: string
  aj_title :: string
  aj_language :: string
  aj_started_at :: rat

record queue_counter =
  jobs :: "(string \<times> active_job) list"
  heartbeats :: "(string \<times> rat) list"
  owner_tokens :: "(string \<times> string) list"
  legacy_job_ids :: "string list"

definition empty_counter :: queue_counter where
  "empty_counter = \<lparr>jobs = [], heartbeats = [], owner_tokens = [], legacy_job_ids = []\<rparr>"

definition build_job :: "string \<Rightarrow> string \<Rightarrow> string \<Rightarrow> rat \<Rightarrow> active_job" where
  "build_job job_id title language started_at =
    \<lparr>aj_job_id = job_id, aj_title = title, aj_language = language, aj_started_at = started_at\<rparr>"

text \<open>\<open>increment\<close> draws a fresh uuid and reads the clock; both are arguments here.\<close>

definition qc_increment :: "string \<Rightarrow> rat \<Rightarrow> queue_counter \<Rightarrow> queue_counter" where
  "qc_increment uuid now c =
    c\<lparr>jobs := AList.update uuid (build_job uuid [] [] now) (jobs c),
      legacy_job_ids := legacy_job_ids c @ [uuid]\<rparr>"

definition qc_decrement :: "queue_counter \<Rightarrow> queue_counter" where
  "qc_decrement c =
    (if legacy_job_ids c = [] then c
     else let job_id = last (legacy_job_ids c) in
       (if job_id = [] then c\<lparr>legacy_job_ids := butlast (legacy_job_ids c)\<rparr>
        else c\<lparr>legacy_job_ids := butlast (legacy_job_ids c),
               jobs := AList.delete job_id (jobs c)\<rparr>))"

definition qc_get :: "queue_counter \<Rightarrow> nat" where
  "qc_get c = length (jobs c)"

definition active :: "string \<Rightarrow> queue_counter \<Rightarrow> bool" where
  "active job_id c \<longleftrightarrow> map_of (jobs c) job_id \<noteq> None"

definition qc_claim_job ::
  "string \<Rightarrow> string \<Rightarrow> rat \<Rightarrow> string \<Rightarrow> string \<Rightarrow> queue_counter \<Rightarrow> queue_counter \<times> bool" where
  "qc_claim_job title language started_at job_id owner_token c =
    (if active job_id c then (c, False)
     else (c\<lparr>jobs := AList.update job_id (build_job job_id title language started_at) (jobs c),
             heartbeats := AList.update job_id started_at (heartbeats c),
             owner_tokens := AList.update job_id owner_token (owner_tokens c)\<rparr>, True))"

text \<open>\<open>job_id or str(uuid.uuid4())\<close>: an empty identifier counts as none.\<close>

definition chosen_id :: "string option \<Rightarrow> string \<Rightarrow> string" where
  "chosen_id job_id uuid =
    (case job_id of None \<Rightarrow> uuid | Some j \<Rightarrow> if j = [] then uuid else j)"

definition qc_start_job ::
  "string \<Rightarrow> string \<Rightarrow> rat \<Rightarrow> string option \<Rightarrow> string \<Rightarrow> queue_counter \<Rightarrow> queue_counter \<times> string res" where
  "qc_start_job title language started_at job_id uuid c =
    (let j = chosen_id job_id uuid in
     case qc_claim_job title language started_at j [] c of
       (c', claimed) \<Rightarrow> (c', if claimed then Inr j else Inl RuntimeError))"

definition token_matches :: "string option \<Rightarrow> string \<Rightarrow> queue_counter \<Rightarrow> bool" where
  "token_matches owner_token job_id c \<longleftrightarrow>
    (case owner_token of None \<Rightarrow> True | Some t \<Rightarrow> map_of (owner_tokens c) job_id = Some t)"

definition qc_touch_job ::
  "string \<Rightarrow> rat \<Rightarrow> string option \<Rightarrow> queue_counter \<Rightarrow> queue_counter \<times> bool" where
  "qc_touch_job job_id touched_at owner_token c =
    (if active job_id c \<and> token_matches owner_token job_id c
     then (c\<lparr>heartbeats := AList.update job_id touched_at (heartbeats c)\<rparr>, True)
     else (c, False))"

definition qc_owns_job :: "string \<Rightarrow> string \<Rightarrow> queue_counter \<Rightarrow> bool" where
  "qc_owns_job job_id owner_token c \<longleftrightarrow>
    active job_id c \<and> map_of (owner_tokens c) job_id = Some owner_token"

definition drop_job :: "string \<Rightarrow> queue_counter \<Rightarrow> queue_counter" where
  "drop_job job_id c =
    c\<lparr>jobs := AList.delete job_id (jobs c),
      heartbeats := AList.delete job_id (heartbeats c),
      owner_tokens := AList.delete job_id (owner_tokens c)\<rparr>"

definition qc_finish_job ::
  "string \<Rightarrow> string option \<Rightarrow> queue_counter \<Rightarrow> queue_counter \<times> bool" where
  "qc_finish_job job_id owner_token c =
    (if \<not> active job_id c \<or> \<not> token_matches owner_token job_id c then (c, False)
     else (drop_job job_id c, True))"

text \<open>
  The job dictionaries \<open>recover_stale_jobs\<close> returns: a non-empty owner token is added
  to the removed job.
\<close>

definition active_job_dict :: "active_job \<Rightarrow> dict" where
  "active_job_dict job =
    [(''job_id'', JStr (aj_job_id job)), (''title'', JStr (aj_title job)),
     (''language'', JStr (aj_language job)), (''started_at'', JFloat (Finite (aj_started_at job)))]"

definition last_heartbeat :: "active_job \<Rightarrow> queue_counter \<Rightarrow> rat" where
  "last_heartbeat job c =
    (case map_of (heartbeats c) (aj_job_id job) of Some t \<Rightarrow> t | None \<Rightarrow> aj_started_at job)"

definition is_stale :: "rat \<Rightarrow> rat \<Rightarrow> string list \<Rightarrow> queue_counter \<Rightarrow> active_job \<Rightarrow> bool" where
  "is_stale timeout now protected c job \<longleftrightarrow>
    aj_job_id job \<notin> set protected \<and> timeout \<le> now - last_heartbeat job c"

fun remove_stale :: "active_job list \<Rightarrow> queue_counter \<Rightarrow> queue_counter \<times> dict list" where
  "remove_stale [] c = (c, [])"
| "remove_stale (job # rest) c =
    (let token = (case map_of (owner_tokens c) (aj_job_id job) of Some t \<Rightarrow> t | None \<Rightarrow> []);
         d = (if token = [] then active_job_dict job
              else dset ''_owner_token'' (JStr token) (active_job_dict job));
         (c', ds) = remove_stale rest (drop_job (aj_job_id job) c)
     in (c', d # ds))"

definition qc_recover_stale_jobs ::
  "rat \<Rightarrow> rat \<Rightarrow> string list \<Rightarrow> queue_counter \<Rightarrow> queue_counter \<times> dict list" where
  "qc_recover_stale_jobs timeout now protected c =
    remove_stale (filter (is_stale timeout now protected c) (map snd (jobs c))) c"


subsection \<open>The interface\<close>

text \<open>
  The state of a counter is abstract: \<open>owner s j\<close> is the token that holds the lease of
  the active job \<open>j\<close> (the empty token for a job without an owner).  An operation takes
  an environment that decides which of its storage calls fail.  The laws say what a
  client may rely on whatever fails: a lease is only taken when nobody holds it, only
  given up by its holder (or by a call that names no owner), and only taken away by a
  recovery that does not protect the job; a positive answer is always true.
\<close>

datatype ('e, 'r) counter_op =
    Claim 'e string string rat string string
  | Touch 'e string rat "string option"
  | Owns 'e string string
  | Finish 'e string "string option"
  | Recover 'r rat rat "string list"

fun tracked :: "('e, 'r) counter_op \<Rightarrow> bool" where
  "tracked (Claim e title language started_at job_id token) = (token \<noteq> [])"
| "tracked p = True"

fun releases :: "string \<Rightarrow> string \<Rightarrow> ('e, 'r) counter_op \<Rightarrow> bool" where
  "releases j token (Finish e job_id owner) =
    (job_id = j \<and> (owner = None \<or> owner = Some [] \<or> owner = Some token))"
| "releases j token (Recover r timeout now protected) = (j \<notin> set protected)"
| "releases j token p = False"

locale job_counter =
  fixes wf :: "'s \<Rightarrow> bool"
    and owner :: "'s \<Rightarrow> string \<Rightarrow> string option"
    and claim :: "'e \<Rightarrow> string \<Rightarrow> string \<Rightarrow> rat \<Rightarrow> string \<Rightarrow> string \<Rightarrow> 's \<Rightarrow> 's \<times> bool res"
    and touch :: "'e \<Rightarrow> string \<Rightarrow> rat \<Rightarrow> string option \<Rightarrow> 's \<Rightarrow> 's \<times> bool res"
    and owns :: "'e \<Rightarrow> string \<Rightarrow> string \<Rightarrow> 's \<Rightarrow> 's \<times> bool res"
    and finish :: "'e \<Rightarrow> string \<Rightarrow> string option \<Rightarrow> 's \<Rightarrow> 's \<times> bool res"
    and recover :: "'r \<Rightarrow> rat \<Rightarrow> rat \<Rightarrow> string list \<Rightarrow> 's \<Rightarrow> 's \<times> dict list res"
  assumes claim_wf: "wf s \<Longrightarrow> wf (fst (claim e title language started_at j token s))"
    and touch_wf: "wf s \<Longrightarrow> wf (fst (touch e j touched_at tok s))"
    and owns_wf: "wf s \<Longrightarrow> wf (fst (owns e j token s))"
    and finish_wf: "wf s \<Longrightarrow> wf (fst (finish e j tok s))"
    and recover_wf: "wf s \<Longrightarrow> wf (fst (recover r timeout now protected s))"
    and claim_owner: "wf s \<Longrightarrow> token \<noteq> [] \<Longrightarrow> claim e title language started_at j token s = (s', a) \<Longrightarrow>
      owner s' = owner s \<and> a \<noteq> Inr True \<or> owner s j = None \<and> owner s' = (owner s)(j \<mapsto> token)"
    and claim_refused: "wf s \<Longrightarrow> token \<noteq> [] \<Longrightarrow>
      claim e title language started_at j token s = (s', Inr False) \<Longrightarrow> owner s j \<noteq> None"
    and touch_owner: "wf s \<Longrightarrow> touch e j touched_at tok s = (s', a) \<Longrightarrow> owner s' = owner s"
    and touch_answer: "wf s \<Longrightarrow> token \<noteq> [] \<Longrightarrow> touch e j touched_at (Some token) s = (s', Inr b) \<Longrightarrow>
      b \<longleftrightarrow> owner s j = Some token"
    and owns_owner: "wf s \<Longrightarrow> owns e j token s = (s', a) \<Longrightarrow> owner s' = owner s"
    and owns_answer: "wf s \<Longrightarrow> token \<noteq> [] \<Longrightarrow> owns e j token s = (s', Inr b) \<Longrightarrow>
      b \<longleftrightarrow> owner s j = Some token"
    and finish_owner: "wf s \<Longrightarrow> finish e j tok s = (s', a) \<Longrightarrow> owner s' = owner s \<or>
      owner s' = (owner s)(j := None) \<and> (\<forall>token. tok = Some token \<longrightarrow> token \<noteq> [] \<longrightarrow> owner s j = Some token)"
    and finish_answer: "wf s \<Longrightarrow> token \<noteq> [] \<Longrightarrow> finish e j (Some token) s = (s', Inr True) \<Longrightarrow>
      owner s j = Some token \<and> owner s' j = None"
    and recover_owner: "wf s \<Longrightarrow> recover r timeout now protected s = (s', ds) \<Longrightarrow>
      owner s' j = owner s j \<or> owner s' j = None \<and> j \<notin> set protected"
begin

fun step :: "('e, 'r) counter_op \<Rightarrow> 's \<Rightarrow> 's" where
  "step (Claim e title language started_at j token) s = fst (claim e title language started_at j token s)"
| "step (Touch e j touched_at tok) s = fst (touch e j touched_at tok s)"
| "step (Owns e j token) s = fst (owns e j token s)"
| "step (Finish e j tok) s = fst (finish e j tok s)"
| "step (Recover r timeout now protected) s = fst (recover r timeout now protected s)"

fun run :: "('e, 'r) counter_op list \<Rightarrow> 's \<Rightarrow> 's" where
  "run [] s = s"
| "run (p # ps) s = run ps (step p s)"

lemma step_wf: "wf s \<Longrightarrow> wf (step p s)"
  by (cases p) (simp_all add: claim_wf touch_wf owns_wf finish_wf recover_wf)

lemma run_wf: "wf s \<Longrightarrow> wf (run ps s)"
  by (induction ps arbitrary: s) (simp_all add: step_wf)

lemma step_keeps:
  assumes "wf s" and "owner s j = Some token" and "token \<noteq> []"
    and "tracked p" and "\<not> releases j token p"
  shows "owner (step p s) j = Some token"
proof (cases p)
  case (Claim e title language started_at j' token')
  obtain s' a where c: "claim e title language started_at j' token' s = (s', a)"
    by (cases "claim e title language started_at j' token' s")
  with claim_owner [OF assms(1) _ c] assms Claim show ?thesis by auto
next
  case (Touch e j' touched_at tok)
  obtain s' a where c: "touch e j' touched_at tok s = (s', a)" by (cases "touch e j' touched_at tok s")
  with touch_owner [OF assms(1) c] assms Touch show ?thesis by simp
next
  case (Owns e j' token')
  obtain s' a where c: "owns e j' token' s = (s', a)" by (cases "owns e j' token' s")
  with owns_owner [OF assms(1) c] assms Owns show ?thesis by simp
next
  case (Finish e j' tok)
  obtain s' a where c: "finish e j' tok s = (s', a)" by (cases "finish e j' tok s")
  with finish_owner [OF assms(1) c] assms Finish show ?thesis by (cases tok) auto
next
  case (Recover r timeout now protected)
  obtain s' a where c: "recover r timeout now protected s = (s', a)"
    by (cases "recover r timeout now protected s")
  with recover_owner [OF assms(1) c, of j] assms Recover show ?thesis by auto
qed

text \<open>A lease survives every run that does not release it, and excludes every other owner.\<close>

lemma run_keeps:
  assumes "wf s" and "owner s j = Some token" and "token \<noteq> []"
    and "\<forall>p \<in> set ps. tracked p \<and> \<not> releases j token p"
  shows "owner (run ps s) j = Some token"
  using assms by (induction ps arbitrary: s) (simp_all add: step_keeps step_wf)

lemma lease_exclusive:
  assumes "wf s" and "owner s j = Some token" and "token \<noteq> []"
    and "\<forall>p \<in> set ps. tracked p \<and> \<not> releases j token p" and "other \<noteq> []"
  shows "snd (claim e title language started_at j other (run ps s)) \<noteq> Inr True"
    and "other \<noteq> token \<Longrightarrow> snd (owns e j other (run ps s)) \<noteq> Inr True"
    and "other \<noteq> token \<Longrightarrow> snd (touch e j touched_at (Some other) (run ps s)) \<noteq> Inr True"
    and "other \<noteq> token \<Longrightarrow> snd (finish e j (Some other) (run ps s)) \<noteq> Inr True"
    and "snd (owns e j token (run ps s)) \<noteq> Inr False"
proof -
  let ?s = "run ps s"
  have w: "wf ?s" using assms(1) by (rule run_wf)
  have h: "owner ?s j = Some token" using assms(1-4) by (rule run_keeps)
  show "snd (claim e title language started_at j other ?s) \<noteq> Inr True"
  proof
    assume "snd (claim e title language started_at j other ?s) = Inr True"
    then obtain s' where "claim e title language started_at j other ?s = (s', Inr True)"
      by (metis prod.collapse)
    from claim_owner [OF w assms(5) this] h show False by simp
  qed
  show "snd (owns e j other ?s) \<noteq> Inr True" if "other \<noteq> token"
    using owns_answer [OF w assms(5)] h that by (metis option.inject prod.collapse)
  show "snd (touch e j touched_at (Some other) ?s) \<noteq> Inr True" if "other \<noteq> token"
    using touch_answer [OF w assms(5)] h that by (metis option.inject prod.collapse)
  show "snd (finish e j (Some other) ?s) \<noteq> Inr True" if "other \<noteq> token"
    using finish_answer [OF w assms(5)] h that by (metis option.inject prod.collapse)
  show "snd (owns e j token ?s) \<noteq> Inr False"
    using owns_answer [OF w assms(3)] h by (metis prod.collapse)
qed

end

subsection \<open>QueueCounter provides the interface\<close>

definition qc_owner :: "queue_counter \<Rightarrow> string \<Rightarrow> string option" where
  "qc_owner c j =
    (if active j c then Some (case map_of (owner_tokens c) j of Some t \<Rightarrow> t | None \<Rightarrow> []) else None)"

text \<open>Every job is filed under its own identifier, once.\<close>

definition qc_wf :: "queue_counter \<Rightarrow> bool" where
  "qc_wf c \<longleftrightarrow> distinct (map fst (jobs c)) \<and> (\<forall>p \<in> set (jobs c). aj_job_id (snd p) = fst p)"


lemma active_drop [simp]: "active j (drop_job k c) \<longleftrightarrow> j \<noteq> k \<and> active j c"
  by (simp add: active_def drop_job_def)

lemma qc_owner_drop: "qc_owner (drop_job j c) = (qc_owner c)(j := None)"
  by (auto simp: qc_owner_def drop_job_def active_def fun_eq_iff)

lemma qc_wf_drop [wf_intros]: "qc_wf c \<Longrightarrow> qc_wf (drop_job j c)"
  by (auto simp: qc_wf_def drop_job_def AList_delete_filter distinct_map_filter)

lemma qc_wf_claim: "qc_wf c \<Longrightarrow> qc_wf (fst (qc_claim_job title language started_at j token c))"
  by (auto simp: qc_wf_def qc_claim_job_def build_job_def active_def map_of_None_fst
      AList_update_absent)

lemma qc_claim_owner:
  "qc_claim_job title language started_at j token c = (c', b) \<Longrightarrow>
    b \<longleftrightarrow> qc_owner c j = None"
  "qc_claim_job title language started_at j token c = (c', b) \<Longrightarrow>
    qc_owner c' = (if b then (qc_owner c)(j \<mapsto> token) else qc_owner c)"
  by (auto simp: qc_claim_job_def qc_owner_def active_def fun_eq_iff split: if_splits)

lemma qc_touch_owner:
  "qc_touch_job j touched_at tok c = (c', b) \<Longrightarrow> qc_owner c' = qc_owner c"
  "qc_wf c \<Longrightarrow> qc_touch_job j touched_at tok c = (c', b) \<Longrightarrow> qc_wf c'"
  "token \<noteq> [] \<Longrightarrow> qc_touch_job j touched_at (Some token) c = (c', b) \<Longrightarrow>
    b \<longleftrightarrow> qc_owner c j = Some token"
  by (auto simp: qc_touch_job_def qc_owner_def active_def qc_wf_def fun_eq_iff token_matches_def
      split: if_splits option.splits)

lemma qc_owns_owner: "token \<noteq> [] \<Longrightarrow> qc_owns_job j token c \<longleftrightarrow> qc_owner c j = Some token"
  by (auto simp: qc_owns_job_def qc_owner_def split: option.splits)

lemma qc_finish_owner:
  assumes "qc_finish_job j tok c = (c', b)"
  shows "qc_owner c' = (if b then (qc_owner c)(j := None) else qc_owner c)"
    and "qc_wf c \<Longrightarrow> qc_wf c'"
    and "b \<longleftrightarrow> active j c \<and> token_matches tok j c"
  using assms by (auto simp: qc_finish_job_def qc_owner_drop qc_wf_drop split: if_splits)

lemma token_matches_owner:
  "token \<noteq> [] \<Longrightarrow> active j c \<and> token_matches (Some token) j c \<longleftrightarrow> qc_owner c j = Some token"
  by (auto simp: token_matches_def qc_owner_def split: option.splits)

lemma remove_stale_owner:
  assumes "remove_stale stale c = (c', ds)"
  shows "qc_owner c' = (\<lambda>j. if j \<in> aj_job_id ` set stale then None else qc_owner c j)"
    and "qc_wf c \<Longrightarrow> qc_wf c'"
    and "map (dget ''job_id'') ds = map (\<lambda>job. JStr (aj_job_id job)) stale"
  using assms
proof (induction stale arbitrary: c ds)
  case Nil
  { case 1 then show ?case by simp next case 2 then show ?case by simp next case 3 then show ?case by simp }
next
  case (Cons job rest)
  { case 1
    then show ?case using Cons.IH(1) [of "drop_job (aj_job_id job) c"]
      by (auto simp: Let_def qc_owner_drop split: prod.splits)
  next
    case 2
    then show ?case using Cons.IH(2) [OF qc_wf_drop, of c "aj_job_id job"]
      by (auto simp: Let_def split: prod.splits)
  next
    case 3
    then show ?case using Cons.IH(3) [of "drop_job (aj_job_id job) c"]
      by (auto simp: Let_def active_job_dict_def dget_def dset_def split: prod.splits) }
qed

lemma remove_stale_tokens:
  "remove_stale stale c = (c', ds) \<Longrightarrow> map_of (owner_tokens c') k = Some t \<Longrightarrow>
    map_of (owner_tokens c) k = Some t"
proof (induction stale arbitrary: c ds)
  case Nil
  then show ?case by simp
next
  case (Cons job rest)
  then obtain ds' where "remove_stale rest (drop_job (aj_job_id job) c) = (c', ds')"
    by (auto simp: Let_def split: prod.splits)
  from Cons.IH [OF this Cons.prems(2)] show ?case by (simp add: drop_job_def split: if_splits)
qed

lemma qc_recover_owner:
  assumes "qc_recover_stale_jobs timeout now protected c = (c', ds)"
  shows "qc_owner c' j = qc_owner c j \<or> qc_owner c' j = None \<and> j \<notin> set protected"
    and "qc_wf c \<Longrightarrow> qc_wf c'"
  using remove_stale_owner(1,2) [OF assms [unfolded qc_recover_stale_jobs_def]]
  by (auto simp: is_stale_def)

interpretation local_counter: job_counter qc_wf qc_owner
  "\<lambda>(e::unit) title language started_at j token c.
     map_prod id Inr (qc_claim_job title language started_at j token c)"
  "\<lambda>e j touched_at tok c. map_prod id Inr (qc_touch_job j touched_at tok c)"
  "\<lambda>e j token c. (c, Inr (qc_owns_job j token c))"
  "\<lambda>e j tok c. map_prod id Inr (qc_finish_job j tok c)"
  "\<lambda>(r::unit) timeout now protected c. map_prod id Inr (qc_recover_stale_jobs timeout now protected c)"
proof (unfold_locales, goal_cases)
  case (1 s e title language started_at j token)
  then show ?case by (simp add: qc_wf_claim)
next
  case (2 s e j touched_at tok)
  then show ?case
    by (cases "qc_touch_job j touched_at tok s") (simp add: qc_touch_owner(2))
next
  case (3 s e j token)
  then show ?case by simp
next
  case (4 s e j tok)
  then show ?case by (cases "qc_finish_job j tok s") (simp add: qc_finish_owner(2))
next
  case (5 s r timeout now protected)
  then show ?case
    by (cases "qc_recover_stale_jobs timeout now protected s") (simp add: qc_recover_owner(2))
next
  case (6 s token e title language started_at j s' a)
  obtain c' b where c: "qc_claim_job title language started_at j token s = (c', b)"
    by (cases "qc_claim_job title language started_at j token s")
  with 6 qc_claim_owner [OF c] show ?case by (cases b) auto
next
  case (7 s token e title language started_at j s')
  then show ?case
    by (cases "qc_claim_job title language started_at j token s")
      (auto dest: qc_claim_owner)
next
  case (8 s e j touched_at tok s' a)
  then show ?case by (cases "qc_touch_job j touched_at tok s") (simp add: qc_touch_owner(1))
next
  case (9 s token e j touched_at s' b)
  then show ?case
    by (cases "qc_touch_job j touched_at (Some token) s") (simp add: qc_touch_owner(3))
next
  case (10 s e j token s' a)
  then show ?case by simp
next
  case (11 s token e j s' b)
  then show ?case by (auto simp: qc_owns_owner)
next
  case (12 s e j tok s' a)
  obtain c' b where c: "qc_finish_job j tok s = (c', b)" by (cases "qc_finish_job j tok s")
  with 12 qc_finish_owner(1,3) [OF c] token_matches_owner [of _ j s] show ?case
    by (cases b) auto
next
  case (13 s token e j s')
  obtain c' b where c: "qc_finish_job j (Some token) s = (c', b)"
    by (cases "qc_finish_job j (Some token) s")
  with 13 qc_finish_owner(1,3) [OF c] token_matches_owner [of token j s] show ?case by auto
next
  case (14 s r timeout now protected s' ds j)
  then show ?case
    by (cases "qc_recover_stale_jobs timeout now protected s") (auto dest: qc_recover_owner(1))
qed

end
