(* ===== verification/RedisCounter.thy ===== *)
theory RedisCounter
  imports JobCounter
begin

text \<open>
  \<open>RedisQueueCounter\<close> of \<open>api/services/entry_translator_service.py\<close>: active-job records
  and heartbeats in two Redis hashes shared by all translators, with an in-process
  \<open>QueueCounter\<close> to fall back on.  The Lua scripts are functions of the two hashes; the
  client functions decide per operation whether a failing Redis call raises or falls
  back.  The messages of \<open>TranslationJobStoreError\<close> are told apart as follows:
  \<open>CannotWrite\<close> for a failed claim, \<open>CannotUpdate\<close> for a failed refresh, \<open>CannotRead\<close> for
  a failed ownership check.
\<close>

record active_store =
  records :: rhash
  beats :: "(string \<times> num_text) list"

record redis_counter =
  store :: active_store
  fallback :: queue_counter
  using_fallback :: bool
  redis_legacy_ids :: "string list"

definition source :: "redis_counter \<Rightarrow> string" where
  "source c = (if using_fallback c then ''local-fallback'' else ''redis'')"

subsection \<open>The scripts\<close>

definition claim_job_script :: "string \<Rightarrow> raw \<Rightarrow> num_text \<Rightarrow> active_store \<Rightarrow> active_store \<times> nat res" where
  "claim_job_script j rec beat st =
    (case map_of (records st) j of
       Some r \<Rightarrow> (st, Inr 0)
     | None \<Rightarrow> (st\<lparr>records := AList.update j rec (records st),
                  beats := AList.update j beat (beats st)\<rparr>, Inr 1))"

text \<open>The owner test shared by the scripts; the empty token asks for no owner.\<close>

definition owner_field :: "raw \<Rightarrow> json option res" where
  "owner_field raw = bnd (lua_decode raw) (lua_index ''_owner_token'')"

definition owner_allows :: "string \<Rightarrow> raw \<Rightarrow> bool res" where
  "owner_allows token raw =
    (if token = [] then Inr True
     else bnd (owner_field raw) (\<lambda>f. Inr (f = Some (JStr token))))"

definition forget_beat :: "string \<Rightarrow> active_store \<Rightarrow> active_store" where
  "forget_beat j st = st\<lparr>beats := AList.delete j (beats st)\<rparr>"

definition forget_job :: "string \<Rightarrow> active_store \<Rightarrow> active_store" where
  "forget_job j st =
    st\<lparr>records := AList.delete j (records st), beats := AList.delete j (beats st)\<rparr>"

definition touch_job_script :: "string \<Rightarrow> num_text \<Rightarrow> string \<Rightarrow> active_store \<Rightarrow> active_store \<times> nat res" where
  "touch_job_script j beat token st =
    (case map_of (records st) j of
       None \<Rightarrow> (forget_beat j st, Inr 0)
     | Some raw \<Rightarrow>
       (case owner_allows token raw of
          Inl e \<Rightarrow> (st, Inl e)
        | Inr False \<Rightarrow> (st, Inr 0)
        | Inr True \<Rightarrow> (st\<lparr>beats := AList.update j beat (beats st)\<rparr>, Inr 1)))"

definition finish_job_script :: "string \<Rightarrow> string \<Rightarrow> active_store \<Rightarrow> active_store \<times> nat res" where
  "finish_job_script j token st =
    (case map_of (records st) j of
       None \<Rightarrow> (forget_beat j st, Inr 0)
     | Some raw \<Rightarrow>
       (case owner_allows token raw of
          Inl e \<Rightarrow> (st, Inl e)
        | Inr False \<Rightarrow> (st, Inr 0)
        | Inr True \<Rightarrow> (forget_job j st, Inr 1)))"

definition owns_job_script :: "string \<Rightarrow> string \<Rightarrow> active_store \<Rightarrow> active_store \<times> nat res" where
  "owns_job_script j token st =
    (case map_of (records st) j of
       None \<Rightarrow> (st, Inr 0)
     | Some raw \<Rightarrow>
       (st, bnd (owner_field raw) (\<lambda>f. Inr (if f = Some (JStr token) then 1 else 0))))"

definition missing_beat :: num_text where
  "missing_beat = OtherText ''__missing__''"

definition recover_job_script :: "string \<Rightarrow> num_text \<Rightarrow> active_store \<Rightarrow> active_store \<times> nat res" where
  "recover_job_script j observed st =
    (if map_of (records st) j = None then (st, Inr 0)
     else
       let heartbeat = map_of (beats st) j in
       if observed = missing_beat then
         (if heartbeat \<noteq> None then (st, Inr 0) else (forget_job j st, Inr 1))
       else if heartbeat \<noteq> Some observed then (st, Inr 0)
       else (forget_job j st, Inr 1))"

subsection \<open>The client\<close>

definition redis_get :: "bool \<Rightarrow> redis_counter \<Rightarrow> redis_counter \<times> nat" where
  "redis_get ok c =
    (if ok then (c\<lparr>using_fallback := False\<rparr>, length (records (store c)))
     else (c\<lparr>using_fallback := True\<rparr>, qc_get (fallback c)))"

definition job_record :: "string \<Rightarrow> string \<Rightarrow> rat \<Rightarrow> string \<Rightarrow> dict" where
  "job_record title language started_at owner_token =
    (let job = [(''title'', JStr title), (''language'', JStr language),
                (''started_at'', JFloat (Finite started_at))]
     in if owner_token = [] then job else dset ''_owner_token'' (JStr owner_token) job)"

definition claim_redis_job ::
  "io \<Rightarrow> string \<Rightarrow> string \<Rightarrow> rat \<Rightarrow> string \<Rightarrow> string \<Rightarrow> redis_counter \<Rightarrow> redis_counter \<times> bool res" where
  "claim_redis_job i title language started_at job_id owner_token c =
    (case redis_call i (claim_job_script job_id
            (Text (JDict (job_record title language started_at owner_token)))
            (NumText (Finite started_at))) (store c) of
       (st, r) \<Rightarrow> (c\<lparr>store := st\<rparr>, map_sum id (\<lambda>n. n \<noteq> 0) r))"

definition redis_start_job ::
  "io \<Rightarrow> string \<Rightarrow> string \<Rightarrow> rat \<Rightarrow> string option \<Rightarrow> string \<Rightarrow> redis_counter
    \<Rightarrow> redis_counter \<times> string res" where
  "redis_start_job i title language started_at job_id uuid c =
    (let j = chosen_id job_id uuid in
     case claim_redis_job i title language started_at j [] c of
       (c', Inr claimed) \<Rightarrow>
         if claimed then (c'\<lparr>using_fallback := False\<rparr>, Inr j) else (c', Inl RuntimeError)
     | (c', Inl e) \<Rightarrow>
         (case qc_start_job title language started_at (Some j) uuid (fallback c') of
            (f, r) \<Rightarrow> (c'\<lparr>using_fallback := True, fallback := f\<rparr>, r)))"

definition redis_claim_job ::
  "io \<Rightarrow> string \<Rightarrow> string \<Rightarrow> rat \<Rightarrow> string \<Rightarrow> string \<Rightarrow> redis_counter \<Rightarrow> redis_counter \<times> bool res" where
  "redis_claim_job i title language started_at job_id owner_token c =
    (case claim_redis_job i title language started_at job_id owner_token c of
       (c', Inr claimed) \<Rightarrow> (c'\<lparr>using_fallback := False\<rparr>, Inr claimed)
     | (c', Inl e) \<Rightarrow>
         (c'\<lparr>using_fallback := False\<rparr>, Inl (TranslationJobStoreError CannotWrite)))"

definition token_arg :: "string option \<Rightarrow> string" where
  "token_arg owner_token = (case owner_token of None \<Rightarrow> [] | Some t \<Rightarrow> t)"

definition redis_touch_job ::
  "io \<Rightarrow> string \<Rightarrow> rat \<Rightarrow> string option \<Rightarrow> redis_counter \<Rightarrow> redis_counter \<times> bool res" where
  "redis_touch_job i job_id touched_at owner_token c =
    (case redis_call i (touch_job_script job_id (NumText (Finite touched_at)) (token_arg owner_token))
            (store c) of
       (st, Inr n) \<Rightarrow> (c\<lparr>store := st, using_fallback := False\<rparr>, Inr (n \<noteq> 0))
     | (st, Inl e) \<Rightarrow>
         if owner_token \<noteq> None
         then (c\<lparr>store := st, using_fallback := False\<rparr>, Inl (TranslationJobStoreError CannotUpdate))
         else (case qc_touch_job job_id touched_at owner_token (fallback c) of
                 (f, b) \<Rightarrow> (c\<lparr>store := st, using_fallback := True, fallback := f\<rparr>, Inr b)))"

definition redis_owns_job :: "io \<Rightarrow> string \<Rightarrow> string \<Rightarrow> redis_counter \<Rightarrow> redis_counter \<times> bool res" where
  "redis_owns_job i job_id owner_token c =
    (case redis_call i (owns_job_script job_id owner_token) (store c) of
       (st, Inr n) \<Rightarrow> (c\<lparr>store := st, using_fallback := False\<rparr>, Inr (n \<noteq> 0))
     | (st, Inl e) \<Rightarrow> (c\<lparr>store := st\<rparr>, Inl (TranslationJobStoreError CannotRead)))"

definition redis_finish_job ::
  "io \<Rightarrow> string \<Rightarrow> string option \<Rightarrow> redis_counter \<Rightarrow> redis_counter \<times> bool res" where
  "redis_finish_job i job_id owner_token c =
    (case redis_call i (finish_job_script job_id (token_arg owner_token)) (store c) of
       (st, Inr n) \<Rightarrow> (c\<lparr>store := st, using_fallback := False\<rparr>, Inr (n \<noteq> 0))
     | (st, Inl e) \<Rightarrow>
         (case qc_finish_job job_id owner_token (fallback c) of
            (f, b) \<Rightarrow> (c\<lparr>store := st, using_fallback := True, fallback := f\<rparr>, Inr b)))"

definition redis_increment :: "io \<Rightarrow> string \<Rightarrow> rat \<Rightarrow> redis_counter \<Rightarrow> redis_counter \<times> unit res" where
  "redis_increment i uuid now c =
    (case redis_start_job i [] [] now None uuid c of
       (c', Inl e) \<Rightarrow> (c', Inl e)
     | (c', Inr j) \<Rightarrow> (c'\<lparr>redis_legacy_ids := redis_legacy_ids c' @ [j]\<rparr>, Inr ()))"

definition redis_decrement :: "io \<Rightarrow> redis_counter \<Rightarrow> redis_counter" where
  "redis_decrement i c =
    (if redis_legacy_ids c = [] then c
     else let j = last (redis_legacy_ids c);
              c' = c\<lparr>redis_legacy_ids := butlast (redis_legacy_ids c)\<rparr>
          in if j = [] then c' else fst (redis_finish_job i j None c'))"


subsection \<open>Recovering stale jobs\<close>

text \<open>
  Recovery reads both hashes and then runs one script per candidate.  The environment
  says what other processes do before each of these calls and which calls fail.
\<close>

record recover_env =
  before_scan :: "active_store \<Rightarrow> active_store"
  scan_ok :: bool
  between_reads :: "active_store \<Rightarrow> active_store"
  beats_ok :: bool
  before_script :: "nat \<Rightarrow> active_store \<Rightarrow> active_store"
  script_io :: "nat \<Rightarrow> io"

definition calm :: recover_env where
  "calm = \<lparr>before_scan = id, scan_ok = True, between_reads = id, beats_ok = True,
     before_script = (\<lambda>n. id), script_io = (\<lambda>n. Acked)\<rparr>"

definition observed_beat :: "(string \<times> num_text) list \<Rightarrow> string \<Rightarrow> num_text" where
  "observed_beat hbs j = (case map_of hbs j of Some t \<Rightarrow> t | None \<Rightarrow> missing_beat)"

definition scanned_heartbeat :: "(string \<times> num_text) list \<Rightarrow> string \<Rightarrow> json \<Rightarrow> pyfloat res" where
  "scanned_heartbeat hbs j started_at =
    (case map_of hbs j of Some t \<Rightarrow> float_of_text t | None \<Rightarrow> py_float started_at)"

fun stale_candidates ::
  "rat \<Rightarrow> rat \<Rightarrow> string list \<Rightarrow> (string \<times> num_text) list \<Rightarrow> rhash \<Rightarrow> (string \<times> dict \<times> num_text) list res"
where
  "stale_candidates timeout now protected hbs [] = Inr []"
| "stale_candidates timeout now protected hbs ((j, raw) # rs) =
    bnd (loads raw) (\<lambda>v.
    case v of
      JDict d \<Rightarrow>
        (let job = dset ''job_id'' (JStr j) d in
         bnd (dindex ''started_at'' job) (\<lambda>started_at.
         bnd (scanned_heartbeat hbs j started_at) (\<lambda>last.
         bnd (stale_candidates timeout now protected hbs rs) (\<lambda>cs.
           Inr (if j \<notin> set protected \<and> f_le (Finite timeout) (f_sub now last)
                then (j, job, observed_beat hbs j) # cs else cs)))))
    | _ \<Rightarrow> Inl TypeError)"

fun recover_each ::
  "recover_env \<Rightarrow> nat \<Rightarrow> (string \<times> dict \<times> num_text) list \<Rightarrow> active_store \<Rightarrow> active_store \<times> dict list res"
where
  "recover_each env n [] st = (st, Inr [])"
| "recover_each env n ((j, job, observed) # cs) st =
    (case redis_call (script_io env n) (recover_job_script j observed) (before_script env n st) of
       (st1, Inl e) \<Rightarrow> (st1, Inl e)
     | (st1, Inr removed) \<Rightarrow>
       (case recover_each env (Suc n) cs st1 of
          (st2, Inl e) \<Rightarrow> (st2, Inl e)
        | (st2, Inr ds) \<Rightarrow> (st2, Inr (if removed \<noteq> 0 then job # ds else ds))))"

text \<open>
  The body of the \<open>try\<close> block.  Every exception it can raise is one the handler
  catches, so \<open>redis_recover_stale_jobs\<close> falls back on each of them.
\<close>

definition recover_redis_jobs ::
  "recover_env \<Rightarrow> rat \<Rightarrow> rat \<Rightarrow> string list \<Rightarrow> active_store \<Rightarrow> active_store \<times> dict list res" where
  "recover_redis_jobs env timeout now protected st =
    (let st1 = before_scan env st in
     if \<not> scan_ok env then (st1, Inl RedisError)
     else
       let st2 = between_reads env st1 in
       if \<not> beats_ok env then (st2, Inl RedisError)
       else case stale_candidates timeout now protected (beats st2) (records st1) of
         Inl e \<Rightarrow> (st2, Inl e)
       | Inr cs \<Rightarrow> recover_each env 0 cs st2)"

definition redis_recover_stale_jobs ::
  "recover_env \<Rightarrow> rat \<Rightarrow> rat \<Rightarrow> string list \<Rightarrow> redis_counter \<Rightarrow> redis_counter \<times> dict list" where
  "redis_recover_stale_jobs env timeout now protected c =
    (case recover_redis_jobs env timeout now protected (store c) of
       (st, Inr ds) \<Rightarrow> (c\<lparr>store := st, using_fallback := False\<rparr>, ds)
     | (st, Inl e) \<Rightarrow>
         (case qc_recover_stale_jobs timeout now protected (fallback c) of
            (f, ds) \<Rightarrow> (c\<lparr>store := st, using_fallback := True, fallback := f\<rparr>, ds)))"

lemma recover_script_removes:
  assumes "recover_job_script j observed st = (st', r)"
  shows "st' = st \<or> st' = forget_job j st \<and> observed_beat (beats st) j = observed"
  using assms by (auto simp: recover_job_script_def observed_beat_def Let_def split: if_splits option.splits)

lemma recover_script_forgets:
  "recover_job_script j observed st = (st', Inr n) \<Longrightarrow> n \<noteq> 0 \<Longrightarrow>
    st' = forget_job j st \<and> map_of (records st) j \<noteq> None \<and> observed_beat (beats st) j = observed"
  by (auto simp: recover_job_script_def observed_beat_def Let_def split: if_splits option.splits)

lemma records_forget_job: "map_of (records (forget_job k st)) j =
    (if j = k then None else map_of (records st) j)"
  by (simp add: forget_job_def)

lemma stale_candidate_scanned:
  assumes "stale_candidates timeout now protected hbs rs = Inr cs" and "(j, job, observed) \<in> set cs"
  shows "j \<notin> set protected \<and> observed = observed_beat hbs j \<and> dget ''job_id'' job = JStr j \<and>
    (\<exists>raw d started_at last. (j, raw) \<in> set rs \<and> loads raw = Inr (JDict d) \<and>
       scanned_heartbeat hbs j started_at = Inr last \<and> f_le (Finite timeout) (f_sub now last))"
  using assms
proof (induction rs arbitrary: cs)
  case Nil
  then show ?case by simp
next
  case (Cons p rs)
  obtain k raw where p: "p = (k, raw)" by (cases p)
  obtain d where d: "loads raw = Inr (JDict d)"
  proof -
    obtain v where v: "loads raw = Inr v" using Cons.prems(1) by (auto simp: p bnd_Inr_iff)
    with Cons.prems(1) show ?thesis by (cases v) (auto simp: p intro: that)
  qed
  obtain started_at last cs' where s:
    "scanned_heartbeat hbs k started_at = Inr last"
    "stale_candidates timeout now protected hbs rs = Inr cs'"
    "cs = (if k \<notin> set protected \<and> f_le (Finite timeout) (f_sub now last)
       then (k, dset ''job_id'' (JStr k) d, observed_beat hbs k) # cs' else cs')"
    using Cons.prems(1) d by (auto simp: p bnd_Inr_iff Let_def)
  show ?case
  proof (cases "(j, job, observed) \<in> set cs'")
    case True
    from Cons.IH [OF s(2) this] show ?thesis by auto
  next
    case False
    with Cons.prems(2) s(3) have "k \<notin> set protected" "f_le (Finite timeout) (f_sub now last)"
      "j = k" "job = dset ''job_id'' (JStr k) d" "observed = observed_beat hbs k"
      by (auto split: if_splits)
    with d s(1) show ?thesis by (auto simp: p)
  qed
qed

text \<open>
  A job is spared as long as nobody else removes its record and, at every instant of
  the interleaving, either it is no candidate or its heartbeat is not the observed one.
\<close>

lemma recover_each_spares:
  assumes "recover_each env n cs st = (st', r)" and "map_of (records st) j \<noteq> None"
    and "\<And>m st. map_of (records st) j \<noteq> None \<Longrightarrow> map_of (records (before_script env m st)) j \<noteq> None"
    and "\<And>m st job observed. (j, job, observed) \<in> set cs \<Longrightarrow>
      observed_beat (beats (before_script env m st)) j \<noteq> observed"
  shows "map_of (records st') j \<noteq> None"
  using assms
proof (induction cs arbitrary: n st st' r)
  case Nil
  then show ?case by simp
next
  case (Cons p cs)
  obtain k job observed where p: "p = (k, job, observed)" by (cases p)
  let ?st = "before_script env n st"
  obtain st1 r1 where call:
    "redis_call (script_io env n) (recover_job_script k observed) ?st = (st1, r1)"
    by (cases "redis_call (script_io env n) (recover_job_script k observed) ?st")
  obtain st1' r1' where scr: "recover_job_script k observed ?st = (st1', r1')"
    by (cases "recover_job_script k observed ?st")
  have "st1 = ?st \<or> st1 = st1'" using redis_call_state [OF call] scr by simp
  then have kept: "map_of (records st1) j \<noteq> None"
    using recover_script_removes [OF scr] Cons.prems(3) [OF Cons.prems(2), of n]
      Cons.prems(4) [of job observed n st]
    by (cases "j = k") (auto simp: records_forget_job p)
  show ?case
  proof (cases r1)
    case (Inl e)
    with Cons.prems(1) call kept show ?thesis by (simp add: p)
  next
    case (Inr removed)
    obtain st2 r2 where rest: "recover_each env (Suc n) cs st1 = (st2, r2)"
      by (cases "recover_each env (Suc n) cs st1")
    with Cons.prems(1) call Inr have "st' = st2" by (auto simp: p split: sum.splits)
    moreover have "map_of (records st2) j \<noteq> None"
      by (rule Cons.IH [OF rest kept Cons.prems(3)]) (use Cons.prems(4) in auto)
    ultimately show ?thesis by simp
  qed
qed


lemma recover_each_quiet_removed:
  assumes "recover_each env n cs st = (st', r)" and "\<And>m st. before_script env m st = st"
  shows "map_of (records st') j = map_of (records st) j \<or>
    map_of (records st') j = None \<and> (\<exists>job observed. (j, job, observed) \<in> set cs)"
  using assms
proof (induction cs arbitrary: n st st' r)
  case Nil
  then show ?case by simp
next
  case (Cons p cs)
  obtain k job observed where p: "p = (k, job, observed)" by (cases p)
  obtain st1 r1 where call:
    "redis_call (script_io env n) (recover_job_script k observed) st = (st1, r1)"
    by (cases "redis_call (script_io env n) (recover_job_script k observed) st")
  obtain st1' r1' where scr: "recover_job_script k observed st = (st1', r1')"
    by (cases "recover_job_script k observed st")
  have "st1 = st \<or> st1 = st1'" using redis_call_state [OF call] scr by simp
  then have one: "map_of (records st1) j = map_of (records st) j \<or> j = k \<and> map_of (records st1) j = None"
    using recover_script_removes [OF scr] by (auto simp: records_forget_job split: if_splits)
  show ?case
  proof (cases r1)
    case (Inl e)
    with Cons.prems call one show ?thesis by (auto simp: p)
  next
    case (Inr removed)
    obtain st2 r2 where rest: "recover_each env (Suc n) cs st1 = (st2, r2)"
      by (cases "recover_each env (Suc n) cs st1")
    with Cons.prems call Inr have "st' = st2" by (auto simp: p split: sum.splits)
    with Cons.IH [OF rest Cons.prems(2)] one show ?thesis by (auto simp: p)
  qed
qed

text \<open>A returned job was removed by its own script, while its heartbeat was the observed one.\<close>

lemma recover_each_returned:
  assumes "recover_each env n cs st = (st', Inr ds)" and "d \<in> set ds"
  shows "\<exists>j observed m st1. (j, d, observed) \<in> set cs \<and>
    observed_beat (beats (before_script env m st1)) j = observed \<and>
    map_of (records (before_script env m st1)) j \<noteq> None"
  using assms
proof (induction cs arbitrary: n st st' ds)
  case Nil
  then show ?case by simp
next
  case (Cons p cs)
  obtain k job observed where p: "p = (k, job, observed)" by (cases p)
  obtain st1 removed where call:
    "redis_call (script_io env n) (recover_job_script k observed) (before_script env n st) = (st1, Inr removed)"
    using Cons.prems(1) by (auto simp: p split: prod.splits sum.splits)
  obtain st2 ds2 where rest: "recover_each env (Suc n) cs st1 = (st2, Inr ds2)"
    and ds: "ds = (if removed \<noteq> 0 then job # ds2 else ds2)"
    using Cons.prems(1) call by (auto simp: p split: prod.splits sum.splits)
  show ?case
  proof (cases "d \<in> set ds2")
    case True
    from Cons.IH [OF rest True] show ?thesis by (metis list.set_intros(2))
  next
    case False
    with ds Cons.prems(2) have dj: "removed \<noteq> 0" "d = job" by (auto split: if_splits)
    have "recover_job_script k observed (before_script env n st) = (st1, Inr removed)"
      using redis_call_Inr [OF call] by simp
    from recover_script_forgets [OF this dj(1)] dj(2) p show ?thesis
      by (metis list.set_intros(1))
  qed
qed

subsection \<open>RedisQueueCounter provides the interface\<close>

text \<open>
  The lease of a record is the string in its owner field; a record without such a
  string, or that cannot be read, has no owner but is active.
\<close>

definition raw_owner :: "raw \<Rightarrow> string" where
  "raw_owner raw = (case owner_field raw of Inr (Some (JStr t)) \<Rightarrow> t | _ \<Rightarrow> [])"

definition rec_owner :: "active_store \<Rightarrow> string \<Rightarrow> string option" where
  "rec_owner st j = map_option raw_owner (map_of (records st) j)"

definition redis_owner :: "redis_counter \<Rightarrow> string \<Rightarrow> string option" where
  "redis_owner c = rec_owner (store c)"

text \<open>The fallback never holds a lease of a named owner: only \<open>start_job\<close> claims there.\<close>

definition redis_wf :: "redis_counter \<Rightarrow> bool" where
  "redis_wf c \<longleftrightarrow> (\<forall>j t. map_of (owner_tokens (fallback c)) j = Some t \<longrightarrow> t = [])"

lemma owner_allows_Inr:
  "token \<noteq> [] \<Longrightarrow> owner_allows token raw = Inr b \<Longrightarrow> b \<longleftrightarrow> raw_owner raw = token"
  by (auto simp: owner_allows_def raw_owner_def bnd_Inr_iff split: option.splits json.splits)

lemma raw_owner_job_record:
  "token \<noteq> [] \<Longrightarrow> raw_owner (Text (JDict (job_record title language t token))) = token"
  by (simp add: raw_owner_def owner_field_def job_record_def Let_def dset_def)

lemma rec_owner_forget [simp]:
  "rec_owner (forget_job j st) = (rec_owner st)(j := None)" "rec_owner (forget_beat j st) = rec_owner st"
  by (auto simp: rec_owner_def forget_job_def forget_beat_def fun_eq_iff)

lemma rec_owner_beats [simp]: "rec_owner (st\<lparr>beats := bs\<rparr>) = rec_owner st"
  by (simp add: rec_owner_def fun_eq_iff)

lemma claim_script_owner:
  assumes "claim_job_script j (Text (JDict (job_record title language t token))) beat st = (st', r)"
    and "token \<noteq> []"
  shows "rec_owner st j = None \<and> r = Inr 1 \<and> rec_owner st' = (rec_owner st)(j \<mapsto> token) \<or>
    rec_owner st j \<noteq> None \<and> r = Inr 0 \<and> st' = st"
  using assms
  by (auto simp: claim_job_script_def rec_owner_def fun_eq_iff raw_owner_job_record
      split: option.splits if_splits)

lemma touch_script_owner:
  assumes "touch_job_script j beat token st = (st', r)"
  shows "rec_owner st' = rec_owner st"
    and "token \<noteq> [] \<Longrightarrow> r = Inr n \<Longrightarrow> n \<noteq> 0 \<longleftrightarrow> rec_owner st j = Some token"
proof -
  show "rec_owner st' = rec_owner st"
    using assms by (auto simp: touch_job_script_def split: option.splits sum.splits bool.splits)
  show "n \<noteq> 0 \<longleftrightarrow> rec_owner st j = Some token" if "token \<noteq> []" "r = Inr n"
    using assms that owner_allows_Inr [OF that(1)]
    by (cases "map_of (records st) j")
      (auto simp: touch_job_script_def rec_owner_def split: sum.splits bool.splits)
qed

lemma finish_script_owner:
  assumes "finish_job_script j token st = (st', r)"
  shows "rec_owner st' = rec_owner st \<or>
      rec_owner st' = (rec_owner st)(j := None) \<and> (token \<noteq> [] \<longrightarrow> rec_owner st j = Some token)"
    and "r = Inr n \<Longrightarrow> n \<noteq> 0 \<Longrightarrow> rec_owner st' j = None \<and> (token \<noteq> [] \<longrightarrow> rec_owner st j = Some token)"
  using assms owner_allows_Inr [of token]
  by (auto simp: finish_job_script_def rec_owner_def [of st]
      split: option.splits sum.splits bool.splits)

lemma owns_script_owner:
  assumes "owns_job_script j token st = (st', r)"
  shows "st' = st" and "token \<noteq> [] \<Longrightarrow> r = Inr n \<Longrightarrow> n \<noteq> 0 \<longleftrightarrow> rec_owner st j = Some token"
  using assms
  by (auto simp: owns_job_script_def rec_owner_def raw_owner_def bnd_Inr_iff
      split: option.splits json.splits if_splits)


lemma redis_claim_owner:
  assumes "redis_claim_job i title language t j token c = (c', a)" and "token \<noteq> []"
  shows "redis_owner c' = redis_owner c \<and> a \<noteq> Inr True \<or>
      redis_owner c j = None \<and> redis_owner c' = (redis_owner c)(j \<mapsto> token)"
    and "a = Inr False \<Longrightarrow> redis_owner c j \<noteq> None"
    and "fallback c' = fallback c"
proof -
  let ?script = "claim_job_script j (Text (JDict (job_record title language t token)))
    (NumText (Finite t))"
  obtain st r where call: "redis_call i ?script (store c) = (st, r)"
    by (cases "redis_call i ?script (store c)")
  obtain st1 r1 where scr: "?script (store c) = (st1, r1)" by (cases "?script (store c)")
  have c': "store c' = st" "fallback c' = fallback c"
    "a = (case r of Inl e \<Rightarrow> Inl (TranslationJobStoreError CannotWrite) | Inr n \<Rightarrow> Inr (n \<noteq> 0))"
    using assms(1) call by (auto simp: redis_claim_job_def claim_redis_job_def split: sum.splits)
  have r: "(\<exists>e. r = Inl e) \<or> r = r1 \<and> st = st1"
    using redis_call_Inr [of i ?script "store c" st] call scr by (cases r) auto
  have st: "st = store c \<or> st = st1" using redis_call_state [OF call] scr by auto
  from claim_script_owner [OF scr assms(2)] r st c'
  show "redis_owner c' = redis_owner c \<and> a \<noteq> Inr True \<or>
      redis_owner c j = None \<and> redis_owner c' = (redis_owner c)(j \<mapsto> token)"
    by (auto simp: redis_owner_def)
  from claim_script_owner [OF scr assms(2)] r c'
  show "redis_owner c j \<noteq> None" if "a = Inr False" using that by (auto simp: redis_owner_def)
  show "fallback c' = fallback c" by (rule c'(2))
qed

lemma redis_touch_owner:
  assumes "redis_touch_job i j t tok c = (c', a)"
  shows "redis_owner c' = redis_owner c"
    and "tok = Some token \<Longrightarrow> token \<noteq> [] \<Longrightarrow> a = Inr b \<Longrightarrow> b \<longleftrightarrow> redis_owner c j = Some token"
    and "owner_tokens (fallback c') = owner_tokens (fallback c)"
proof -
  let ?script = "touch_job_script j (NumText (Finite t)) (token_arg tok)"
  obtain st r where call: "redis_call i ?script (store c) = (st, r)"
    by (cases "redis_call i ?script (store c)")
  obtain st1 r1 where scr: "?script (store c) = (st1, r1)" by (cases "?script (store c)")
  have st: "st = store c \<or> st = st1" using redis_call_state [OF call] scr by auto
  have "store c' = st"
    using assms call by (auto simp: redis_touch_job_def split: sum.splits if_splits prod.splits)
  then show "redis_owner c' = redis_owner c"
    using st touch_script_owner(1) [OF scr] by (auto simp: redis_owner_def)
  show "owner_tokens (fallback c') = owner_tokens (fallback c)"
    using assms by (auto simp: redis_touch_job_def qc_touch_job_def split: sum.splits if_splits prod.splits)
  show "b \<longleftrightarrow> redis_owner c j = Some token" if "tok = Some token" "token \<noteq> []" "a = Inr b"
  proof (cases r)
    case (Inl e)
    with assms call that show ?thesis by (simp add: redis_touch_job_def)
  next
    case (Inr n)
    have "?script (store c) = (st, Inr n)"
      using redis_call_Inr [OF call [unfolded Inr]] by simp
    from touch_script_owner(2) [OF this _ refl] assms call that Inr show ?thesis
      by (auto simp: redis_touch_job_def token_arg_def redis_owner_def)
  qed
qed

lemma redis_owns_owner:
  assumes "redis_owns_job i j token c = (c', a)"
  shows "redis_owner c' = redis_owner c" and "fallback c' = fallback c"
    and "token \<noteq> [] \<Longrightarrow> a = Inr b \<Longrightarrow> b \<longleftrightarrow> redis_owner c j = Some token"
proof -
  let ?script = "owns_job_script j token"
  obtain st r where call: "redis_call i ?script (store c) = (st, r)"
    by (cases "redis_call i ?script (store c)")
  obtain st1 r1 where scr: "?script (store c) = (st1, r1)" by (cases "?script (store c)")
  have st: "st = store c"
    using redis_call_state [OF call] scr owns_script_owner(1) [OF scr] by auto
  show "redis_owner c' = redis_owner c" "fallback c' = fallback c"
    using assms call st by (auto simp: redis_owns_job_def redis_owner_def split: sum.splits)
  show "b \<longleftrightarrow> redis_owner c j = Some token" if "token \<noteq> []" "a = Inr b"
  proof (cases r)
    case (Inl e)
    with assms call that show ?thesis by (simp add: redis_owns_job_def)
  next
    case (Inr n)
    have "?script (store c) = (st, Inr n)"
      using redis_call_Inr [OF call [unfolded Inr]] by simp
    from owns_script_owner(2) [OF this that(1) refl] assms call that Inr show ?thesis
      by (auto simp: redis_owns_job_def redis_owner_def)
  qed
qed

lemma redis_finish_owner:
  assumes "redis_finish_job i j tok c = (c', a)"
  shows "redis_owner c' = redis_owner c \<or>
      redis_owner c' = (redis_owner c)(j := None) \<and>
      (\<forall>token. tok = Some token \<longrightarrow> token \<noteq> [] \<longrightarrow> redis_owner c j = Some token)"
    and "redis_wf c \<Longrightarrow> redis_wf c'"
    and "redis_wf c \<Longrightarrow> tok = Some token \<Longrightarrow> token \<noteq> [] \<Longrightarrow> a = Inr True \<Longrightarrow>
      redis_owner c j = Some token \<and> redis_owner c' j = None"
proof -
  let ?script = "finish_job_script j (token_arg tok)"
  obtain st r where call: "redis_call i ?script (store c) = (st, r)"
    by (cases "redis_call i ?script (store c)")
  obtain st1 r1 where scr: "?script (store c) = (st1, r1)" by (cases "?script (store c)")
  have st: "st = store c \<or> st = st1" using redis_call_state [OF call] scr by auto
  have c': "store c' = st"
    using assms call by (auto simp: redis_finish_job_def split: sum.splits prod.splits)
  then show "redis_owner c' = redis_owner c \<or>
      redis_owner c' = (redis_owner c)(j := None) \<and>
      (\<forall>token. tok = Some token \<longrightarrow> token \<noteq> [] \<longrightarrow> redis_owner c j = Some token)"
    using st finish_script_owner(1) [OF scr] by (auto simp: redis_owner_def token_arg_def)
  show "redis_wf c'" if "redis_wf c"
    using assms that
    by (auto simp: redis_finish_job_def redis_wf_def qc_finish_job_def drop_job_def
        split: sum.splits prod.splits if_splits)
  show "redis_owner c j = Some token \<and> redis_owner c' j = None"
    if "redis_wf c" "tok = Some token" "token \<noteq> []" "a = Inr True"
  proof (cases r)
    case (Inl e)
    with assms call that show ?thesis
      by (auto simp: redis_finish_job_def redis_wf_def qc_finish_job_def token_matches_def
          split: prod.splits if_splits)
  next
    case (Inr n)
    have "?script (store c) = (st, Inr n)"
      using redis_call_Inr [OF call [unfolded Inr]] by simp
    moreover have "n \<noteq> 0" using assms call that Inr by (simp add: redis_finish_job_def)
    ultimately show ?thesis
      using finish_script_owner(2) [OF _ refl] c' that by (auto simp: redis_owner_def token_arg_def)
  qed
qed


text \<open>Recovery without interference, with any pattern of failing calls.\<close>

definition alone :: "bool \<times> bool \<times> (nat \<Rightarrow> io) \<Rightarrow> recover_env" where
  "alone r = calm\<lparr>scan_ok := fst r, beats_ok := fst (snd r), script_io := snd (snd r)\<rparr>"

lemma alone_simps [simp]:
  "before_scan (alone r) st = st" "between_reads (alone r) st = st" "before_script (alone r) n st = st"
  by (simp_all add: alone_def calm_def)

lemma redis_recover_alone:
  assumes "redis_recover_stale_jobs (alone r) timeout now protected c = (c', ds)"
  shows "redis_owner c' j = redis_owner c j \<or> redis_owner c' j = None \<and> j \<notin> set protected"
    and "redis_wf c \<Longrightarrow> redis_wf c'"
proof -
  obtain st a where rec: "recover_redis_jobs (alone r) timeout now protected (store c) = (st, a)"
    by (cases "recover_redis_jobs (alone r) timeout now protected (store c)")
  have st: "store c' = st"
    using assms rec by (auto simp: redis_recover_stale_jobs_def split: sum.splits prod.splits)
  have "map_of (records st) j = map_of (records (store c)) j \<or>
      map_of (records st) j = None \<and> j \<notin> set protected"
  proof (cases "\<exists>cs. stale_candidates timeout now protected (beats (store c)) (records (store c)) = Inr cs
      \<and> recover_each (alone r) 0 cs (store c) = (st, a)")
    case True
    then obtain cs where cs:
      "stale_candidates timeout now protected (beats (store c)) (records (store c)) = Inr cs"
      "recover_each (alone r) 0 cs (store c) = (st, a)" by blast
    from recover_each_quiet_removed [OF cs(2)] stale_candidate_scanned [OF cs(1)]
    show ?thesis by fastforce
  next
    case False
    with rec have "st = store c"
      by (auto simp: recover_redis_jobs_def Let_def split: if_splits sum.splits)
    then show ?thesis by simp
  qed
  then show "redis_owner c' j = redis_owner c j \<or> redis_owner c' j = None \<and> j \<notin> set protected"
    by (auto simp: redis_owner_def rec_owner_def st)
  show "redis_wf c'" if "redis_wf c"
    using assms that
    by (auto simp: redis_recover_stale_jobs_def redis_wf_def qc_recover_stale_jobs_def
        split: sum.splits prod.splits dest: remove_stale_tokens)
qed

definition redis_recover ::
  "bool \<times> bool \<times> (nat \<Rightarrow> io) \<Rightarrow> rat \<Rightarrow> rat \<Rightarrow> string list \<Rightarrow> redis_counter
    \<Rightarrow> redis_counter \<times> dict list res" where
  "redis_recover r timeout now protected c =
    (case redis_recover_stale_jobs (alone r) timeout now protected c of (c', ds) \<Rightarrow> (c', Inr ds))"

interpretation shared_counter: job_counter redis_wf redis_owner
  redis_claim_job redis_touch_job redis_owns_job redis_finish_job redis_recover
proof (unfold_locales, goal_cases)
  case (1 s e title language started_at j token)
  then show ?case
    by (auto simp: redis_wf_def redis_claim_job_def claim_redis_job_def split: prod.splits sum.splits)
next
  case (2 s e j touched_at tok)
  obtain c' a where c: "redis_touch_job e j touched_at tok s = (c', a)"
    by (cases "redis_touch_job e j touched_at tok s")
  with 2 redis_touch_owner(3) [OF c] show ?case by (simp add: redis_wf_def)
next
  case (3 s e j token)
  obtain c' a where c: "redis_owns_job e j token s = (c', a)" by (cases "redis_owns_job e j token s")
  with 3 redis_owns_owner(2) [OF c] show ?case by (simp add: redis_wf_def)
next
  case (4 s e j tok)
  obtain c' a where c: "redis_finish_job e j tok s = (c', a)" by (cases "redis_finish_job e j tok s")
  with 4 redis_finish_owner(2) [OF c] show ?case by simp
next
  case (5 s r timeout now protected)
  obtain c' ds where c: "redis_recover_stale_jobs (alone r) timeout now protected s = (c', ds)"
    by (cases "redis_recover_stale_jobs (alone r) timeout now protected s")
  with 5 redis_recover_alone(2) [OF c] show ?case by (simp add: redis_recover_def)
next
  case (6 s token e title language started_at j s' a)
  then show ?case using redis_claim_owner(1) by blast
next
  case (7 s token e title language started_at j s')
  then show ?case using redis_claim_owner(2) by blast
next
  case (8 s e j touched_at tok s' a)
  then show ?case using redis_touch_owner(1) by blast
next
  case (9 s token e j touched_at s' b)
  then show ?case using redis_touch_owner(2) by blast
next
  case (10 s e j token s' a)
  then show ?case using redis_owns_owner(1) by blast
next
  case (11 s token e j s' b)
  then show ?case using redis_owns_owner(3) by blast
next
  case (12 s e j tok s' a)
  then show ?case using redis_finish_owner(1) by blast
next
  case (13 s token e j s')
  then show ?case using redis_finish_owner(3) by blast
next
  case (14 s r timeout now protected s' ds j)
  obtain c' es where c: "redis_recover_stale_jobs (alone r) timeout now protected s = (c', es)"
    by (cases "redis_recover_stale_jobs (alone r) timeout now protected s")
  with 14 redis_recover_alone(1) [OF c, of j] show ?case by (simp add: redis_recover_def)
qed

end
