(* ===== verification/TranslationStore.thy ===== *)
theory TranslationStore
  imports RedisIO
begin

text \<open>
  The durable records of background translations, \<open>RedisTranslationJobStore\<close>, and the
  list of recent errors, \<open>JobErrorStore\<close>, of \<open>api/services/entry_translator_service.py\<close>.
  The store is a map from job identifiers to raw texts (one Redis key per job).  The
  expiry of a key is a write by somebody else: it is part of the interference the
  run theorems quantify over.  The messages of \<open>TranslationJobStoreError\<close> are the
  constructors of \<open>store_fault\<close>.
\<close>

subsection \<open>RedisTranslationJobStore\<close>

definition default_ttl_seconds :: int where
  "default_ttl_seconds = 24 * 60 * 60"

definition init_translation_store :: "int \<Rightarrow> int res" where
  "init_translation_store ttl_seconds =
    (if ttl_seconds < 1 then Inl ValueError else Inr ttl_seconds)"

definition serialise_translation_job :: "dict \<Rightarrow> (string \<times> raw) res" where
  "serialise_translation_job job =
    (case dindex ''job_id'' job of
       Inr (JStr job_id) \<Rightarrow>
         if job_id = [] then Inl (TranslationJobStoreError BadRecord)
         else (case dumps (JDict job) of
             Inl e \<Rightarrow> Inl (TranslationJobStoreError BadRecord)
           | Inr payload \<Rightarrow> Inr (job_id, payload))
     | _ \<Rightarrow> Inl (TranslationJobStoreError BadRecord))"

text \<open>\<open>SET key payload EX ttl\<close>, and the same with \<open>NX\<close>.\<close>

definition ts_put :: "io \<Rightarrow> dict \<Rightarrow> rhash \<Rightarrow> rhash \<times> unit res" where
  "ts_put i job h =
    (case serialise_translation_job job of
       Inl e \<Rightarrow> (h, Inl e)
     | Inr (job_id, payload) \<Rightarrow>
       (case redis_call i (\<lambda>h. (AList.update job_id payload h, Inr ())) h of
          (h', Inl e) \<Rightarrow> (h', Inl (TranslationJobStoreError CannotWrite))
        | (h', Inr u) \<Rightarrow> (h', Inr u)))"

definition set_nx :: "string \<Rightarrow> raw \<Rightarrow> rhash \<Rightarrow> rhash \<times> bool res" where
  "set_nx k payload h =
    (case map_of h k of
       None \<Rightarrow> (AList.update k payload h, Inr True)
     | Some r \<Rightarrow> (h, Inr False))"

definition ts_create :: "io \<Rightarrow> dict \<Rightarrow> rhash \<Rightarrow> rhash \<times> bool res" where
  "ts_create i job h =
    (case serialise_translation_job job of
       Inl e \<Rightarrow> (h, Inl e)
     | Inr (job_id, payload) \<Rightarrow>
       (case redis_call i (set_nx job_id payload) h of
          (h', Inl e) \<Rightarrow> (h', Inl (TranslationJobStoreError CannotWrite))
        | (h', Inr b) \<Rightarrow> (h', Inr b)))"

definition lua_field_is :: "string \<Rightarrow> string \<Rightarrow> json \<Rightarrow> bool" where
  "lua_field_is k s v \<longleftrightarrow> lua_index k v = Inr (Some (JStr s))"

definition put_owned_script :: "string \<Rightarrow> string \<Rightarrow> raw \<Rightarrow> rhash \<Rightarrow> rhash \<times> int res" where
  "put_owned_script k owner_token payload h =
    (case map_of h k of
       None \<Rightarrow> (h, Inr (-1))
     | Some raw_job \<Rightarrow>
       (case lua_decode raw_job of
          Inl e \<Rightarrow> (h, Inr (-2))
        | Inr current \<Rightarrow>
          if \<not> lua_is_table current then (h, Inr (-2))
          else if \<not> lua_field_is ''_owner_token'' owner_token current then (h, Inr 0)
          else if lua_field_is ''status'' ''done'' current \<or> lua_field_is ''status'' ''error'' current
          then (h, Inr 0)
          else (AList.update k payload h, Inr 1)))"

definition ts_put_owned :: "io \<Rightarrow> dict \<Rightarrow> string \<Rightarrow> rhash \<Rightarrow> rhash \<times> bool res" where
  "ts_put_owned i job owner_token h =
    (case serialise_translation_job job of
       Inl e \<Rightarrow> (h, Inl e)
     | Inr (job_id, payload) \<Rightarrow>
       (case redis_call i (put_owned_script job_id owner_token payload) h of
          (h', Inl e) \<Rightarrow> (h', Inl (TranslationJobStoreError CannotWrite))
        | (h', Inr result) \<Rightarrow>
          if result \<in> {-1, -2} then (h', Inl (TranslationJobStoreError BadData))
          else (h', Inr (result = 1))))"

definition ts_get :: "bool \<Rightarrow> string \<Rightarrow> rhash \<Rightarrow> dict option res" where
  "ts_get ok job_id h =
    (if \<not> ok then Inl (TranslationJobStoreError CannotRead)
     else case map_of h job_id of
       None \<Rightarrow> Inr None
     | Some raw_job \<Rightarrow>
       (case loads raw_job of
          Inr (JDict job) \<Rightarrow> Inr (Some (dset ''job_id'' (JStr job_id) job))
        | _ \<Rightarrow> Inl (TranslationJobStoreError BadData)))"

subsection \<open>What a call may have written\<close>

lemma serialise_translation_job_Inr:
  "serialise_translation_job job = Inr (k, payload) \<longleftrightarrow>
    dget ''job_id'' job = JStr k \<and> k \<noteq> [] \<and> json_finite (JDict job) \<and> payload = Text (JDict job)"
  using dget_dhas [of "''job_id''" job]
  by (auto simp: serialise_translation_job_def dumps_def dindex_Inr_iff dindex_ok
      split: sum.splits json.splits if_splits)

lemma serialise_translation_job_Inl:
  "serialise_translation_job job = Inl e \<Longrightarrow> e = TranslationJobStoreError BadRecord"
  by (auto simp: serialise_translation_job_def split: sum.splits json.splits if_splits)

text \<open>The record a key holds, as the scripts read it.\<close>

definition record_at :: "string \<Rightarrow> rhash \<Rightarrow> json option" where
  "record_at k h = (case map_of h k of Some (Text v) \<Rightarrow> Some v | _ \<Rightarrow> None)"

definition is_terminal_record :: "json \<Rightarrow> bool" where
  "is_terminal_record v \<longleftrightarrow> lua_field_is ''status'' ''done'' v \<or> lua_field_is ''status'' ''error'' v"

definition owned_open :: "string \<Rightarrow> string \<Rightarrow> rhash \<Rightarrow> bool" where
  "owned_open k token h \<longleftrightarrow>
    (\<exists>v. record_at k h = Some v \<and> lua_field_is ''_owner_token'' token v \<and> \<not> is_terminal_record v)"

lemma lua_field_is_table: "lua_field_is k s v \<Longrightarrow> lua_is_table v"
  by (cases v) (auto simp: lua_field_is_def)

lemma put_owned_script_effect:
  "put_owned_script k token payload h =
    (if owned_open k token h then (AList.update k payload h, Inr 1)
     else (h, snd (put_owned_script k token payload h)))"
  by (auto simp: put_owned_script_def owned_open_def record_at_def is_terminal_record_def
      split: option.splits raw.splits dest: lua_field_is_table)

lemma put_owned_script_answer:
  "snd (put_owned_script k token payload h) = Inr 1 \<longleftrightarrow> owned_open k token h"
  by (auto simp: put_owned_script_def owned_open_def record_at_def is_terminal_record_def
      split: option.splits raw.splits dest: lua_field_is_table)

lemma ts_put_owned_effect:
  assumes "ts_put_owned i job token h = (h', r)"
  shows "h' = h \<or> (\<exists>k. dget ''job_id'' job = JStr k \<and> owned_open k token h \<and>
      h' = AList.update k (Text (JDict job)) h)"
    and "r = Inr True \<Longrightarrow> \<exists>k. dget ''job_id'' job = JStr k \<and> owned_open k token h \<and>
      h' = AList.update k (Text (JDict job)) h"
    and "r = Inr False \<Longrightarrow> h' = h"
proof -
  show "h' = h \<or> (\<exists>k. dget ''job_id'' job = JStr k \<and> owned_open k token h \<and>
      h' = AList.update k (Text (JDict job)) h)"
    and "r = Inr True \<Longrightarrow> \<exists>k. dget ''job_id'' job = JStr k \<and> owned_open k token h \<and>
      h' = AList.update k (Text (JDict job)) h"
    and "r = Inr False \<Longrightarrow> h' = h"
  proof (atomize (full), cases "serialise_translation_job job", goal_cases)
    case (1 e)
    then show ?case using assms by (auto simp: ts_put_owned_def)
  next
    case (2 kp)
    obtain k payload where kp: "serialise_translation_job job = Inr (k, payload)"
      using 2 by (cases kp) auto
    then have s: "dget ''job_id'' job = JStr k" "payload = Text (JDict job)"
      by (auto simp: serialise_translation_job_Inr)
    obtain h1 a where call: "redis_call i (put_owned_script k token payload) h = (h1, a)"
      by (cases "redis_call i (put_owned_script k token payload) h")
    have h': "h' = h1" using assms kp call by (auto simp: ts_put_owned_def split: sum.splits if_splits)
    have eff: "fst (put_owned_script k token payload h) =
        (if owned_open k token h then AList.update k payload h else h)"
      by (subst put_owned_script_effect) simp
    have w: "h1 = h \<or> owned_open k token h \<and> h1 = AList.update k payload h"
      using redis_call_state [OF call] eff by (auto split: if_splits)
    have ok: "put_owned_script k token payload h = (h1, Inr n)" if "a = Inr n" for n
      using redis_call_Inr [OF call [unfolded that]] by simp
    have t: "owned_open k token h \<and> h1 = AList.update k payload h" if "r = Inr True"
    proof -
      have "a = Inr 1" using assms kp call that by (auto simp: ts_put_owned_def split: sum.splits if_splits)
      from ok [OF this] put_owned_script_answer [of k token payload h] eff show ?thesis
        by (auto split: if_splits)
    qed
    have f: "h1 = h" if rf: "r = Inr False"
    proof -
      obtain n where n: "a = Inr n" "n \<noteq> 1"
        using assms kp call rf by (cases a) (auto simp: ts_put_owned_def split: if_splits)
      from ok [OF n(1)] put_owned_script_answer [of k token payload h] eff n show ?thesis
        by (auto split: if_splits)
    qed
    from w t f s h' show ?case by auto
  qed
qed


lemma set_nx_effect:
  "set_nx k payload h = (h', Inr b) \<Longrightarrow>
    (if b then map_of h k = None \<and> h' = AList.update k payload h else map_of h k \<noteq> None \<and> h' = h)"
  by (auto simp: set_nx_def split: option.splits)

lemma ts_create_effect:
  assumes "ts_create i job h = (h', r)"
  shows "h' = h \<or> (\<exists>k. dget ''job_id'' job = JStr k \<and> map_of h k = None \<and>
      h' = AList.update k (Text (JDict job)) h)"
    and "r = Inr True \<Longrightarrow> \<exists>k. dget ''job_id'' job = JStr k \<and> map_of h k = None \<and>
      h' = AList.update k (Text (JDict job)) h"
    and "r = Inr False \<Longrightarrow> \<exists>k. dget ''job_id'' job = JStr k \<and> map_of h k \<noteq> None \<and> h' = h"
proof -
  show "h' = h \<or> (\<exists>k. dget ''job_id'' job = JStr k \<and> map_of h k = None \<and>
      h' = AList.update k (Text (JDict job)) h)"
    and "r = Inr True \<Longrightarrow> \<exists>k. dget ''job_id'' job = JStr k \<and> map_of h k = None \<and>
      h' = AList.update k (Text (JDict job)) h"
    and "r = Inr False \<Longrightarrow> \<exists>k. dget ''job_id'' job = JStr k \<and> map_of h k \<noteq> None \<and> h' = h"
  proof (atomize (full), cases "serialise_translation_job job", goal_cases)
    case (1 e)
    then show ?case using assms by (auto simp: ts_create_def)
  next
    case (2 kp)
    obtain k payload where kp: "serialise_translation_job job = Inr (k, payload)"
      using 2 by (cases kp) auto
    then have s: "dget ''job_id'' job = JStr k" "payload = Text (JDict job)"
      by (auto simp: serialise_translation_job_Inr)
    obtain h1 a where call: "redis_call i (set_nx k payload) h = (h1, a)"
      by (cases "redis_call i (set_nx k payload) h")
    obtain h2 b where nx: "set_nx k payload h = (h2, Inr b)"
      by (cases "map_of h k") (auto simp: set_nx_def)
    have "h1 = h \<or> h1 = h2" using redis_call_state [OF call] nx by auto
    moreover have "a = Inr b \<and> h1 = h2" if "a = Inr c" for c
      using redis_call_Inr [OF call [unfolded that]] nx that by simp
    ultimately show ?case
      using assms kp call set_nx_effect [OF nx] s
      by (cases a; cases b) (auto simp: ts_create_def)
  qed
qed

subsection \<open>Runs\<close>

text \<open>
  The calls of all executions on the store, and the expiry of keys.  The service only
  creates records and updates them with \<open>put_owned\<close>.
\<close>

datatype ts_op =
    TSCreate io dict
  | TSPutOwned io dict string
  | TSExpire string

fun ts_step :: "ts_op \<Rightarrow> rhash \<Rightarrow> rhash" where
  "ts_step (TSCreate i job) h = fst (ts_create i job h)"
| "ts_step (TSPutOwned i job token) h = fst (ts_put_owned i job token h)"
| "ts_step (TSExpire k) h = AList.delete k h"

definition ts_run :: "ts_op list \<Rightarrow> rhash \<Rightarrow> rhash" where
  "ts_run ps h = fold ts_step ps h"

lemma ts_run_simps [simp]:
  "ts_run [] h = h" "ts_run (p # ps) h = ts_run ps (ts_step p h)"
  "ts_run (ps @ qs) h = ts_run qs (ts_run ps h)"
  by (simp_all add: ts_run_def)

text \<open>The operation may overwrite an open record of this owner.\<close>

fun owner_writes :: "string \<Rightarrow> string \<Rightarrow> ts_op \<Rightarrow> bool" where
  "owner_writes k token (TSPutOwned i job t) = (t = token \<and> dget ''job_id'' job = JStr k)"
| "owner_writes k token p = False"

lemma record_at_Text: "record_at k h = Some v \<longleftrightarrow> map_of h k = Some (Text v)"
  by (auto simp: record_at_def split: option.splits raw.splits)

lemma ts_step_fenced:
  assumes "record_at k h = Some v" and "p \<noteq> TSExpire k"
    and "is_terminal_record v \<or> lua_field_is ''_owner_token'' token v \<and> \<not> owner_writes k token p"
  shows "record_at k (ts_step p h) = Some v"
proof (cases p)
  case (TSCreate i job)
  obtain h' r where c: "ts_create i job h = (h', r)" by (cases "ts_create i job h")
  with ts_create_effect(1) [OF c] assms(1) TSCreate show ?thesis
    by (auto simp: record_at_Text)
next
  case (TSPutOwned i job t)
  obtain h' r where c: "ts_put_owned i job t h = (h', r)" by (cases "ts_put_owned i job t h")
  consider "h' = h"
    | k' where "dget ''job_id'' job = JStr k'" "owned_open k' t h"
      "h' = AList.update k' (Text (JDict job)) h"
    using ts_put_owned_effect(1) [OF c] by blast
  then show ?thesis
  proof cases
    case 1
    with assms(1) TSPutOwned c show ?thesis by simp
  next
    case 2
    have "k' \<noteq> k"
    proof
      assume "k' = k"
      with 2(2) assms(1) have "lua_field_is ''_owner_token'' t v" "\<not> is_terminal_record v"
        by (auto simp: owned_open_def)
      with assms(3) TSPutOwned 2(1) \<open>k' = k\<close> show False by (auto simp: lua_field_is_def)
    qed
    with 2 assms(1) TSPutOwned c show ?thesis by (simp add: record_at_Text)
  qed
next
  case (TSExpire k')
  with assms show ?thesis by (auto simp: record_at_Text)
qed

lemma ts_run_fenced:
  assumes "record_at k h = Some v" and "TSExpire k \<notin> set ps"
    and "is_terminal_record v \<or>
      lua_field_is ''_owner_token'' token v \<and> (\<forall>p \<in> set ps. \<not> owner_writes k token p)"
  shows "record_at k (ts_run ps h) = Some v"
  using assms
proof (induction ps arbitrary: h)
  case Nil
  then show ?case by simp
next
  case (Cons p ps)
  have "record_at k (ts_step p h) = Some v"
    by (rule ts_step_fenced [OF Cons.prems(1)]) (use Cons.prems in auto)
  moreover have "TSExpire k \<notin> set ps" using Cons.prems(2) by simp
  moreover have "is_terminal_record v \<or>
      lua_field_is ''_owner_token'' token v \<and> (\<forall>p \<in> set ps. \<not> owner_writes k token p)"
    using Cons.prems(3) by auto
  ultimately have "record_at k (ts_run ps (ts_step p h)) = Some v" by (rule Cons.IH)
  then show ?case by simp
qed

lemma ts_step_present:
  "map_of h k \<noteq> None \<Longrightarrow> p \<noteq> TSExpire k \<Longrightarrow> map_of (ts_step p h) k \<noteq> None"
proof (cases p)
  case (TSCreate i job)
  obtain h' r where "ts_create i job h = (h', r)" by (cases "ts_create i job h")
  with ts_create_effect(1) [OF this] TSCreate show "map_of h k \<noteq> None \<Longrightarrow> ?thesis" by auto
next
  case (TSPutOwned i job t)
  obtain h' r where "ts_put_owned i job t h = (h', r)" by (cases "ts_put_owned i job t h")
  with ts_put_owned_effect(1) [OF this] TSPutOwned show "map_of h k \<noteq> None \<Longrightarrow> ?thesis" by auto
qed auto

lemma ts_run_present:
  "map_of h k \<noteq> None \<Longrightarrow> TSExpire k \<notin> set ps \<Longrightarrow> map_of (ts_run ps h) k \<noteq> None"
  by (induction ps arbitrary: h) (use ts_step_present in auto)

end
