(* ===== verification/JobErrors.thy ===== *)
theory JobErrors
  imports TranslationStore
begin

text \<open>
  \<open>JobErrorStore\<close> of \<open>api/services/entry_translator_service.py\<close>: the most recent job
  errors in a trimmed Redis list, with an in-process list to fall back on.  The second
  part states the properties of the durable translation records.
\<close>

subsection \<open>JobErrorStore\<close>

record error_store =
  redis_errors :: "raw list"
  max_entries :: nat
  fallback_errors :: "dict list"

definition init_error_store :: "raw list \<Rightarrow> nat \<Rightarrow> error_store" where
  "init_error_store shared n = \<lparr>redis_errors = shared, max_entries = n, fallback_errors = []\<rparr>"

text \<open>
  The elements \<open>0 .. n - 1\<close> of a Redis list, for both \<open>LTRIM\<close> and \<open>LRANGE\<close>; an end of -1
  is the last element.
\<close>

definition upto_index :: "nat \<Rightarrow> 'a list \<Rightarrow> 'a list" where
  "upto_index n xs = (if n = 0 then xs else take n xs)"

definition record_locally :: "dict \<Rightarrow> error_store \<Rightarrow> error_store" where
  "record_locally err s = s\<lparr>fallback_errors := take (max_entries s) (err # fallback_errors s)\<rparr>"

definition record_error :: "io \<Rightarrow> io \<Rightarrow> dict \<Rightarrow> error_store \<Rightarrow> error_store" where
  "record_error push_io trim_io err s =
    (case redis_call push_io (\<lambda>l. (Text (JDict err) # l, Inr ())) (redis_errors s) of
       (l, Inl e) \<Rightarrow> record_locally err (s\<lparr>redis_errors := l\<rparr>)
     | (l, Inr u) \<Rightarrow>
       (case redis_call trim_io (\<lambda>l. (upto_index (max_entries s) l, Inr ())) l of
          (l2, Inl e) \<Rightarrow> record_locally err (s\<lparr>redis_errors := l2\<rparr>)
        | (l2, Inr u) \<Rightarrow> s\<lparr>redis_errors := l2\<rparr>))"

fun loads_all :: "raw list \<Rightarrow> json list res" where
  "loads_all [] = Inr []"
| "loads_all (r # rs) = bnd (loads r) (\<lambda>v. bnd (loads_all rs) (\<lambda>vs. Inr (v # vs)))"

definition recent_errors :: "bool \<Rightarrow> error_store \<Rightarrow> json list" where
  "recent_errors ok s =
    (case (if ok then loads_all (upto_index (max_entries s) (redis_errors s)) else Inl RedisError) of
       Inr errors \<Rightarrow> errors
     | Inl e \<Rightarrow> map JDict (fallback_errors s))"

lemma loads_all_length: "loads_all rs = Inr vs \<Longrightarrow> length vs = length rs"
  by (induction rs arbitrary: vs) (auto simp: bnd_Inr_iff)

lemma loads_all_Text [simp]: "loads_all (map Text vs) = Inr vs"
  by (induction vs) auto

lemma upto_index_length: "0 < n \<Longrightarrow> length (upto_index n xs) \<le> n"
  by (simp add: upto_index_def)

fun error_run :: "(io \<times> io \<times> dict) list \<Rightarrow> error_store \<Rightarrow> error_store" where
  "error_run [] s = s"
| "error_run ((i1, i2, err) # es) s = error_run es (record_error i1 i2 err s)"

lemma record_error_keeps:
  "max_entries (record_error i1 i2 err s) = max_entries s"
  "length (fallback_errors s) \<le> max_entries s \<Longrightarrow>
    length (fallback_errors (record_error i1 i2 err s)) \<le> max_entries s"
  by (auto simp: record_error_def record_locally_def split: prod.splits sum.splits)

lemma error_run_keeps:
  "max_entries (error_run es s) = max_entries s"
  "length (fallback_errors s) \<le> max_entries s \<Longrightarrow>
    length (fallback_errors (error_run es s)) \<le> max_entries s"
  by (induction es s rule: error_run.induct) (simp_all add: record_error_keeps)

lemma recent_errors_bound:
  assumes "0 < max_entries s" and "length (fallback_errors s) \<le> max_entries s"
  shows "length (recent_errors ok s) \<le> max_entries s"
  using assms upto_index_length [OF assms(1), of "redis_errors s"]
  by (auto simp: recent_errors_def split: sum.splits dest: loads_all_length)

lemma record_error_newest:
  assumes "0 < max_entries s" and "redis_errors s = map Text vs"
  shows "recent_errors True (record_error Acked Acked err s) = take (max_entries s) (JDict err # vs)"
proof -
  have "redis_errors (record_error Acked Acked err s) = map Text (take (max_entries s) (JDict err # vs))"
    using assms by (simp add: record_error_def redis_call_def upto_index_def take_map [symmetric])
  moreover have "upto_index (max_entries s) (map Text (take (max_entries s) (JDict err # vs))) =
      map Text (take (max_entries s) (JDict err # vs))"
    by (simp add: upto_index_def take_map)
  ultimately show ?thesis by (simp only: recent_errors_def record_error_keeps if_True loads_all_Text sum.case)
qed

text \<open>
  Whatever calls fail, a store with a positive limit never reports more errors
  than its limit, and an error recorded while Redis answers is reported first, before
  the previous ones.
\<close>

theorem recent_errors_bounded_newest_first:
  assumes "0 < n" and "s = error_run es (init_error_store shared n)"
  shows "length (recent_errors ok s) \<le> n \<and>
    (\<forall>vs. redis_errors s = map Text vs \<longrightarrow>
       recent_errors True (record_error Acked Acked err s) = take n (JDict err # vs))"
proof -
  have m: "max_entries s = n" using assms(2) by (simp add: error_run_keeps(1) init_error_store_def)
  moreover have "length (fallback_errors s) \<le> n"
    using error_run_keeps(2) [of "init_error_store shared n" es] assms(2)
    by (simp add: init_error_store_def)
  ultimately show ?thesis
    using recent_errors_bound [of s] record_error_newest [of s] assms(1) by simp
qed

theorem recent_errors_bounded_newest_first_witness:
  "length (recent_errors False (error_run [(Refused, Acked, [(''message'', JStr ''x'')]),
      (Acked, Unacked, [(''message'', JStr ''y'')]), (Refused, Acked, [])] (init_error_store [] 2))) \<le> 2"
  by (rule conjunct1 [OF recent_errors_bounded_newest_first [OF _ refl, where err = "[]"]]) simp

subsection \<open>Translation records\<close>

text \<open>
  C7: A stored translation record can only be changed by an update under its own
  owner token, and not at all once its status is \<open>done\<close> or \<open>error\<close>: until the key
  expires, no run of creations and owned updates by other executions, with any
  pattern of failing calls, alters it.
\<close>

theorem translation_record_is_fenced:
  assumes "record_at k h = Some v" and "TSExpire k \<notin> set ps"
    and "is_terminal_record v \<or>
      lua_field_is ''_owner_token'' token v \<and> list_all (\<lambda>p. \<not> owner_writes k token p) ps"
  shows "record_at k (ts_run ps h) = Some v"
  using ts_run_fenced [OF assms(1,2), of token] assms(3) by (auto simp: list_all_iff)

definition running_record :: json where
  "running_record = JDict [(''job_id'', JStr ''a''), (''status'', JStr ''running''),
     (''_owner_token'', JStr ''own'')]"

definition thief_record :: dict where
  "thief_record = [(''job_id'', JStr ''a''), (''status'', JStr ''done''),
     (''_owner_token'', JStr ''thief'')]"

theorem translation_record_is_fenced_witness:
  "record_at ''a'' (ts_run [TSCreate Acked thief_record, TSPutOwned Acked thief_record ''thief'']
     [(''a'', Text running_record)]) = Some running_record"
  by (rule translation_record_is_fenced [where token = "''own''"])
    (simp_all add: record_at_def lua_field_is_def running_record_def)

text \<open>
  Of any two creations of the same job identifier in a run, at most one is
  accepted (until the key expires), and an accepted creation or owned update is read
  back exactly.
\<close>

theorem translation_create_is_unique:
  assumes "ts_create i job h = (h1, Inr True)" and "dget ''job_id'' job = JStr k"
    and "TSExpire k \<notin> set ps" and "dget ''job_id'' job' = JStr k"
  shows "ts_get True k h1 = Inr (Some job) \<and>
    snd (ts_create i' job' (ts_run ps h1)) \<noteq> Inr True \<and>
    (\<forall>token h2. ts_put_owned i' job' token (ts_run ps h1) = (h2, Inr True) \<longrightarrow>
       ts_get True k h2 = Inr (Some job'))"
proof -
  have get: "ts_get True k (AList.update k (Text (JDict j)) g) = Inr (Some j)"
    if "dget ''job_id'' j = JStr k" for j g
  proof -
    have "dset ''job_id'' (JStr k) j = j"
      using that dget_dhas [of "''job_id''" j] unfolding dset_def dhas_def dget_def
      by (induction j) (auto split: if_splits)
    then show ?thesis by (simp add: ts_get_def)
  qed
  have h1: "h1 = AList.update k (Text (JDict job)) h"
    using ts_create_effect(2) [OF assms(1) refl] assms(2) by auto
  then have "map_of (ts_run ps h1) k \<noteq> None" by (intro ts_run_present assms(3)) simp
  then have "snd (ts_create i' job' (ts_run ps h1)) \<noteq> Inr True"
    using ts_create_effect(2) [of i' job' "ts_run ps h1"] assms(4)
    by (metis json.inject(4) prod.collapse)
  moreover have "ts_get True k h2 = Inr (Some job')"
    if "ts_put_owned i' job' token (ts_run ps h1) = (h2, Inr True)" for token h2
    using ts_put_owned_effect(2) [OF that refl] get [OF assms(4)] assms(4) by auto
  ultimately show ?thesis using get [OF assms(2)] h1 by blast
qed

theorem translation_create_is_unique_witness:
  "snd (ts_create Acked thief_record (ts_run [TSPutOwned Acked thief_record ''thief'']
     (fst (ts_create Acked thief_record [])))) \<noteq> Inr True"
proof -
  have c: "ts_create Acked thief_record [] = (fst (ts_create Acked thief_record []), Inr True)"
    by (simp add: ts_create_def thief_record_def serialise_translation_job_def dindex_def dumps_def
        redis_call_def set_nx_def)
  have k: "dget ''job_id'' thief_record = JStr ''a''" by (simp add: thief_record_def dget_def)
  show ?thesis
    using translation_create_is_unique [OF c k _ k, of "[TSPutOwned Acked thief_record ''thief'']" Acked]
    by simp
qed

end
