(* ===== verification/Executor.thy ===== *)
theory Executor
  imports PyValues
begin

text \<open>
  The process-local capacity of \<open>EntryTranslatorService\<close>
  (\<open>api/services/entry_translator_service.py\<close>): constructor checks, the bounded
  semaphore of job slots and its counters, the moving average of job durations, and
  the health decision.  Every block the code runs under one lock is one function; the
  step relation interleaves the blocks of any number of request and worker threads.
\<close>

subsection \<open>State and construction\<close>

record executor =
  accepting :: bool
  slots :: nat
  job_capacity :: nat
  max_workers :: nat
  admitted :: int
  running :: int
  rejected :: int
  completed :: int
  failed :: int

definition degraded_job_duration :: rat where
  "degraded_job_duration = 300"

definition init_executor :: "int \<Rightarrow> int \<Rightarrow> int \<Rightarrow> int \<Rightarrow> pyfloat \<Rightarrow> executor res" where
  "init_executor max_async_workers max_pending_jobs max_check_workers max_check_jobs_kept timeout =
    (if max_async_workers < 1 then Inl ValueError
     else if max_pending_jobs < 0 then Inl ValueError
     else if max_check_workers < 1 then Inl ValueError
     else if max_check_jobs_kept < 1 then Inl ValueError
     else if \<not> isfinite timeout \<or> f_le timeout (Finite 0) then Inl ValueError
     else Inr \<lparr>accepting = True,
        slots = nat (max_async_workers + max_pending_jobs),
        job_capacity = nat (max_async_workers + max_pending_jobs),
        max_workers = nat max_async_workers,
        admitted = 0, running = 0, rejected = 0, completed = 0, failed = 0\<rparr>)"

definition executor_status :: "executor \<Rightarrow> dict" where
  "executor_status st =
    [(''process_admitted_jobs'', JInt (admitted st)),
     (''process_running_jobs'', JInt (running st)),
     (''process_queued_jobs'', JInt (admitted st - running st)),
     (''process_job_capacity'', JInt (int (job_capacity st))),
     (''available_job_slots'', JInt (int (job_capacity st) - admitted st)),
     (''max_async_workers'', JInt (int (max_workers st))),
     (''accepting_async_jobs'', JBool (accepting st)),
     (''rejected_job_count'', JInt (rejected st)),
     (''completed_job_count'', JInt (completed st)),
     (''failed_job_count'', JInt (failed st))]"

subsection \<open>Slots\<close>

definition shutting_down :: exn where
  "shutting_down = ServiceError 503 ''Translation service is shutting down.''"

definition capacity_full :: exn where
  "capacity_full = ServiceError 503 ''Translation capacity is currently full.''"

definition count_rejection :: "executor \<Rightarrow> executor" where
  "count_rejection st = st\<lparr>rejected := rejected st + 1\<rparr>"

text \<open>\<open>BoundedSemaphore.release\<close> raises when the semaphore is at its initial value.\<close>

definition release_slot :: "executor \<Rightarrow> executor res" where
  "release_slot st =
    (if job_capacity st \<le> slots st then Inl ValueError else Inr (st\<lparr>slots := slots st + 1\<rparr>))"

definition acquire_slot :: "executor \<Rightarrow> executor \<times> bool" where
  "acquire_slot st = (if slots st = 0 then (st, False) else (st\<lparr>slots := slots st - 1\<rparr>, True))"

text \<open>The three critical sections of \<open>_reserve_job_slot\<close>.\<close>

definition check_accepting :: "executor \<Rightarrow> executor \<times> unit res" where
  "check_accepting st =
    (if accepting st then (st, Inr ()) else (count_rejection st, Inl shutting_down))"

definition take_slot :: "executor \<Rightarrow> executor \<times> unit res" where
  "take_slot st =
    (case acquire_slot st of
       (st', True) \<Rightarrow> (st', Inr ())
     | (st', False) \<Rightarrow> (count_rejection st', Inl capacity_full))"

definition admit_job :: "executor \<Rightarrow> executor \<times> unit res" where
  "admit_job st =
    (if \<not> accepting st then
       (case release_slot st of
          Inl e \<Rightarrow> (st, Inl e)
        | Inr st' \<Rightarrow> (count_rejection st', Inl shutting_down))
     else (st\<lparr>admitted := admitted st + 1\<rparr>, Inr ()))"

definition andthen :: "('s \<Rightarrow> 's \<times> unit res) \<Rightarrow> ('s \<Rightarrow> 's \<times> unit res) \<Rightarrow> 's \<Rightarrow> 's \<times> unit res" where
  "andthen f g s = (case f s of (s', Inl e) \<Rightarrow> (s', Inl e) | (s', Inr u) \<Rightarrow> g s')"

text \<open>The whole call, when no other thread runs between its sections.\<close>

definition reserve_job_slot :: "executor \<Rightarrow> executor \<times> unit res" where
  "reserve_job_slot = andthen check_accepting (andthen take_slot admit_job)"

definition mark_job_running :: "executor \<Rightarrow> executor" where
  "mark_job_running st = st\<lparr>running := running st + 1\<rparr>"

text \<open>\<open>_finish_process_job\<close>: the locked section, then the release of the slot.\<close>

definition count_finished :: "bool \<Rightarrow> bool \<Rightarrow> executor \<Rightarrow> executor" where
  "count_finished started was_failed st =
    st\<lparr>admitted := admitted st - 1,
       running := (if started then running st - 1 else running st),
       completed := completed st + 1,
       failed := (if was_failed then failed st + 1 else failed st)\<rparr>"

definition finish_process_job :: "bool \<Rightarrow> bool \<Rightarrow> executor \<Rightarrow> executor res" where
  "finish_process_job started was_failed st = release_slot (count_finished started was_failed st)"

definition shutdown :: "executor \<Rightarrow> executor" where
  "shutdown st = (if \<not> accepting st then st else st\<lparr>accepting := False\<rparr>)"

subsection \<open>Interleavings\<close>

text \<open>
  The threads of the process are counted by what they will do next: reservations that
  passed the first check (\<open>checked\<close>), that hold a slot without being admitted
  (\<open>holding\<close>), admitted jobs whose task has not started (\<open>waiting\<close>) or has
  (\<open>started\<close>), and finished jobs that still have to give their slot back
  (\<open>releasing\<close>).
\<close>

record world =
  ex :: executor
  checked :: nat
  holding :: nat
  waiting :: nat
  started :: nat
  releasing :: nat

inductive exec_step :: "world \<Rightarrow> world \<Rightarrow> bool" where
  check_ok: "check_accepting (ex w) = (st, Inr ()) \<Longrightarrow>
    exec_step w (w\<lparr>ex := st, checked := checked w + 1\<rparr>)"
| check_fails: "check_accepting (ex w) = (st, Inl e) \<Longrightarrow> exec_step w (w\<lparr>ex := st\<rparr>)"
| take_ok: "checked w = Suc n \<Longrightarrow> take_slot (ex w) = (st, Inr ()) \<Longrightarrow>
    exec_step w (w\<lparr>ex := st, checked := n, holding := holding w + 1\<rparr>)"
| take_fails: "checked w = Suc n \<Longrightarrow> take_slot (ex w) = (st, Inl e) \<Longrightarrow>
    exec_step w (w\<lparr>ex := st, checked := n\<rparr>)"
| admit_ok: "holding w = Suc n \<Longrightarrow> admit_job (ex w) = (st, Inr ()) \<Longrightarrow>
    exec_step w (w\<lparr>ex := st, holding := n, waiting := waiting w + 1\<rparr>)"
| admit_fails: "holding w = Suc n \<Longrightarrow> admit_job (ex w) = (st, Inl e) \<Longrightarrow>
    exec_step w (w\<lparr>ex := st, holding := n\<rparr>)"
| start: "waiting w = Suc n \<Longrightarrow>
    exec_step w (w\<lparr>ex := mark_job_running (ex w), waiting := n, started := started w + 1\<rparr>)"
| finish_started: "started w = Suc n \<Longrightarrow>
    exec_step w (w\<lparr>ex := count_finished True was_failed (ex w), started := n,
      releasing := releasing w + 1\<rparr>)"
| finish_waiting: "waiting w = Suc n \<Longrightarrow>
    exec_step w (w\<lparr>ex := count_finished False was_failed (ex w), waiting := n,
      releasing := releasing w + 1\<rparr>)"
| release: "releasing w = Suc n \<Longrightarrow> release_slot (ex w) = Inr st \<Longrightarrow>
    exec_step w (w\<lparr>ex := st, releasing := n\<rparr>)"
| shut_down: "exec_step w (w\<lparr>ex := shutdown (ex w)\<rparr>)"

definition initial_world :: "executor \<Rightarrow> world" where
  "initial_world st = \<lparr>ex = st, checked = 0, holding = 0, waiting = 0, started = 0, releasing = 0\<rparr>"

text \<open>The slots are conserved and the counters describe the jobs.\<close>

definition slots_conserved :: "world \<Rightarrow> bool" where
  "slots_conserved w \<longleftrightarrow>
    slots (ex w) + holding w + waiting w + started w + releasing w = job_capacity (ex w) \<and>
    admitted (ex w) = int (waiting w + started w) \<and>
    running (ex w) = int (started w)"

lemmas executor_defs = check_accepting_def take_slot_def acquire_slot_def admit_job_def
  release_slot_def count_rejection_def mark_job_running_def count_finished_def shutdown_def

inductive_cases exec_step_E: "exec_step w w'"

lemma conserved_step: "exec_step w w' \<Longrightarrow> slots_conserved w \<Longrightarrow> slots_conserved w'"
  by (induction rule: exec_step.induct)
    (auto simp: slots_conserved_def executor_defs split: if_splits prod.splits)

lemma capacity_step: "exec_step w w' \<Longrightarrow> job_capacity (ex w') = job_capacity (ex w)"
  by (induction rule: exec_step.induct)
    (auto simp: executor_defs split: if_splits prod.splits)

lemma shutdown_step:
  "exec_step w w' \<Longrightarrow> \<not> accepting (ex w) \<Longrightarrow>
    \<not> accepting (ex w') \<and> admitted (ex w') \<le> admitted (ex w)"
  by (induction rule: exec_step.induct)
    (auto simp: executor_defs split: if_splits prod.splits)

lemma conserved_run: "exec_step\<^sup>*\<^sup>* w w' \<Longrightarrow> slots_conserved w \<Longrightarrow> slots_conserved w'"
  by (induction rule: rtranclp_induct) (auto intro: conserved_step)

lemma capacity_run: "exec_step\<^sup>*\<^sup>* w w' \<Longrightarrow> job_capacity (ex w') = job_capacity (ex w)"
  by (induction rule: rtranclp_induct) (simp_all add: capacity_step)

lemma shutdown_run:
  "exec_step\<^sup>*\<^sup>* w w' \<Longrightarrow> \<not> accepting (ex w) \<Longrightarrow>
    \<not> accepting (ex w') \<and> admitted (ex w') \<le> admitted (ex w)"
  by (induction rule: rtranclp_induct) (use shutdown_step in fastforce)+

lemma initial_conserved:
  "init_executor a b c d t = Inr st \<Longrightarrow> slots_conserved (initial_world st)"
  by (auto simp: init_executor_def slots_conserved_def initial_world_def split: if_splits)


subsection \<open>Durations, recovery interval and health\<close>

definition ema_alpha :: rat where
  "ema_alpha = 2 / 10"

definition record_job_duration :: "rat \<Rightarrow> rat option \<Rightarrow> rat option" where
  "record_job_duration duration avg =
    (if duration < 0 then avg
     else case avg of
       None \<Rightarrow> Some duration
     | Some current \<Rightarrow> Some (ema_alpha * duration + (1 - ema_alpha) * current))"

definition stale_recovery_interval :: rat where
  "stale_recovery_interval = 30"

text \<open>The new time of the last recovery, and whether to recover now.\<close>

definition maybe_recover :: "rat \<Rightarrow> rat \<Rightarrow> rat \<times> bool" where
  "maybe_recover now last_recovery =
    (if now - last_recovery < stale_recovery_interval then (last_recovery, False) else (now, True))"

text \<open>
  \<open>health_status\<close> after its recovery calls, as a function of what it reads: the counter
  value and source, the average, the recent errors and the executor state.
\<close>

definition opt_float :: "rat option \<Rightarrow> json" where
  "opt_float r = (case r of None \<Rightarrow> JNull | Some x \<Rightarrow> JFloat (Finite x))"

definition base_status :: "int \<Rightarrow> string \<Rightarrow> rat option \<Rightarrow> json list \<Rightarrow> executor \<Rightarrow> dict" where
  "base_status job_count counter_source average errors st =
    [(''jobs'', JInt job_count), (''counter_source'', JStr counter_source),
     (''average_job_duration_seconds'', opt_float average),
     (''recent_job_error_count'', JInt (int (length errors))),
     (''recent_job_errors'', JList (take 5 errors))] @ executor_status st"

definition with_status :: "string \<Rightarrow> string \<Rightarrow> dict \<Rightarrow> dict" where
  "with_status status message d = dset ''message'' (JStr message) (dset ''status'' (JStr status) d)"

definition health_status ::
  "int \<Rightarrow> string \<Rightarrow> rat option \<Rightarrow> json list \<Rightarrow> executor \<Rightarrow> dict" where
  "health_status job_count counter_source average errors st =
    (let base = base_status job_count counter_source average errors st in
     if \<not> accepting st
       then with_status ''degraded'' ''The service is not accepting asynchronous jobs.'' base
     else if int (job_capacity st) - admitted st = 0
       then with_status ''degraded'' ''Asynchronous translation capacity is full.'' base
     else if 25 \<le> job_count
       then with_status ''degraded''
         ''High job queue length (over 25) indicates potential overload.'' base
     else if (case average of None \<Rightarrow> False | Some a \<Rightarrow> degraded_job_duration < a)
       then with_status ''degraded'' ''Average job duration exceeds 5 minutes.'' base
     else if errors \<noteq> []
       then with_status ''degraded'' ''Recent translation job errors were recorded.'' base
     else with_status ''healthy'' ''Service is operating normally.'' base)"

fun durations :: "rat list \<Rightarrow> rat option \<Rightarrow> rat option" where
  "durations [] avg = avg"
| "durations (d # ds) avg = durations ds (record_job_duration d avg)"

lemma ema_between:
  assumes "lo \<le> d" and "d \<le> hi" and "lo \<le> a" and "a \<le> hi"
  shows "lo \<le> ema_alpha * d + (1 - ema_alpha) * a" and "ema_alpha * d + (1 - ema_alpha) * a \<le> hi"
  using assms by (simp_all add: ema_alpha_def)

lemma durations_between:
  assumes "\<forall>d \<in> set ds. 0 \<le> d \<longrightarrow> lo \<le> d \<and> d \<le> hi" and "\<forall>a. avg = Some a \<longrightarrow> lo \<le> a \<and> a \<le> hi"
  shows "\<forall>a. durations ds avg = Some a \<longrightarrow> lo \<le> a \<and> a \<le> hi"
  using assms
proof (induction ds arbitrary: avg)
  case Nil
  then show ?case by simp
next
  case (Cons d ds)
  have step: "\<forall>a. record_job_duration d avg = Some a \<longrightarrow> lo \<le> a \<and> a \<le> hi"
  proof (cases "d < 0 \<or> avg = None")
    case True
    with Cons.prems show ?thesis by (auto simp: record_job_duration_def)
  next
    case False
    then obtain c where c: "avg = Some c" and d: "0 \<le> d" by auto
    with Cons.prems have "lo \<le> d" "d \<le> hi" "lo \<le> c" "c \<le> hi" by simp_all
    from ema_between [OF this] c d show ?thesis by (simp add: record_job_duration_def)
  qed
  have "\<forall>d \<in> set ds. 0 \<le> d \<longrightarrow> lo \<le> d \<and> d \<le> hi" using Cons.prems(1) by simp
  from Cons.IH [OF this step] show ?case by simp
qed

lemma status_fields:
  "dget ''process_queued_jobs'' (executor_status st) = JInt (admitted st - running st)"
  "dget ''process_running_jobs'' (executor_status st) = JInt (running st)"
  "dget ''available_job_slots'' (executor_status st) = JInt (int (job_capacity st) - admitted st)"
  by (simp_all add: dget_def executor_status_def)

lemma is_ok_release: "is_ok (release_slot st) \<longleftrightarrow> slots st < job_capacity st"
  by (simp add: release_slot_def)

subsection \<open>Properties\<close>

text \<open>
  C8: Through every interleaving of reservations, admissions, task starts,
  completions, cancellations and a shutdown, the free slots, the reservations in
  progress and the unfinished jobs add up to the capacity.  Hence never more jobs are
  admitted than the capacity, the reported number of available slots is never
  negative, the reported queued and running jobs are those that exist, and giving a
  slot back never overflows the semaphore.
\<close>

theorem job_slots_are_conserved:
  assumes "init_executor max_async max_pending max_check max_kept timeout = Inr st"
    and "exec_step\<^sup>*\<^sup>* (initial_world st) w"
  shows "int (slots (ex w) + holding w + waiting w + started w + releasing w) = max_async + max_pending \<and>
    dget ''process_queued_jobs'' (executor_status (ex w)) = JInt (int (waiting w)) \<and>
    dget ''process_running_jobs'' (executor_status (ex w)) = JInt (int (started w)) \<and>
    (\<exists>free. dget ''available_job_slots'' (executor_status (ex w)) = JInt free \<and> 0 \<le> free) \<and>
    (releasing w = 0 \<or> is_ok (release_slot (ex w)))"
proof -
  have "slots_conserved w" using conserved_run [OF assms(2) initial_conserved [OF assms(1)]] .
  moreover have "int (job_capacity (ex w)) = max_async + max_pending"
    using capacity_run [OF assms(2)] assms(1)
    by (auto simp: init_executor_def initial_world_def split: if_splits)
  ultimately show ?thesis
    unfolding status_fields slots_conserved_def is_ok_release by auto
qed

definition small_executor :: executor where
  "small_executor = \<lparr>accepting = True, slots = 2, job_capacity = 2, max_workers = 1,
     admitted = 0, running = 0, rejected = 0, completed = 0, failed = 0\<rparr>"

lemma small_executor_init: "init_executor 1 1 1 1 (Finite 300) = Inr small_executor"
  by (simp add: init_executor_def small_executor_def)

theorem job_slots_are_conserved_witness:
  "\<exists>w. exec_step\<^sup>*\<^sup>* (initial_world small_executor) w \<and> checked w = 1 \<and>
     int (slots (ex w) + holding w + waiting w + started w + releasing w) = 2"
proof -
  let ?w = "(initial_world small_executor)\<lparr>checked := 1\<rparr>"
  have "exec_step (initial_world small_executor) ?w"
    using check_ok [of "initial_world small_executor" small_executor]
    by (simp add: check_accepting_def initial_world_def small_executor_def)
  then have r: "exec_step\<^sup>*\<^sup>* (initial_world small_executor) ?w" by (rule r_into_rtranclp)
  from job_slots_are_conserved [OF small_executor_init r] have
    "int (slots (ex ?w) + holding ?w + waiting ?w + started ?w + releasing ?w) = 1 + 1" by (elim conjE)
  with r show ?thesis by (intro exI [of _ ?w]) simp
qed

text \<open>
  After a shutdown no job is admitted: in every later state the service refuses,
  and the number of admitted jobs has not grown.
\<close>

theorem shutdown_is_final:
  assumes "exec_step\<^sup>*\<^sup>* (w\<lparr>ex := shutdown (ex w)\<rparr>) w'"
  shows "admitted (ex w') \<le> admitted (ex w) \<and>
    snd (reserve_job_slot (ex w')) = Inl shutting_down"
proof -
  have "\<not> accepting (ex (w\<lparr>ex := shutdown (ex w)\<rparr>))" by (simp add: shutdown_def)
  from shutdown_run [OF assms this] have "\<not> accepting (ex w') \<and> admitted (ex w') \<le> admitted (shutdown (ex w))"
    by simp
  then show ?thesis
    by (simp add: reserve_job_slot_def andthen_def check_accepting_def shutdown_def split: if_splits)
qed

theorem shutdown_is_final_witness:
  "snd (reserve_job_slot (shutdown small_executor)) = Inl shutting_down"
  using shutdown_is_final [of "initial_world small_executor", OF rtranclp.rtrancl_refl]
  by (simp add: initial_world_def)

text \<open>
  The service reports itself healthy exactly when it accepts jobs, has a free
  slot, fewer than 25 active jobs, an average duration of at most 300 seconds (or
  none yet) and no recent error; in every other case it reports itself degraded.
\<close>

theorem health_decision:
  "dget ''status'' (health_status n src average errors st) =
    JStr (if accepting st \<and> admitted st \<noteq> int (job_capacity st) \<and> n < 25 \<and>
             average \<notin> Some ` {a. 300 < a} \<and> errors = []
          then ''healthy'' else ''degraded'')"
  by (auto simp: health_status_def Let_def with_status_def degraded_job_duration_def split: option.splits)

text \<open>
  The moving average of the job durations always lies between the smallest and
  the largest duration recorded (negative readings are ignored).
\<close>

theorem average_duration_is_bounded:
  assumes "list_all (\<lambda>d. d < 0 \<or> lo \<le> d \<and> d \<le> hi) ds" and "durations ds None = Some a"
  shows "lo \<le> a \<and> a \<le> hi"
proof -
  have "\<forall>d \<in> set ds. 0 \<le> d \<longrightarrow> lo \<le> d \<and> d \<le> hi"
    using assms(1) by (auto simp: list_all_iff)
  from durations_between [OF this, of None] assms(2) show ?thesis by simp
qed

theorem average_duration_is_bounded_witness:
  "\<exists>a. durations [10, -1, 20] None = Some a \<and> 10 \<le> a \<and> a \<le> 20"
proof -
  have d: "durations [10, -1, 20] None = Some 12"
    by (simp add: record_job_duration_def ema_alpha_def)
  from average_duration_is_bounded [OF _ d, of 10 20] d show ?thesis by simp
qed

end
