(* ===== verification/PyRegex.thy ===== *)
theory PyRegex
  imports PyValues
begin

text \<open>
  What the modelled code uses of Python's \<open>re\<close> and of the string methods around it.  An
  expression is matched by backtracking: \<open>run\<close> lists every way to match at a position, in
  the order in which \<open>re\<close> tries them, so that its head is the match \<open>re\<close> finds.  A position
  is the text before it (reversed), the text after it and the groups set so far.  A
  repetition only repeats a body that consumed something; no expression of the program has
  a body that may match the empty text.
\<close>

subsection \<open>Expressions\<close>

datatype rx =
    Here "string \<Rightarrow> string \<Rightarrow> bool"
  | Sym "char \<Rightarrow> bool"
  | Cat rx rx
  | Or rx rx
  | Rep bool rx
  | Grp nat rx

type_synonym rx_at = "string \<times> string \<times> (nat \<times> string) list"

text \<open>\<open>iterate\<close>: greedy or lazy repetition, with the length of the text as a bound.\<close>

fun iterate :: "(rx_at \<Rightarrow> rx_at list) \<Rightarrow> bool \<Rightarrow> nat \<Rightarrow> rx_at \<Rightarrow> rx_at list" where
  "iterate step greedy 0 x = [x]"
| "iterate step greedy (Suc n) x =
    (let more = concat (map (iterate step greedy n)
           (filter (\<lambda>y. length (fst (snd y)) < length (fst (snd x))) (step x)))
     in if greedy then more @ [x] else x # more)"

primrec run :: "rx \<Rightarrow> rx_at \<Rightarrow> rx_at list" where
  "run (Here test) x = (if test (fst x) (fst (snd x)) then [x] else [])"
| "run (Sym ok) x = (case x of (p, [], g) \<Rightarrow> [] | (p, c # q, g) \<Rightarrow> if ok c then [(c # p, q, g)] else [])"
| "run (Cat r s) x = concat (map (run s) (run r x))"
| "run (Or r s) x = run r x @ run s x"
| "run (Rep greedy r) x = iterate (run r) greedy (length (fst (snd x))) x"
| "run (Grp n r) x =
    map (\<lambda>(p, q, g). (p, q, AList.update n (take (length (fst (snd x)) - length q) (fst (snd x))) g)) (run r x)"

text \<open>The abbreviations of the pattern language.\<close>

fun cats :: "rx list \<Rightarrow> rx" where
  "cats [] = Here (\<lambda>p q. True)"
| "cats [r] = r"
| "cats (r # rs) = Cat r (cats rs)"

definition lit :: "string \<Rightarrow> rx" where
  "lit s = cats (map (\<lambda>c. Sym ((=) c)) s)"

definition many :: "rx \<Rightarrow> rx" where "many r = Rep True r"
definition some :: "rx \<Rightarrow> rx" where "some r = Cat r (many r)"
definition maybe :: "rx \<Rightarrow> rx" where "maybe r = Or r (Here (\<lambda>p q. True))"

definition newline :: string where "newline = [char_of (10::nat)]"

definition is_newline :: "char \<Rightarrow> bool" where "is_newline c \<longleftrightarrow> code c = 10"

text \<open>\<open>.\<close>, \<open>\s\<close>, and \<open>^\<close> and \<open>$\<close> of a multi-line expression.\<close>

definition dot :: rx where "dot = Sym (\<lambda>c. \<not> is_newline c)"
definition white :: rx where "white = Sym py_space"
definition line_begin :: rx where "line_begin = Here (\<lambda>p q. p = [] \<or> is_newline (hd p))"
definition line_end :: rx where "line_end = Here (\<lambda>p q. q = [] \<or> is_newline (hd q))"

text \<open>Letters in an expression that ignores case.\<close>

definition any_case :: "string \<Rightarrow> rx" where
  "any_case s = cats (map (\<lambda>c. Sym (\<lambda>d. lower_char d = c)) s)"

definition letter :: "char \<Rightarrow> bool" where
  "letter c \<longleftrightarrow> (let n = code (lower_char c) in 97 \<le> n \<and> n \<le> 122)"

definition letter_or_digit :: "char \<Rightarrow> bool" where
  "letter_or_digit c \<longleftrightarrow> letter c \<or> (48 \<le> code c \<and> code c \<le> 57)"

subsection \<open>Searching\<close>

record rx_match =
  m_text :: string
  m_groups :: "(nat \<times> string) list"

definition m_group :: "nat \<Rightarrow> rx_match \<Rightarrow> string" where
  "m_group n m = (case map_of (m_groups m) n of None \<Rightarrow> [] | Some s \<Rightarrow> s)"

definition match_at :: "rx \<Rightarrow> string \<Rightarrow> string \<Rightarrow> (rx_match \<times> string) option" where
  "match_at r p q =
    (case run r (p, q, []) of
       [] \<Rightarrow> None
     | (p', q', g) # ways \<Rightarrow> Some (\<lparr>m_text = take (length q - length q') q, m_groups = g\<rparr>, q'))"

text \<open>The leftmost match: the text in front of it, the match, and the rest.\<close>

primrec first_match :: "rx \<Rightarrow> string \<Rightarrow> string \<Rightarrow> (string \<times> rx_match \<times> string) option" where
  "first_match r p [] = map_option (\<lambda>(m, q). ([], m, q)) (match_at r p [])"
| "first_match r p (c # cs) =
    (case match_at r p (c # cs) of
       Some (m, q) \<Rightarrow> Some ([], m, q)
     | None \<Rightarrow> map_option (\<lambda>(gap, m, q). (c # gap, m, q)) (first_match r (c # p) cs))"

lemma match_at_text: "match_at r p q = Some (m, q') \<Longrightarrow> length q' \<le> length q \<Longrightarrow> length (m_text m) = length q - length q'"
  by (auto simp: match_at_def split: list.splits)

text \<open>What a match leaves: everything \<open>run\<close> lists splits the text it was given.\<close>

definition splits :: "rx_at \<Rightarrow> rx_at \<Rightarrow> bool" where
  "splits x y \<longleftrightarrow> (\<exists>m. fst (snd x) = m @ fst (snd y) \<and> fst y = rev m @ fst x)"

lemma splits_refl [simp]: "splits x x"
  by (simp add: splits_def)

lemma splits_trans: "splits x y \<Longrightarrow> splits y z \<Longrightarrow> splits x z"
  by (auto simp: splits_def)

lemma iterate_splits:
  assumes "\<And>x y. y \<in> set (step x) \<Longrightarrow> splits x y" and "y \<in> set (iterate step greedy n x)"
  shows "splits x y"
  using assms(2)
proof (induction n arbitrary: x)
  case 0
  then show ?case by simp
next
  case (Suc n)
  then show ?case by (auto simp: Let_def split: if_splits intro: splits_trans dest: assms(1))
qed

lemma run_splits: "y \<in> set (run r x) \<Longrightarrow> splits x y"
proof (induction r arbitrary: x y)
  case (Sym ok)
  then show ?case by (auto simp: splits_def split: list.splits if_splits)
next
  case (Cat r s)
  from Cat.prems obtain z where "z \<in> set (run r x)" and "y \<in> set (run s z)" by auto
  with Cat.IH show ?case by (blast intro: splits_trans)
next
  case (Rep greedy r)
  from Rep.prems show ?case by (auto intro: iterate_splits [OF Rep.IH])
next
  case (Grp n r)
  from Grp.prems obtain p q g where "(p, q, g) \<in> set (run r x)" and "fst y = p" "fst (snd y) = q"
    by (auto split: prod.splits)
  with Grp.IH show ?case by (fastforce simp: splits_def)
qed (auto split: if_splits)

lemma match_at_splits:
  assumes "match_at r p q = Some (m, q')"
  shows "q = m_text m @ q'"
proof -
  obtain p' g ways where r: "run r (p, q, []) = (p', q', g) # ways" and
    m: "m = \<lparr>m_text = take (length q - length q') q, m_groups = g\<rparr>"
    using assms by (auto simp: match_at_def split: list.splits)
  have "splits (p, q, []) (p', q', g)" using run_splits r by (metis list.set_intros(1))
  with m show ?thesis by (auto simp: splits_def)
qed

lemma first_match_splits: "first_match r p q = Some (gap, m, q') \<Longrightarrow> q = gap @ m_text m @ q'"
proof (induction q arbitrary: p gap)
  case Nil
  then show ?case using match_at_splits [of r p "[]"] by auto
next
  case (Cons c cs)
  then show ?case using match_at_splits [of r p "c # cs"] by (auto split: option.splits)
qed

lemma first_match_None:
  assumes "\<And>p q. run r (p, q, []) = [] \<Longrightarrow> run r' (p, q, []) = []" and "first_match r p q = None"
  shows "first_match r' p q = None"
proof -
  have at: "match_at r p q = None \<Longrightarrow> match_at r' p q = None" for p q
    using assms(1) by (auto simp: match_at_def split: list.splits)
  from assms(2) show ?thesis by (induction q arbitrary: p) (auto simp: at split: option.splits)
qed

text \<open>The least number of characters a match has.\<close>

primrec min_len :: "rx \<Rightarrow> nat" where
  "min_len (Here test) = 0"
| "min_len (Sym ok) = 1"
| "min_len (Cat r s) = min_len r + min_len s"
| "min_len (Or r s) = min (min_len r) (min_len s)"
| "min_len (Rep greedy r) = 0"
| "min_len (Grp n r) = min_len r"

lemma splits_length: "splits x y \<Longrightarrow> length (fst (snd y)) \<le> length (fst (snd x))"
  by (auto simp: splits_def)

lemma run_min_len: "y \<in> set (run r x) \<Longrightarrow> length (fst (snd y)) + min_len r \<le> length (fst (snd x))"
proof (induction r arbitrary: x y)
  case (Cat r s)
  from Cat.prems obtain z where "z \<in> set (run r x)" and "y \<in> set (run s z)" by auto
  with Cat.IH [of z x] Cat.IH(2) [of y z] show ?case by simp
next
  case (Rep greedy r)
  then show ?case using splits_length [OF run_splits [OF Rep.prems]] by simp
next
  case (Or r s)
  from Or.prems consider "y \<in> set (run r x)" | "y \<in> set (run s x)" by auto
  then show ?case using Or.IH(1) [of y x] Or.IH(2) [of y x] by cases simp_all
next
  case (Grp n r)
  from Grp.prems obtain z where z: "z \<in> set (run r x)" "fst (snd y) = fst (snd z)" by (auto split: prod.splits)
  then show ?case using Grp.IH [OF z(1)] by simp
qed (auto split: if_splits list.splits prod.splits)

lemma first_match_min_len:
  assumes "first_match r p q = Some (gap, m, q')"
  shows "min_len r \<le> length (m_text m)"
proof -
  have le: "min_len r \<le> length (m_text m)" if at: "match_at r p q = Some (m, q')" for p q
  proof -
    obtain p' g ways where "run r (p, q, []) = (p', q', g) # ways"
      using at by (auto simp: match_at_def split: list.splits)
    then have "length q' + min_len r \<le> length q"
      using run_min_len [of "(p', q', g)" r "(p, q, [])"] by simp
    with match_at_splits [OF at] show ?thesis by (metis add.commute add_le_cancel_left length_append)
  qed
  from assms show ?thesis
    by (induction q arbitrary: p gap) (auto split: option.splits dest: le)
qed

text \<open>
  \<open>finditer\<close>, \<open>sub\<close> and \<open>split\<close>: the text as gaps and matches, and its tail.  The search ends
  at an empty match, which no expression of the program has.
\<close>

function find_all :: "rx \<Rightarrow> string \<Rightarrow> string \<Rightarrow> (string \<times> rx_match) list \<times> string" where
  "find_all r p q =
    (case first_match r p q of
       None \<Rightarrow> ([], q)
     | Some (gap, m, q') \<Rightarrow>
       if m_text m = [] then ([], q)
       else (case find_all r (rev (m_text m) @ rev gap @ p) q' of (parts, tail) \<Rightarrow> ((gap, m) # parts, tail)))"
  by pat_completeness auto
termination
  by (relation "measure (\<lambda>(r, p, q). length q)") (auto dest!: first_match_splits)

declare find_all.simps [simp del]

lemma find_all_concat:
  "find_all r p q = (parts, tail) \<Longrightarrow> q = concat (map (\<lambda>(gap, m). gap @ m_text m) parts) @ tail"
proof (induction r p q arbitrary: parts rule: find_all.induct)
  case (1 r p q)
  show ?case
  proof (cases "first_match r p q")
    case None
    with 1(2) show ?thesis by (simp add: find_all.simps)
  next
    case (Some x)
    obtain gap m q' where x: "x = (gap, m, q')" by (cases x)
    note q = first_match_splits [OF Some [unfolded x]]
    show ?thesis
    proof (cases "m_text m = []")
      case True
      with 1(2) Some x show ?thesis by (simp add: find_all.simps)
    next
      case False
      obtain ps where ps: "find_all r (rev (m_text m) @ rev gap @ p) q' = (ps, tail)" "parts = (gap, m) # ps"
        using 1(2) Some x False by (subst (asm) (1) find_all.simps) (auto split: prod.splits)
      show ?thesis using 1(1) [OF Some _ _ False ps(1)] x q ps(2) by simp
    qed
  qed
qed

definition sub_all :: "rx \<Rightarrow> (rx_match \<Rightarrow> string) \<Rightarrow> string \<Rightarrow> string" where
  "sub_all r f s = (case find_all r [] s of (parts, tail) \<Rightarrow> concat (map (\<lambda>(gap, m). gap @ f m) parts) @ tail)"

subsection \<open>String methods\<close>

text \<open>\<open>s.find(sub)\<close>: the text in front of the first occurrence and the text behind it.\<close>

fun cut_at :: "string \<Rightarrow> string \<Rightarrow> (string \<times> string) option" where
  "cut_at sub s =
    (if startswith s sub then Some ([], drop (length sub) s)
     else case s of [] \<Rightarrow> None | c # cs \<Rightarrow> map_option (\<lambda>(a, b). (c # a, b)) (cut_at sub cs))"

declare cut_at.simps [simp del]

lemma cut_at_append: "cut_at sub s = Some (a, b) \<Longrightarrow> s = a @ sub @ b"
proof (induction s arbitrary: a)
  case Nil
  then show ?case by (auto simp: cut_at.simps startswith_def split: if_splits)
next
  case (Cons c cs)
  then show ?case
    by (subst (asm) (2) cut_at.simps)
       (auto simp: startswith_def split: if_splits, metis append_take_drop_id)
qed

text \<open>\<open>s.replace(sub, new, 1)\<close>, and \<open>s.replace(sub, new)\<close> for a non-empty \<open>sub\<close>.\<close>

definition replace_once :: "string \<Rightarrow> string \<Rightarrow> string \<Rightarrow> string" where
  "replace_once sub new s = (case cut_at sub s of None \<Rightarrow> s | Some (a, b) \<Rightarrow> a @ new @ b)"

function replace_all :: "string \<Rightarrow> string \<Rightarrow> string \<Rightarrow> string" where
  "replace_all sub new s =
    (case cut_at sub s of
       None \<Rightarrow> s
     | Some (a, b) \<Rightarrow> if sub = [] then s else a @ new @ replace_all sub new b)"
  by pat_completeness auto
termination
  by (relation "measure (\<lambda>(sub, new, s). length s)") (auto dest!: cut_at_append)

declare replace_all.simps [simp del]

text \<open>\<open>s.split(sep)\<close> for a non-empty separator.\<close>

function split_on :: "string \<Rightarrow> string \<Rightarrow> string list" where
  "split_on sep s =
    (case cut_at sep s of
       None \<Rightarrow> [s]
     | Some (a, b) \<Rightarrow> if sep = [] then [s] else a # split_on sep b)"
  by pat_completeness auto
termination
  by (relation "measure (\<lambda>(sep, s). length s)") (auto dest!: cut_at_append)

declare split_on.simps [simp del]

text \<open>\<open>s.split()\<close>.\<close>

function split_ws :: "string \<Rightarrow> string list" where
  "split_ws s =
    (let t = dropWhile py_space s in
     if t = [] then []
     else takeWhile (\<lambda>c. \<not> py_space c) t # split_ws (dropWhile (\<lambda>c. \<not> py_space c) t))"
  by pat_completeness auto
termination
proof (relation "measure length", goal_cases)
  case (2 s t)
  then have "t \<noteq> []" by simp
  then obtain c t' where t: "t = c # t'" by (meson neq_Nil_conv)
  have "\<not> py_space (hd t)" using 2 hd_dropWhile [of py_space s] by simp
  with t have "length (dropWhile (\<lambda>c. \<not> py_space c) t) < length t"
    using length_dropWhile_le [of "\<lambda>c. \<not> py_space c" t'] by (simp add: le_less_trans)
  moreover have "length t \<le> length s" using 2 length_dropWhile_le by metis
  ultimately show ?case by simp
qed simp

declare split_ws.simps [simp del]

lemma split_on_join: "join sep (split_on sep s) = s"
proof (induction sep s rule: split_on.induct)
  case (1 sep s)
  show ?case
  proof (cases "cut_at sep s")
    case None
    then show ?thesis by (simp add: split_on.simps)
  next
    case (Some x)
    obtain a b where x: "x = (a, b)" by (cases x)
    note s = cut_at_append [OF Some [unfolded x]]
    show ?thesis
    proof (cases "sep = []")
      case True
      with Some x show ?thesis by (simp add: split_on.simps)
    next
      case False
      have "split_on sep b \<noteq> []" by (subst split_on.simps) (auto split: option.splits)
      then have "join sep (a # split_on sep b) = a @ sep @ join sep (split_on sep b)"
        by (cases "split_on sep b") auto
      with 1 [OF Some _ False, of a b] x s Some False show ?thesis
        by (subst split_on.simps) simp
    qed
  qed
qed

end
