(* ===== verification/Publishers.thy ===== *)
theory Publishers
  imports RedisIO PyRegex
begin

text \<open>
  \<open>api/translation_v2/publishers.py\<close>: composing a Malagasy page from translated entries
  and queueing it on RabbitMQ, with the publication filter and the publication guard
  in the order the code calls them.  The guard and the filter act on a state of any
  type \<open>'s\<close>, which the translation service instantiates.  What the page composition
  takes from elsewhere is a parameter: the target page of the wiki, the removal of a
  language section, the rendering of the entries and the edit summary.
\<close>

subsection \<open>Errors\<close>

definition page_push_error :: exn where
  "page_push_error = OtherError ''TranslatedPagePushError''"

definition rabbit_error :: exn where
  "rabbit_error = OtherError ''WiktionaryRabbitMqPublisherError''"

definition push_rejected :: exn where
  "push_rejected = OtherError ''WiktionaryRabbitMqPublisherRejectedError''"

definition push_outcome_unknown :: exn where
  "push_outcome_unknown = OtherError ''WiktionaryRabbitMqPublisherOutcomeUnknown''"

text \<open>\<open>reraise_exceptions\<close> of \<open>api/decorator.py\<close> for the class \<open>Exception\<close>.\<close>

definition reraise :: "exn \<Rightarrow> 's \<times> 'a res \<Rightarrow> 's \<times> 'a res" where
  "reraise new_exception p =
    (case p of (s, Inl e) \<Rightarrow> (s, Inl new_exception) | (s, Inr a) \<Rightarrow> (s, Inr a))"

subsection \<open>The confirmed queue\<close>

text \<open>
  The producer connects on first use.  A confirmed publication is acknowledged, or it
  fails with the message in the queue or not.
\<close>

record broker =
  connected :: bool
  queue :: "dict list"

definition rabbit_push :: "bool \<Rightarrow> io \<Rightarrow> dict \<Rightarrow> broker \<Rightarrow> broker \<times> unit res" where
  "rabbit_push connect_ok send message b =
    (if dhas ''reviewed_fix'' message then (b, Inl push_rejected)
     else if \<not> connected b \<and> \<not> connect_ok then (b, Inl push_rejected)
     else
       let b1 = b\<lparr>connected := True\<rparr> in
       (case redis_call send (\<lambda>q. (q @ [message], Inr ())) (queue b1) of
          (q, Inl e) \<Rightarrow> (b1\<lparr>queue := q\<rparr>, Inl push_outcome_unknown)
        | (q, Inr u) \<Rightarrow> (b1\<lparr>queue := q\<rparr>, Inr ())))"

definition publish_wikipage_message ::
  "string \<Rightarrow> string \<Rightarrow> string \<Rightarrow> bool \<Rightarrow> string option \<Rightarrow> dict" where
  "publish_wikipage_message content page_title summary minor expected_sha =
    (let message = [(''language'', JStr ''mg''), (''site'', JStr ''wiktionary''),
           (''page'', JStr page_title), (''content'', JStr content),
           (''summary'', JStr summary), (''minor'', JBool minor)]
     in case expected_sha of
          None \<Rightarrow> message
        | Some sha \<Rightarrow> dset ''expected_content_sha256'' (JStr sha) message)"

definition run_guard :: "('s \<Rightarrow> 's \<times> unit res) option \<Rightarrow> 's \<Rightarrow> 's \<times> unit res" where
  "run_guard guard s = (case guard of None \<Rightarrow> (s, Inr ()) | Some g \<Rightarrow> g s)"

definition publish_wikipage ::
  "('s \<Rightarrow> 's \<times> unit res) option \<Rightarrow> (dict \<Rightarrow> 's \<Rightarrow> 's \<times> unit res)
    \<Rightarrow> string \<Rightarrow> string \<Rightarrow> string \<Rightarrow> bool \<Rightarrow> string option \<Rightarrow> 's \<Rightarrow> 's \<times> unit res" where
  "publish_wikipage guard push content page_title summary minor expected_sha s =
    (let message = publish_wikipage_message content page_title summary minor expected_sha in
     case run_guard guard s of
       (s1, Inl e) \<Rightarrow> (s1, Inl e)
     | (s1, Inr u) \<Rightarrow> push message s1)"

subsection \<open>Publishing translated entries\<close>

record target_page =
  page_namespace :: int
  page_exists :: bool
  page_text :: string

text \<open>What the composition of a page calls: section removal, rendering, summary.\<close>

record 'e output_code =
  entry_language :: "'e \<Rightarrow> string"
  delete_section :: "string \<Rightarrow> string \<Rightarrow> string"
  wikipages :: "'e list \<Rightarrow> string"
  generate_summary :: "'e list \<Rightarrow> target_page \<Rightarrow> string \<Rightarrow> string"

definition page_content :: "'e output_code \<Rightarrow> target_page \<Rightarrow> 'e list \<Rightarrow> string" where
  "page_content out page entries =
    (let content = (if page_exists page
           then fold (\<lambda>entry c. delete_section out (entry_language out entry) c) entries (page_text page)
           else [])
     in strip content @ newline @ strip (wikipages out entries))"

definition publication_message ::
  "'e output_code \<Rightarrow> string \<Rightarrow> target_page \<Rightarrow> string \<Rightarrow> 'e list \<Rightarrow> dict" where
  "publication_message out working_language page page_title entries =
    (let content = page_content out page entries in
     [(''language'', JStr working_language), (''site'', JStr ''wiktionary''),
      (''page'', JStr page_title), (''content'', JStr content),
      (''summary'', JStr (generate_summary out entries page content)), (''minor'', JBool False)])"

definition run_filter ::
  "(string \<Rightarrow> string \<Rightarrow> 's \<Rightarrow> 's \<times> bool res) option \<Rightarrow> string \<Rightarrow> string \<Rightarrow> 's \<Rightarrow> 's \<times> bool res" where
  "run_filter flt page_title content s =
    (case flt of None \<Rightarrow> (s, Inr True) | Some f \<Rightarrow> f page_title content s)"

text \<open>The inner function before the decorator rewrites its exceptions.\<close>

definition publish_translated_raw ::
  "'e output_code \<Rightarrow> string \<Rightarrow> (string \<Rightarrow> target_page) \<Rightarrow> ('s \<Rightarrow> 's \<times> unit res) option
    \<Rightarrow> (string \<Rightarrow> string \<Rightarrow> 's \<Rightarrow> 's \<times> bool res) option \<Rightarrow> (dict \<Rightarrow> 's \<Rightarrow> 's \<times> unit res)
    \<Rightarrow> string \<Rightarrow> 'e list \<Rightarrow> 's \<Rightarrow> 's \<times> bool res" where
  "publish_translated_raw out working_language wiki guard flt push page_title entries s =
    (if working_language \<noteq> ''mg'' then (s, Inl page_push_error)
     else
       let page = wiki page_title in
       if page_namespace page \<noteq> 0 then (s, Inl page_push_error)
       else
         let content = page_content out page entries in
         (case run_filter flt page_title content s of
            (s1, Inl e) \<Rightarrow> (s1, Inl e)
          | (s1, Inr False) \<Rightarrow> (s1, Inr False)
          | (s1, Inr True) \<Rightarrow>
            (case run_guard guard s1 of
               (s2, Inl e) \<Rightarrow> (s2, Inl e)
             | (s2, Inr u) \<Rightarrow>
               (case push (publication_message out working_language page page_title entries) s2 of
                  (s3, Inl e) \<Rightarrow> (s3, Inl e)
                | (s3, Inr u) \<Rightarrow> (s3, Inr True)))))"

definition publish_translated where
  "publish_translated out working_language wiki guard flt push page_title entries s =
    reraise rabbit_error
      (publish_translated_raw out working_language wiki guard flt push page_title entries s)"

subsection \<open>What a publication has passed\<close>

lemma rabbit_push_queue:
  assumes "rabbit_push connect_ok send message b = (b', r)"
  shows "queue b' = queue b \<or> queue b' = queue b @ [message]"
    and "r = Inr u \<Longrightarrow> queue b' = queue b @ [message] \<and> connected b'"
    and "r = Inl push_rejected \<Longrightarrow> queue b' = queue b"
  using assms
  by (auto simp: rabbit_push_def redis_call_def Let_def push_rejected_def push_outcome_unknown_def
      split: if_splits io.splits)

lemma publish_translated_steps:
  assumes "publish_translated_raw out lang wiki guard flt push page_title entries s = (s', r)"
  obtains (untouched) "s' = s" "r = Inl page_push_error"
    | (filtered) a where "run_filter flt page_title (page_content out (wiki page_title) entries) s = (s', a)"
        "a \<noteq> Inr True" "r = a"
    | (fenced) s1 e where "run_filter flt page_title (page_content out (wiki page_title) entries) s = (s1, Inr True)"
        "run_guard guard s1 = (s', Inl e)" "r = Inl e"
    | (pushed) s1 s2 a where "lang = ''mg''"
        "run_filter flt page_title (page_content out (wiki page_title) entries) s = (s1, Inr True)"
        "run_guard guard s1 = (s2, Inr ())"
        "push (publication_message out lang (wiki page_title) page_title entries) s2 = (s', a)"
        "r = map_sum id (\<lambda>u. True) a"
  using assms
  by (auto simp: publish_translated_raw_def Let_def
      split: if_splits prod.splits sum.splits bool.splits)

end
