(* ===== verification/TranslationJobs.thy ===== *)
theory TranslationJobs
  imports RedisCounter JobErrors Executor Publishers
begin

text \<open>
  The background translation job of \<open>EntryTranslatorService\<close>
  (\<open>api/services/entry_translator_service.py\<close>): admission
  (\<open>enqueue_translation_job\<close>), the task, its publication closure, its cleanup, and the
  recovery of records that lost their lease.  The state holds the shared counter and
  record store, the process-local executor state and the broker.  Every call to
  Redis or to the broker is numbered; the environment gives for each number what the
  other processes have written before it, whether the call succeeds, and the clock.

  Code outside the modelled part is a parameter: the translation engine is a tree of
  publication requests (\<open>engine\<close>), the page fetch, the settings and the page checker
  are results, \<open>str(exc)\<close> and the class name of an exception are functions.
\<close>

subsection \<open>Results of the engine\<close>

record page_result =
  pr_title :: string
  pr_language :: string
  pr_status :: string
  pr_message :: string
  pr_entries_count :: int
  pr_published :: bool
  pr_error_type :: "string option"

datatype tresult =
    PageResult page_result
  | DictResult dict
  | IntResult int
  | OtherResult

definition opt_text :: "string option \<Rightarrow> json" where
  "opt_text v = (case v of None \<Rightarrow> JNull | Some s \<Rightarrow> JStr s)"

definition serialise_page_result :: "page_result \<Rightarrow> dict" where
  "serialise_page_result r =
    [(''title'', JStr (pr_title r)), (''language'', JStr (pr_language r)),
     (''status'', JStr (pr_status r)), (''message'', JStr (pr_message r)),
     (''entries_count'', JInt (pr_entries_count r)), (''published'', JBool (pr_published r)),
     (''error_type'', opt_text (pr_error_type r))]"

fun serialise_translation_result :: "tresult \<Rightarrow> string \<Rightarrow> string \<Rightarrow> dict" where
  "serialise_translation_result (PageResult r) title language = serialise_page_result r"
| "serialise_translation_result (DictResult d) title language = d"
| "serialise_translation_result (IntResult n) title language =
    [(''title'', JStr title), (''language'', JStr language),
     (''status'', JStr (if 0 < n then ''published'' else ''no_entries'')),
     (''message'', JStr ''Translation finished.''), (''entries_count'', JInt n),
     (''published'', JBool (0 < n)), (''error_type'', JNull)]"
| "serialise_translation_result OtherResult title language =
    [(''title'', JStr title), (''language'', JStr language), (''status'', JStr ''unknown''),
     (''message'', JStr ''Translation finished without structured result data.''),
     (''entries_count'', JInt 0), (''published'', JBool False), (''error_type'', JNull)]"

fun is_error_result :: "tresult \<Rightarrow> bool" where
  "is_error_result (PageResult r) = (pr_status r = ''error'')"
| "is_error_result (DictResult d) = (dget ''status'' d = JStr ''error'')"
| "is_error_result r = False"

definition normalise_queued_result :: "dict \<Rightarrow> dict" where
  "normalise_queued_result result =
    dset ''published'' (JBool False)
      (dset ''message'' (JStr ''Translated entries were queued for publication.'')
        (dset ''status'' (JStr ''publication_queued'') result))"

definition normalise_filtered_result :: "dict \<Rightarrow> dict" where
  "normalise_filtered_result result =
    dset ''published'' (JBool False)
      (dset ''message'' (JStr ''The translated page did not pass the publication prefilter.'')
        (dset ''status'' (JStr ''publication_filtered'') result))"

definition public_translation_job :: "dict \<Rightarrow> dict" where
  "public_translation_job job = dpop ''_owner_token'' job"

text \<open>\<open>_TRANSLATION_JOB_MESSAGES\<close>.\<close>

definition translation_job_messages :: "(string \<times> string) list" where
  "translation_job_messages =
    [(''queued'', ''Translation job queued.''),
     (''loading_source'', ''Loading the source page.''),
     (''translating'', ''Translating the source page.''),
     (''queueing_publication'', ''Queueing translated entries for publication.''),
     (''prefiltering_publication'', ''Checking the translated page before publication.''),
     (''publication_queued'', ''Translated entries were queued for publication.''),
     (''publication_filtered'', ''The translated page did not pass the publication prefilter.''),
     (''completed'', ''Translation job completed.''),
     (''failed'', ''Translation job failed.'')]"

definition stage_message :: "string \<Rightarrow> json res" where
  "stage_message stage =
    (case map_of translation_job_messages stage of None \<Rightarrow> Inl KeyError | Some m \<Rightarrow> Inr (JStr m))"

subsection \<open>State and environment\<close>

record jworld =
  counter :: redis_counter
  tstore :: rhash
  errs :: error_store
  exec :: executor
  local_ids :: "string list"
  average :: "rat option"
  rabbit :: broker
  pushed_at :: "nat list"
  calls :: nat
  job :: dict
  task_started :: bool
  cleaned :: bool

record 'e tenv =
  meddle :: "nat \<Rightarrow> active_store \<times> rhash \<Rightarrow> active_store \<times> rhash"
  io_at :: "nat \<Rightarrow> io"
  clock :: "nat \<Rightarrow> rat"
  connect_ok :: "nat \<Rightarrow> bool"
  exn_text :: "exn \<Rightarrow> string"
  exn_type :: "exn \<Rightarrow> string"
  page_fetch :: "exn option"
  prefilter_setting :: "nat \<Rightarrow> bool res"
  page_verdict :: "string \<Rightarrow> string \<Rightarrow> string res"
  wiki :: "string \<Rightarrow> target_page"
  page_output :: "'e output_code"
  job_title :: string
  job_language :: string
  job_id :: string
  owner_token :: string
  job_duration :: rat
  stale_timeout :: rat

text \<open>The other processes run, and the next call gets its number.\<close>

definition enter :: "'e tenv \<Rightarrow> jworld \<Rightarrow> jworld" where
  "enter E w =
    (case meddle E (calls w) (store (counter w), tstore w) of
       (a, h) \<Rightarrow> w\<lparr>counter := (counter w)\<lparr>store := a\<rparr>, tstore := h, calls := calls w + 1\<rparr>)"

definition on_counter ::
  "'e tenv \<Rightarrow> (io \<Rightarrow> rat \<Rightarrow> redis_counter \<Rightarrow> redis_counter \<times> 'a res) \<Rightarrow> jworld \<Rightarrow> jworld \<times> 'a res" where
  "on_counter E f w =
    (let w1 = enter E w in
     case f (io_at E (calls w)) (clock E (calls w)) (counter w1) of
       (c, r) \<Rightarrow> (w1\<lparr>counter := c\<rparr>, r))"

definition on_store ::
  "'e tenv \<Rightarrow> (io \<Rightarrow> rhash \<Rightarrow> rhash \<times> 'a res) \<Rightarrow> jworld \<Rightarrow> jworld \<times> 'a res" where
  "on_store E f w =
    (let w1 = enter E w in
     case f (io_at E (calls w)) (tstore w1) of (h, r) \<Rightarrow> (w1\<lparr>tstore := h\<rparr>, r))"

definition w_touch :: "'e tenv \<Rightarrow> string \<Rightarrow> string \<Rightarrow> jworld \<Rightarrow> jworld \<times> bool res" where
  "w_touch E j token = on_counter E (\<lambda>i t. redis_touch_job i j t (Some token))"

definition w_owns :: "'e tenv \<Rightarrow> string \<Rightarrow> string \<Rightarrow> jworld \<Rightarrow> jworld \<times> bool res" where
  "w_owns E j token = on_counter E (\<lambda>i t. redis_owns_job i j token)"

definition w_claim :: "'e tenv \<Rightarrow> rat \<Rightarrow> jworld \<Rightarrow> jworld \<times> bool res" where
  "w_claim E created_at = on_counter E (\<lambda>i t.
     redis_claim_job i (job_title E) (job_language E) created_at (job_id E) (owner_token E))"

definition w_finish :: "'e tenv \<Rightarrow> jworld \<Rightarrow> jworld \<times> bool res" where
  "w_finish E = on_counter E (\<lambda>i t. redis_finish_job i (job_id E) (Some (owner_token E)))"

definition w_put_owned :: "'e tenv \<Rightarrow> string \<Rightarrow> jworld \<Rightarrow> jworld \<times> bool res" where
  "w_put_owned E token w = on_store E (\<lambda>i. ts_put_owned i (job w) token) w"

definition w_create :: "'e tenv \<Rightarrow> jworld \<Rightarrow> jworld \<times> bool res" where
  "w_create E w = on_store E (\<lambda>i. ts_create i (job w)) w"

definition w_get :: "'e tenv \<Rightarrow> string \<Rightarrow> jworld \<Rightarrow> jworld \<times> dict option res" where
  "w_get E j = on_store E (\<lambda>i h. (h, ts_get (i = Acked) j h))"

definition w_record_error :: "'e tenv \<Rightarrow> dict \<Rightarrow> jworld \<Rightarrow> jworld" where
  "w_record_error E err w =
    w\<lparr>errs := JobErrors.record_error (io_at E (calls w)) (io_at E (calls w + 1)) err (errs w),
      calls := calls w + 2\<rparr>"


subsection \<open>One lifecycle transition\<close>

definition check_lease :: "'e tenv \<Rightarrow> string \<Rightarrow> string \<Rightarrow> jworld \<Rightarrow> jworld \<times> unit res" where
  "check_lease E j token =
    sbind (w_touch E j token) (\<lambda>b. sreturn (if b then Inr () else Inl TranslationJobLeaseLost))"

definition store_owned :: "'e tenv \<Rightarrow> string \<Rightarrow> jworld \<Rightarrow> jworld \<times> unit res" where
  "store_owned E token =
    sbind (w_put_owned E token) (\<lambda>b. sreturn (if b then Inr () else Inl TranslationJobLeaseLost))"

definition set_job :: "string \<Rightarrow> json \<Rightarrow> jworld \<Rightarrow> jworld" where
  "set_job k v w = w\<lparr>job := dset k v (job w)\<rparr>"

definition update_translation_job ::
  "'e tenv \<Rightarrow> string \<Rightarrow> string \<Rightarrow> string \<Rightarrow> bool \<Rightarrow> jworld \<Rightarrow> jworld \<times> unit res" where
  "update_translation_job E status stage token require_active w =
    sbind (if require_active then check_lease E (py_str (dget ''job_id'' (job w))) token
           else sreturn (Inr ()))
    (\<lambda>_ w1.
      let w2 = set_job ''stage'' (JStr stage) (set_job ''status'' (JStr status) w1) in
      case stage_message stage of
        Inl e \<Rightarrow> (w2, Inl e)
      | Inr message \<Rightarrow>
          store_owned E token
            (set_job ''last_updated_at'' (JFloat (Finite (clock E (calls w1))))
              (set_job ''message'' message w2))) w"

definition step_to :: "'e tenv \<Rightarrow> string \<Rightarrow> string \<Rightarrow> jworld \<Rightarrow> jworld \<times> unit res" where
  "step_to E status stage = update_translation_job E status stage (owner_token E) True"

subsection \<open>Publication\<close>

definition settings_unavailable :: "exn \<Rightarrow> exn" where
  "settings_unavailable e =
    (case e of
       PageCheckerSettingsStoreError m \<Rightarrow>
         ServiceError 503 ''Page checker settings are temporarily unavailable.''
     | _ \<Rightarrow> e)"

definition assert_publication_lease :: "'e tenv \<Rightarrow> jworld \<Rightarrow> jworld \<times> unit res" where
  "assert_publication_lease E = check_lease E (job_id E) (owner_token E)"

definition filter_publication ::
  "'e tenv \<Rightarrow> string \<Rightarrow> string \<Rightarrow> jworld \<Rightarrow> jworld \<times> bool res" where
  "filter_publication E page_title content w =
    (case prefilter_setting E (calls w) of
       Inl e \<Rightarrow> (w, Inl (settings_unavailable e))
     | Inr False \<Rightarrow> (w, Inr True)
     | Inr True \<Rightarrow>
         sbind (step_to E ''running'' ''prefiltering_publication'')
           (\<lambda>_. sreturn (bnd (page_verdict E page_title content) (\<lambda>s. Inr (s = ''good'')))) w)"

definition w_push :: "'e tenv \<Rightarrow> dict \<Rightarrow> jworld \<Rightarrow> jworld \<times> unit res" where
  "w_push E message w =
    (let w1 = enter E w in
     case rabbit_push (connect_ok E (calls w)) (io_at E (calls w)) message (rabbit w1) of
       (b, r) \<Rightarrow> (w1\<lparr>rabbit := b, pushed_at := pushed_at w1 @ [calls w]\<rparr>, r))"

definition publish_unlocked :: "'e tenv \<Rightarrow> string \<Rightarrow> 'e list \<Rightarrow> jworld \<Rightarrow> jworld \<times> bool res" where
  "publish_unlocked E = publish_translated (page_output E) ''mg'' (wiki E)
     (Some (assert_publication_lease E)) (Some (filter_publication E)) (w_push E)"

definition publish_locked :: "'e tenv \<Rightarrow> string \<Rightarrow> 'e list \<Rightarrow> jworld \<Rightarrow> jworld \<times> unit res" where
  "publish_locked E page_title entries =
    sbind (step_to E ''running'' ''queueing_publication'') (\<lambda>_.
    sbind (publish_unlocked E page_title entries) (\<lambda>queued w.
      if \<not> queued
      then step_to E ''running'' ''publication_filtered''
             (set_job ''publication_state'' (JStr ''filtered_out'') w)
      else step_to E ''running'' ''publication_queued''
             (set_job ''publication_state'' (JStr ''queued'') w)))"

text \<open>
  The engine may publish any number of times, with anything, and see whether each
  publication raised, before it returns a result or raises.
\<close>

datatype 'e engine =
    Returns tresult
  | Raises exn
  | Publishes string "'e list" "exn option \<Rightarrow> 'e engine"

fun raised :: "'a res \<Rightarrow> exn option" where
  "raised (Inl e) = Some e"
| "raised (Inr a) = None"

primrec run_engine :: "'e tenv \<Rightarrow> 'e engine \<Rightarrow> jworld \<Rightarrow> jworld \<times> tresult res" where
  "run_engine E (Returns r) w = (w, Inr r)"
| "run_engine E (Raises e) w = (w, Inl e)"
| "run_engine E (Publishes page_title entries k) w =
    (case publish_locked E page_title entries w of (w1, r) \<Rightarrow> run_engine E (k (raised r)) w1)"

subsection \<open>Errors and cleanup\<close>

definition str_or :: "string \<Rightarrow> string \<Rightarrow> string" where
  "str_or a b = (if a = [] then b else a)"

definition with_job_id :: "string option \<Rightarrow> dict \<Rightarrow> dict" where
  "with_job_id j d = (case j of None \<Rightarrow> d | Some s \<Rightarrow> dset ''job_id'' (JStr s) d)"

definition exception_error :: "'e tenv \<Rightarrow> string \<Rightarrow> exn \<Rightarrow> string option \<Rightarrow> string \<Rightarrow> string \<Rightarrow> dict" where
  "exception_error E message e j title language =
    with_job_id j [(''message'', JStr message), (''error'', JStr (exn_text E e)),
      (''type'', JStr (exn_type E e)), (''title'', JStr title), (''language'', JStr language)]"

definition dict_error :: "string \<Rightarrow> dict \<Rightarrow> string option \<Rightarrow> string \<Rightarrow> string \<Rightarrow> dict" where
  "dict_error message d j title language =
    with_job_id j [(''message'', JStr message),
      (''error'', JStr (py_str (dget_or ''message'' (JStr []) d))),
      (''type'', JStr (py_str (dget_or ''error_type'' (JStr ''dict'') d))),
      (''title'', JStr (str_or title (py_str (dget_or ''title'' (JStr []) d)))),
      (''language'', JStr (str_or language (py_str (dget_or ''language'' (JStr []) d))))]"

definition page_result_error :: "string \<Rightarrow> page_result \<Rightarrow> string option \<Rightarrow> string \<Rightarrow> string \<Rightarrow> dict" where
  "page_result_error message r j title language =
    with_job_id j [(''message'', JStr message), (''error'', JStr (pr_message r)),
      (''type'', JStr (case pr_error_type r of None \<Rightarrow> ''TranslationPageResult''
                       | Some s \<Rightarrow> str_or s ''TranslationPageResult'')),
      (''title'', JStr (str_or title (pr_title r))),
      (''language'', JStr (str_or language (pr_language r)))]"

text \<open>The error entry of a result, for the two kinds of result that can be errors.\<close>

fun result_error :: "'e tenv \<Rightarrow> string \<Rightarrow> tresult \<Rightarrow> dict" where
  "result_error E message (PageResult r) =
    page_result_error message r (Some (job_id E)) (job_title E) (job_language E)"
| "result_error E message (DictResult d) =
    dict_error message d (Some (job_id E)) (job_title E) (job_language E)"
| "result_error E message r = []"

text \<open>
  \<open>cleanup\<close> gives the slot back once; \<open>owns_active_job\<close> is the closure variable.  The
  heartbeat thread it stops only touches the lease of the job.
\<close>

definition cleanup :: "'e tenv \<Rightarrow> bool \<Rightarrow> bool \<Rightarrow> jworld \<Rightarrow> jworld \<times> unit res" where
  "cleanup E owns_active_job was_failed w =
    (if cleaned w then (w, Inr ())
     else
       let w1 = w\<lparr>cleaned := True,
                 local_ids := (if owns_active_job then removeAll (job_id E) (local_ids w) else local_ids w)\<rparr>
       in case finish_process_job (task_started w) was_failed (exec w1) of
            Inl e \<Rightarrow> (w1\<lparr>exec := count_finished (task_started w) was_failed (exec w1)\<rparr>, Inl e)
          | Inr st \<Rightarrow> (w1\<lparr>exec := st\<rparr>, Inr ()))"

subsection \<open>The task\<close>

definition null_result :: "string \<Rightarrow> jworld \<Rightarrow> jworld" where
  "null_result error_message w =
    set_job ''error'' (JStr error_message) (set_job ''result'' JNull w)"

text \<open>The end of the \<open>try\<close> block: the value is whether the job counts as failed.\<close>

definition finish_result :: "'e tenv \<Rightarrow> tresult \<Rightarrow> jworld \<Rightarrow> jworld \<times> bool res" where
  "finish_result E result w =
    (let serialised = serialise_translation_result result (job_title E) (job_language E);
         default = ''Translation job finished with an error result.''
     in if is_error_result result then
          (let w1 = w_record_error E (result_error E default result) w;
               w2 = set_job ''error'' (JStr (py_str (py_or (dget ''message'' serialised) (JStr default))))
                      (set_job ''result'' (JDict serialised) w1)
           in sbind (step_to E ''error'' ''failed'') (\<lambda>_. sreturn (Inr True)) w2)
        else
          (let state = dget ''publication_state'' (job w);
               final = (if state = JStr ''queued'' then normalise_queued_result serialised
                        else if state = JStr ''filtered_out'' then normalise_filtered_result serialised
                        else serialised);
               w2 = set_job ''error'' JNull (set_job ''result'' (JDict final) w)
           in sbind (step_to E ''done'' ''completed'') (\<lambda>_. sreturn (Inr False)) w2))"

definition task_try :: "'e tenv \<Rightarrow> 'e engine \<Rightarrow> jworld \<Rightarrow> jworld \<times> bool res" where
  "task_try E eng =
    sbind (step_to E ''running'' ''loading_source'') (\<lambda>_.
    sbind (sreturn (case page_fetch E of None \<Rightarrow> Inr () | Some e \<Rightarrow> Inl e)) (\<lambda>_.
    sbind (step_to E ''running'' ''translating'') (\<lambda>_.
    sbind (run_engine E eng) (finish_result E))))"

text \<open>The \<open>except\<close> block: whether the terminal state was stored.\<close>

definition task_failure :: "'e tenv \<Rightarrow> exn \<Rightarrow> jworld \<Rightarrow> jworld \<times> bool" where
  "task_failure E e w =
    (let w1 = w_record_error E (exception_error E ''Translation job failed during processing.'' e
                (Some (job_id E)) (job_title E) (job_language E)) w
     in case step_to E ''error'' ''failed'' (null_result (exn_text E e) w1) of
          (w2, Inr u) \<Rightarrow> (w2, True)
        | (w2, Inl x) \<Rightarrow> (w2, False))"

text \<open>The \<open>finally\<close> block.\<close>

definition release_if :: "'e tenv \<Rightarrow> bool \<Rightarrow> jworld \<Rightarrow> jworld" where
  "release_if E terminal w = (if terminal then fst (w_finish E w) else w)"

definition task_finally :: "'e tenv \<Rightarrow> bool \<Rightarrow> bool \<Rightarrow> jworld \<Rightarrow> jworld \<times> unit res" where
  "task_finally E was_failed terminal w =
    cleanup E True was_failed
      (release_if E terminal (w\<lparr>average := record_job_duration (job_duration E) (average w)\<rparr>))"

definition task :: "'e tenv \<Rightarrow> 'e engine \<Rightarrow> jworld \<Rightarrow> jworld \<times> unit res" where
  "task E eng w =
    (let w1 = w\<lparr>task_started := True, exec := mark_job_running (exec w)\<rparr> in
     case task_try E eng w1 of
       (w2, Inr was_failed) \<Rightarrow> task_finally E was_failed True w2
     | (w2, Inl e) \<Rightarrow>
         (case task_failure E e w2 of (w3, terminal) \<Rightarrow> task_finally E True terminal w3))"


subsection \<open>Records that lost their lease\<close>

definition translation_store_unavailable :: exn where
  "translation_store_unavailable =
    ServiceError 503 ''Translation job history is temporarily unavailable.''"

definition unknown_job :: exn where
  "unknown_job = ServiceError 404 ''Unknown translation job.''"

text \<open>Run a transition on another record than the one of the closure.\<close>

definition with_job :: "dict \<Rightarrow> (jworld \<Rightarrow> jworld \<times> 'a res) \<Rightarrow> jworld \<Rightarrow> jworld \<times> dict \<times> 'a res" where
  "with_job d f w = (case f (w\<lparr>job := d\<rparr>) of (w', r) \<Rightarrow> (w'\<lparr>job := job w\<rparr>, job w', r))"

text \<open>\<open>timeout_text\<close> is the rendering of the timeout in the message (format \<open>:g\<close>).\<close>

definition lease_absent_message :: "string \<Rightarrow> string" where
  "lease_absent_message timeout_text = ''Job lease was absent for '' @ timeout_text @ '' seconds.''"

definition fence_unleased ::
  "'e tenv \<Rightarrow> string \<Rightarrow> string \<Rightarrow> string \<Rightarrow> dict \<Rightarrow> jworld \<Rightarrow> jworld \<times> dict res" where
  "fence_unleased E timeout_text j token d w =
    (let message = lease_absent_message timeout_text;
         recovered = dset ''error'' (JStr message) (dset ''result'' JNull d)
     in case with_job recovered (update_translation_job E ''error'' ''failed'' token False) w of
          (w1, d1, Inl e) \<Rightarrow>
            if e = TranslationJobLeaseLost then
              (case w_get E j w1 of
                 (w2, Inl x) \<Rightarrow> (w2, Inl x)
               | (w2, Inr None) \<Rightarrow> (w2, Inl unknown_job)
               | (w2, Inr (Some latest)) \<Rightarrow> (w2, Inr latest))
            else (w1, Inl e)
        | (w1, d1, Inr u) \<Rightarrow>
            (w_record_error E (dict_error ''Translation job lost its active process lease.''
               [(''message'', JStr message), (''error_type'', JStr ''MissingJobLease''),
                (''title'', dget_or ''title'' (JStr []) d),
                (''language'', dget_or ''language'' (JStr []) d)] (Some j) [] []) w1, Inr d1))"

definition recover_unleased_translation_job ::
  "'e tenv \<Rightarrow> string \<Rightarrow> dict \<Rightarrow> jworld \<Rightarrow> jworld \<times> dict res" where
  "recover_unleased_translation_job E timeout_text d w =
    (if dget ''status'' d \<noteq> JStr ''pending'' \<and> dget ''status'' d \<noteq> JStr ''running'' then (w, Inr d)
     else case (dget ''job_id'' d, dget ''_owner_token'' d) of
       (JStr j, JStr token) \<Rightarrow>
         (case w_owns E j token w of
            (w1, Inl e) \<Rightarrow> (w1, Inl translation_store_unavailable)
          | (w1, Inr True) \<Rightarrow> (w1, Inr d)
          | (w1, Inr False) \<Rightarrow>
              (case bnd (dindex ''last_updated_at'' d) py_float of
                 Inl e \<Rightarrow> (w1, Inl translation_store_unavailable)
               | Inr updated \<Rightarrow>
                   if f_less (f_sub (clock E (calls w1)) updated) (Finite (stale_timeout E))
                   then (w1, Inr d)
                   else fence_unleased E timeout_text j token d w1))
     | _ \<Rightarrow> (w, Inr d))"

definition get_existing_translation_request ::
  "'e tenv \<Rightarrow> string \<Rightarrow> string \<Rightarrow> string \<Rightarrow> string \<Rightarrow> jworld \<Rightarrow> jworld \<times> dict option res" where
  "get_existing_translation_request E timeout_text j language title w =
    (case w_get E j w of
       (w1, Inl e) \<Rightarrow> (w1, Inl translation_store_unavailable)
     | (w1, Inr None) \<Rightarrow> (w1, Inr None)
     | (w1, Inr (Some d)) \<Rightarrow>
         (case recover_unleased_translation_job E timeout_text d w1 of
            (w2, Inl e) \<Rightarrow> (w2, Inl e)
          | (w2, Inr existing) \<Rightarrow>
              if dget ''language'' existing \<noteq> JStr language \<or> dget ''title'' existing \<noteq> JStr title
              then (w2, Inl (ServiceError 409
                 ''The request ID is already associated with another translation job.''))
              else (w2, Inr (Some (public_translation_job existing)))))"

definition get_translation_job ::
  "'e tenv \<Rightarrow> string \<Rightarrow> string \<Rightarrow> string \<Rightarrow> jworld \<Rightarrow> jworld \<times> dict res" where
  "get_translation_job E timeout_text language j w =
    (case w_get E j w of
       (w1, Inl e) \<Rightarrow> (w1, Inl translation_store_unavailable)
     | (w1, Inr None) \<Rightarrow> (w1, Inl unknown_job)
     | (w1, Inr (Some d)) \<Rightarrow>
         if dget ''language'' d \<noteq> JStr language then (w1, Inl unknown_job)
         else (case recover_unleased_translation_job E timeout_text d w1 of
                 (w2, Inl e) \<Rightarrow> (w2, Inl e)
               | (w2, Inr d2) \<Rightarrow> (w2, Inr (public_translation_job d2))))"

subsection \<open>Admission\<close>

definition initial_job :: "'e tenv \<Rightarrow> rat \<Rightarrow> dict" where
  "initial_job E created_at =
    [(''job_id'', JStr (job_id E)), (''language'', JStr (job_language E)),
     (''title'', JStr (job_title E)), (''status'', JStr ''pending''), (''stage'', JStr ''queued''),
     (''publication_state'', JStr ''not_queued''), (''created_at'', JFloat (Finite created_at)),
     (''last_updated_at'', JFloat (Finite created_at)), (''result'', JNull), (''error'', JNull),
     (''message'', JStr ''Translation job queued.''), (''_owner_token'', JStr (owner_token E))]"

text \<open>
  What the call ended with: a job known before (\<open>Existing\<close>), or a new job that was
  handed to the executor (\<open>Submitted\<close>).  Both hold the public record.
\<close>

datatype admission = Existing dict | Submitted dict

text \<open>\<open>try: ... finally: cleanup()\<close>: an exception of the cleanup wins.\<close>

definition finally_cleanup ::
  "'e tenv \<Rightarrow> bool \<Rightarrow> bool \<Rightarrow> jworld \<times> 'a res \<Rightarrow> jworld \<times> 'a res" where
  "finally_cleanup E owns_active_job was_failed p =
    (case cleanup E owns_active_job was_failed (fst p) of
       (w', Inl e) \<Rightarrow> (w', Inl e)
     | (w', Inr u) \<Rightarrow> (w', snd p))"

text \<open>
  The handlers of a failed heartbeat start, a failed submission and a cancelled future
  store the terminal state if they can, and give the lease up accordingly.
\<close>

definition heartbeat_failure :: "'e tenv \<Rightarrow> exn \<Rightarrow> jworld \<Rightarrow> jworld \<times> admission res" where
  "heartbeat_failure E e w =
    (let w1 = set_job ''error'' (JStr ''The translation job could not be registered as active.'') w;
         w2 = fst (update_translation_job E ''error'' ''failed'' (owner_token E) False w1);
         w3 = fst (w_finish E w2)
     in finally_cleanup E True True (w3, Inl e))"

definition submission_failure :: "'e tenv \<Rightarrow> exn \<Rightarrow> jworld \<Rightarrow> jworld \<times> admission res" where
  "submission_failure E e w =
    (let message = ''The translation job could not be started.'' in
     case step_to E ''error'' ''failed'' (null_result message w) of
       (w1, r) \<Rightarrow>
         (let w2 = w_record_error E (exception_error E message e (Some (job_id E)) (job_title E)
                (job_language E)) w1
          in finally_cleanup E True True (release_if E (is_ok r) w2, Inl e)))"

definition cancelled_before_start :: "'e tenv \<Rightarrow> jworld \<Rightarrow> jworld \<times> unit res" where
  "cancelled_before_start E w =
    (let message = ''Translation job was cancelled before it started.'' in
     case step_to E ''error'' ''failed'' (null_result message w) of
       (w1, r) \<Rightarrow>
         (let w2 = w_record_error E (with_job_id (Some (job_id E))
                [(''message'', JStr ''Translation job was cancelled before execution.''),
                 (''error'', JStr message), (''type'', JStr ''RuntimeError''),
                 (''title'', JStr (job_title E)), (''language'', JStr (job_language E))]) w1
          in cleanup E True True (release_if E (is_ok r) w2)))"

text \<open>
  From the successful claim to the submission.  \<open>heartbeat\<close> and \<open>submit\<close> are the
  exceptions that starting the heartbeat thread and submitting the task raise.
\<close>

definition start_claimed_job ::
  "'e tenv \<Rightarrow> string \<Rightarrow> exn option \<Rightarrow> exn option \<Rightarrow> rat \<Rightarrow> jworld \<Rightarrow> jworld \<times> admission res" where
  "start_claimed_job E timeout_text heartbeat submit created_at w =
    (let w1 = w\<lparr>local_ids := job_id E # local_ids w, job := initial_job E created_at\<rparr>;
         public = public_translation_job (job w1)
     in case w_create E w1 of
          (w2, Inl e) \<Rightarrow>
            finally_cleanup E True True
              (fst (w_finish E w2), Inl translation_store_unavailable)
        | (w2, Inr False) \<Rightarrow>
            (case get_existing_translation_request E timeout_text (job_id E) (job_language E)
                    (job_title E) w2 of
               (w3, r) \<Rightarrow>
                 finally_cleanup E True False (fst (w_finish E w3),
                   case r of Inl e \<Rightarrow> Inl e
                   | Inr None \<Rightarrow> Inl translation_store_unavailable
                   | Inr (Some d) \<Rightarrow> Inr (Existing d)))
        | (w2, Inr True) \<Rightarrow>
            (case heartbeat of
               Some e \<Rightarrow> heartbeat_failure E e w2
             | None \<Rightarrow>
                 (case submit of
                    Some e \<Rightarrow> submission_failure E e w2
                  | None \<Rightarrow> (w2, Inr (Submitted public)))))"

definition admit_translation_job ::
  "'e tenv \<Rightarrow> string \<Rightarrow> exn option \<Rightarrow> exn option \<Rightarrow> jworld \<Rightarrow> jworld \<times> admission res" where
  "admit_translation_job E timeout_text heartbeat submit w =
    (case reserve_job_slot (exec w) of
       (st, Inl e) \<Rightarrow> (w\<lparr>exec := st\<rparr>, Inl e)
     | (st, Inr u) \<Rightarrow>
         (let w1 = w\<lparr>exec := st, task_started := False, cleaned := False\<rparr>;
              created_at = clock E (calls w1)
          in case w_claim E created_at w1 of
               (w2, Inl e) \<Rightarrow>
                 finally_cleanup E False True
                   (w2, Inl (if is_translation_store_error e then translation_store_unavailable else e))
             | (w2, Inr False) \<Rightarrow>
                 (case finally_cleanup E False False
                     (get_existing_translation_request E timeout_text (job_id E) (job_language E)
                        (job_title E) w2) of
                    (w3, Inl e) \<Rightarrow> (w3, Inl e)
                  | (w3, Inr (Some d)) \<Rightarrow> (w3, Inr (Existing d))
                  | (w3, Inr None) \<Rightarrow>
                      (w3, Inl (ServiceError 503 ''The translation request is already being accepted.'')))
             | (w2, Inr True) \<Rightarrow> start_claimed_job E timeout_text heartbeat submit created_at w2))"

text \<open>
  \<open>requested\<close> says whether the client sent a request identifier; it is then the job
  identifier \<open>job_id E\<close>, else that is a fresh uuid.
\<close>

definition enqueue_translation_job ::
  "'e tenv \<Rightarrow> string \<Rightarrow> bool \<Rightarrow> bool \<Rightarrow> exn option \<Rightarrow> exn option \<Rightarrow> jworld \<Rightarrow> jworld \<times> admission res" where
  "enqueue_translation_job E timeout_text has_publisher requested heartbeat submit w =
    (if \<not> has_publisher
     then (w, Inl (ServiceError 503
       ''Translation queue is unavailable because the publisher is not configured.''))
     else if requested then
       (case get_existing_translation_request E timeout_text (job_id E) (job_language E) (job_title E) w of
          (w1, Inl e) \<Rightarrow> (w1, Inl e)
        | (w1, Inr (Some d)) \<Rightarrow> (w1, Inr (Existing d))
        | (w1, Inr None) \<Rightarrow> admit_translation_job E timeout_text heartbeat submit w1)
     else admit_translation_job E timeout_text heartbeat submit w)"

end
