(* ===== verification/TranslationJobLemmas.thy ===== *)
theory TranslationJobLemmas
  imports TranslationJobs
begin

text \<open>
  What the operations of a translation job leave alone: the process-local state
  outside admission and cleanup, the lease outside its release, and the broker outside
  a publication that has just passed the guard.
\<close>

subsection \<open>The three ways a transition ends\<close>

definition stamped :: "'e tenv \<Rightarrow> string \<Rightarrow> string \<Rightarrow> json \<Rightarrow> jworld \<Rightarrow> jworld" where
  "stamped E status stage message w1 =
    set_job ''last_updated_at'' (JFloat (Finite (clock E (calls w1))))
      (set_job ''message'' message (set_job ''stage'' (JStr stage) (set_job ''status'' (JStr status) w1)))"

definition lease_passed :: "'e tenv \<Rightarrow> string \<Rightarrow> bool \<Rightarrow> jworld \<Rightarrow> jworld \<Rightarrow> bool" where
  "lease_passed E token require w w1 \<longleftrightarrow>
    (if require then check_lease E (py_str (dget ''job_id'' (job w))) token w = (w1, Inr ()) else w1 = w)"

lemma update_cases:
  assumes "update_translation_job E status stage token require w = (w', r)"
  obtains (refused) e where "require" "r = Inl e"
      "check_lease E (py_str (dget ''job_id'' (job w))) token w = (w', Inl e)"
    | (no_stage) w1 e where "lease_passed E token require w w1" "r = Inl e"
      "w' = set_job ''stage'' (JStr stage) (set_job ''status'' (JStr status) w1)"
      "stage_message stage = Inl e"
    | (stored) w1 m where "lease_passed E token require w w1" "stage_message stage = Inr m"
      "store_owned E token (stamped E status stage m w1) = (w', r)"
  using assms unfolding update_translation_job_def
proof (cases rule: sbind_cases)
  case (raised e)
  then show ?thesis using refused by (cases require) (simp_all add: sreturn_def)
next
  case (ran w1 u)
  then have l: "lease_passed E token require w w1"
    by (cases require) (simp_all add: sreturn_def lease_passed_def)
  show ?thesis
  proof (cases "stage_message stage")
    case (Inl e)
    with ran have "w' = set_job ''stage'' (JStr stage) (set_job ''status'' (JStr status) w1)"
      "r = Inl e" by (simp_all add: Let_def)
    with l Inl no_stage show ?thesis by blast
  next
    case (Inr m)
    with ran l stored show ?thesis by (simp add: Let_def stamped_def)
  qed
qed

subsection \<open>Frames\<close>

text \<open>
  A relation between states that every lease check, owned update and edit of the job
  record keeps is kept by a whole transition and by the publication filter; one that
  the publication closure keeps as well is kept by the task up to its last block.
\<close>

locale job_frame =
  fixes E :: "'e tenv" and R :: "jworld \<Rightarrow> jworld \<Rightarrow> bool"
  assumes refl: "reflp R" and trans: "transp R"
    and touch: "stays R (w_touch E j token)"
    and put_owned: "stays R (w_put_owned E token)"
    and set_job: "k \<noteq> ''job_id'' \<Longrightarrow> R w (set_job k v w)"
begin

lemma R_refl: "R w w"
  using refl by (rule reflpD)

lemma R_trans: "R w w1 \<Longrightarrow> R w1 w2 \<Longrightarrow> R w w2"
  using trans by (rule transpD)

lemma lease: "stays R (check_lease E j token)"
  unfolding check_lease_def by (intro stays_sbind stays_sreturn touch refl trans)

lemma owned: "stays R (store_owned E token)"
  unfolding store_owned_def by (intro stays_sbind stays_sreturn put_owned refl trans)

lemma set_two:
  "R w (set_job ''stage'' v (set_job ''status'' u w))"
  by (rule R_trans [OF set_job set_job]) simp_all

lemma stamped: "R w (stamped E status stage m w)"
proof -
  let ?w2 = "set_job ''stage'' (JStr stage) (set_job ''status'' (JStr status) w)"
  have "R ?w2 (set_job ''message'' m ?w2)" by (rule set_job) simp
  with set_two have "R w (set_job ''message'' m ?w2)" by (rule R_trans)
  moreover have "R (set_job ''message'' m ?w2) (stamped E status stage m w)"
    unfolding stamped_def by (rule set_job) simp
  ultimately show ?thesis by (rule R_trans)
qed

lemma passed: "lease_passed E token require w w1 \<Longrightarrow> R w w1"
  using staysD [OF lease] R_refl by (auto simp: lease_passed_def split: if_splits)

lemma update: "stays R (update_translation_job E status stage token require)"
  unfolding stays_def
proof
  fix w
  obtain w' r where u: "update_translation_job E status stage token require w = (w', r)"
    by (cases "update_translation_job E status stage token require w")
  then have "R w w'"
  proof (cases rule: update_cases)
    case (refused e)
    then show ?thesis using staysD [OF lease] by blast
  next
    case (no_stage w1 e)
    then show ?thesis using passed set_two by (blast intro: R_trans)
  next
    case (stored w1 m)
    then have "R (stamped E status stage m w1) w'" using staysD [OF owned] by blast
    then show ?thesis using passed [OF stored(1)] stamped by (blast intro: R_trans)
  qed
  with u show "R w (fst (update_translation_job E status stage token require w))" by simp
qed

lemma step: "stays R (step_to E status stage)"
  unfolding step_to_def by (rule update)

lemma step_from: "R w w1 \<Longrightarrow> R w (fst (step_to E status stage w1))"
  using step by (auto simp: stays_def intro: R_trans)

lemma filter_check: "stays R (filter_publication E title content)"
proof -
  have "stays R (sbind (step_to E ''running'' ''prefiltering_publication'') (\<lambda>_. sreturn r))" for r
    by (intro stays_sbind step stays_sreturn refl trans)
  then show ?thesis
    using R_refl by (auto simp: stays_def filter_publication_def split: sum.splits bool.splits)
qed

end

locale task_frame = job_frame +
  assumes unlocked: "stays R (publish_unlocked E title entries)"
    and record_error: "R w (w_record_error E err w)"
begin

lemma locked: "stays R (publish_locked E title entries)"
  unfolding publish_locked_def
proof (intro stays_sbind trans step unlocked)
  fix u queued
  show "stays R (\<lambda>w. if \<not> queued
      then step_to E ''running'' ''publication_filtered'' (set_job ''publication_state'' (JStr ''filtered_out'') w)
      else step_to E ''running'' ''publication_queued'' (set_job ''publication_state'' (JStr ''queued'') w))"
    by (simp add: stays_def step_from set_job)
qed

lemma engine: "R w (fst (run_engine E eng w))"
proof (induction eng arbitrary: w)
  case (Publishes title entries k)
  obtain w1 r where p: "publish_locked E title entries w = (w1, r)"
    by (cases "publish_locked E title entries w")
  have "R w1 (fst (run_engine E (k (raised r)) w1))" by (rule Publishes) simp
  with staysD [OF locked p] show ?case by (simp add: p R_trans [of w w1])
qed (simp_all add: R_refl)

lemma step_return:
  assumes "R w w1"
  shows "R w (fst (sbind (step_to E st stage) (\<lambda>_. sreturn r) w1))"
proof -
  have "stays R (sbind (step_to E st stage) (\<lambda>_. sreturn r))"
    by (intro stays_sbind refl trans step stays_sreturn)
  then have "R w1 (fst (sbind (step_to E st stage) (\<lambda>_. sreturn r) w1))" by (simp add: stays_def)
  with assms show ?thesis by (rule R_trans)
qed

lemma set_result: "R w (set_job ''error'' v (set_job ''result'' u w))"
  by (rule R_trans [OF set_job set_job]) simp_all

lemma finish_result: "stays R (finish_result E result)"
  using set_result R_trans [OF record_error set_result]
  by (simp add: stays_def finish_result_def Let_def step_return)

lemma task_try: "stays R (task_try E eng)"
  unfolding task_try_def
  by (intro stays_sbind refl trans step stays_sreturn finish_result) (simp add: stays_def engine)

lemma null_result: "R w (null_result e w)"
  unfolding null_result_def by (rule set_result)

lemma task_failure:
  assumes "task_failure E e w = (w', terminal)"
  shows "R w w'"
proof -
  let ?w0 = "w_record_error E (exception_error E ''Translation job failed during processing.'' e
                (Some (job_id E)) (job_title E) (job_language E)) w"
  let ?w1 = "null_result (exn_text E e) ?w0"
  obtain w2 r where s: "step_to E ''error'' ''failed'' ?w1 = (w2, r)"
    by (cases "step_to E ''error'' ''failed'' ?w1")
  have "R w ?w1" using record_error null_result by (rule R_trans)
  moreover have "R ?w1 w2" using staysD [OF step s] .
  moreover have "w' = w2" using assms s by (auto simp: task_failure_def Let_def split: sum.splits)
  ultimately show ?thesis by (blast intro: R_trans)
qed

end

subsection \<open>The process-local state\<close>

definition same_local :: "jworld \<Rightarrow> jworld \<Rightarrow> bool" where
  "same_local w w' \<longleftrightarrow> exec w' = exec w \<and> local_ids w' = local_ids w \<and>
     cleaned w' = cleaned w \<and> task_started w' = task_started w"

lemma same_local_refl [simp]: "same_local w w"
  by (simp add: same_local_def)

lemma same_local_rel [simp]: "reflp same_local" "transp same_local"
  by (auto simp: same_local_def intro: reflpI transpI)

lemma same_local_trans: "same_local w w1 \<Longrightarrow> same_local w1 w2 \<Longrightarrow> same_local w w2"
  by (simp add: same_local_def)

lemma same_local_enter [simp]: "same_local w (enter E w)"
  by (simp add: same_local_def enter_def split: prod.splits)

lemma same_local_set_job [simp]: "same_local w (set_job k v w1) \<longleftrightarrow> same_local w w1"
  "same_local (set_job k v w) w1 \<longleftrightarrow> same_local w w1"
  by (simp_all add: same_local_def set_job_def)

lemma same_local_counter: "stays same_local (on_counter E f)"
  using same_local_enter [of _ E]
  by (auto simp: stays_def on_counter_def Let_def same_local_def split: prod.splits)

lemma same_local_store: "stays same_local (on_store E f)"
  using same_local_enter [of _ E]
  by (auto simp: stays_def on_store_def Let_def same_local_def split: prod.splits)

lemma same_local_calls:
  "stays same_local (w_touch E j token)" "stays same_local (w_owns E j token)"
  "stays same_local (w_claim E t)" "stays same_local (w_finish E)"
  "stays same_local (w_get E j)"
  by (simp_all add: w_touch_def w_owns_def w_claim_def w_finish_def w_get_def
      same_local_counter same_local_store)

lemma same_local_writes:
  "stays same_local (w_put_owned E token)" "stays same_local (w_create E)"
  using same_local_store by (auto simp: stays_def w_put_owned_def w_create_def)

lemma same_local_record_error [simp]: "same_local w (w_record_error E err w1) \<longleftrightarrow> same_local w w1"
  by (simp add: same_local_def w_record_error_def)

interpretation local: job_frame E same_local for E
  by unfold_locales (simp_all add: same_local_calls same_local_writes)

lemma same_local_push: "stays same_local (w_push E message)"
  using same_local_enter [of _ E]
  by (auto simp: stays_def w_push_def Let_def same_local_def split: prod.splits)

lemma publish_unlocked_steps:
  assumes "publish_unlocked E title entries w = (w', r)"
  obtains (untouched) "w' = w" "r \<noteq> Inr True"
    | (filtered) a where "filter_publication E title (page_content (page_output E) (wiki E title) entries) w = (w', a)"
      "r \<noteq> Inr True"
    | (fenced) w1 e where "filter_publication E title (page_content (page_output E) (wiki E title) entries) w = (w1, Inr True)"
      "assert_publication_lease E w1 = (w', Inl e)" "r \<noteq> Inr True"
    | (pushed) w1 w2 a where
      "filter_publication E title (page_content (page_output E) (wiki E title) entries) w = (w1, Inr True)"
      "assert_publication_lease E w1 = (w2, Inr ())"
      "w_push E (publication_message (page_output E) ''mg'' (wiki E title) title entries) w2 = (w', a)"
proof -
  obtain w1 r1 where p: "publish_translated_raw (page_output E) ''mg'' (wiki E)
     (Some (assert_publication_lease E)) (Some (filter_publication E)) (w_push E) title entries w = (w1, r1)"
    by (cases "publish_translated_raw (page_output E) ''mg'' (wiki E)
     (Some (assert_publication_lease E)) (Some (filter_publication E)) (w_push E) title entries w")
  have w': "w1 = w'" and r: "r = (case r1 of Inl e \<Rightarrow> Inl rabbit_error | Inr a \<Rightarrow> Inr a)"
    using assms by (auto simp: publish_unlocked_def publish_translated_def p reraise_def split: sum.splits)
  from p show ?thesis
  proof (cases rule: publish_translated_steps)
    case untouched
    with w' r show ?thesis using that(1) by simp
  next
    case (filtered a)
    with w' r show ?thesis using that(2) [of a] by (auto simp: run_filter_def split: sum.splits)
  next
    case (fenced s1 e)
    with w' r show ?thesis using that(3) by (simp add: run_filter_def run_guard_def)
  next
    case (pushed s1 s2 a)
    with w' show ?thesis using that(4) by (simp add: run_filter_def run_guard_def)
  qed
qed

lemma same_local_unlocked: "stays same_local (publish_unlocked E title entries)"
  unfolding stays_def
proof
  fix w
  obtain w' r where u: "publish_unlocked E title entries w = (w', r)"
    by (cases "publish_unlocked E title entries w")
  then have "same_local w w'"
  proof (cases rule: publish_unlocked_steps)
    case (filtered a)
    then show ?thesis using staysD [OF local.filter_check] by blast
  next
    case (fenced w1 e)
    have "same_local w w1" using staysD [OF local.filter_check fenced(1)] .
    moreover have "same_local w1 w'"
      using staysD [OF local.lease] fenced(2) unfolding assert_publication_lease_def by blast
    ultimately show ?thesis by (rule same_local_trans)
  next
    case (pushed w1 w2 a)
    have "same_local w w1" using staysD [OF local.filter_check pushed(1)] .
    moreover have "same_local w1 w2"
      using staysD [OF local.lease] pushed(2) unfolding assert_publication_lease_def by blast
    moreover have "same_local w2 w'" using staysD [OF same_local_push pushed(3)] .
    ultimately show ?thesis by (blast intro: same_local_trans)
  qed simp
  with u show "same_local w (fst (publish_unlocked E title entries w))" by simp
qed

interpretation local: task_frame E same_local for E
  by unfold_locales (simp_all add: same_local_unlocked)

lemma same_local_release_if: "same_local w (release_if E terminal w)"
  using same_local_calls(4) by (auto simp: release_if_def stays_def)

subsection \<open>The end of a task\<close>

definition slot_given_back :: "'e tenv \<Rightarrow> bool \<Rightarrow> jworld \<Rightarrow> jworld \<Rightarrow> bool" where
  "slot_given_back E owns_active w w' \<longleftrightarrow> cleaned w' \<and>
    admitted (exec w') = admitted (exec w) - 1 \<and> completed (exec w') = completed (exec w) + 1 \<and>
    job_capacity (exec w') = job_capacity (exec w) \<and> accepting (exec w') = accepting (exec w) \<and>
    (slots (exec w) < job_capacity (exec w) \<longrightarrow> slots (exec w') = slots (exec w) + 1) \<and>
    (owns_active \<longrightarrow> job_id E \<notin> set (local_ids w'))"

lemma cleanup_once:
  assumes "cleanup E owns_active was_failed w = (w', r)" and "\<not> cleaned w"
  shows "slot_given_back E owns_active w w'"
    and "running (exec w') = (if task_started w then running (exec w) - 1 else running (exec w))"
    and "slots (exec w) < job_capacity (exec w) \<Longrightarrow> r = Inr ()"
  using assms
  by (auto simp: cleanup_def Let_def slot_given_back_def finish_process_job_def release_slot_def
      count_finished_def split: if_splits)

lemma cleanup_twice:
  "cleaned w \<Longrightarrow> cleanup E owns_active was_failed w = (w, Inr ())"
  by (simp add: cleanup_def)

lemma cleanup_shared:
  assumes "cleanup E owns_active was_failed w = (w', r)"
  shows "counter w' = counter w" and "tstore w' = tstore w" and "rabbit w' = rabbit w"
    and "pushed_at w' = pushed_at w" and "job w' = job w"
  using assms by (auto simp: cleanup_def Let_def split: if_splits sum.splits)

lemma task_shape:
  assumes "task E eng w = (w', r)"
  obtains w2 was_failed terminal where
    "same_local (w\<lparr>task_started := True, exec := mark_job_running (exec w)\<rparr>) w2"
    "task_finally E was_failed terminal w2 = (w', r)"
proof -
  let ?w1 = "w\<lparr>task_started := True, exec := mark_job_running (exec w)\<rparr>"
  obtain w2 a where t: "task_try E eng ?w1 = (w2, a)" by (cases "task_try E eng ?w1")
  have l: "same_local ?w1 w2" using staysD [OF local.task_try t] .
  show ?thesis
  proof (cases a)
    case (Inr was_failed)
    with assms t have "task_finally E was_failed True w2 = (w', r)" by (simp add: task_def Let_def)
    with l that show ?thesis by blast
  next
    case (Inl e)
    obtain w3 terminal where f: "task_failure E e w2 = (w3, terminal)" by (cases "task_failure E e w2")
    with assms t Inl have "task_finally E True terminal w3 = (w', r)" by (simp add: task_def Let_def)
    with l local.task_failure [OF f] that show ?thesis by (blast intro: same_local_trans)
  qed
qed

lemma task_slot:
  assumes "task E eng w = (w', r)" and "\<not> cleaned w"
  shows "slot_given_back E True w w'" and "running (exec w') = running (exec w)"
    and "slots (exec w) < job_capacity (exec w) \<Longrightarrow> r = Inr ()"
proof -
  let ?w1 = "w\<lparr>task_started := True, exec := mark_job_running (exec w)\<rparr>"
  obtain w2 was_failed terminal where l: "same_local ?w1 w2"
    and f: "task_finally E was_failed terminal w2 = (w', r)" by (rule task_shape [OF assms(1)])
  let ?w3 = "release_if E terminal (w2\<lparr>average := record_job_duration (job_duration E) (average w2)\<rparr>)"
  have "same_local w2 ?w3"
    using same_local_release_if [of "w2\<lparr>average := record_job_duration (job_duration E) (average w2)\<rparr>"]
    by (simp add: same_local_def)
  with l have l3: "same_local ?w1 ?w3" by (rule same_local_trans)
  then have c: "\<not> cleaned ?w3" using assms(2) by (simp add: same_local_def)
  from f have cl: "cleanup E True was_failed ?w3 = (w', r)" by (simp add: task_finally_def)
  have e: "exec ?w3 = mark_job_running (exec w)" "task_started ?w3"
    using l3 by (simp_all add: same_local_def)
  show "slot_given_back E True w w'"
    using cleanup_once(1) [OF cl c] e by (simp add: slot_given_back_def mark_job_running_def)
  show "running (exec w') = running (exec w)"
    using cleanup_once(2) [OF cl c] e by (simp add: mark_job_running_def)
  show "r = Inr ()" if "slots (exec w) < job_capacity (exec w)"
    using cleanup_once(3) [OF cl c] e that by (simp add: mark_job_running_def)
qed


subsection \<open>Admission\<close>

lemma same_local_with_job:
  assumes "stays same_local f" and "with_job d f w = (w', d', r)"
  shows "same_local w w'"
proof -
  obtain w1 a where f: "f (w\<lparr>job := d\<rparr>) = (w1, a)" by (cases "f (w\<lparr>job := d\<rparr>)")
  have "same_local (w\<lparr>job := d\<rparr>) w1" using staysD [OF assms(1) f] .
  with assms(2) f show ?thesis by (auto simp: with_job_def same_local_def)
qed

lemma same_local_fence: "stays same_local (fence_unleased E tt j token d)"
  unfolding stays_def
proof
  fix w
  let ?d = "dset ''error'' (JStr (lease_absent_message tt)) (dset ''result'' JNull d)"
  let ?f = "update_translation_job E ''error'' ''failed'' token False"
  obtain w1 d1 a where u: "with_job ?d ?f w = (w1, d1, a)" by (cases "with_job ?d ?f w")
  have 1: "same_local w w1" using same_local_with_job [OF local.update u] .
  obtain w2 b where g: "w_get E j w1 = (w2, b)" by (cases "w_get E j w1")
  have "same_local w1 w2" using staysD [OF same_local_calls(5) g] .
  with 1 have 2: "same_local w w2" by (rule same_local_trans)
  show "same_local w (fst (fence_unleased E tt j token d w))"
    using u g 1 2 by (auto simp: fence_unleased_def Let_def split: sum.splits option.splits)
qed

lemma same_local_recover: "stays same_local (recover_unleased_translation_job E tt d)"
  unfolding stays_def
proof
  fix w
  have "same_local w (fst (case w_owns E j token w of
            (w1, Inl e) \<Rightarrow> (w1, Inl translation_store_unavailable)
          | (w1, Inr True) \<Rightarrow> (w1, Inr d)
          | (w1, Inr False) \<Rightarrow>
              (case bnd (dindex ''last_updated_at'' d) py_float of
                 Inl e \<Rightarrow> (w1, Inl translation_store_unavailable)
               | Inr updated \<Rightarrow>
                   if f_less (f_sub (clock E (calls w1)) updated) (Finite (stale_timeout E))
                   then (w1, Inr d)
                   else fence_unleased E tt j token d w1)))" for j token
  proof -
    obtain w1 a where o: "w_owns E j token w = (w1, a)" by (cases "w_owns E j token w")
    have 1: "same_local w w1" using staysD [OF same_local_calls(2) o] .
    have "same_local w1 (fst (fence_unleased E tt j token d w1))"
      using same_local_fence [of E tt j token d] by (simp add: stays_def)
    with 1 have 2: "same_local w (fst (fence_unleased E tt j token d w1))" by (rule same_local_trans)
    show ?thesis using o 1 2 by (auto split: sum.splits bool.splits)
  qed
  then show "same_local w (fst (recover_unleased_translation_job E tt d w))"
    by (auto simp: recover_unleased_translation_job_def split: json.splits)
qed

lemma same_local_existing: "stays same_local (get_existing_translation_request E tt j language title)"
  unfolding stays_def
proof
  fix w
  obtain w1 a where g: "w_get E j w = (w1, a)" by (cases "w_get E j w")
  have 1: "same_local w w1" using staysD [OF same_local_calls(5) g] .
  have 2: "same_local w w2" if "recover_unleased_translation_job E tt d w1 = (w2, b)" for d w2 b
    using same_local_trans [OF 1 staysD [OF same_local_recover that]] .
  show "same_local w (fst (get_existing_translation_request E tt j language title w))"
    using g 1 by (auto simp: get_existing_translation_request_def dest: 2
        split: sum.splits option.splits prod.splits)
qed

definition slots_bounded :: "executor \<Rightarrow> bool" where
  "slots_bounded st \<longleftrightarrow> slots st \<le> job_capacity st"

definition same_slots :: "executor \<Rightarrow> executor \<Rightarrow> bool" where
  "same_slots st st' \<longleftrightarrow> slots st' = slots st \<and> admitted st' = admitted st \<and>
    running st' = running st \<and> job_capacity st' = job_capacity st"

lemma reserve_effect:
  assumes "reserve_job_slot st = (st', r)"
  shows "r = Inr () \<Longrightarrow> 0 < slots st \<and> st' = st\<lparr>slots := slots st - 1, admitted := admitted st + 1\<rparr>"
    and "r = Inl e \<Longrightarrow> same_slots st st'"
  using assms
  by (auto simp: reserve_job_slot_def andthen_def executor_defs same_slots_def split: if_splits prod.splits)

lemma finally_cleanup_once:
  assumes "finally_cleanup E owns_active was_failed (w, r0) = (w', r)" and "\<not> cleaned w"
    and "slots (exec w) < job_capacity (exec w)"
  shows "slot_given_back E owns_active w w'" and "r = r0"
    and "\<not> task_started w \<Longrightarrow> running (exec w') = running (exec w)"
proof -
  obtain w1 a where c: "cleanup E owns_active was_failed w = (w1, a)"
    by (cases "cleanup E owns_active was_failed w")
  have "a = Inr ()" using cleanup_once(3) [OF c assms(2,3)] .
  with assms(1) c have "w1 = w'" "r = r0" by (simp_all add: finally_cleanup_def)
  with cleanup_once [OF c assms(2)]
  show "slot_given_back E owns_active w w'" "r = r0"
    "\<not> task_started w \<Longrightarrow> running (exec w') = running (exec w)" by simp_all
qed

text \<open>A request in progress holds a slot that nobody else counts.\<close>

definition holds_slot :: "executor \<Rightarrow> jworld \<Rightarrow> bool" where
  "holds_slot st w \<longleftrightarrow> \<not> cleaned w \<and> \<not> task_started w \<and>
    slots (exec w) + 1 = slots st \<and> admitted (exec w) = admitted st + 1 \<and>
    running (exec w) = running st \<and> job_capacity (exec w) = job_capacity st"

lemma holds_slot_local: "same_local w w' \<Longrightarrow> holds_slot st w \<Longrightarrow> holds_slot st w'"
  by (simp add: same_local_def holds_slot_def)

lemma holds_slot_given_back:
  assumes "finally_cleanup E owns_active was_failed (w, r0) = (w', r)" and "holds_slot st w"
    and "slots_bounded st"
  shows "same_slots st (exec w')" and "r = r0"
proof -
  have c: "\<not> cleaned w" "slots (exec w) < job_capacity (exec w)" "\<not> task_started w"
    using assms(2,3) by (auto simp: holds_slot_def slots_bounded_def)
  note f = finally_cleanup_once [OF assms(1) c(1,2)]
  show "r = r0" by (rule f(2))
  show "same_slots st (exec w')"
    using f(1) f(3) [OF c(3)] c(2) assms(2) by (simp add: slot_given_back_def same_slots_def holds_slot_def)
qed

text \<open>How an admission accounts for its slot.\<close>

fun slot_accounted :: "executor \<Rightarrow> jworld \<Rightarrow> admission res \<Rightarrow> bool" where
  "slot_accounted st w (Inr (Submitted d)) = holds_slot st w"
| "slot_accounted st w r = same_slots st (exec w)"

lemma slot_accounted_other:
  "\<nexists>d. r = Inr (Submitted d) \<Longrightarrow> slot_accounted st w r \<longleftrightarrow> same_slots st (exec w)"
  by (cases "(st, w, r)" rule: slot_accounted.cases) auto


lemma finish_cleanup_accounted:
  assumes "finally_cleanup E owns_active was_failed (fst (w_finish E w), r0) = (w', r)"
    and "holds_slot st w" and "slots_bounded st" and "\<nexists>d. r0 = Inr (Submitted d)"
  shows "slot_accounted st w' r"
proof -
  have "holds_slot st (fst (w_finish E w))"
    using holds_slot_local [OF _ assms(2)] same_local_calls(4) [of E] by (simp add: stays_def)
  from holds_slot_given_back [OF assms(1) this assms(3)] assms(4)
  show ?thesis by (simp add: slot_accounted_other)
qed

lemma release_cleanup_accounted:
  assumes "finally_cleanup E owns_active was_failed (release_if E terminal w, Inl e) = (w', r)"
    and "holds_slot st w" and "slots_bounded st"
  shows "slot_accounted st w' r"
proof -
  have "holds_slot st (release_if E terminal w)"
    using holds_slot_local [OF same_local_release_if assms(2)] .
  from holds_slot_given_back [OF assms(1) this assms(3)] show ?thesis by simp
qed

lemma start_claimed_accounted:
  assumes "start_claimed_job E tt heartbeat submit created_at w = (w', r)"
    and "holds_slot st w" and "slots_bounded st"
  shows "slot_accounted st w' r"
proof -
  let ?w1 = "w\<lparr>local_ids := job_id E # local_ids w, job := initial_job E created_at\<rparr>"
  have h1: "holds_slot st ?w1" using assms(2) by (simp add: holds_slot_def)
  obtain w2 a where c: "w_create E ?w1 = (w2, a)" by (cases "w_create E ?w1")
  have h2: "holds_slot st w2" using holds_slot_local [OF staysD [OF same_local_writes(2) c] h1] .
  consider (err) e where "a = Inl e" | (dup) "a = Inr False" | (hb) e where "a = Inr True" "heartbeat = Some e"
    | (sub) e where "a = Inr True" "heartbeat = None" "submit = Some e"
    | (ok) "a = Inr True" "heartbeat = None" "submit = None"
    by (cases a; cases heartbeat; cases submit) (auto split: bool.splits)
  then show ?thesis
  proof cases
    case err
    with assms(1) c have "finally_cleanup E True True
        (fst (w_finish E w2), Inl translation_store_unavailable) = (w', r)"
      by (simp add: start_claimed_job_def Let_def)
    then show ?thesis by (rule finish_cleanup_accounted [OF _ h2 assms(3)]) simp
  next
    case dup
    let ?get = "get_existing_translation_request E tt (job_id E) (job_language E) (job_title E) w2"
    obtain w3 b where g: "?get = (w3, b)" by (cases ?get)
    have h3: "holds_slot st w3" using holds_slot_local [OF staysD [OF same_local_existing g] h2] .
    from assms(1) c dup g have "finally_cleanup E True False (fst (w_finish E w3),
        case b of Inl e \<Rightarrow> Inl e | Inr None \<Rightarrow> Inl translation_store_unavailable
        | Inr (Some d) \<Rightarrow> Inr (Existing d)) = (w', r)"
      by (simp add: start_claimed_job_def Let_def)
    then show ?thesis
      by (rule finish_cleanup_accounted [OF _ h3 assms(3)]) (auto split: sum.splits option.splits)
  next
    case hb
    let ?j = "set_job ''error'' (JStr ''The translation job could not be registered as active.'') w2"
    let ?u = "update_translation_job E ''error'' ''failed'' (owner_token E) False ?j"
    have "same_local w2 (fst ?u)"
      using local.update [of E "''error''" "''failed''" "owner_token E" False] unfolding stays_def
      by (metis same_local_set_job(2))
    then have h3: "holds_slot st (fst ?u)" using h2 by (rule holds_slot_local)
    from assms(1) c hb have "finally_cleanup E True True (fst (w_finish E (fst ?u)), Inl e) = (w', r)"
      by (simp add: start_claimed_job_def heartbeat_failure_def Let_def)
    then show ?thesis by (rule finish_cleanup_accounted [OF _ h3 assms(3)]) simp
  next
    case sub
    let ?m = "''The translation job could not be started.''"
    obtain w3 b where s: "step_to E ''error'' ''failed'' (null_result ?m w2) = (w3, b)"
      by (cases "step_to E ''error'' ''failed'' (null_result ?m w2)")
    have "same_local w2 w3" using staysD [OF local.step s] by (simp add: null_result_def)
    then have h3: "holds_slot st w3" using h2 by (rule holds_slot_local)
    let ?w4 = "w_record_error E (exception_error E ?m e (Some (job_id E)) (job_title E) (job_language E)) w3"
    have "same_local w3 ?w4" by simp
    then have h4: "holds_slot st ?w4" using h3 by (rule holds_slot_local)
    from assms(1) c sub s have "finally_cleanup E True True (release_if E (is_ok b) ?w4, Inl e) = (w', r)"
      by (simp add: start_claimed_job_def submission_failure_def Let_def)
    then show ?thesis by (rule release_cleanup_accounted [OF _ h4 assms(3)])
  next
    case ok
    with assms(1) c have "w2 = w'" "r = Inr (Submitted (public_translation_job (job ?w1)))"
      by (simp_all add: start_claimed_job_def Let_def)
    with h2 show ?thesis by simp
  qed
qed

lemma admit_accounted:
  assumes "admit_translation_job E tt heartbeat submit w = (w', r)" and "slots_bounded (exec w)"
  shows "slot_accounted (exec w) w' r"
proof -
  obtain st a where res: "reserve_job_slot (exec w) = (st, a)" by (cases "reserve_job_slot (exec w)")
  show ?thesis
  proof (cases a)
    case (Inl e)
    with assms(1) res have "w' = w\<lparr>exec := st\<rparr>" "r = Inl e" by (auto simp: admit_translation_job_def)
    with reserve_effect(2) [OF res Inl] show ?thesis by simp
  next
    case (Inr u)
    let ?w1 = "w\<lparr>exec := st, task_started := False, cleaned := False\<rparr>"
    have h1: "holds_slot (exec w) ?w1"
      using reserve_effect(1) [OF res] Inr by (simp add: holds_slot_def)
    obtain w2 b where c: "w_claim E (clock E (calls ?w1)) ?w1 = (w2, b)"
      by (cases "w_claim E (clock E (calls ?w1)) ?w1")
    have h2: "holds_slot (exec w) w2" using holds_slot_local [OF staysD [OF same_local_calls(3) c] h1] .
    note unfold = assms(1) [unfolded admit_translation_job_def res Inr, simplified Let_def]
    consider (err) e where "b = Inl e" | (taken) "b = Inr False" | (claimed) "b = Inr True"
      by (cases b) (auto split: bool.splits)
    then show ?thesis
    proof cases
      case err
      with unfold c have "finally_cleanup E False True (w2, Inl (if is_translation_store_error e
          then translation_store_unavailable else e)) = (w', r)" by simp
      from holds_slot_given_back [OF this h2 assms(2)] show ?thesis by simp
    next
      case taken
      let ?get = "get_existing_translation_request E tt (job_id E) (job_language E) (job_title E) w2"
      obtain w3 g where g: "?get = (w3, g)" by (cases ?get)
      have h3: "holds_slot (exec w) w3" using holds_slot_local [OF staysD [OF same_local_existing g] h2] .
      obtain w4 k where f: "finally_cleanup E False False (w3, g) = (w4, k)"
        by (cases "finally_cleanup E False False (w3, g)")
      have "same_slots (exec w) (exec w4)" using holds_slot_given_back(1) [OF f h3 assms(2)] .
      with unfold c taken g f show ?thesis by (auto split: sum.splits option.splits)
    next
      case claimed
      with unfold c have "start_claimed_job E tt heartbeat submit (clock E (calls ?w1)) w2 = (w', r)"
        by simp
      then show ?thesis by (rule start_claimed_accounted [OF _ h2 assms(2)])
    qed
  qed
qed

lemma enqueue_accounted:
  assumes "enqueue_translation_job E tt has_publisher requested heartbeat submit w = (w', r)"
    and "slots_bounded (exec w)"
  shows "slot_accounted (exec w) w' r"
proof -
  have same: "same_slots (exec w) (exec w1)" if "same_local w w1" for w1
    using that by (simp add: same_local_def same_slots_def)
  show ?thesis
  proof (cases "has_publisher \<and> requested")
    case False
    with assms same [of w] admit_accounted show ?thesis
      by (auto simp: enqueue_translation_job_def split: if_splits)
  next
    case True
    let ?get = "get_existing_translation_request E tt (job_id E) (job_language E) (job_title E) w"
    obtain w1 g where g: "?get = (w1, g)" by (cases ?get)
    have l: "same_local w w1" using staysD [OF same_local_existing g] .
    then have e: "exec w1 = exec w" by (simp add: same_local_def)
    show ?thesis
    proof (cases "g = Inr None")
      case True
      with assms(1) g \<open>has_publisher \<and> requested\<close>
      have "admit_translation_job E tt heartbeat submit w1 = (w', r)"
        by (simp add: enqueue_translation_job_def)
      from admit_accounted [OF this] assms(2) show ?thesis by (simp add: e)
    next
      case False
      with assms(1) g \<open>has_publisher \<and> requested\<close> have "w' = w1" "\<nexists>d. r = Inr (Submitted d)"
        by (auto simp: enqueue_translation_job_def split: sum.splits option.splits)
      with same [OF l] show ?thesis by (simp add: slot_accounted_other)
    qed
  qed
qed

end
