(* ===== verification/CounterProps.thy ===== *)
theory CounterProps
  imports RedisCounter
begin

text \<open>
  The properties of the active-job counters, proved once in the locale \<open>job_counter\<close>
  and carried over by its two interpretations, and of the recovery of stale jobs.
\<close>

subsection \<open>Runs of the shared counter\<close>

text \<open>
  A run is any sequence of calls by any number of executions, each with its own
  pattern of failing Redis calls.
\<close>

fun redis_step :: "(io, bool \<times> bool \<times> (nat \<Rightarrow> io)) counter_op \<Rightarrow> redis_counter \<Rightarrow> redis_counter" where
  "redis_step (Claim i title language t j token) c = fst (redis_claim_job i title language t j token c)"
| "redis_step (Touch i j t tok) c = fst (redis_touch_job i j t tok c)"
| "redis_step (Owns i j token) c = fst (redis_owns_job i j token c)"
| "redis_step (Finish i j tok) c = fst (redis_finish_job i j tok c)"
| "redis_step (Recover r timeout now protected) c =
    fst (redis_recover r timeout now protected c)"

definition redis_run ::
  "(io, bool \<times> bool \<times> (nat \<Rightarrow> io)) counter_op list \<Rightarrow> redis_counter \<Rightarrow> redis_counter" where
  "redis_run ps c = fold redis_step ps c"

lemma redis_step_run: "shared_counter.run ps c = redis_run ps c"
proof (induction ps arbitrary: c)
  case Nil
  then show ?case by (simp add: redis_run_def)
next
  case (Cons p ps)
  have "shared_counter.step p c = redis_step p c" by (cases p) simp_all
  with Cons show ?case by (simp add: redis_run_def)
qed

definition no_release :: "string \<Rightarrow> string \<Rightarrow> ('e, 'r) counter_op list \<Rightarrow> bool" where
  "no_release j token ps \<longleftrightarrow> list_all (\<lambda>p. tracked p \<and> \<not> releases j token p) ps"

text \<open>
  C5: Once \<open>claim_job\<close> of the Redis counter has granted a job to a token, no other
  token can claim, touch, own or finish that job, and its holder is never told that it
  lost it, after any sequence of operations that contains neither a finish by the
  holder (or by a caller naming no owner) nor a recovery that leaves the job
  unprotected, whichever Redis calls fail.
\<close>

theorem redis_lease_is_exclusive:
  assumes "redis_wf c" and "token \<noteq> []"
    and "redis_claim_job i title language t j token c = (c1, Inr True)"
    and "no_release j token ps"
    and "other \<noteq> []" and "other \<noteq> token"
  shows "snd (redis_claim_job i' title' language' t' j other (redis_run ps c1)) \<noteq> Inr True \<and>
    snd (redis_touch_job i' j t' (Some other) (redis_run ps c1)) \<noteq> Inr True \<and>
    snd (redis_owns_job i' j other (redis_run ps c1)) \<noteq> Inr True \<and>
    snd (redis_finish_job i' j (Some other) (redis_run ps c1)) \<noteq> Inr True \<and>
    snd (redis_owns_job i' j token (redis_run ps c1)) \<noteq> Inr False"
proof -
  have w: "redis_wf c1" using shared_counter.claim_wf [OF assms(1)] assms(3) by (metis fst_conv)
  have o: "redis_owner c1 j = Some token" using redis_claim_owner(1) [OF assms(3,2)] by auto
  have q: "\<forall>p \<in> set ps. tracked p \<and> \<not> releases j token p"
    using assms(4) by (simp add: no_release_def list_all_iff)
  from shared_counter.lease_exclusive [OF w o assms(2) q assms(5)] assms(6)
  show ?thesis by (simp add: redis_step_run)
qed

definition demo_counter :: redis_counter where
  "demo_counter = \<lparr>store = \<lparr>records = [], beats = []\<rparr>, fallback = empty_counter,
     using_fallback = False, redis_legacy_ids = []\<rparr>"

definition claimed_counter :: redis_counter where
  "claimed_counter = fst (redis_claim_job Acked ''t'' ''mg'' 10 ''a'' ''own'' demo_counter)"

lemma demo_claim: "redis_claim_job Acked ''t'' ''mg'' 10 ''a'' ''own'' demo_counter =
    (claimed_counter, Inr True)"
  unfolding claimed_counter_def
  by (simp add: redis_claim_job_def claim_redis_job_def demo_counter_def redis_call_def
      claim_job_script_def)

lemma demo_counter_wf: "redis_wf demo_counter"
  by (simp add: redis_wf_def demo_counter_def empty_counter_def)

theorem redis_lease_is_exclusive_witness:
  "snd (redis_claim_job Acked ''t'' ''mg'' 30 ''a'' ''thief''
     (redis_run [Touch Unacked ''a'' 20 (Some ''own''), Finish Acked ''a'' (Some ''thief''),
        Recover (True, True, \<lambda>n. Acked) 5 1000 [''a'']] claimed_counter)) \<noteq> Inr True"
  using redis_lease_is_exclusive [OF demo_counter_wf _ demo_claim, where
      other = "''thief''" and ps = "[Touch Unacked ''a'' 20 (Some ''own''),
        Finish Acked ''a'' (Some ''thief''), Recover (True, True, \<lambda>n. Acked) 5 1000 [''a'']]"]
  by (simp add: no_release_def)

subsection \<open>Recovery\<close>

text \<open>What the other processes do during a recovery never removes the record of \<open>j\<close>.\<close>

definition keeps_record :: "recover_env \<Rightarrow> string \<Rightarrow> bool" where
  "keeps_record env j \<longleftrightarrow> (\<forall>st. map_of (records st) j \<noteq> None \<longrightarrow>
     map_of (records (before_scan env st)) j \<noteq> None \<and>
     map_of (records (between_reads env st)) j \<noteq> None \<and>
     (\<forall>n. map_of (records (before_script env n st)) j \<noteq> None))"

definition scanned_store :: "recover_env \<Rightarrow> active_store \<Rightarrow> active_store" where
  "scanned_store env st = between_reads env (before_scan env st)"

text \<open>
  The heartbeat of the job was touched after the scan: at every later instant it is
  another one than the scan saw.
\<close>

definition touched_since :: "recover_env \<Rightarrow> string \<Rightarrow> active_store \<Rightarrow> bool" where
  "touched_since env j st \<longleftrightarrow> (\<forall>n st1.
     observed_beat (beats (before_script env n st1)) j \<noteq> observed_beat (beats (scanned_store env st)) j)"

definition fresh_at :: "string \<Rightarrow> rat \<Rightarrow> rat \<Rightarrow> active_store \<Rightarrow> bool" where
  "fresh_at j timeout now st \<longleftrightarrow>
    (case map_of (beats st) j of Some (NumText (Finite t)) \<Rightarrow> now - t < timeout | _ \<Rightarrow> False)"

text \<open>
  C6: Recovery never removes a job that is protected, whose heartbeat was younger than
  the timeout when it was read, or whose heartbeat changed after it was read, however
  the other processes' calls are interleaved with the recovery and whichever of its
  own calls fail.
\<close>

theorem recovery_spares_live_jobs:
  assumes "redis_recover_stale_jobs env timeout now protected c = (c', ds)"
    and "map_of (records (store c)) j \<noteq> None" and "keeps_record env j"
    and "j \<in> set protected \<or> fresh_at j timeout now (scanned_store env (store c)) \<or>
      touched_since env j (store c)"
  shows "map_of (records (store c')) j \<noteq> None"
proof -
  let ?st1 = "before_scan env (store c)"
  let ?st2 = "scanned_store env (store c)"
  obtain st a where rec: "recover_redis_jobs env timeout now protected (store c) = (st, a)"
    by (cases "recover_redis_jobs env timeout now protected (store c)")
  have st: "store c' = st"
    using assms(1) rec by (auto simp: redis_recover_stale_jobs_def split: sum.splits prod.splits)
  have k1: "map_of (records ?st1) j \<noteq> None" using assms(2,3) by (auto simp: keeps_record_def)
  then have k2: "map_of (records ?st2) j \<noteq> None"
    using assms(3) by (auto simp: keeps_record_def scanned_store_def)
  show ?thesis
  proof (cases "\<exists>cs. stale_candidates timeout now protected (beats ?st2) (records ?st1) = Inr cs
      \<and> recover_each env 0 cs ?st2 = (st, a)")
    case False
    with rec have "st = ?st1 \<or> st = ?st2"
      by (auto simp: recover_redis_jobs_def Let_def scanned_store_def split: if_splits sum.splits)
    with k1 k2 st show ?thesis by auto
  next
    case True
    then obtain cs where cs: "stale_candidates timeout now protected (beats ?st2) (records ?st1) = Inr cs"
      "recover_each env 0 cs ?st2 = (st, a)" by blast
    have "observed_beat (beats (before_script env m st0)) j \<noteq> observed"
      if cand: "(j, job, observed) \<in> set cs" for m st0 job observed
    proof -
      from stale_candidate_scanned [OF cs(1) cand] obtain started_at last where
        s: "j \<notin> set protected" "observed = observed_beat (beats ?st2) j"
          "scanned_heartbeat (beats ?st2) j started_at = Inr last"
          "f_le (Finite timeout) (f_sub now last)" by blast
      have "\<not> fresh_at j timeout now ?st2"
        using s(3,4) by (auto simp: fresh_at_def scanned_heartbeat_def
            split: option.splits num_text.splits pyfloat.splits)
      with assms(4) s(1) have "touched_since env j (store c)" by blast
      with s(2) show ?thesis by (simp add: touched_since_def)
    qed
    moreover have "map_of (records (before_script env m st0)) j \<noteq> None"
      if "map_of (records st0) j \<noteq> None" for m st0
      using assms(3) that by (auto simp: keeps_record_def)
    ultimately have "map_of (records st) j \<noteq> None"
      using recover_each_spares [OF cs(2) k2] by blast
    then show ?thesis by (simp add: st)
  qed
qed

text \<open>A heartbeat arrives between the scan and the script of a stale-looking job.\<close>

definition racing :: recover_env where
  "racing = calm\<lparr>before_script :=
     (\<lambda>n st. st\<lparr>beats := AList.update ''a'' (NumText (Finite 1999)) (beats st)\<rparr>)\<rparr>"

theorem recovery_spares_live_jobs_witness:
  "map_of (records (store (fst (redis_recover_stale_jobs racing 900 2000 [] claimed_counter)))) ''a'' \<noteq> None"
proof -
  obtain c' ds where r: "redis_recover_stale_jobs racing 900 2000 [] claimed_counter = (c', ds)"
    by (cases "redis_recover_stale_jobs racing 900 2000 [] claimed_counter")
  have a: "store claimed_counter = \<lparr>records = [(''a'', Text (JDict (job_record ''t'' ''mg'' 10 ''own'')))],
      beats = [(''a'', NumText (Finite 10))]\<rparr>"
    unfolding claimed_counter_def
    by (simp add: redis_claim_job_def claim_redis_job_def demo_counter_def redis_call_def
        claim_job_script_def)
  have "map_of (records (store claimed_counter)) ''a'' \<noteq> None" by (simp add: a)
  moreover have "keeps_record racing ''a''" by (simp add: keeps_record_def racing_def calm_def)
  moreover have "touched_since racing ''a'' (store claimed_counter)"
    by (simp add: touched_since_def racing_def calm_def observed_beat_def scanned_store_def a)
  ultimately have "map_of (records (store c')) ''a'' \<noteq> None"
    using recovery_spares_live_jobs [OF r] by blast
  then show ?thesis by (simp add: r)
qed


text \<open>
  Every job that the Redis recovery returns was unprotected, had a heartbeat (or,
  without one, a start time) at least as old as the timeout when it was scanned, and
  was removed at an instant at which its record existed and its heartbeat was still
  the scanned one.
\<close>

theorem recovered_jobs_were_stale:
  assumes "redis_recover_stale_jobs env timeout now protected c = (c', ds)"
    and "\<not> using_fallback c'" and "d \<in> set ds"
  shows "\<exists>j n st1 started_at last. dget ''job_id'' d = JStr j \<and> j \<notin> set protected \<and>
    scanned_heartbeat (beats (scanned_store env (store c))) j started_at = Inr last \<and>
    f_le (Finite timeout) (f_sub now last) \<and>
    map_of (records (before_script env n st1)) j \<noteq> None \<and>
    observed_beat (beats (before_script env n st1)) j =
      observed_beat (beats (scanned_store env (store c))) j"
proof -
  let ?st1 = "before_scan env (store c)"
  let ?st2 = "scanned_store env (store c)"
  obtain st where rec: "recover_redis_jobs env timeout now protected (store c) = (st, Inr ds)"
    using assms(1,2) by (auto simp: redis_recover_stale_jobs_def split: sum.splits prod.splits)
  then obtain cs where cs: "stale_candidates timeout now protected (beats ?st2) (records ?st1) = Inr cs"
      "recover_each env 0 cs ?st2 = (st, Inr ds)"
    by (auto simp: recover_redis_jobs_def Let_def scanned_store_def split: if_splits sum.splits)
  obtain j observed n st1 where r: "(j, d, observed) \<in> set cs"
    "observed_beat (beats (before_script env n st1)) j = observed"
    "map_of (records (before_script env n st1)) j \<noteq> None"
    using recover_each_returned [OF cs(2) assms(3)] by blast
  from stale_candidate_scanned [OF cs(1) r(1)] r(2,3) show ?thesis by blast
qed

theorem recovered_jobs_were_stale_witness:
  "\<exists>c' d j. redis_recover_stale_jobs calm 900 2000 [''b''] claimed_counter = (c', [d]) \<and>
     dget ''job_id'' d = JStr j \<and> j \<notin> {''b''}"
proof -
  obtain c' ds where r: "redis_recover_stale_jobs calm 900 2000 [''b''] claimed_counter = (c', ds)"
    by (cases "redis_recover_stale_jobs calm 900 2000 [''b''] claimed_counter")
  have "\<not> using_fallback (fst (redis_recover_stale_jobs calm 900 2000 [''b''] claimed_counter)) \<and>
    length (snd (redis_recover_stale_jobs calm 900 2000 [''b''] claimed_counter)) = 1"
    by code_simp
  then have u: "\<not> using_fallback c'" and l: "length ds = 1" by (simp_all add: r)
  from l obtain d where d: "ds = [d]" by (auto simp: length_Suc_conv)
  from recovered_jobs_were_stale [OF r u, of d] obtain j where
    "dget ''job_id'' d = JStr j" "j \<notin> set [''b'']" by (auto simp: d)
  then show ?thesis using r d by auto
qed

text \<open>
  The in-process recovery removes and returns exactly the unprotected jobs whose
  last heartbeat (or start) is at least as old as the timeout, and leaves the lease of
  every other job alone.
\<close>

theorem local_recovery_is_exact:
  assumes "qc_wf c" and "qc_recover_stale_jobs timeout now protected c = (c', ds)"
  shows "map (dget ''job_id'') ds =
      map (JStr \<circ> fst) (filter (\<lambda>p. is_stale timeout now protected c (snd p)) (jobs c)) \<and>
    qc_owner c' j = (case map_of (jobs c) j of
        None \<Rightarrow> None
      | Some job \<Rightarrow> if is_stale timeout now protected c job then None else qc_owner c j)"
proof
  let ?stale = "filter (is_stale timeout now protected c) (map snd (jobs c))"
  have r: "remove_stale ?stale c = (c', ds)"
    using assms(2) by (simp add: qc_recover_stale_jobs_def)
  have ids: "\<And>p. p \<in> set (jobs c) \<Longrightarrow> aj_job_id (snd p) = fst p"
    and dist: "distinct (map fst (jobs c))"
    using assms(1) by (auto simp: qc_wf_def)
  show "map (dget ''job_id'') ds =
      map (JStr \<circ> fst) (filter (\<lambda>p. is_stale timeout now protected c (snd p)) (jobs c))"
    unfolding remove_stale_owner(3) [OF r] by (auto simp: filter_map o_def ids)
  have "j \<in> aj_job_id ` set ?stale \<longleftrightarrow>
      (\<exists>job. map_of (jobs c) j = Some job \<and> is_stale timeout now protected c job)"
  proof
    assume "j \<in> aj_job_id ` set ?stale"
    then obtain k job where "(k, job) \<in> set (jobs c)" "is_stale timeout now protected c job"
      "j = aj_job_id job" by auto
    with ids [of "(k, job)"] dist show "\<exists>job. map_of (jobs c) j = Some job \<and> is_stale timeout now protected c job"
      by (auto intro: map_of_is_SomeI)
  next
    assume "\<exists>job. map_of (jobs c) j = Some job \<and> is_stale timeout now protected c job"
    then obtain job where job: "map_of (jobs c) j = Some job" "is_stale timeout now protected c job" by blast
    from job(1) have "(j, job) \<in> set (jobs c)" by (rule map_of_SomeD)
    with ids [OF this] job(2) show "j \<in> aj_job_id ` set ?stale" by force
  qed
  then show "qc_owner c' j = (case map_of (jobs c) j of
        None \<Rightarrow> None
      | Some job \<Rightarrow> if is_stale timeout now protected c job then None else qc_owner c j)"
    by (auto simp: remove_stale_owner(1) [OF r] qc_owner_def active_def split: option.splits)
qed

definition two_jobs :: queue_counter where
  "two_jobs = fst (qc_claim_job ''u'' ''fr'' 100 ''b'' ''own2''
     (fst (qc_claim_job ''t'' ''mg'' 10 ''a'' ''own1'' empty_counter)))"

theorem local_recovery_is_exact_witness:
  "\<exists>c' ds. qc_recover_stale_jobs 50 120 [] two_jobs = (c', ds) \<and>
     map (dget ''job_id'') ds = [JStr ''a''] \<and> qc_owner c' ''b'' = Some ''own2''"
proof -
  obtain c' ds where r: "qc_recover_stale_jobs 50 120 [] two_jobs = (c', ds)"
    by (cases "qc_recover_stale_jobs 50 120 [] two_jobs")
  have w: "qc_wf two_jobs"
    unfolding two_jobs_def by (intro qc_wf_claim) (simp add: qc_wf_def empty_counter_def)
  have j: "jobs two_jobs = [(''a'', build_job ''a'' ''t'' ''mg'' 10), (''b'', build_job ''b'' ''u'' ''fr'' 100)]"
    by (simp add: two_jobs_def qc_claim_job_def empty_counter_def active_def)
  have s: "is_stale 50 120 [] two_jobs (build_job ''a'' ''t'' ''mg'' 10)"
    "\<not> is_stale 50 120 [] two_jobs (build_job ''b'' ''u'' ''fr'' 100)"
    and o: "qc_owner two_jobs ''b'' = Some ''own2''"
    by (simp_all add: is_stale_def last_heartbeat_def build_job_def two_jobs_def qc_claim_job_def
        empty_counter_def active_def qc_owner_def)
  from local_recovery_is_exact [OF w r, of "''b''"] have
    "map (dget ''job_id'') ds = [JStr ''a''] \<and> qc_owner c' ''b'' = Some ''own2''"
    by (simp add: j s o)
  with r show ?thesis by auto
qed

end
