(* ===== verification/TranslationJobProps.thy ===== *)
theory TranslationJobProps
  imports TranslationJobLemmas CounterProps
begin

text \<open>
  The properties of background translation jobs: their capacity slot, the fencing of
  publications, and the order of the terminal record and the release of the lease.
\<close>

subsection \<open>A sample run\<close>

definition demo_env :: "string tenv" where
  "demo_env = \<lparr>meddle = (\<lambda>n. id), io_at = (\<lambda>n. Acked), clock = (\<lambda>n. 100), connect_ok = (\<lambda>n. True),
     exn_text = (\<lambda>e. ''boom''), exn_type = (\<lambda>e. ''Error''), page_fetch = None,
     prefilter_setting = (\<lambda>n. Inr False), page_verdict = (\<lambda>t c. Inr ''good''),
     wiki = (\<lambda>t. \<lparr>page_namespace = 0, page_exists = False, page_text = []\<rparr>),
     page_output = \<lparr>entry_language = id, delete_section = (\<lambda>l c. c), wikipages = concat,
       generate_summary = (\<lambda>es p c. ''s'')\<rparr>,
     job_title = ''t'', job_language = ''en'', job_id = ''a'', owner_token = ''own'',
     job_duration = 5, stale_timeout = 300\<rparr>"

definition demo_world :: jworld where
  "demo_world = \<lparr>counter = demo_counter, tstore = [], errs = init_error_store [] 25,
     exec = small_executor, local_ids = [], average = None,
     rabbit = \<lparr>connected = False, queue = []\<rparr>, pushed_at = [],
     calls = 0, job = [], task_started = False, cleaned = False\<rparr>"

definition submitted_world :: jworld where
  "submitted_world = fst (enqueue_translation_job demo_env ''300'' True True None None demo_world)"

definition demo_engine :: "string engine" where
  "demo_engine = Publishes ''p'' [''x''] (\<lambda>e. Returns (IntResult 1))"

definition finished_world :: jworld where
  "finished_world = fst (task demo_env demo_engine submitted_world)"

fun was_submitted :: "'a \<times> admission res \<Rightarrow> bool" where
  "was_submitted (w, Inr (Submitted d)) = True"
| "was_submitted p = False"

lemma was_submitted_obtain: "was_submitted p \<Longrightarrow> \<exists>w d. p = (w, Inr (Submitted d))"
  by (cases p rule: was_submitted.cases) auto

lemma submission: "was_submitted (enqueue_translation_job demo_env ''300'' True True None None demo_world)"
  by code_simp

lemma submitted_facts:
  "\<not> cleaned submitted_world \<and> slots (exec submitted_world) < job_capacity (exec submitted_world) \<and>
    redis_owner (counter submitted_world) (job_id demo_env) = Some (owner_token demo_env) \<and>
    dget ''job_id'' (job submitted_world) = JStr (job_id demo_env) \<and> pushed_at submitted_world = []"
  by code_simp

lemma finished_pushed: "pushed_at finished_world \<noteq> []"
  by code_simp

lemma task_obtain: "\<exists>r. task demo_env demo_engine submitted_world = (finished_world, r)"
  unfolding finished_world_def by (metis prod.collapse)

subsection \<open>Slots\<close>

text \<open>
  C9: However the task of an admitted job ends (result, error result, exception of any
  call, lost lease), it gives back exactly one slot, is no longer counted as admitted
  or running, and is removed from the identifiers protected against recovery.
\<close>

theorem task_releases_its_slot_once:
  assumes "task E eng w = (w', r)" and "\<not> cleaned w" and "slots (exec w) < job_capacity (exec w)"
  shows "r = Inr () \<and> slots (exec w') = slots (exec w) + 1 \<and>
    admitted (exec w') = admitted (exec w) - 1 \<and> running (exec w') = running (exec w) \<and>
    job_id E \<notin> set (local_ids w') \<and> cleanup E True was_failed w' = (w', Inr ())"
proof -
  from task_slot [OF assms(1,2)] assms(3) have
    "slot_given_back E True w w'" "running (exec w') = running (exec w)" "r = Inr ()" by simp_all
  then show ?thesis using assms(3) by (simp add: slot_given_back_def cleanup_twice)
qed

theorem task_releases_its_slot_once_witness:
  "slots (exec finished_world) = slots (exec submitted_world) + 1 \<and>
    job_id demo_env \<notin> set (local_ids finished_world)"
proof -
  obtain r where t: "task demo_env demo_engine submitted_world = (finished_world, r)"
    using task_obtain by blast
  have "\<not> cleaned submitted_world" "slots (exec submitted_world) < job_capacity (exec submitted_world)"
    using submitted_facts by blast+
  from task_releases_its_slot_once [OF t this] show ?thesis by blast
qed

text \<open>
  C10: A request for a translation takes a slot exactly when it ends with a newly
  submitted task.  With every other outcome (no publisher, an existing job, a full or
  stopping service, a failed claim, creation, heartbeat start or submission) the slots
  and the number of admitted jobs are what they were.
\<close>

theorem enqueue_accounts_for_its_slot:
  assumes "enqueue_translation_job E tt has_publisher requested heartbeat submit w = (w', r)"
    and "slots_bounded (exec w)"
  shows "if \<exists>d. r = Inr (Submitted d)
    then slots (exec w') + 1 = slots (exec w) \<and> admitted (exec w') = admitted (exec w) + 1 \<and> \<not> cleaned w'
    else slots (exec w') = slots (exec w) \<and> admitted (exec w') = admitted (exec w)"
proof (cases "\<exists>d. r = Inr (Submitted d)")
  case True
  with enqueue_accounted [OF assms] show ?thesis by (auto simp: holds_slot_def)
next
  case False
  with enqueue_accounted [OF assms] show ?thesis
    by (simp add: slot_accounted_other same_slots_def)
qed

theorem enqueue_accounts_for_its_slot_witness:
  "slots (exec submitted_world) + 1 = slots (exec demo_world)"
proof -
  obtain w d where e: "enqueue_translation_job demo_env ''300'' True True None None demo_world =
      (w, Inr (Submitted d))"
    using was_submitted_obtain [OF submission] by blast
  then have w: "w = submitted_world" by (simp add: submitted_world_def)
  have b: "slots_bounded (exec demo_world)"
    by (simp add: slots_bounded_def demo_world_def small_executor_def)
  from enqueue_accounts_for_its_slot [OF e b] w show ?thesis by simp
qed

subsection \<open>Publications\<close>

text \<open>The shared store, as left by the other processes before the call \<open>n\<close>, has the lease.\<close>

definition leased :: "'e tenv \<Rightarrow> nat \<Rightarrow> bool" where
  "leased E n \<longleftrightarrow> (\<exists>a h. rec_owner (fst (meddle E n (a, h))) (job_id E) = Some (owner_token E))"

definition publishes :: "'e tenv \<Rightarrow> jworld \<Rightarrow> jworld \<Rightarrow> bool" where
  "publishes E w w' \<longleftrightarrow> owner_token E = [] \<or> (\<exists>new. pushed_at w' = pushed_at w @ map Suc new \<and>
     list_all (leased E) new \<and> (new = [] \<longrightarrow> queue (rabbit w') = queue (rabbit w)))"

lemma publishes_quiet: "pushed_at w' = pushed_at w \<Longrightarrow> rabbit w' = rabbit w \<Longrightarrow> publishes E w w'"
  by (simp add: publishes_def)

lemma publishes_trans:
  assumes "publishes E w w1" and "publishes E w1 w2"
  shows "publishes E w w2"
proof (cases "owner_token E = []")
  case False
  with assms obtain xs ys where
    "pushed_at w1 = pushed_at w @ map Suc xs" "list_all (leased E) xs"
    "xs = [] \<longrightarrow> queue (rabbit w1) = queue (rabbit w)"
    "pushed_at w2 = pushed_at w1 @ map Suc ys" "list_all (leased E) ys"
    "ys = [] \<longrightarrow> queue (rabbit w2) = queue (rabbit w1)"
    unfolding publishes_def by blast
  then show ?thesis unfolding publishes_def by (intro disjI2 exI [of _ "xs @ ys"]) auto
qed (simp add: publishes_def)

lemma broker_calls:
  "on_counter E f w = (w1, a) \<Longrightarrow> pushed_at w1 = pushed_at w \<and> rabbit w1 = rabbit w"
  "on_store E g w = (w1, b) \<Longrightarrow> pushed_at w1 = pushed_at w \<and> rabbit w1 = rabbit w"
  by (auto simp: on_counter_def on_store_def Let_def enter_def split: prod.splits)

lemma broker_counter: "stays (publishes E) (on_counter E' f)"
  unfolding stays_def
proof
  fix w
  obtain w1 a where c: "on_counter E' f w = (w1, a)" by (cases "on_counter E' f w")
  with broker_calls(1) [OF c] show "publishes E w (fst (on_counter E' f w))" by (simp add: publishes_quiet)
qed

lemma broker_store: "stays (publishes E) (on_store E' f)"
  unfolding stays_def
proof
  fix w
  obtain w1 a where c: "on_store E' f w = (w1, a)" by (cases "on_store E' f w")
  with broker_calls(2) [OF c] show "publishes E w (fst (on_store E' f w))" by (simp add: publishes_quiet)
qed

interpretation broker: job_frame E "publishes E'" for E E'
proof unfold_locales
  show "reflp (publishes E')" by (intro reflpI) (simp add: publishes_quiet)
  show "transp (publishes E')" by (intro transpI) (rule publishes_trans)
  show "stays (publishes E') (w_touch E j token)" for j token
    by (simp add: w_touch_def broker_counter)
  show "stays (publishes E') (w_put_owned E token)" for token
    using broker_store by (auto simp: stays_def w_put_owned_def)
  show "publishes E' w (set_job k v w)" for k v w by (simp add: publishes_quiet set_job_def)
qed

lemma guard_leased:
  assumes "check_lease E (job_id E) (owner_token E) w = (w1, Inr ())" and "owner_token E \<noteq> []"
  shows "leased E (calls w)" and "calls w1 = Suc (calls w)"
    and "rec_owner (store (counter w1)) (job_id E) = Some (owner_token E)"
proof -
  from assms(1) obtain b where t: "w_touch E (job_id E) (owner_token E) w = (w1, Inr True)"
    by (auto simp: check_lease_def sbind_def sreturn_def split: prod.splits sum.splits if_splits)
  obtain c where c: "redis_touch_job (io_at E (calls w)) (job_id E) (clock E (calls w))
      (Some (owner_token E)) (counter (enter E w)) = (c, Inr True)"
    and w1: "w1 = (enter E w)\<lparr>counter := c\<rparr>"
    using t by (auto simp: w_touch_def on_counter_def Let_def split: prod.splits)
  have o: "redis_owner (counter (enter E w)) (job_id E) = Some (owner_token E)"
    using redis_touch_owner(2) [OF c refl assms(2) refl] by simp
  then show "leased E (calls w)"
    by (auto simp: leased_def redis_owner_def enter_def split: prod.splits) (metis fst_conv)
  show "calls w1 = Suc (calls w)" by (simp add: w1 enter_def split: prod.splits)
  show "rec_owner (store (counter w1)) (job_id E) = Some (owner_token E)"
    using redis_touch_owner(1) [OF c] o by (simp add: w1 redis_owner_def)
qed

lemma push_publishes:
  assumes "w_push E m w = (w', r)" and "calls w = Suc n" and "leased E n"
  shows "publishes E w w'"
proof -
  have "pushed_at w' = pushed_at w @ map Suc [n]"
    using assms(1,2) by (auto simp: w_push_def Let_def enter_def split: prod.splits)
  with assms(3) show ?thesis unfolding publishes_def by (intro disjI2 exI [of _ "[n]"]) simp
qed

lemma unlocked_publishes: "stays (publishes E) (publish_unlocked E title entries)"
proof (cases "owner_token E = []")
  case True
  then show ?thesis by (simp add: stays_def publishes_def)
next
  case token: False
  show ?thesis
  unfolding stays_def
proof
  fix w
  obtain w' r where u: "publish_unlocked E title entries w = (w', r)"
    by (cases "publish_unlocked E title entries w")
  then have "publishes E w w'"
  proof (cases rule: publish_unlocked_steps)
    case untouched
    then show ?thesis by (simp add: publishes_quiet)
  next
    case (filtered a)
    then show ?thesis using staysD [OF broker.filter_check] by blast
  next
    case (fenced w1 e)
    have "publishes E w w1" using staysD [OF broker.filter_check fenced(1)] .
    moreover have "publishes E w1 w'"
      using staysD [OF broker.lease] fenced(2) unfolding assert_publication_lease_def by blast
    ultimately show ?thesis by (rule publishes_trans)
  next
    case (pushed w1 w2 a)
    have g: "check_lease E (job_id E) (owner_token E) w1 = (w2, Inr ())"
      using pushed(2) by (simp add: assert_publication_lease_def)
    have "publishes E w w1" using staysD [OF broker.filter_check pushed(1)] .
    moreover have "publishes E w1 w2" using staysD [OF broker.lease g] .
    moreover have "publishes E w2 w'"
      using push_publishes [OF pushed(3)] guard_leased(1,2) [OF g token] by simp
    ultimately show ?thesis by (blast intro: publishes_trans)
  qed
  with u show "publishes E w (fst (publish_unlocked E title entries w))" by simp
qed
qed

interpretation broker: task_frame E "publishes E" for E
  by unfold_locales (simp_all add: unlocked_publishes publishes_quiet w_record_error_def)

lemma release_if_publishes: "publishes E w (release_if E terminal w)"
  using broker_counter [of E E] by (auto simp: release_if_def w_finish_def stays_def publishes_quiet)

lemma task_finally_publishes:
  assumes "task_finally E was_failed terminal w = (w', r)"
  shows "publishes E w w'"
proof -
  let ?w1 = "w\<lparr>average := record_job_duration (job_duration E) (average w)\<rparr>"
  have "publishes E w ?w1" by (simp add: publishes_quiet)
  moreover have "publishes E ?w1 (release_if E terminal ?w1)" by (rule release_if_publishes)
  moreover have "publishes E (release_if E terminal ?w1) w'"
    using cleanup_shared(3,4) [OF assms [unfolded task_finally_def]] by (simp add: publishes_quiet)
  ultimately show ?thesis by (blast intro: publishes_trans)
qed

lemma task_publishes:
  assumes "task E eng w = (w', r)"
  shows "publishes E w w'"
proof -
  let ?w1 = "w\<lparr>task_started := True, exec := mark_job_running (exec w)\<rparr>"
  obtain w2 a where t: "task_try E eng ?w1 = (w2, a)" by (cases "task_try E eng ?w1")
  have 1: "publishes E w ?w1" by (simp add: publishes_quiet)
  have 2: "publishes E ?w1 w2" using staysD [OF broker.task_try t] .
  have "publishes E w2 w'"
  proof (cases a)
    case (Inr was_failed)
    with assms t have "task_finally E was_failed True w2 = (w', r)" by (simp add: task_def Let_def)
    then show ?thesis by (rule task_finally_publishes)
  next
    case (Inl e)
    obtain w3 terminal where f: "task_failure E e w2 = (w3, terminal)" by (cases "task_failure E e w2")
    with assms t Inl have "task_finally E True terminal w3 = (w', r)" by (simp add: task_def Let_def)
    with broker.task_failure [OF f] task_finally_publishes show ?thesis by (blast intro: publishes_trans)
  qed
  with 1 2 show ?thesis by (blast intro: publishes_trans)
qed

text \<open>
  C11: Whatever the engine does and whatever the other processes and the failing calls
  do, the task only sends a message to RabbitMQ in the call right after one before
  which the shared counter gave the lease of the job to this task's token.  In
  particular a task whose lease was taken over by then, and stays so, sends nothing
  more, and without any such call the queue is unchanged.
\<close>

theorem publications_are_fenced:
  assumes "task E eng w = (w', r)" and "owner_token E \<noteq> []"
  shows "\<exists>new. pushed_at w' = pushed_at w @ map Suc new \<and> list_all (leased E) new \<and>
    (new = [] \<longrightarrow> queue (rabbit w') = queue (rabbit w))"
  using task_publishes [OF assms(1)] assms(2) by (simp add: publishes_def)


theorem publications_are_fenced_witness:
  "\<exists>new. new \<noteq> [] \<and> pushed_at finished_world = map Suc new \<and> list_all (leased demo_env) new"
proof -
  obtain r where t: "task demo_env demo_engine submitted_world = (finished_world, r)"
    using task_obtain by blast
  have o: "owner_token demo_env \<noteq> []" by (simp add: demo_env_def)
  from publications_are_fenced [OF t o] obtain new where
    n: "pushed_at finished_world = pushed_at submitted_world @ map Suc new" "list_all (leased demo_env) new"
    by blast
  moreover have "pushed_at submitted_world = []" using submitted_facts by blast
  ultimately show ?thesis using finished_pushed by (intro exI [of _ new]) auto
qed

subsection \<open>The terminal record and the lease\<close>

text \<open>The other processes touch neither the lease nor the record of this job.\<close>

definition considerate :: "'e tenv \<Rightarrow> bool" where
  "considerate E \<longleftrightarrow> (\<forall>n a h. rec_owner (fst (meddle E n (a, h))) (job_id E) = rec_owner a (job_id E) \<and>
     record_at (job_id E) (snd (meddle E n (a, h))) = record_at (job_id E) h)"

definition has_lease :: "'e tenv \<Rightarrow> jworld \<Rightarrow> bool" where
  "has_lease E w \<longleftrightarrow> redis_owner (counter w) (job_id E) = Some (owner_token E)"

definition keeps_lease :: "'e tenv \<Rightarrow> jworld \<Rightarrow> jworld \<Rightarrow> bool" where
  "keeps_lease E w w' \<longleftrightarrow> dget ''job_id'' (job w') = dget ''job_id'' (job w) \<and>
     (considerate E \<longrightarrow> has_lease E w \<longrightarrow> has_lease E w')"

lemma enter_considerate:
  assumes "considerate E"
  shows "has_lease E (enter E w) = has_lease E w"
    and "record_at (job_id E) (tstore (enter E w)) = record_at (job_id E) (tstore w)"
proof -
  obtain a h where m: "meddle E (calls w) (store (counter w), tstore w) = (a, h)"
    by (cases "meddle E (calls w) (store (counter w), tstore w)")
  with assms have "rec_owner a (job_id E) = rec_owner (store (counter w)) (job_id E)"
    "record_at (job_id E) h = record_at (job_id E) (tstore w)"
    unfolding considerate_def by (metis fst_conv, metis snd_conv)
  with m show "has_lease E (enter E w) = has_lease E w"
    "record_at (job_id E) (tstore (enter E w)) = record_at (job_id E) (tstore w)"
    by (simp_all add: enter_def has_lease_def redis_owner_def)
qed

lemma keeps_lease_trans: "keeps_lease E w w1 \<Longrightarrow> keeps_lease E w1 w2 \<Longrightarrow> keeps_lease E w w2"
  by (simp add: keeps_lease_def)

lemma job_enter [simp]: "job (enter E w) = job w"
  by (simp add: enter_def split: prod.splits)

lemma keeps_lease_enter: "keeps_lease E w (enter E w)"
  using enter_considerate(1) by (auto simp: keeps_lease_def)

lemma keeps_lease_touch: "stays (keeps_lease E) (w_touch E j token)"
  unfolding stays_def
proof
  fix w
  obtain c r where c: "redis_touch_job (io_at E (calls w)) j (clock E (calls w)) (Some token)
      (counter (enter E w)) = (c, r)"
    by (cases "redis_touch_job (io_at E (calls w)) j (clock E (calls w)) (Some token) (counter (enter E w))")
  then have "fst (w_touch E j token w) = (enter E w)\<lparr>counter := c\<rparr>"
    by (simp add: w_touch_def on_counter_def Let_def)
  with redis_touch_owner(1) [OF c] keeps_lease_enter [of E w]
  show "keeps_lease E w (fst (w_touch E j token w))"
    by (simp add: keeps_lease_def has_lease_def)
qed

lemma keeps_lease_store: "stays (keeps_lease E) (on_store E f)"
  using keeps_lease_enter
  by (auto simp: stays_def on_store_def Let_def keeps_lease_def has_lease_def split: prod.splits)

lemma keeps_lease_push: "stays (keeps_lease E) (w_push E m)"
  using keeps_lease_enter
  by (auto simp: stays_def w_push_def Let_def keeps_lease_def has_lease_def split: prod.splits)

interpretation lease: job_frame E "keeps_lease E" for E
proof unfold_locales
  show "reflp (keeps_lease E)" by (intro reflpI) (simp add: keeps_lease_def)
  show "transp (keeps_lease E)" by (intro transpI) (rule keeps_lease_trans)
  show "stays (keeps_lease E) (w_touch E j token)" for j token by (rule keeps_lease_touch)
  show "stays (keeps_lease E) (w_put_owned E token)" for token
    using keeps_lease_store by (auto simp: stays_def w_put_owned_def)
  show "k \<noteq> ''job_id'' \<Longrightarrow> keeps_lease E w (set_job k v w)" for k v w
    by (simp add: keeps_lease_def set_job_def has_lease_def)
qed

lemma unlocked_keeps_lease: "stays (keeps_lease E) (publish_unlocked E title entries)"
  unfolding stays_def
proof
  fix w
  obtain w' r where u: "publish_unlocked E title entries w = (w', r)"
    by (cases "publish_unlocked E title entries w")
  then have "keeps_lease E w w'"
  proof (cases rule: publish_unlocked_steps)
    case untouched
    then show ?thesis by (simp add: keeps_lease_def)
  next
    case (filtered a)
    then show ?thesis using staysD [OF lease.filter_check] by blast
  next
    case (fenced w1 e)
    have "keeps_lease E w w1" using staysD [OF lease.filter_check fenced(1)] .
    moreover have "keeps_lease E w1 w'"
      using staysD [OF lease.lease] fenced(2) unfolding assert_publication_lease_def by blast
    ultimately show ?thesis by (rule keeps_lease_trans)
  next
    case (pushed w1 w2 a)
    have "keeps_lease E w w1" using staysD [OF lease.filter_check pushed(1)] .
    moreover have "keeps_lease E w1 w2"
      using staysD [OF lease.lease] pushed(2) unfolding assert_publication_lease_def by blast
    moreover have "keeps_lease E w2 w'" using staysD [OF keeps_lease_push pushed(3)] .
    ultimately show ?thesis by (blast intro: keeps_lease_trans)
  qed
  with u show "keeps_lease E w (fst (publish_unlocked E title entries w))" by simp
qed

interpretation lease: task_frame E "keeps_lease E" for E
  by unfold_locales (simp_all add: unlocked_keeps_lease keeps_lease_def w_record_error_def has_lease_def)

definition terminal_stored :: "'e tenv \<Rightarrow> jworld \<Rightarrow> bool" where
  "terminal_stored E w \<longleftrightarrow>
    (case record_at (job_id E) (tstore w) of None \<Rightarrow> False | Some v \<Rightarrow> is_terminal_record v)"

lemma step_stores_terminal:
  assumes "step_to E status stage w = (w', Inr u)" and "status \<in> {''done'', ''error''}"
    and "dget ''job_id'' (job w) = JStr (job_id E)"
  shows "terminal_stored E w'"
  using assms(1) unfolding step_to_def
proof (cases rule: update_cases)
  case (stored w1 m)
  let ?w2 = "stamped E status stage m w1"
  have j: "dget ''job_id'' (job ?w2) = JStr (job_id E)"
    using lease.passed [OF stored(1)] assms(3) by (simp add: keeps_lease_def stamped_def set_job_def)
  have s: "dget ''status'' (job ?w2) = JStr status" by (simp add: stamped_def set_job_def)
  obtain h where h: "ts_put_owned (io_at E (calls ?w2)) (job ?w2) (owner_token E) (tstore (enter E ?w2)) =
      (h, Inr True)" and w': "tstore w' = h"
    using stored(3) by (auto simp: store_owned_def sbind_def sreturn_def w_put_owned_def on_store_def
        Let_def split: prod.splits sum.splits if_splits)
  from ts_put_owned_effect(2) [OF h refl] j
  have "record_at (job_id E) h = Some (JDict (job ?w2))" by (auto simp: record_at_def)
  moreover have "map_of (job ?w2) ''status'' = Some (JStr status)"
    using s by (auto simp: dget_def split: option.splits)
  then have "is_terminal_record (JDict (job ?w2))"
    using assms(2) by (auto simp: is_terminal_record_def lua_field_is_def)
  ultimately show ?thesis using w' by (auto simp: terminal_stored_def)
qed simp_all

lemma finish_result_terminal:
  assumes "finish_result E result w = (w', Inr b)" and "dget ''job_id'' (job w) = JStr (job_id E)"
  shows "terminal_stored E w'"
proof -
  obtain w2 status stage u where s: "step_to E status stage w2 = (w', Inr u)" "status \<in> {''done'', ''error''}"
    "dget ''job_id'' (job w2) = dget ''job_id'' (job w)"
  proof (cases "is_error_result result")
    case True
    with assms(1) that show ?thesis
      by (auto simp: finish_result_def Let_def set_job_def w_record_error_def elim!: sbind_cases
          simp: sreturn_def)
  next
    case False
    with assms(1) that show ?thesis
      by (auto simp: finish_result_def Let_def set_job_def elim!: sbind_cases simp: sreturn_def)
  qed
  with assms(2) show ?thesis using step_stores_terminal by metis
qed


lemma task_try_terminal:
  assumes "task_try E eng w = (w', Inr b)" and "dget ''job_id'' (job w) = JStr (job_id E)"
  shows "terminal_stored E w'"
proof -
  obtain w1 w2 w3 w4 u result where
    s: "step_to E ''running'' ''loading_source'' w = (w1, Inr u)"
      "sreturn (case page_fetch E of None \<Rightarrow> Inr () | Some e \<Rightarrow> Inl e) w1 = (w2, Inr ())"
      "step_to E ''running'' ''translating'' w2 = (w3, Inr u)"
      "run_engine E eng w3 = (w4, Inr result)" "finish_result E result w4 = (w', Inr b)"
    using assms(1) unfolding task_try_def by (auto elim!: sbind_cases)
  have "w2 = w1" using s(2) by (simp add: sreturn_def)
  moreover have "keeps_lease E w w1" using staysD [OF lease.step s(1)] .
  moreover have "keeps_lease E w2 w3" using staysD [OF lease.step s(3)] .
  moreover have "keeps_lease E w3 w4" using lease.engine [of E w3 eng] s(4) by simp
  ultimately have "dget ''job_id'' (job w4) = JStr (job_id E)" using assms(2) by (simp add: keeps_lease_def)
  with s(5) show ?thesis by (rule finish_result_terminal)
qed

lemma task_failure_terminal:
  assumes "task_failure E e w = (w', True)" and "dget ''job_id'' (job w) = JStr (job_id E)"
  shows "terminal_stored E w'"
proof -
  let ?w1 = "null_result (exn_text E e) (w_record_error E (exception_error E ''Translation job failed during processing.'' e
                (Some (job_id E)) (job_title E) (job_language E)) w)"
  obtain u where s: "step_to E ''error'' ''failed'' ?w1 = (w', Inr u)"
    using assms(1) by (auto simp: task_failure_def Let_def split: prod.splits sum.splits)
  have "dget ''job_id'' (job ?w1) = JStr (job_id E)"
    using assms(2) by (simp add: null_result_def set_job_def w_record_error_def)
  with s show ?thesis by (intro step_stores_terminal [OF s]) simp_all
qed

lemma finally_terminal:
  assumes "task_finally E was_failed terminal w = (w', r)" and "considerate E"
    and "terminal \<Longrightarrow> terminal_stored E w" and "has_lease E w"
  shows "has_lease E w' \<or> terminal_stored E w'"
proof -
  let ?w1 = "w\<lparr>average := record_job_duration (job_duration E) (average w)\<rparr>"
  let ?w2 = "release_if E terminal ?w1"
  have c: "counter w' = counter ?w2" "tstore w' = tstore ?w2"
    using cleanup_shared(1,2) [OF assms(1) [unfolded task_finally_def]] by simp_all
  show ?thesis
  proof (cases terminal)
    case False
    with c assms(4) show ?thesis by (simp add: release_if_def has_lease_def)
  next
    case True
    have "tstore ?w2 = tstore (enter E ?w1)"
      using True by (simp add: release_if_def w_finish_def on_counter_def Let_def split: prod.splits)
    with enter_considerate(2) [OF assms(2), of ?w1] assms(3) True c show ?thesis
      by (simp add: terminal_stored_def)
  qed
qed

text \<open>
  C12: A task that holds its lease gives it up only after it has stored a terminal
  state: when it ends, either the durable record is \<open>done\<close> or \<open>error\<close>, or the lease is
  still there for stale recovery to find, whichever calls fail (as long as nobody else
  touches this job).
\<close>

theorem lease_outlives_the_job:
  assumes "task E eng w = (w', r)" and "considerate E" and "has_lease E w"
    and "dget ''job_id'' (job w) = JStr (job_id E)"
  shows "has_lease E w' \<or> terminal_stored E w'"
proof -
  let ?w1 = "w\<lparr>task_started := True, exec := mark_job_running (exec w)\<rparr>"
  obtain w2 a where t: "task_try E eng ?w1 = (w2, a)" by (cases "task_try E eng ?w1")
  have k: "keeps_lease E ?w1 w2" using staysD [OF lease.task_try t] .
  then have l2: "has_lease E w2" using assms(2,3) by (simp add: keeps_lease_def has_lease_def)
  have j2: "dget ''job_id'' (job w2) = JStr (job_id E)" using k assms(4) by (simp add: keeps_lease_def)
  show ?thesis
  proof (cases a)
    case (Inr was_failed)
    with assms(1) t have "task_finally E was_failed True w2 = (w', r)" by (simp add: task_def Let_def)
    moreover have "terminal_stored E w2" using task_try_terminal [of E eng ?w1 w2] t Inr assms(4) by simp
    ultimately show ?thesis using finally_terminal [OF _ assms(2) _ l2] by blast
  next
    case (Inl e)
    obtain w3 terminal where f: "task_failure E e w2 = (w3, terminal)" by (cases "task_failure E e w2")
    with assms(1) t Inl have "task_finally E True terminal w3 = (w', r)" by (simp add: task_def Let_def)
    moreover have "terminal \<Longrightarrow> terminal_stored E w3" using task_failure_terminal [of E e w2 w3] f j2 by simp
    moreover have "has_lease E w3"
      using lease.task_failure [OF f] l2 assms(2) by (simp add: keeps_lease_def)
    ultimately show ?thesis using finally_terminal [OF _ assms(2)] by blast
  qed
qed

theorem lease_outlives_the_job_witness:
  "has_lease demo_env finished_world \<or> terminal_stored demo_env finished_world"
proof -
  obtain r where t: "task demo_env demo_engine submitted_world = (finished_world, r)"
    using task_obtain by blast
  have c: "considerate demo_env" by (simp add: considerate_def demo_env_def)
  have l: "has_lease demo_env submitted_world" using submitted_facts unfolding has_lease_def by blast
  have j: "dget ''job_id'' (job submitted_world) = JStr (job_id demo_env)"
    using submitted_facts by blast
  show ?thesis by (rule lease_outlives_the_job [OF t c l j])
qed

text \<open>
  No public record of a job holds its owner token, and a request that repeats the
  identifier, language and title of a finished job returns that job and changes
  neither the counter, the records, the slots nor the broker.
\<close>

theorem repeated_request_is_idempotent:
  assumes "ts_get True (job_id E) (tstore w) = Inr (Some d)"
    and "dget ''status'' d = JStr ''done'' \<or> dget ''status'' d = JStr ''error''"
    and "dget ''language'' d = JStr (job_language E)" and "dget ''title'' d = JStr (job_title E)"
    and "meddle E (calls w) = id" and "io_at E (calls w) = Acked"
  shows "enqueue_translation_job E tt True True heartbeat submit w =
      (w\<lparr>calls := calls w + 1\<rparr>, Inr (Existing (public_translation_job d))) \<and>
    \<not> dhas ''_owner_token'' (public_translation_job d)"
proof -
  have e: "enter E w = w\<lparr>calls := calls w + 1\<rparr>" using assms(5) by (simp add: enter_def)
  then have g: "w_get E (job_id E) w = (w\<lparr>calls := calls w + 1\<rparr>, Inr (Some d))"
    using assms(1,6) by (simp add: w_get_def on_store_def Let_def)
  have "recover_unleased_translation_job E tt d (w\<lparr>calls := calls w + 1\<rparr>) =
      (w\<lparr>calls := calls w + 1\<rparr>, Inr d)"
    using assms(2) by (auto simp: recover_unleased_translation_job_def)
  with g assms(3,4) show ?thesis
    by (simp add: enqueue_translation_job_def get_existing_translation_request_def
        public_translation_job_def)
qed


definition done_record :: dict where
  "done_record = [(''job_id'', JStr ''a''), (''language'', JStr ''en''), (''title'', JStr ''t''),
     (''status'', JStr ''done''), (''_owner_token'', JStr ''own'')]"

theorem repeated_request_is_idempotent_witness:
  "snd (enqueue_translation_job demo_env ''300'' True True None None
      (demo_world\<lparr>tstore := [(''a'', Text (JDict done_record))]\<rparr>)) =
    Inr (Existing (public_translation_job done_record))"
proof -
  let ?w = "demo_world\<lparr>tstore := [(''a'', Text (JDict done_record))]\<rparr>"
  have "ts_get True (job_id demo_env) (tstore ?w) = Inr (Some done_record)"
    by (simp add: ts_get_def demo_env_def done_record_def dset_def)
  from repeated_request_is_idempotent [OF this, of "''300''" None None] show ?thesis
    by (simp add: done_record_def demo_env_def dget_def)
qed






end
