(* ===== verification/RateLimiter.thy ===== *)
theory RateLimiter
  imports RedisIO
begin

text \<open>
  \<open>api/wikimedia_rate_limiter.py\<close>: request starts reserved through two Redis keys
  shared by all processes.  Times are microseconds of the Redis clock.  A key holds a
  value and the time it expires; an expired key reads as absent.
\<close>

subsection \<open>The scripts\<close>

record limiter_store =
  schedule :: "(int \<times> int) option"
  embargo :: "(int \<times> int) option"

definition read_key :: "int \<Rightarrow> (int \<times> int) option \<Rightarrow> int" where
  "read_key now k = (case k of None \<Rightarrow> now | Some (v, expires) \<Rightarrow> if expires \<le> now then now else v)"

text \<open>\<open>math.ceil(us / 1000)\<close>.\<close>

definition ceil_ms :: "int \<Rightarrow> int" where
  "ceil_ms us = - ((- us) div 1000)"

definition reserve_script ::
  "int \<Rightarrow> int \<Rightarrow> int \<Rightarrow> limiter_store \<Rightarrow> limiter_store \<times> bool \<times> int" where
  "reserve_script interval max_wait now st =
    (let start = max now (max (read_key now (schedule st)) (read_key now (embargo st)));
         wait = start - now
     in if wait > max_wait then (st, False, wait)
        else
          let following = start + interval;
              ttl_ms = max 1000 (ceil_ms (following - now) + 1000)
          in (st\<lparr>schedule := Some (following, now + ttl_ms * 1000)\<rparr>, True, wait))"

definition extend_embargo_script :: "int \<Rightarrow> int \<Rightarrow> limiter_store \<Rightarrow> limiter_store \<times> int" where
  "extend_embargo_script retry_after now st =
    (let candidate = now + retry_after;
         current = read_key now (embargo st)
     in if candidate > current then
          (let ttl_ms = max 1 (ceil_ms retry_after + 1000)
           in (st\<lparr>embargo := Some (candidate, now + ttl_ms * 1000)\<rparr>, max 0 (candidate - now)))
        else (st, max 0 (current - now)))"

lemma ceil_ms_ge: "us \<le> ceil_ms us * 1000"
  unfolding ceil_ms_def using div_mult_mod_eq [of "- us" 1000] pos_mod_sign [of 1000 "- us"] by linarith

lemma ttl_covers: "us \<le> max k (ceil_ms us + 1000) * 1000"
proof -
  have "ceil_ms us * 1000 \<le> max k (ceil_ms us + 1000) * 1000" by (intro mult_right_mono) auto
  with ceil_ms_ge [of us] show ?thesis by linarith
qed

subsection \<open>The client\<close>

record limiter =
  interval_us :: int
  max_wait_seconds :: rat
  max_wait_us :: int

definition init_limiter :: "pyfloat \<Rightarrow> pyfloat \<Rightarrow> string \<Rightarrow> limiter res" where
  "init_limiter requests_per_minute max_wait key_prefix =
    (case (requests_per_minute, max_wait) of
       (Finite rpm, Finite w) \<Rightarrow>
         if rpm \<le> 0 then Inl ValueError
         else if w < 0 then Inl ValueError
         else if key_prefix = [] then Inl ValueError
         else Inr \<lparr>interval_us = ceiling (60000000 / rpm), max_wait_seconds = w,
                   max_wait_us = floor (w * 1000000)\<rparr>
     | _ \<Rightarrow> Inl ValueError)"

text \<open>A refusal carries its status and the wait it reports.\<close>

datatype rate_error = Unavailable | BudgetExceeded rat

definition acquire :: "limiter \<Rightarrow> io \<Rightarrow> int \<Rightarrow> limiter_store \<Rightarrow> limiter_store \<times> (rate_error + rat)" where
  "acquire l i now st =
    (case i of
       Refused \<Rightarrow> (st, Inl Unavailable)
     | Unacked \<Rightarrow> (fst (reserve_script (interval_us l) (max_wait_us l) now st), Inl Unavailable)
     | Acked \<Rightarrow>
       (case reserve_script (interval_us l) (max_wait_us l) now st of
          (st', accepted, wait) \<Rightarrow>
            let wait_seconds = of_int (max 0 wait) / 1000000 in
            if \<not> accepted \<or> max_wait_seconds l < wait_seconds
            then (st', Inl (BudgetExceeded wait_seconds))
            else (st', Inr wait_seconds)))"

definition extend_embargo ::
  "pyfloat \<Rightarrow> io \<Rightarrow> int \<Rightarrow> limiter_store \<Rightarrow> limiter_store \<times> (rate_error + rat) res" where
  "extend_embargo retry_after i now st =
    (case retry_after of
       Finite s \<Rightarrow>
         if s < 0 then (st, Inl ValueError)
         else
           let us = ceiling (s * 1000000) in
           (case i of
              Refused \<Rightarrow> (st, Inr (Inl Unavailable))
            | Unacked \<Rightarrow> (fst (extend_embargo_script us now st), Inr (Inl Unavailable))
            | Acked \<Rightarrow>
              (case extend_embargo_script us now st of
                 (st', remaining) \<Rightarrow> (st', Inr (Inr (of_int (max 0 remaining) / 1000000)))))
     | _ \<Rightarrow> (st, Inl ValueError))"

subsection \<open>What the keys promise\<close>

text \<open>
  From the time \<open>now\<close> on, no reservation can start before \<open>t\<close>: the key holds a time not
  before \<open>t\<close>, or it expires only after \<open>t\<close>.
\<close>

definition blocks :: "int \<Rightarrow> int \<Rightarrow> (int \<times> int) option \<Rightarrow> bool" where
  "blocks now t k \<longleftrightarrow> t \<le> now \<or> (case k of None \<Rightarrow> False | Some (v, expires) \<Rightarrow> t \<le> v \<and> t \<le> expires)"

text \<open>A key never expires before the time it holds.\<close>

definition key_ok :: "(int \<times> int) option \<Rightarrow> bool" where
  "key_ok k \<longleftrightarrow> (case k of None \<Rightarrow> True | Some (v, expires) \<Rightarrow> v \<le> expires)"

lemma reserve_key_ok:
  "reserve_script interval max_wait now st = (st', a, wait) \<Longrightarrow> key_ok (schedule st) \<Longrightarrow>
    key_ok (embargo st) \<Longrightarrow> key_ok (schedule st') \<and> key_ok (embargo st')"
  using ttl_covers [of "max now (max (read_key now (schedule st)) (read_key now (embargo st))) + interval - now" 1000]
  by (auto simp: reserve_script_def Let_def key_ok_def split: if_splits)

lemma extend_key_ok:
  "extend_embargo_script retry now st = (st', r) \<Longrightarrow> key_ok (schedule st) \<Longrightarrow>
    key_ok (embargo st) \<Longrightarrow> key_ok (schedule st') \<and> key_ok (embargo st')"
  using ttl_covers [of retry 1]
  by (auto simp: extend_embargo_script_def Let_def key_ok_def split: if_splits)

lemma blocks_read: "blocks now t k \<Longrightarrow> now \<le> later \<Longrightarrow> t \<le> max later (read_key later k)"
  by (auto simp: blocks_def read_key_def split: option.splits prod.splits)

lemma blocks_later: "blocks now t k \<Longrightarrow> now \<le> later \<Longrightarrow> blocks later t k"
  by (auto simp: blocks_def split: option.splits)

lemma reserve_accepted:
  assumes "reserve_script interval max_wait now st = (st', True, wait)" and "0 \<le> interval"
  shows "0 \<le> wait" and "wait \<le> max_wait" and "embargo st' = embargo st"
    and "blocks now (now + wait + interval) (schedule st')"
    and "read_key now (schedule st) \<le> now + wait" and "read_key now (embargo st) \<le> now + wait"
proof -
  let ?start = "max now (max (read_key now (schedule st)) (read_key now (embargo st)))"
  let ?ttl = "max 1000 (ceil_ms (?start + interval - now) + 1000)"
  from assms(1) have w: "wait = ?start - now" "wait \<le> max_wait"
    and st': "st' = st\<lparr>schedule := Some (?start + interval, now + ?ttl * 1000)\<rparr>"
    by (auto simp: reserve_script_def Let_def split: if_splits)
  have "?start + interval - now \<le> ?ttl * 1000"
    by (rule ttl_covers)
  then show "blocks now (now + wait + interval) (schedule st')" by (simp add: blocks_def st' w(1))
  show "0 \<le> wait" "wait \<le> max_wait" using w by auto
  show "embargo st' = embargo st" by (simp add: st')
  show "read_key now (schedule st) \<le> now + wait" "read_key now (embargo st) \<le> now + wait"
    using w(1) by auto
qed

lemma reserve_refused:
  "reserve_script interval max_wait now st = (st', False, wait) \<Longrightarrow> st' = st \<and> max_wait < wait"
  by (auto simp: reserve_script_def Let_def split: if_splits)

lemma reserve_blocks:
  assumes "reserve_script interval max_wait now st = (st', a, wait)" and "0 \<le> interval"
    and "blocks t0 t (schedule st)" and "t0 \<le> now"
  shows "blocks now t (schedule st')"
proof (cases a)
  case True
  have "reserve_script interval max_wait now st = (st', True, wait)" using assms(1) True by simp
  note r = reserve_accepted [OF this assms(2)]
  have "t \<le> now + wait"
    using blocks_read [OF assms(3,4)] r(1,5) by linarith
  then show ?thesis using r(4) assms(2) by (auto simp: blocks_def split: option.splits)
next
  case False
  with assms(1) have "reserve_script interval max_wait now st = (st', False, wait)" by simp
  from reserve_refused [OF this] have "st' = st" ..
  with blocks_later [OF assms(3,4)] show ?thesis by simp
qed

lemma extend_blocks:
  assumes "extend_embargo_script retry now st = (st', r)" and "key_ok (embargo st)"
  shows "schedule st' = schedule st" and "blocks now (now + retry) (embargo st')"
    and "blocks t0 t (embargo st) \<Longrightarrow> t0 \<le> now \<Longrightarrow> blocks now t (embargo st')"
    and "r = max 0 (max (now + retry) (read_key now (embargo st)) - now)"
proof -
  let ?ttl = "max 1 (ceil_ms retry + 1000)"
  have ttl: "retry \<le> ?ttl * 1000" by (rule ttl_covers)
  show "schedule st' = schedule st" "r = max 0 (max (now + retry) (read_key now (embargo st)) - now)"
    using assms by (auto simp: extend_embargo_script_def Let_def split: if_splits)
  show "blocks now (now + retry) (embargo st')"
    using assms ttl
    by (auto simp: extend_embargo_script_def Let_def blocks_def read_key_def key_ok_def
        split: if_splits option.splits)
  show "blocks now t (embargo st')" if b: "blocks t0 t (embargo st)" "t0 \<le> now"
  proof (cases "now + retry > read_key now (embargo st)")
    case True
    with assms have st': "embargo st' = Some (now + retry, now + ?ttl * 1000)"
      by (auto simp: extend_embargo_script_def Let_def)
    have "t \<le> max now (now + retry)" using blocks_read [OF b] True by linarith
    with ttl show ?thesis by (auto simp: blocks_def st')
  next
    case False
    with assms have "st' = st" by (auto simp: extend_embargo_script_def Let_def)
    with blocks_later [OF b] show ?thesis by simp
  qed
qed


subsection \<open>Runs of all processes\<close>

datatype rl_op = Reserve int | Extend int int

fun rl_time :: "rl_op \<Rightarrow> int" where
  "rl_time (Reserve now) = now"
| "rl_time (Extend now retry) = now"

text \<open>The start times of the accepted reservations, in order.\<close>

fun rl_run :: "int \<Rightarrow> int \<Rightarrow> rl_op list \<Rightarrow> limiter_store \<Rightarrow> int list" where
  "rl_run interval max_wait [] st = []"
| "rl_run interval max_wait (Reserve now # ops) st =
    (case reserve_script interval max_wait now st of
       (st', True, wait) \<Rightarrow> (now + wait) # rl_run interval max_wait ops st'
     | (st', False, wait) \<Rightarrow> rl_run interval max_wait ops st')"
| "rl_run interval max_wait (Extend now retry # ops) st =
    rl_run interval max_wait ops (fst (extend_embargo_script retry now st))"

definition limiter_ok :: "limiter_store \<Rightarrow> bool" where
  "limiter_ok st \<longleftrightarrow> key_ok (schedule st) \<and> key_ok (embargo st)"

lemma reserve_ok: "reserve_script interval max_wait now st = (st', a, wait) \<Longrightarrow> limiter_ok st \<Longrightarrow> limiter_ok st'"
  using reserve_key_ok by (simp add: limiter_ok_def)

lemma extend_ok: "limiter_ok st \<Longrightarrow> limiter_ok (fst (extend_embargo_script retry now st))"
  using extend_key_ok [of retry now st] by (cases "extend_embargo_script retry now st") (simp add: limiter_ok_def)

lemma run_after_schedule:
  assumes "0 \<le> interval" and "sorted (t0 # map rl_time ops)" and "limiter_ok st"
    and "blocks t0 t (schedule st)"
  shows "\<forall>s \<in> set (rl_run interval max_wait ops st). t \<le> s"
  using assms
proof (induction ops arbitrary: t0 st)
  case Nil
  then show ?case by simp
next
  case (Cons p ops)
  have b: "blocks (rl_time p) t (schedule st)" 
    by (rule blocks_later [OF Cons.prems(4)]) (use Cons.prems(2) in auto)
  have s: "sorted (rl_time p # map rl_time ops)" using Cons.prems(2) by simp
  show ?case
  proof (cases p)
    case (Reserve now)
    obtain st' a wait where r: "reserve_script interval max_wait now st = (st', a, wait)"
      by (cases "reserve_script interval max_wait now st") auto
    have "blocks now t (schedule st')" using reserve_blocks [OF r Cons.prems(1)] b Reserve by simp
    then have IH: "\<forall>s \<in> set (rl_run interval max_wait ops st'). t \<le> s"
      using Cons.IH [of now st'] s Cons.prems(1,3) reserve_ok [OF r] Reserve by simp
    show ?thesis
    proof (cases a)
      case True
      with r have r': "reserve_script interval max_wait now st = (st', True, wait)" by simp
      have "t \<le> now + wait"
      proof -
        have "t \<le> max now (read_key now (schedule st))" using blocks_read [OF b, of now] Reserve by simp
        with reserve_accepted(1,5) [OF r' Cons.prems(1)] show ?thesis by linarith
      qed
      with IH r' Reserve show ?thesis by simp
    next
      case False
      with r IH Reserve show ?thesis by simp
    qed
  next
    case (Extend now retry)
    obtain st' x where e: "extend_embargo_script retry now st = (st', x)"
      by (cases "extend_embargo_script retry now st")
    have "schedule st' = schedule st" using extend_blocks(1) [OF e] Cons.prems(3) by (simp add: limiter_ok_def)
    moreover have "limiter_ok st'" using extend_ok [OF Cons.prems(3)] e by (metis fst_conv)
    ultimately show ?thesis
      using Cons.IH [of now st'] s Cons.prems(1) b Extend e by simp
  qed
qed

lemma run_after_embargo:
  assumes "0 \<le> interval" and "sorted (t0 # map rl_time ops)" and "limiter_ok st"
    and "blocks t0 t (embargo st)"
  shows "\<forall>s \<in> set (rl_run interval max_wait ops st). t \<le> s"
  using assms
proof (induction ops arbitrary: t0 st)
  case Nil
  then show ?case by simp
next
  case (Cons p ops)
  have b: "blocks (rl_time p) t (embargo st)" 
    by (rule blocks_later [OF Cons.prems(4)]) (use Cons.prems(2) in auto)
  have s: "sorted (rl_time p # map rl_time ops)" using Cons.prems(2) by simp
  show ?case
  proof (cases p)
    case (Reserve now)
    obtain st' a wait where r: "reserve_script interval max_wait now st = (st', a, wait)"
      by (cases "reserve_script interval max_wait now st") auto
    have "embargo st' = embargo st"
      using r by (auto simp: reserve_script_def Let_def split: if_splits)
    then have IH: "\<forall>s \<in> set (rl_run interval max_wait ops st'). t \<le> s"
      using Cons.IH [of now st'] s b Cons.prems(1,3) reserve_ok [OF r] Reserve by simp
    show ?thesis
    proof (cases a)
      case True
      with r have r': "reserve_script interval max_wait now st = (st', True, wait)" by simp
      have "t \<le> now + wait"
      proof -
        have "t \<le> max now (read_key now (embargo st))" using blocks_read [OF b, of now] Reserve by simp
        with reserve_accepted(1,6) [OF r' Cons.prems(1)] show ?thesis by linarith
      qed
      with IH r' Reserve show ?thesis by simp
    next
      case False
      with r IH Reserve show ?thesis by simp
    qed
  next
    case (Extend now retry)
    obtain st' x where e: "extend_embargo_script retry now st = (st', x)"
      by (cases "extend_embargo_script retry now st")
    have "blocks now t (embargo st')"
      using extend_blocks(3) [OF e _ b] Cons.prems(3) Extend by (simp add: limiter_ok_def)
    moreover have "limiter_ok st'" using extend_ok [OF Cons.prems(3)] e by (metis fst_conv)
    ultimately show ?thesis
      using Cons.IH [of now st'] s Cons.prems(1) Extend e by simp
  qed
qed

lemma run_spaced:
  assumes "0 \<le> interval" and "sorted (map rl_time ops)" and "limiter_ok st"
  shows "sorted_wrt (\<lambda>s t. s + interval \<le> t) (rl_run interval max_wait ops st)"
  using assms
proof (induction ops arbitrary: st)
  case Nil
  then show ?case by simp
next
  case (Cons p ops)
  show ?case
  proof (cases p)
    case (Reserve now)
    obtain st' a wait where r: "reserve_script interval max_wait now st = (st', a, wait)"
      by (cases "reserve_script interval max_wait now st") auto
    have IH: "sorted_wrt (\<lambda>s t. s + interval \<le> t) (rl_run interval max_wait ops st')"
      using Cons reserve_ok [OF r] by simp
    show ?thesis
    proof (cases a)
      case True
      with r have r': "reserve_script interval max_wait now st = (st', True, wait)" by simp
      have "\<forall>s \<in> set (rl_run interval max_wait ops st'). now + wait + interval \<le> s"
        using run_after_schedule [OF Cons.prems(1) _ reserve_ok [OF r Cons.prems(3)]
          reserve_accepted(4) [OF r' Cons.prems(1)]] Cons.prems(2) Reserve by simp
      with IH r' Reserve show ?thesis by simp
    next
      case False
      with r IH Reserve show ?thesis by simp
    qed
  next
    case (Extend now retry)
    with Cons extend_ok [OF Cons.prems(3)] show ?thesis by simp
  qed
qed

lemma spaced_nth:
  assumes "sorted_wrt (\<lambda>s t. s + d \<le> t) xs" and "i \<le> j" and "j < length xs"
  shows "xs ! i + int (j - i) * d \<le> xs ! j"
  using assms(2,3)
proof (induction j rule: dec_induct)
  case base
  then show ?case by simp
next
  case (step j)
  have "xs ! j + d \<le> xs ! Suc j" using sorted_wrt_nth_less [OF assms(1), of j "Suc j"] step.prems by simp
  moreover have "xs ! i + int (j - i) * d \<le> xs ! j" using step by simp
  moreover have "int (Suc j - i) = int (j - i) + 1" using step.hyps by simp
  ultimately show ?case by (simp add: distrib_right)
qed


subsection \<open>Retry timing in failed responses\<close>

text \<open>
  An exception and the objects it refers to are nodes of a heap; the references may
  form cycles.  \<open>attrs\<close> holds the attributes read with \<open>getattr\<close>, \<open>hdrs\<close> the response
  headers, if the object has any.
\<close>

record exc_node =
  attrs :: dict
  hdrs :: "dict option"
  response :: "nat option"
  cause :: "nat option"
  ctxt :: "nat option"
  type_name :: string

function exception_sources :: "exc_node list \<Rightarrow> nat option list \<Rightarrow> nat list \<Rightarrow> exc_node list" where
  "exception_sources heap [] seen = []"
| "exception_sources heap (None # pending) seen = exception_sources heap pending seen"
| "exception_sources heap (Some n # pending) seen =
    (if n \<in> set seen \<or> length heap \<le> n then exception_sources heap pending seen
     else heap ! n # exception_sources heap
       (pending @ [response (heap ! n), cause (heap ! n), ctxt (heap ! n)]) (n # seen))"
  by pat_completeness auto
termination
proof (relation "measures [\<lambda>(heap, pending, seen). card ({..<length heap} - set seen),
    \<lambda>(heap, pending, seen). length pending]", goal_cases)
  case (4 heap n pending seen)
  then have "n \<in> {..<length heap} - set seen" by simp
  then have "card ({..<length heap} - set seen - {n}) < card ({..<length heap} - set seen)"
    by (intro psubset_card_mono) auto
  moreover have "{..<length heap} - set (n # seen) = {..<length heap} - set seen - {n}" by auto
  ultimately show ?case by simp
qed simp_all

text \<open>\<open>int(v)\<close>; a string is read in decimal notation without underscores.\<close>

fun int_of_json :: "json \<Rightarrow> int res" where
  "int_of_json (JStr s) = parse_int s"
| "int_of_json (JBool b) = Inr (if b then 1 else 0)"
| "int_of_json (JInt i) = Inr i"
| "int_of_json (JFloat f) = py_int f"
| "int_of_json v = Inl TypeError"

definition bad_value :: "exn \<Rightarrow> bool" where
  "bad_value e \<longleftrightarrow> e = TypeError \<or> e = ValueError"

fun first_status :: "json list \<Rightarrow> int option res" where
  "first_status [] = Inr None"
| "first_status (v # vs) =
    (if v = JNull then first_status vs
     else case int_of_json v of
       Inr n \<Rightarrow> Inr (Some n)
     | Inl e \<Rightarrow> if bad_value e then first_status vs else Inl e)"

definition status_from_exception :: "exc_node list \<Rightarrow> int option res" where
  "status_from_exception sources =
    first_status (concat (map (\<lambda>n. [dget ''status_code'' (attrs n), dget ''status'' (attrs n)]) sources))"

text \<open>
  \<open>http_date\<close> is the timestamp of \<open>parsedate_to_datetime\<close>, \<open>None\<close> when it raises.
\<close>

definition parse_retry_after :: "(string \<Rightarrow> rat option) \<Rightarrow> rat \<Rightarrow> json \<Rightarrow> rat option" where
  "parse_retry_after http_date now v =
    (if v = JNull \<or> is_bool v then None
     else case py_float v of
       Inr (Finite s) \<Rightarrow> Some (max 0 s)
     | Inr f \<Rightarrow> None
     | Inl e \<Rightarrow> (case http_date (py_str v) of None \<Rightarrow> None | Some t \<Rightarrow> Some (max 0 (t - now))))"

definition header_value :: "dict \<Rightarrow> json" where
  "header_value h =
    (if dget ''Retry-After'' h = JNull then dget ''retry-after'' h else dget ''Retry-After'' h)"

definition retry_candidates :: "exc_node \<Rightarrow> json list" where
  "retry_candidates n =
    [dget ''retry_after'' (attrs n)] @
    (case hdrs n of None \<Rightarrow> [] | Some h \<Rightarrow> [header_value h]) @
    (case dget ''other'' (attrs n) of
       JDict d \<Rightarrow> [dget ''retry-after'' d, dget ''retry_after'' d] | _ \<Rightarrow> [])"

fun first_some :: "('a \<Rightarrow> 'b option) \<Rightarrow> 'a list \<Rightarrow> 'b option" where
  "first_some f [] = None"
| "first_some f (x # xs) = (case f x of None \<Rightarrow> first_some f xs | Some y \<Rightarrow> Some y)"

definition retry_after_from_exception ::
  "(string \<Rightarrow> rat option) \<Rightarrow> rat \<Rightarrow> exc_node list \<Rightarrow> rat option" where
  "retry_after_from_exception http_date now sources =
    first_some (parse_retry_after http_date now) (concat (map retry_candidates sources))"

definition node_lag :: "exc_node \<Rightarrow> rat option" where
  "node_lag n =
    (case dget ''other'' (attrs n) of
       JDict d \<Rightarrow>
         (case bnd (dindex ''lag'' d) py_float of
            Inr (Finite lag) \<Rightarrow> if 0 \<le> lag then Some lag else None
          | _ \<Rightarrow> None)
     | _ \<Rightarrow> None)"

definition maxlag_seconds :: "exc_node list \<Rightarrow> rat option" where
  "maxlag_seconds sources = first_some node_lag sources"

text \<open>
  \<open>observe_exception\<close>: the embargo it asks for, in seconds.  The attribute \<open>code\<close> of the
  error may be absent, which reads as the empty string.
\<close>

definition observe_exception ::
  "(string \<Rightarrow> rat option) \<Rightarrow> rat \<Rightarrow> exc_node list \<Rightarrow> nat \<Rightarrow> rat option res" where
  "observe_exception http_date now heap err =
    (let sources = exception_sources heap [Some err] [] in
     bnd (status_from_exception sources) (\<lambda>status.
       if status = Some 403 then Inr None
       else
         let code = lower (py_str (dget_or ''code'' (JStr []) (attrs (heap ! err))));
             is_maxlag = (code = ''maxlag'' \<or> contains (lower (type_name (heap ! err))) ''maxlag'');
             is_rate_limited = (code = ''ratelimited'')
         in if status \<notin> {Some 429, Some 503} \<and> \<not> (is_maxlag \<or> is_rate_limited) then Inr None
            else
              let retry = retry_after_from_exception http_date now sources in
              Inr (if retry = None \<and> is_maxlag then maxlag_seconds sources else retry)))"

lemma first_some_in: "first_some f xs = Some y \<Longrightarrow> \<exists>x \<in> set xs. f x = Some y"
  by (induction xs) (auto split: option.splits)

lemma parse_retry_nonneg: "parse_retry_after http_date now v = Some s \<Longrightarrow> 0 \<le> s"
  by (auto simp: parse_retry_after_def split: if_splits sum.splits pyfloat.splits option.splits)

lemma node_lag_nonneg: "node_lag n = Some s \<Longrightarrow> 0 \<le> s"
  by (auto simp: node_lag_def split: json.splits sum.splits pyfloat.splits if_splits)


subsection \<open>Properties\<close>

text \<open>
  C14: Over any run of reservations and embargo extensions of all processes (with a
  Redis clock that does not go back), any two accepted reservations are at least as
  far apart as the configured rate demands, key expiry included: the \<open>j - i\<close> requests
  from the \<open>i\<close>-th to the \<open>j\<close>-th take at least \<open>j - i\<close> minutes divided by the requests per
  minute.
\<close>

theorem reservations_respect_the_rate:
  assumes "init_limiter (Finite rpm) w key_prefix = Inr l"
    and "limiter_ok st" and "sorted (map rl_time ops)"
    and "starts = rl_run (interval_us l) (max_wait_us l) ops st"
    and "i \<le> j" and "j < length starts"
  shows "of_nat (j - i) * 60000000 \<le> rpm * of_int (starts ! j - starts ! i)"
proof -
  have rpm: "0 < rpm" and l: "interval_us l = ceiling (60000000 / rpm)"
    using assms(1) by (auto simp: init_limiter_def split: pyfloat.splits if_splits)
  have "0 < 60000000 / rpm" using rpm by simp
  then have pos: "0 \<le> interval_us l" unfolding l by linarith
  have "60000000 / rpm \<le> of_int (interval_us l)" by (simp add: l)
  then have iv: "60000000 \<le> rpm * of_int (interval_us l)" using rpm by (simp add: field_simps)
  have "starts ! i + int (j - i) * interval_us l \<le> starts ! j"
    using spaced_nth [OF run_spaced [OF pos assms(3,2)] assms(5)] assms(4,6) by simp
  then have gap: "int (j - i) * interval_us l \<le> starts ! j - starts ! i" by simp
  have "of_nat (j - i) * 60000000 \<le> of_nat (j - i) * (rpm * of_int (interval_us l))"
    using iv by (intro mult_left_mono) simp_all
  also have "\<dots> = rpm * of_int (int (j - i) * interval_us l)" by simp
  also have "\<dots> \<le> rpm * of_int (starts ! j - starts ! i)"
    using gap rpm by (intro mult_left_mono) (simp_all only: of_int_le_iff less_imp_le)
  finally show ?thesis .
qed

definition idle_limiter :: limiter_store where
  "idle_limiter = \<lparr>schedule = None, embargo = None\<rparr>"

lemma idle_limiter_ok: "limiter_ok idle_limiter"
  by (simp add: limiter_ok_def idle_limiter_def key_ok_def)

theorem reservations_respect_the_rate_witness:
  "\<exists>starts. starts = rl_run 1000000 30000000 [Reserve 0, Extend 5 4000000, Reserve 10, Reserve 20] idle_limiter \<and>
     length starts = 3 \<and> of_nat (2 - 0) * 60000000 \<le> (60::rat) * of_int (starts ! 2 - starts ! 0)"
proof -
  let ?l = "\<lparr>interval_us = 1000000, max_wait_seconds = 30, max_wait_us = 30000000\<rparr>"
  let ?ops = "[Reserve 0, Extend 5 4000000, Reserve 10, Reserve 20]"
  have l: "init_limiter (Finite 60) (Finite 30) ''k'' = Inr ?l" by (simp add: init_limiter_def)
  have n: "length (rl_run (interval_us ?l) (max_wait_us ?l) ?ops idle_limiter) = 3"
    by (simp add: reserve_script_def extend_embargo_script_def idle_limiter_def read_key_def Let_def ceil_ms_def)
  have s: "sorted (map rl_time ?ops)" by simp
  have j: "2 < length (rl_run (interval_us ?l) (max_wait_us ?l) ?ops idle_limiter)" using n by simp
  from reservations_respect_the_rate [OF l idle_limiter_ok s refl _ j, of 0]
  show ?thesis using n by (intro exI [of _ "rl_run 1000000 30000000 ?ops idle_limiter"]) simp
qed

text \<open>
  Extending the embargo never shortens it and never lets a request start early:
  the remaining embargo it reports covers what was asked, and no later reservation of
  any process starts before the end of the embargo that was asked for, whatever
  shorter extensions and reservations follow.
\<close>

theorem embargo_is_respected:
  assumes "extend_embargo_script retry now st = (st1, remaining)"
    and "limiter_ok st" and "0 \<le> interval" and "sorted (now # map rl_time ops)"
  shows "retry \<le> remaining \<and> read_key now (embargo st) - now \<le> remaining \<and>
    list_all (\<lambda>s. now + retry \<le> s \<and> read_key now (embargo st) \<le> s) (rl_run interval max_wait ops st1)"
proof -
  have k: "key_ok (embargo st)" using assms(2) by (simp add: limiter_ok_def)
  note e = extend_blocks [OF assms(1) k]
  have ok: "limiter_ok st1" using extend_ok [OF assms(2), of retry now] assms(1) by simp
  have b: "blocks now (read_key now (embargo st)) (embargo st)"
    using k by (auto simp: blocks_def read_key_def key_ok_def split: option.splits)
  have "\<forall>s \<in> set (rl_run interval max_wait ops st1). now + retry \<le> s"
    by (rule run_after_embargo [OF assms(3,4) ok e(2)])
  moreover have "\<forall>s \<in> set (rl_run interval max_wait ops st1). read_key now (embargo st) \<le> s"
    by (rule run_after_embargo [OF assms(3,4) ok e(3) [OF b]]) simp
  ultimately show ?thesis using e(4) by (auto simp: list_all_iff)
qed

theorem embargo_is_respected_witness:
  "list_all (\<lambda>s. 5 + 4000000 \<le> s) (rl_run 1000000 30000000 [Extend 6 10, Reserve 10, Reserve 20]
     (fst (extend_embargo_script 4000000 5 idle_limiter)))"
proof -
  obtain st1 r where e: "extend_embargo_script 4000000 5 idle_limiter = (st1, r)"
    by (cases "extend_embargo_script 4000000 5 idle_limiter")
  have s: "sorted (5 # map rl_time [Extend 6 10, Reserve 10, Reserve 20])" by simp
  have i: "(0::int) \<le> 1000000" by simp
  from embargo_is_respected [OF e idle_limiter_ok i s, of 30000000] show ?thesis
    by (auto simp: list_all_iff e)
qed

text \<open>
  A granted reservation waits at most the configured budget, and a failed response
  never makes the limiter raise a value error: the embargo it asks for is a
  non-negative number of seconds, and a response with status 403 asks for none.
\<close>

theorem waits_and_embargoes_are_sound:
  assumes "init_limiter rpm w key_prefix = Inr l"
  shows "(case snd (acquire l i now st) of Inr secs \<Rightarrow> 0 \<le> secs \<and> secs \<le> max_wait_seconds l | Inl e \<Rightarrow> True) \<and>
    (case observe_exception http_date clock heap err of
       Inr (Some secs) \<Rightarrow> is_ok (snd (extend_embargo (Finite secs) i now st)) \<and>
         status_from_exception (exception_sources heap [Some err] []) \<noteq> Inr (Some 403)
     | _ \<Rightarrow> True)"
proof
  show "case snd (acquire l i now st) of Inr secs \<Rightarrow> 0 \<le> secs \<and> secs \<le> max_wait_seconds l | Inl e \<Rightarrow> True"
    by (auto simp: acquire_def Let_def split: io.splits prod.splits sum.splits)
  show "case observe_exception http_date clock heap err of
       Inr (Some secs) \<Rightarrow> is_ok (snd (extend_embargo (Finite secs) i now st)) \<and>
         status_from_exception (exception_sources heap [Some err] []) \<noteq> Inr (Some 403)
     | _ \<Rightarrow> True"
  proof (cases "observe_exception http_date clock heap err")
    case (Inr r)
    show ?thesis
    proof (cases r)
      case (Some secs)
      let ?src = "exception_sources heap [Some err] []"
      obtain status where st: "status_from_exception ?src = Inr status" "status \<noteq> Some 403"
        using Inr Some by (auto simp: observe_exception_def Let_def bnd_Inr_iff split: if_splits)
      have "retry_after_from_exception http_date clock ?src = Some secs \<or> maxlag_seconds ?src = Some secs"
        using Inr Some st by (auto simp: observe_exception_def Let_def split: if_splits)
      then have "0 \<le> secs"
        unfolding retry_after_from_exception_def maxlag_seconds_def
        using parse_retry_nonneg node_lag_nonneg first_some_in by metis
      then have "is_ok (snd (extend_embargo (Finite secs) i now st'))" for st'
        by (auto simp: extend_embargo_def Let_def split: io.splits prod.splits)
      with Inr Some st show ?thesis by simp
    qed (simp add: Inr)
  qed simp
qed

theorem waits_and_embargoes_are_sound_witness:
  "case observe_exception (\<lambda>s. None) 0
      [\<lparr>attrs = [(''status'', JInt 429), (''retry_after'', JStr ''2.5'')], hdrs = None, response = None,
         cause = Some 0, ctxt = None, type_name = ''APIError''\<rparr>] 0 of
     Inr (Some secs) \<Rightarrow> is_ok (snd (extend_embargo (Finite secs) Acked 0 idle_limiter)) | _ \<Rightarrow> False"
proof -
  let ?heap = "[\<lparr>attrs = [(''status'', JInt 429), (''retry_after'', JStr ''2.5'')], hdrs = None, response = None,
         cause = Some 0, ctxt = None, type_name = ''APIError''\<rparr>]"
  have l: "init_limiter (Finite 60) (Finite 30) ''k'' =
      Inr \<lparr>interval_us = 1000000, max_wait_seconds = 30, max_wait_us = 30000000\<rparr>"
    by (simp add: init_limiter_def)
  have o: "observe_exception (\<lambda>s. None) 0 ?heap 0 = Inr (Some (5 / 2))"
    by code_simp
  from waits_and_embargoes_are_sound [OF l, where i = Acked and now = 0 and st = idle_limiter
      and http_date = "\<lambda>s. None" and clock = 0 and heap = ?heap and err = 0]
  show ?thesis by (simp add: o)
qed

end
