(* ===== verification/PageCheckerSettings.thy ===== *)
theory PageCheckerSettings
  imports RedisIO PyRegex
begin

text \<open>
  \<open>api/services/page_checker_settings.py\<close>: validation, canonical form and storage of the
  page-checker settings.  Payloads are JSON values; the numeric fields keep the JSON
  value they were given (an int or a float).  \<open>str.upper\<close> is modelled below code point
  256, except for the micro sign and the y with diaeresis, whose upper-case letters lie
  outside.
\<close>

subsection \<open>User names and summaries\<close>

definition upper_char :: "char \<Rightarrow> string" where
  "upper_char c = (let n = code c in
     if (97 \<le> n \<and> n \<le> 122) \<or> (224 \<le> n \<and> n \<le> 254 \<and> n \<noteq> 247) then [char_of (n - 32)]
     else if n = 223 then ''SS'' else [c])"

definition normalize_username :: "string \<Rightarrow> string" where
  "normalize_username username =
    (let normalized = join '' '' (split_ws (map (\<lambda>c. if c = CHR ''_'' then CHR '' '' else c) username)) in
     concat (map upper_char (take 1 normalized)) @ drop 1 normalized)"

definition invalid :: "string \<Rightarrow> 'a res" where
  "invalid message = Inl (PageCheckerSettingsValidationError message)"

fun canonical_users_from :: "json list \<Rightarrow> string list \<Rightarrow> string list res" where
  "canonical_users_from [] seen = Inr []"
| "canonical_users_from (JStr user # users) seen =
    (let display_name = strip user; normalized_name = normalize_username display_name in
     if display_name = [] \<or> normalized_name = []
     then invalid ''watched_users must not contain blank usernames''
     else if normalized_name \<in> set seen then canonical_users_from users seen
     else bnd (canonical_users_from users (normalized_name # seen)) (\<lambda>us. Inr (display_name # us)))"
| "canonical_users_from (v # users) seen = invalid ''watched_users must contain only strings''"

fun canonical_users :: "json \<Rightarrow> string list res" where
  "canonical_users (JList users) = canonical_users_from users []"
| "canonical_users v = invalid ''watched_users must be a list of usernames''"

fun canonical_summaries_from :: "json list \<Rightarrow> string list \<Rightarrow> string list res" where
  "canonical_summaries_from [] seen = Inr []"
| "canonical_summaries_from (JStr summary # summaries) seen =
    (let canonical = strip summary in
     if canonical = [] then invalid ''ignored_edit_summaries must not contain blank summaries''
     else if canonical \<in> set seen then canonical_summaries_from summaries seen
     else bnd (canonical_summaries_from summaries (canonical # seen)) (\<lambda>ss. Inr (canonical # ss)))"
| "canonical_summaries_from (v # summaries) seen =
    invalid ''ignored_edit_summaries must contain only strings''"

fun canonical_summaries :: "json \<Rightarrow> string list res" where
  "canonical_summaries (JList summaries) = canonical_summaries_from summaries []"
| "canonical_summaries v = invalid ''ignored_edit_summaries must be a list of summaries''"

subsection \<open>The settings object\<close>

definition max_cooldown_seconds :: rat where "max_cooldown_seconds = 86400"
definition default_job_history_limit :: int where "default_job_history_limit = 2500"
definition max_job_history_limit :: rat where "max_job_history_limit = 100000"

definition default_ignored_summaries :: "string list" where
  "default_ignored_summaries = [''fanitsiana famaritana'', ''Dikanteny: es'']"

definition validate_number :: "json \<Rightarrow> string \<Rightarrow> rat \<Rightarrow> rat option \<Rightarrow> unit res" where
  "validate_number v field minimum maximum =
    (case num_of v of
       None \<Rightarrow> invalid (field @ '' must be a number'')
     | Some f \<Rightarrow>
       if \<not> isfinite f then invalid (field @ '' must be finite'')
       else if f_less f (Finite minimum) \<or>
         (case maximum of None \<Rightarrow> False | Some m \<Rightarrow> f_less (Finite m) f)
       then invalid (field @ '' is out of range'')
       else Inr ())"

record settings =
  watched_users :: "string list"
  check_probability :: json
  cooldown_seconds :: json
  ignored_edit_summaries :: "string list"
  job_history_limit :: int
  autonomous_agent_enabled :: bool
  translation_prefilter_enabled :: bool

fun int_field :: "json \<Rightarrow> int res" where
  "int_field (JInt i) = Inr i"
| "int_field v = invalid ''job_history_limit must be an integer''"

fun bool_field :: "string \<Rightarrow> json \<Rightarrow> bool res" where
  "bool_field name (JBool b) = Inr b"
| "bool_field name v = invalid (name @ '' must be a boolean'')"

text \<open>\<open>PageCheckerSettings(...)\<close> with its \<open>__post_init__\<close>.\<close>

definition make_settings ::
  "json \<Rightarrow> json \<Rightarrow> json \<Rightarrow> json \<Rightarrow> json \<Rightarrow> json \<Rightarrow> json \<Rightarrow> settings res" where
  "make_settings users probability cooldown summaries limit agent prefilter =
    bnd (canonical_users users) (\<lambda>us.
    bnd (canonical_summaries summaries) (\<lambda>ss.
    bnd (validate_number probability ''check_probability'' 0 (Some 100)) (\<lambda>_.
    bnd (validate_number cooldown ''cooldown_seconds'' 0 (Some max_cooldown_seconds)) (\<lambda>_.
    bnd (validate_number limit ''job_history_limit'' 1 (Some max_job_history_limit)) (\<lambda>_.
    bnd (int_field limit) (\<lambda>n.
    bnd (bool_field ''autonomous_agent_enabled'' agent) (\<lambda>a.
    bnd (bool_field ''translation_prefilter_enabled'' prefilter) (\<lambda>p.
      Inr \<lparr>watched_users = us, check_probability = probability, cooldown_seconds = cooldown,
           ignored_edit_summaries = ss, job_history_limit = n,
           autonomous_agent_enabled = a, translation_prefilter_enabled = p\<rparr>))))))))"

definition strings :: "string list \<Rightarrow> json" where
  "strings ss = JList (map JStr ss)"

definition default_settings :: settings where
  "default_settings =
    \<lparr>watched_users = [''Bot-Jagwar''], check_probability = JInt 10, cooldown_seconds = JInt 5,
     ignored_edit_summaries = default_ignored_summaries,
     job_history_limit = default_job_history_limit,
     autonomous_agent_enabled = False, translation_prefilter_enabled = False\<rparr>"

definition legacy_fields :: "string list" where
  "legacy_fields = [''watched_users'', ''check_probability'', ''cooldown_seconds'']"

definition previous_fields :: "string list" where
  "previous_fields = legacy_fields @ [''ignored_edit_summaries'']"

definition settings_fields :: "string list" where
  "settings_fields = previous_fields @
    [''job_history_limit'', ''autonomous_agent_enabled'', ''translation_prefilter_enabled'']"

definition from_monitoring_payload :: "json \<Rightarrow> json \<Rightarrow> json \<Rightarrow> json \<Rightarrow> settings res" where
  "from_monitoring_payload payload limit agent prefilter =
    (case payload of
       JDict d \<Rightarrow>
         if \<not> keys_are previous_fields d
         then invalid ''settings payload must contain exactly the monitoring fields''
         else if \<not> is_list (dget ''watched_users'' d)
         then invalid ''watched_users must be a list of usernames''
         else if \<not> is_list (dget ''ignored_edit_summaries'' d)
         then invalid ''ignored_edit_summaries must be a list of summaries''
         else make_settings (dget ''watched_users'' d) (dget ''check_probability'' d)
           (dget ''cooldown_seconds'' d) (dget ''ignored_edit_summaries'' d) limit agent prefilter
     | _ \<Rightarrow> invalid ''settings payload must contain exactly the monitoring fields'')"

definition from_payload :: "json \<Rightarrow> settings res" where
  "from_payload payload =
    (case payload of
       JDict d \<Rightarrow>
         if \<not> keys_are settings_fields d
         then invalid ''settings payload must contain exactly the supported fields''
         else from_monitoring_payload
           (JDict (filter (\<lambda>p. fst p \<notin> {''autonomous_agent_enabled'', ''job_history_limit'',
              ''translation_prefilter_enabled''}) d))
           (dget ''job_history_limit'' d) (dget ''autonomous_agent_enabled'' d)
           (dget ''translation_prefilter_enabled'' d)
     | _ \<Rightarrow> invalid ''settings payload must be an object'')"

definition from_stored_payload :: "json \<Rightarrow> settings res" where
  "from_stored_payload payload =
    from_monitoring_payload
      (case payload of
         JDict d \<Rightarrow>
           if keys_are legacy_fields d
           then JDict (dset ''ignored_edit_summaries'' (strings default_ignored_summaries) d)
           else payload
       | _ \<Rightarrow> payload)
      (JInt default_job_history_limit) (JBool False) (JBool False)"

definition serialise_monitoring :: "settings \<Rightarrow> dict" where
  "serialise_monitoring s =
    [(''watched_users'', strings (watched_users s)), (''check_probability'', check_probability s),
     (''cooldown_seconds'', cooldown_seconds s),
     (''ignored_edit_summaries'', strings (ignored_edit_summaries s))]"

definition serialise :: "settings \<Rightarrow> dict" where
  "serialise s = serialise_monitoring s @
    [(''job_history_limit'', JInt (job_history_limit s)),
     (''autonomous_agent_enabled'', JBool (autonomous_agent_enabled s)),
     (''translation_prefilter_enabled'', JBool (translation_prefilter_enabled s))]"

subsection \<open>The store\<close>

record settings_store =
  raw_settings :: "raw option"
  raw_agent :: "raw option"
  raw_limit :: "raw option"
  raw_prefilter :: "raw option"

definition store_error :: "string \<Rightarrow> exn" where
  "store_error message = PageCheckerSettingsStoreError message"

definition decoded_or :: "json \<Rightarrow> raw option \<Rightarrow> json res" where
  "decoded_or dflt raw = (case raw of None \<Rightarrow> Inr dflt | Some r \<Rightarrow> loads r)"

definition stored_flag :: "bool \<Rightarrow> raw option \<Rightarrow> bool res" where
  "stored_flag dflt raw =
    bnd (decoded_or (JBool dflt) raw) (\<lambda>v.
      case v of JBool b \<Rightarrow> Inr b | _ \<Rightarrow> Inl TypeError)"

text \<open>The conversion inside the second \<open>try\<close>; \<open>replace\<close> validates all fields again.\<close>

definition read_settings :: "settings_store \<Rightarrow> settings res" where
  "read_settings st =
    bnd (case raw_settings st of None \<Rightarrow> Inr default_settings
         | Some r \<Rightarrow> bnd (loads r) from_stored_payload) (\<lambda>s.
    bnd (stored_flag (autonomous_agent_enabled s) (raw_agent st)) (\<lambda>agent.
    bnd (decoded_or (JInt (job_history_limit s)) (raw_limit st)) (\<lambda>limit.
    bnd (stored_flag (translation_prefilter_enabled s) (raw_prefilter st)) (\<lambda>prefilter.
      make_settings (strings (watched_users s)) (check_probability s) (cooldown_seconds s)
        (strings (ignored_edit_summaries s)) limit (JBool agent) (JBool prefilter)))))"

definition settings_get :: "bool \<Rightarrow> settings_store \<Rightarrow> settings res" where
  "settings_get ok st =
    (if \<not> ok then Inl (store_error ''Page-checker settings could not be read from Redis.'')
     else case read_settings st of
       Inl e \<Rightarrow> Inl (store_error ''Page-checker settings in Redis are invalid.'')
     | Inr s \<Rightarrow> Inr s)"

definition settings_write ::
  "io \<Rightarrow> string \<Rightarrow> (settings_store \<Rightarrow> settings_store) \<Rightarrow> settings_store \<Rightarrow> settings_store \<times> unit res" where
  "settings_write i message f st =
    (case redis_call i (\<lambda>st. (f st, Inr ())) st of
       (st', Inl e) \<Rightarrow> (st', Inl (store_error message))
     | (st', Inr u) \<Rightarrow> (st', Inr ()))"

definition settings_set :: "io \<Rightarrow> settings \<Rightarrow> settings_store \<Rightarrow> settings_store \<times> unit res" where
  "settings_set i s st =
    (case dumps (JDict (serialise_monitoring s)) of
       Inl e \<Rightarrow> (st, Inl (store_error ''Page-checker settings could not be serialized.''))
     | Inr payload \<Rightarrow>
       settings_write i ''Page-checker settings could not be written to Redis.''
         (\<lambda>st. \<lparr>raw_settings = Some payload,
                raw_agent = Some (Text (JBool (autonomous_agent_enabled s))),
                raw_limit = Some (Text (JInt (job_history_limit s))),
                raw_prefilter = Some (Text (JBool (translation_prefilter_enabled s)))\<rparr>) st)"

definition settings_set_monitoring :: "io \<Rightarrow> settings \<Rightarrow> settings_store \<Rightarrow> settings_store \<times> unit res" where
  "settings_set_monitoring i s st =
    (case dumps (JDict (serialise_monitoring s)) of
       Inl e \<Rightarrow> (st, Inl (store_error ''Page-checker monitoring settings could not be serialized.''))
     | Inr payload \<Rightarrow>
       settings_write i ''Page-checker monitoring settings could not be written to Redis.''
         (\<lambda>st. st\<lparr>raw_settings := Some payload\<rparr>) st)"

definition settings_set_agent :: "io \<Rightarrow> bool \<Rightarrow> settings_store \<Rightarrow> settings_store \<times> unit res" where
  "settings_set_agent i enabled =
    settings_write i ''The autonomous-agent setting could not be written to Redis.''
      (\<lambda>st. st\<lparr>raw_agent := Some (Text (JBool enabled))\<rparr>)"

definition settings_set_limit :: "io \<Rightarrow> json \<Rightarrow> settings_store \<Rightarrow> settings_store \<times> unit res" where
  "settings_set_limit i limit st =
    (case make_settings (strings (watched_users default_settings)) (JInt 10) (JInt 5)
            (strings default_ignored_summaries) limit (JBool False) (JBool False) of
       Inl e \<Rightarrow> (st, Inl (store_error ''The job-history limit is invalid.''))
     | Inr s \<Rightarrow>
       settings_write i ''The job-history limit could not be written to Redis.''
         (\<lambda>st. st\<lparr>raw_limit := Some (Text (JInt (job_history_limit s)))\<rparr>) st)"

definition settings_set_prefilter :: "io \<Rightarrow> bool \<Rightarrow> settings_store \<Rightarrow> settings_store \<times> unit res" where
  "settings_set_prefilter i enabled =
    settings_write i ''The translation-prefilter setting could not be written to Redis.''
      (\<lambda>st. st\<lparr>raw_prefilter := Some (Text (JBool enabled))\<rparr>)"


subsection \<open>Well-formed settings\<close>

definition in_range :: "rat \<Rightarrow> rat \<Rightarrow> json \<Rightarrow> bool" where
  "in_range lo hi v \<longleftrightarrow> (case num_of v of Some (Finite r) \<Rightarrow> lo \<le> r \<and> r \<le> hi | _ \<Rightarrow> False)"

definition canonical_names :: "string list \<Rightarrow> bool" where
  "canonical_names us \<longleftrightarrow> distinct (map normalize_username us) \<and>
     list_all (\<lambda>u. u \<noteq> [] \<and> strip u = u \<and> normalize_username u \<noteq> []) us"

definition canonical_texts :: "string list \<Rightarrow> bool" where
  "canonical_texts ss \<longleftrightarrow> distinct ss \<and> list_all (\<lambda>s. s \<noteq> [] \<and> strip s = s) ss"

definition wf_settings :: "settings \<Rightarrow> bool" where
  "wf_settings s \<longleftrightarrow> canonical_names (watched_users s) \<and> canonical_texts (ignored_edit_summaries s) \<and>
     in_range 0 100 (check_probability s) \<and> in_range 0 max_cooldown_seconds (cooldown_seconds s) \<and>
     in_range 1 max_job_history_limit (JInt (job_history_limit s))"

lemma canonical_users_from_wf:
  "canonical_users_from users seen = Inr us \<Longrightarrow>
    canonical_names us \<and> set (map normalize_username us) \<inter> set seen = {}"
proof (induction users seen arbitrary: us rule: canonical_users_from.induct)
  case (2 user users seen)
  let ?n = "normalize_username (strip user)"
  have ne: "strip user \<noteq> []" "?n \<noteq> []"
    using "2.prems" by (auto simp: Let_def invalid_def split: if_splits)
  show ?case
  proof (cases "?n \<in> set seen")
    case True
    with 2 ne show ?thesis by (auto simp: Let_def)
  next
    case False
    with "2.prems" ne obtain us' where us': "canonical_users_from users (?n # seen) = Inr us'"
      "us = strip user # us'" by (auto simp: Let_def bnd_Inr_iff)
    with "2.IH"(2) [OF refl refl _ False us'(1)] ne False show ?thesis
      by (auto simp: canonical_names_def)
  qed
qed (auto simp: invalid_def canonical_names_def)

lemma canonical_users_from_fixed:
  "canonical_names us \<Longrightarrow> set (map normalize_username us) \<inter> set seen = {} \<Longrightarrow>
    canonical_users_from (map JStr us) seen = Inr us"
  by (induction us arbitrary: seen) (auto simp: canonical_names_def Let_def bnd_def)

lemma canonical_summaries_from_wf:
  "canonical_summaries_from ss seen = Inr cs \<Longrightarrow> canonical_texts cs \<and> set cs \<inter> set seen = {}"
proof (induction ss seen arbitrary: cs rule: canonical_summaries_from.induct)
  case (2 summary ss seen)
  let ?n = "strip summary"
  have ne: "?n \<noteq> []" using "2.prems" by (auto simp: Let_def invalid_def split: if_splits)
  show ?case
  proof (cases "?n \<in> set seen")
    case True
    with 2 ne show ?thesis by (auto simp: Let_def)
  next
    case False
    with "2.prems" ne obtain cs' where cs': "canonical_summaries_from ss (?n # seen) = Inr cs'"
      "cs = ?n # cs'" by (auto simp: Let_def bnd_Inr_iff)
    with "2.IH"(2) [OF refl _ False cs'(1)] ne False show ?thesis
      by (auto simp: canonical_texts_def)
  qed
qed (auto simp: invalid_def canonical_texts_def)

lemma canonical_summaries_from_fixed:
  "canonical_texts cs \<Longrightarrow> set cs \<inter> set seen = {} \<Longrightarrow>
    canonical_summaries_from (map JStr cs) seen = Inr cs"
  by (induction cs arbitrary: seen) (auto simp: canonical_texts_def Let_def bnd_def)

lemma validate_number_Inr: "validate_number v field lo (Some hi) = Inr u \<longleftrightarrow> in_range lo hi v"
  by (auto simp: validate_number_def in_range_def invalid_def split: option.splits pyfloat.splits)

lemma int_field_Inr: "int_field v = Inr n \<longleftrightarrow> v = JInt n"
  by (cases v) (auto simp: invalid_def)

lemma bool_field_Inr: "bool_field name v = Inr b \<longleftrightarrow> v = JBool b"
  by (cases v) (auto simp: invalid_def)

lemma make_settings_wf:
  assumes "make_settings users probability cooldown summaries limit agent prefilter = Inr s"
  shows "wf_settings s" and "check_probability s = probability" and "cooldown_seconds s = cooldown"
    and "limit = JInt (job_history_limit s)" and "agent = JBool (autonomous_agent_enabled s)"
    and "prefilter = JBool (translation_prefilter_enabled s)"
proof -
  obtain us ss n a p where p: "canonical_users users = Inr us" "canonical_summaries summaries = Inr ss"
    "in_range 0 100 probability" "in_range 0 max_cooldown_seconds cooldown"
    "in_range 1 max_job_history_limit limit" "limit = JInt n" "agent = JBool a" "prefilter = JBool p"
    and s: "s = \<lparr>watched_users = us, check_probability = probability, cooldown_seconds = cooldown,
           ignored_edit_summaries = ss, job_history_limit = n,
           autonomous_agent_enabled = a, translation_prefilter_enabled = p\<rparr>"
    using assms
    by (auto simp: make_settings_def bnd_Inr_iff validate_number_Inr int_field_Inr bool_field_Inr)
  have "canonical_names us" using p(1) canonical_users_from_wf by (cases users) (auto simp: invalid_def)
  moreover have "canonical_texts ss"
    using p(2) canonical_summaries_from_wf by (cases summaries) (auto simp: invalid_def)
  ultimately show "wf_settings s" using p s by (simp add: wf_settings_def)
  show "check_probability s = probability" "cooldown_seconds s = cooldown"
    "limit = JInt (job_history_limit s)" "agent = JBool (autonomous_agent_enabled s)"
    "prefilter = JBool (translation_prefilter_enabled s)"
    using p s by simp_all
qed

lemma make_settings_fixed:
  assumes "wf_settings s" and "in_range 1 max_job_history_limit (JInt n)"
  shows "make_settings (strings (watched_users s)) (check_probability s) (cooldown_seconds s)
      (strings (ignored_edit_summaries s)) (JInt n) (JBool a) (JBool p) =
    Inr (s\<lparr>job_history_limit := n, autonomous_agent_enabled := a, translation_prefilter_enabled := p\<rparr>)"
proof -
  have v: "validate_number (check_probability s) f 0 (Some 100) = Inr ()"
    "validate_number (cooldown_seconds s) f 0 (Some max_cooldown_seconds) = Inr ()" for f
    using assms by (simp_all add: validate_number_Inr wf_settings_def)
  have "canonical_users (strings (watched_users s)) = Inr (watched_users s)"
    using assms by (simp add: strings_def canonical_users_from_fixed wf_settings_def)
  moreover have "canonical_summaries (strings (ignored_edit_summaries s)) = Inr (ignored_edit_summaries s)"
    using assms by (simp add: strings_def canonical_summaries_from_fixed wf_settings_def)
  moreover have "validate_number (JInt n) f 1 (Some max_job_history_limit) = Inr ()"
    for f
    using assms(2) by (simp add: validate_number_Inr)
  ultimately show ?thesis by (simp add: make_settings_def v)
qed

lemma serialise_fields:
  "dget ''watched_users'' (serialise s) = strings (watched_users s)"
  "dget ''check_probability'' (serialise s) = check_probability s"
  "dget ''cooldown_seconds'' (serialise s) = cooldown_seconds s"
  "dget ''ignored_edit_summaries'' (serialise s) = strings (ignored_edit_summaries s)"
  "dget ''job_history_limit'' (serialise s) = JInt (job_history_limit s)"
  "dget ''autonomous_agent_enabled'' (serialise s) = JBool (autonomous_agent_enabled s)"
  "dget ''translation_prefilter_enabled'' (serialise s) = JBool (translation_prefilter_enabled s)"
  by (simp_all add: serialise_def serialise_monitoring_def dget_def)

lemma serialise_monitoring_fields:
  "dget ''watched_users'' (serialise_monitoring s) = strings (watched_users s)"
  "dget ''check_probability'' (serialise_monitoring s) = check_probability s"
  "dget ''cooldown_seconds'' (serialise_monitoring s) = cooldown_seconds s"
  "dget ''ignored_edit_summaries'' (serialise_monitoring s) = strings (ignored_edit_summaries s)"
  by (simp_all add: serialise_monitoring_def dget_def)

lemma serialise_keys:
  "keys_are previous_fields (serialise_monitoring s)" "\<not> keys_are legacy_fields (serialise_monitoring s)"
  "keys_are settings_fields (serialise s)"
  by (simp_all add: keys_are_def previous_fields_def legacy_fields_def settings_fields_def dhas_def
      serialise_def serialise_monitoring_def)

lemma serialise_filter:
  "filter (\<lambda>p. fst p \<notin> {''autonomous_agent_enabled'', ''job_history_limit'',
     ''translation_prefilter_enabled''}) (serialise s) = serialise_monitoring s"
  by (simp add: serialise_def serialise_monitoring_def)

lemma serialise_monitoring_finite: "wf_settings s \<Longrightarrow> json_finite (JDict (serialise_monitoring s))"
proof -
  have "json_finite v" if "in_range lo hi v" for lo hi v
    using that by (cases v) (auto simp: in_range_def split: pyfloat.splits)
  then show "wf_settings s \<Longrightarrow> ?thesis"
    by (auto simp: wf_settings_def serialise_monitoring_def strings_def list_all_iff)
qed


lemma default_settings_wf: "wf_settings default_settings"
  by code_simp

lemma from_monitoring_serialised:
  assumes "wf_settings s" and "in_range 1 max_job_history_limit (JInt n)"
  shows "from_monitoring_payload (JDict (serialise_monitoring s)) (JInt n) (JBool a) (JBool p) =
    Inr (s\<lparr>job_history_limit := n, autonomous_agent_enabled := a, translation_prefilter_enabled := p\<rparr>)"
  using make_settings_fixed [OF assms, of a p]
  by (simp add: from_monitoring_payload_def serialise_keys serialise_monitoring_fields strings_def)

lemma from_payload_serialised:
  assumes "wf_settings s"
  shows "from_payload (JDict (serialise s)) = Inr s"
proof -
  have "in_range 1 max_job_history_limit (JInt (job_history_limit s))"
    using assms by (simp add: wf_settings_def)
  from from_monitoring_serialised [OF assms this, of "autonomous_agent_enabled s"
      "translation_prefilter_enabled s"]
  show ?thesis
    unfolding from_payload_def json.case serialise_filter serialise_fields by (simp add: serialise_keys)
qed

definition base_settings :: "settings \<Rightarrow> settings" where
  "base_settings s = s\<lparr>job_history_limit := default_job_history_limit,
     autonomous_agent_enabled := False, translation_prefilter_enabled := False\<rparr>"

definition stored_base :: "settings_store \<Rightarrow> settings res" where
  "stored_base st = (case raw_settings st of None \<Rightarrow> Inr default_settings
     | Some r \<Rightarrow> bnd (loads r) from_stored_payload)"

lemma stored_base_serialised:
  assumes "wf_settings s" and "raw_settings st = Some (Text (JDict (serialise_monitoring s)))"
  shows "stored_base st = Inr (base_settings s)"
proof -
  have "in_range 1 max_job_history_limit (JInt default_job_history_limit)" by code_simp
  from from_monitoring_serialised [OF assms(1) this] show ?thesis
    using assms(2) by (simp add: stored_base_def from_stored_payload_def serialise_keys base_settings_def)
qed

lemma from_monitoring_made:
  assumes "from_monitoring_payload v limit agent prefilter = Inr s"
  obtains a b c d where "make_settings a b c d limit agent prefilter = Inr s"
  using assms by (auto simp: from_monitoring_payload_def invalid_def split: json.splits if_splits)

lemma stored_base_default:
  assumes "stored_base st = Inr s0"
  shows "wf_settings s0" and "job_history_limit s0 = default_job_history_limit"
    and "\<not> autonomous_agent_enabled s0" and "\<not> translation_prefilter_enabled s0"
proof -
  have "wf_settings s0 \<and> job_history_limit s0 = default_job_history_limit \<and>
    \<not> autonomous_agent_enabled s0 \<and> \<not> translation_prefilter_enabled s0"
  proof (cases "raw_settings st")
    case None
    with assms default_settings_wf show ?thesis by (auto simp: stored_base_def default_settings_def)
  next
    case (Some r)
    with assms obtain v where "from_stored_payload v = Inr s0"
      by (auto simp: stored_base_def bnd_Inr_iff)
    then obtain a b c d where "make_settings a b c d (JInt default_job_history_limit)
        (JBool False) (JBool False) = Inr s0"
      unfolding from_stored_payload_def by (rule from_monitoring_made)
    from make_settings_wf [OF this] show ?thesis by simp
  qed
  then show "wf_settings s0" "job_history_limit s0 = default_job_history_limit"
    "\<not> autonomous_agent_enabled s0" "\<not> translation_prefilter_enabled s0" by simp_all
qed

text \<open>What a successful read is made of.\<close>

lemma settings_get_parts:
  "settings_get True st = Inr s \<longleftrightarrow>
    (\<exists>s0. stored_base st = Inr s0 \<and>
      stored_flag False (raw_agent st) = Inr (autonomous_agent_enabled s) \<and>
      decoded_or (JInt default_job_history_limit) (raw_limit st) = Inr (JInt (job_history_limit s)) \<and>
      in_range 1 max_job_history_limit (JInt (job_history_limit s)) \<and>
      stored_flag False (raw_prefilter st) = Inr (translation_prefilter_enabled s) \<and>
      base_settings s = s0)" (is "?L \<longleftrightarrow> ?R")
proof
  assume ?L
  then obtain s0 agent limit prefilter where p: "stored_base st = Inr s0"
    "stored_flag (autonomous_agent_enabled s0) (raw_agent st) = Inr agent"
    "decoded_or (JInt (job_history_limit s0)) (raw_limit st) = Inr limit"
    "stored_flag (translation_prefilter_enabled s0) (raw_prefilter st) = Inr prefilter"
    "make_settings (strings (watched_users s0)) (check_probability s0) (cooldown_seconds s0)
        (strings (ignored_edit_summaries s0)) limit (JBool agent) (JBool prefilter) = Inr s"
    by (auto simp: settings_get_def read_settings_def stored_base_def [symmetric] bnd_Inr_iff
        split: sum.splits)
  note b = stored_base_default [OF p(1)]
  note w = make_settings_wf [OF p(5)]
  have r: "in_range 1 max_job_history_limit (JInt (job_history_limit s))"
    using w(1) by (simp add: wf_settings_def)
  from make_settings_fixed [OF b(1) r, of agent prefilter] p(5) w(4)
  have "s = s0\<lparr>job_history_limit := job_history_limit s, autonomous_agent_enabled := agent,
    translation_prefilter_enabled := prefilter\<rparr>" by simp
  then have "base_settings s = base_settings s0"
    by (rule trans [OF arg_cong [of _ _ base_settings]]) (simp add: base_settings_def)
  also have "base_settings s0 = s0" using b by (cases s0) (simp add: base_settings_def)
  finally have "base_settings s = s0" .
  with p b w r show ?R by auto
next
  assume ?R
  then obtain s0 where p: "stored_base st = Inr s0"
    "stored_flag False (raw_agent st) = Inr (autonomous_agent_enabled s)"
    "decoded_or (JInt default_job_history_limit) (raw_limit st) = Inr (JInt (job_history_limit s))"
    "in_range 1 max_job_history_limit (JInt (job_history_limit s))"
    "stored_flag False (raw_prefilter st) = Inr (translation_prefilter_enabled s)" "base_settings s = s0"
    by blast
  note b = stored_base_default [OF p(1)]
  have "s0\<lparr>job_history_limit := job_history_limit s,
      autonomous_agent_enabled := autonomous_agent_enabled s,
      translation_prefilter_enabled := translation_prefilter_enabled s\<rparr> = s"
    by (simp flip: p(6) add: base_settings_def)
  with make_settings_fixed [OF b(1) p(4), of "autonomous_agent_enabled s" "translation_prefilter_enabled s"] p b
  show ?L by (simp add: settings_get_def read_settings_def stored_base_def [symmetric])
qed

end
