(* ===== verification/SettingsProps.thy ===== *)
theory SettingsProps
  imports PageCheckerSettings
begin

text \<open>
  \<open>api/services/definition_translation_settings.py\<close>, the contract both settings stores
  share (\<open>register\<close>: a read returns the last write that reached Redis), and the
  properties of the two settings components.
\<close>

subsection \<open>Settings of the definition translation\<close>

record definition_settings =
  basic_english_gate :: bool
  roundtrip_validation :: bool

definition default_definition_settings :: definition_settings where
  "default_definition_settings = \<lparr>basic_english_gate = False, roundtrip_validation = True\<rparr>"

definition gate_key :: string where "gate_key = ''basic_english_gate_enabled''"
definition roundtrip_key :: string where "roundtrip_key = ''nllb_roundtrip_validation_enabled''"

fun bool_of :: "json \<Rightarrow> bool" where
  "bool_of (JBool b) = b"
| "bool_of v = False"

definition definition_from_payload ::
  "json \<Rightarrow> definition_settings option \<Rightarrow> definition_settings res" where
  "definition_from_payload payload current =
    (case payload of
       JDict d \<Rightarrow>
         if \<not> (keys_are [gate_key, roundtrip_key] d \<or> keys_are [gate_key] d)
           \<or> list_ex (\<lambda>p. \<not> is_bool (dget (fst p) d)) d
         then Inl DefinitionTranslationSettingsValidationError
         else
           let existing = (case current of None \<Rightarrow> default_definition_settings | Some s \<Rightarrow> s) in
           Inr \<lparr>basic_english_gate = bool_of (dget gate_key d),
                roundtrip_validation =
                  bool_of (dget_or roundtrip_key (JBool (roundtrip_validation existing)) d)\<rparr>
     | _ \<Rightarrow> Inl DefinitionTranslationSettingsValidationError)"

definition definition_serialise :: "definition_settings \<Rightarrow> dict" where
  "definition_serialise s =
    [(gate_key, JBool (basic_english_gate s)), (roundtrip_key, JBool (roundtrip_validation s))]"

text \<open>The store is one Redis key; \<open>ok\<close> says whether Redis answers the read.\<close>

definition definition_settings_get :: "bool \<Rightarrow> raw option \<Rightarrow> definition_settings res" where
  "definition_settings_get ok st =
    (if \<not> ok then Inl (DefinitionTranslationSettingsStoreError
       ''Definition-translation settings could not be read from Redis.'')
     else case st of
       None \<Rightarrow> Inr default_definition_settings
     | Some r \<Rightarrow>
       (case bnd (loads r) (\<lambda>v. definition_from_payload v None) of
          Inl e \<Rightarrow> Inl (DefinitionTranslationSettingsStoreError
            ''Definition-translation settings in Redis are invalid.'')
        | Inr s \<Rightarrow> Inr s))"

definition definition_settings_set ::
  "io \<Rightarrow> definition_settings \<Rightarrow> raw option \<Rightarrow> raw option \<times> unit res" where
  "definition_settings_set i s st =
    (case redis_call i (\<lambda>st. (Some (Text (JDict (definition_serialise s))), Inr ())) st of
       (st', Inl e) \<Rightarrow> (st', Inl (DefinitionTranslationSettingsStoreError
         ''Definition-translation settings could not be written to Redis.''))
     | (st', Inr u) \<Rightarrow> (st', Inr ()))"

lemma definition_payload_serialised:
  "definition_from_payload (JDict (definition_serialise s)) c = Inr s"
  by (simp add: definition_from_payload_def definition_serialise_def keys_are_def dhas_def dget_def
      dget_or_def gate_key_def roundtrip_key_def)

subsection \<open>The contract of a settings store\<close>

locale register =
  fixes store :: "io \<Rightarrow> 'a \<Rightarrow> 's \<Rightarrow> 's \<times> unit res"
    and fetch :: "'s \<Rightarrow> 'a res"
    and valid :: "'a \<Rightarrow> bool"
  assumes read_written: "valid v \<Longrightarrow> fetch (fst (store Acked v st)) = Inr v"
    and write_refused: "fst (store Refused v st) = st"
    and write_unacked: "fst (store Unacked v st) = fst (store Acked v st)"
    and write_answers: "valid v \<Longrightarrow> is_ok (snd (store i v st)) \<longleftrightarrow> i = Acked"
begin

definition writes :: "(io \<times> 'a) list \<Rightarrow> 's \<Rightarrow> 's" where
  "writes ops st = foldl (\<lambda>st p. fst (store (fst p) (snd p) st)) st ops"

lemma writes_snoc: "writes (ops @ [(i, v)]) st = fst (store i v (writes ops st))"
  by (simp add: writes_def)

text \<open>A write that reached Redis, acknowledged or not, is the next value read.\<close>

lemma read_after_writes:
  assumes "\<forall>p \<in> set ops. valid (snd p)"
  shows "fetch (writes ops st) =
    (case filter (\<lambda>p. fst p \<noteq> Refused) ops of [] \<Rightarrow> fetch st | ps \<Rightarrow> Inr (snd (last ps)))"
  using assms
proof (induction ops rule: rev_induct)
  case Nil
  then show ?case by (simp add: writes_def)
next
  case (snoc p ops)
  obtain i v where p: "p = (i, v)" by (cases p)
  have v: "valid v" using snoc.prems p by simp
  show ?case
  proof (cases i)
    case Refused
    with snoc p show ?thesis by (simp add: writes_snoc write_refused)
  next
    case Acked
    with v p show ?thesis
      by (cases "filter (\<lambda>p. fst p \<noteq> Refused) ops") (simp_all add: writes_snoc read_written)
  next
    case Unacked
    with v p show ?thesis
      by (cases "filter (\<lambda>p. fst p \<noteq> Refused) ops")
        (simp_all add: writes_snoc read_written write_unacked)
  qed
qed

lemma write_then_read:
  assumes "valid v" and "store i v st = (st', r)"
  shows "(is_ok r \<longrightarrow> fetch st' = Inr v) \<and> (\<not> is_ok r \<longrightarrow> fetch st' = fetch st \<or> fetch st' = Inr v)"
proof (cases i)
  case Acked
  with assms read_written [OF assms(1), of st] show ?thesis by simp
next
  case Refused
  with assms write_refused [of v st] write_answers [OF assms(1), of i st] show ?thesis by simp
next
  case Unacked
  with assms read_written [OF assms(1), of st] write_unacked [of v st]
    write_answers [OF assms(1), of i st] show ?thesis by simp
qed

end

lemma settings_write_parts:
  "fst (settings_write i m f st) = (if i = Refused then st else f st)"
  "is_ok (snd (settings_write i m f st)) \<longleftrightarrow> i = Acked"
  by (auto simp: settings_write_def redis_call_def split: io.splits)

lemma settings_get_set:
  assumes "wf_settings s"
  shows "settings_get True (fst (settings_set Acked s st)) = Inr s"
proof -
  have "dumps (JDict (serialise_monitoring s)) = Inr (Text (JDict (serialise_monitoring s)))"
    using serialise_monitoring_finite [OF assms] by (simp add: dumps_def)
  then have "fst (settings_set Acked s st) =
    \<lparr>raw_settings = Some (Text (JDict (serialise_monitoring s))),
     raw_agent = Some (Text (JBool (autonomous_agent_enabled s))),
     raw_limit = Some (Text (JInt (job_history_limit s))),
     raw_prefilter = Some (Text (JBool (translation_prefilter_enabled s)))\<rparr>"
    by (simp add: settings_set_def settings_write_parts)
  then show ?thesis
    using assms by (simp add: settings_get_parts stored_base_serialised stored_flag_def decoded_or_def
        wf_settings_def)
qed

interpretation page_settings: register settings_set "settings_get True" wf_settings
proof unfold_locales
  fix v st and i :: io
  show "fst (settings_set Refused v st) = st" "fst (settings_set Unacked v st) = fst (settings_set Acked v st)"
    by (auto simp: settings_set_def settings_write_parts split: sum.splits)
  show "wf_settings v \<Longrightarrow> settings_get True (fst (settings_set Acked v st)) = Inr v"
    by (rule settings_get_set)
  show "wf_settings v \<Longrightarrow> is_ok (snd (settings_set i v st)) \<longleftrightarrow> i = Acked"
    using serialise_monitoring_finite [of v] by (simp add: settings_set_def settings_write_parts dumps_def)
qed

interpretation gate_settings:
  register definition_settings_set "definition_settings_get True" "\<lambda>s. True"
  by unfold_locales
    (auto simp: definition_settings_set_def definition_settings_get_def redis_call_def
      definition_payload_serialised split: io.splits)


subsection \<open>Partial updates\<close>

text \<open>Each setter writes one of the four keys; what a later read returns of the others is kept.\<close>

lemma get_after_agent:
  assumes "settings_get True st = Inr s"
  shows "settings_get True (st\<lparr>raw_agent := Some (Text (JBool b))\<rparr>) =
    Inr (s\<lparr>autonomous_agent_enabled := b\<rparr>)"
  using assms
  by (simp add: settings_get_parts stored_base_def stored_flag_def decoded_or_def base_settings_def)

lemma get_after_prefilter:
  assumes "settings_get True st = Inr s"
  shows "settings_get True (st\<lparr>raw_prefilter := Some (Text (JBool b))\<rparr>) =
    Inr (s\<lparr>translation_prefilter_enabled := b\<rparr>)"
  using assms
  by (simp add: settings_get_parts stored_base_def stored_flag_def decoded_or_def base_settings_def)

lemma get_after_limit:
  assumes "settings_get True st = Inr s" and "in_range 1 max_job_history_limit (JInt n)"
  shows "settings_get True (st\<lparr>raw_limit := Some (Text (JInt n))\<rparr>) = Inr (s\<lparr>job_history_limit := n\<rparr>)"
  using assms
  by (simp add: settings_get_parts stored_base_def stored_flag_def decoded_or_def base_settings_def)

definition with_controls_of :: "settings \<Rightarrow> settings \<Rightarrow> settings" where
  "with_controls_of s m = m\<lparr>job_history_limit := job_history_limit s,
     autonomous_agent_enabled := autonomous_agent_enabled s,
     translation_prefilter_enabled := translation_prefilter_enabled s\<rparr>"

lemma get_after_monitoring:
  assumes "settings_get True st = Inr s" and "wf_settings m"
  shows "settings_get True (st\<lparr>raw_settings := Some (Text (JDict (serialise_monitoring m)))\<rparr>) =
    Inr (with_controls_of s m)"
proof -
  let ?st = "st\<lparr>raw_settings := Some (Text (JDict (serialise_monitoring m)))\<rparr>"
  have "stored_base ?st = Inr (base_settings m)" using assms(2) by (rule stored_base_serialised) simp
  then show ?thesis
    using assms(1) by (simp add: settings_get_parts stored_flag_def decoded_or_def base_settings_def
        with_controls_of_def)
qed

datatype setting_change =
    SetAgent bool
  | SetPrefilter bool
  | SetLimit int
  | SetMonitoring settings

fun apply_change :: "io \<Rightarrow> setting_change \<Rightarrow> settings_store \<Rightarrow> settings_store \<times> unit res" where
  "apply_change i (SetAgent b) = settings_set_agent i b"
| "apply_change i (SetPrefilter b) = settings_set_prefilter i b"
| "apply_change i (SetLimit n) = settings_set_limit i (JInt n)"
| "apply_change i (SetMonitoring m) = settings_set_monitoring i m"

fun changed :: "setting_change \<Rightarrow> settings \<Rightarrow> settings" where
  "changed (SetAgent b) s = s\<lparr>autonomous_agent_enabled := b\<rparr>"
| "changed (SetPrefilter b) s = s\<lparr>translation_prefilter_enabled := b\<rparr>"
| "changed (SetLimit n) s =
    (if 1 \<le> n \<and> n \<le> 100000 then s\<lparr>job_history_limit := n\<rparr> else s)"
| "changed (SetMonitoring m) s = with_controls_of s m"

fun change_ok :: "setting_change \<Rightarrow> bool" where
  "change_ok (SetMonitoring m) = wf_settings m"
| "change_ok c = True"

lemma in_range_limit: "in_range 1 max_job_history_limit (JInt n) \<longleftrightarrow> 1 \<le> n \<and> n \<le> 100000"
proof -
  have "(100000::rat) = of_int 100000" "(1::rat) = of_int 1" by simp_all
  then show ?thesis
    unfolding in_range_def max_job_history_limit_def num_of.simps option.case pyfloat.case
    by (metis of_int_le_iff)
qed

lemma make_default_limit:
  "make_settings (strings (watched_users default_settings)) (JInt 10) (JInt 5)
     (strings default_ignored_summaries) (JInt n) (JBool False) (JBool False) =
   (if 1 \<le> n \<and> n \<le> 100000 then Inr (default_settings\<lparr>job_history_limit := n\<rparr>)
    else invalid ''job_history_limit is out of range'')"
proof (cases "1 \<le> n \<and> n \<le> 100000")
  case True
  then have "in_range 1 max_job_history_limit (JInt n)" by (simp add: in_range_limit)
  from make_settings_fixed [OF default_settings_wf this, of False False] True show ?thesis
    by (simp add: default_settings_def)
next
  case False
  have c: "canonical_users (strings (watched_users default_settings)) = Inr [''Bot-Jagwar'']"
    "canonical_summaries (strings default_ignored_summaries) = Inr default_ignored_summaries"
    by code_simp+
  have v: "validate_number (JInt 10) f 0 (Some 100) = Inr ()"
    "validate_number (JInt 5) f 0 (Some max_cooldown_seconds) = Inr ()" for f
    by (simp_all add: validate_number_Inr in_range_def max_cooldown_seconds_def)
  have "f_less (Finite (of_int n)) (Finite 1) \<or> f_less (Finite max_job_history_limit) (Finite (of_int n))"
    using False in_range_limit [of n] by (auto simp: in_range_def)
  then have "validate_number (JInt n) ''job_history_limit'' 1 (Some max_job_history_limit) =
    invalid ''job_history_limit is out of range''"
    by (auto simp: validate_number_def)
  with False show ?thesis by (auto simp: make_settings_def c v invalid_def)
qed

lemma apply_change_fst:
  assumes "settings_get True st = Inr s" and "change_ok c"
  shows "settings_get True (fst (apply_change i c st)) = Inr (if i = Refused then s else changed c s)"
proof (cases c)
  case (SetMonitoring m)
  then have "dumps (JDict (serialise_monitoring m)) = Inr (Text (JDict (serialise_monitoring m)))"
    using assms(2) serialise_monitoring_finite by (simp add: dumps_def)
  with SetMonitoring assms get_after_monitoring [OF assms(1), of m] show ?thesis
    by (simp add: settings_set_monitoring_def settings_write_parts)
next
  case (SetLimit n)
  with assms(1) get_after_limit [OF assms(1), of n] show ?thesis
    by (simp add: settings_set_limit_def make_default_limit settings_write_parts in_range_limit invalid_def)
qed (use assms(1) get_after_agent [OF assms(1)] get_after_prefilter [OF assms(1)] in
    \<open>simp_all add: settings_set_agent_def settings_set_prefilter_def settings_write_parts\<close>)

subsection \<open>First spellings\<close>

text \<open>The elements of a list whose key no earlier element has.\<close>

fun first_by :: "('a \<Rightarrow> 'b) \<Rightarrow> 'a list \<Rightarrow> 'a list" where
  "first_by f [] = []"
| "first_by f (x # xs) = x # first_by f (filter (\<lambda>y. f y \<noteq> f x) xs)"

lemma filter_key_filter:
  "filter (\<lambda>y. f y \<noteq> f x) (filter (\<lambda>y. f y \<notin> A) xs) = filter (\<lambda>y. f y \<notin> insert (f x) A) xs"
  by (induction xs) auto

lemma canonical_users_from_spec:
  "canonical_users_from vs seen = Inr us \<longleftrightarrow>
    list_all is_str vs \<and>
    list_all (\<lambda>v. strip (py_str v) \<noteq> [] \<and> normalize_username (strip (py_str v)) \<noteq> []) vs \<and>
    us = first_by normalize_username
      (filter (\<lambda>u. normalize_username u \<notin> set seen) (map (\<lambda>v. strip (py_str v)) vs))"
proof (induction vs seen arbitrary: us rule: canonical_users_from.induct)
  case (2 user users seen)
  let ?u = "strip user"
  show ?case
  proof (cases "?u = [] \<or> normalize_username ?u = []")
    case True
    then show ?thesis by (auto simp: Let_def invalid_def)
  next
    case False
    show ?thesis
    proof (cases "normalize_username ?u \<in> set seen")
      case True
      with 2(1) [OF refl refl False True] False show ?thesis by (simp add: Let_def)
    next
      case no: False
      have "canonical_users_from (JStr user # users) seen = Inr us \<longleftrightarrow>
          (\<exists>us'. canonical_users_from users (normalize_username ?u # seen) = Inr us' \<and> us = ?u # us')"
        using False no by (auto simp: Let_def bnd_Inr_iff)
      moreover have "filter (\<lambda>u. normalize_username u \<notin> set (normalize_username ?u # seen)) xs =
          filter (\<lambda>y. normalize_username y \<noteq> normalize_username ?u)
            (filter (\<lambda>u. normalize_username u \<notin> set seen) xs)" for xs
        by (simp only: filter_key_filter list.set)
      ultimately have "canonical_users_from (JStr user # users) seen = Inr us \<longleftrightarrow>
          list_all is_str users \<and>
          list_all (\<lambda>v. strip (py_str v) \<noteq> [] \<and> normalize_username (strip (py_str v)) \<noteq> []) users \<and>
          us = first_by normalize_username (?u # filter (\<lambda>u. normalize_username u \<notin> set seen)
            (map (\<lambda>v. strip (py_str v)) users))"
        by (simp only: 2(2) [OF refl refl False no] first_by.simps) blast
      with False no show ?thesis by (simp del: first_by.simps)
    qed
  qed
qed (auto simp: invalid_def)

lemma from_payload_made:
  assumes "from_payload p = Inr s"
  obtains d where "p = JDict d"
    and "make_settings (dget ''watched_users'' d) (dget ''check_probability'' d)
      (dget ''cooldown_seconds'' d) (dget ''ignored_edit_summaries'' d) (dget ''job_history_limit'' d)
      (dget ''autonomous_agent_enabled'' d) (dget ''translation_prefilter_enabled'' d) = Inr s"
proof -
  define keep where "keep = (\<lambda>k. k \<notin> {''autonomous_agent_enabled'', ''job_history_limit'',
    ''translation_prefilter_enabled''})"
  obtain d where d: "p = JDict d" using assms by (cases p) (auto simp: from_payload_def invalid_def)
  define m where "m = filter (\<lambda>p. keep (fst p)) d"
  have g: "dget k m = dget k d" if "keep k" for k
    using that unfolding dget_def m_def by (subst map_of_filter_key) simp
  have "from_monitoring_payload (JDict m) (dget ''job_history_limit'' d)
      (dget ''autonomous_agent_enabled'' d) (dget ''translation_prefilter_enabled'' d) = Inr s"
    using assms unfolding d from_payload_def json.case m_def keep_def
    by (auto simp only: invalid_def split: if_splits)
  then have "make_settings (dget ''watched_users'' m) (dget ''check_probability'' m)
      (dget ''cooldown_seconds'' m) (dget ''ignored_edit_summaries'' m) (dget ''job_history_limit'' d)
      (dget ''autonomous_agent_enabled'' d) (dget ''translation_prefilter_enabled'' d) = Inr s"
    unfolding from_monitoring_payload_def json.case by (auto simp only: invalid_def split: if_splits)
  moreover have "keep ''watched_users''" "keep ''check_probability''" "keep ''cooldown_seconds''"
    "keep ''ignored_edit_summaries''" by (simp_all add: keep_def)
  ultimately show thesis using d by (intro that [of d]) (simp_all only: g)
qed

lemma from_payload_wf: "from_payload p = Inr s \<Longrightarrow> wf_settings s"
  by (elim from_payload_made) (rule make_settings_wf(1))

lemma canonical_users_spec:
  "canonical_users v = Inr us \<longleftrightarrow> (\<exists>vs. v = JList vs \<and> canonical_users_from vs [] = Inr us)"
  by (cases v) (auto simp: invalid_def)

subsection \<open>Properties\<close>

definition settings_writes :: "(io \<times> settings) list \<Rightarrow> settings_store \<Rightarrow> settings_store" where
  "settings_writes ops st = foldl (\<lambda>st p. fst (settings_set (fst p) (snd p) st)) st ops"

text \<open>
  C15: Round trip of the page-checker settings.  A payload the service accepts
  serialises to a payload that is accepted again and gives the same settings; and after
  any run of complete writes, each acknowledged, refused or lost in transit, a read
  returns the last settings that reached Redis, although they are spread over four keys
  and the main one is in the format of an older release.
\<close>

theorem settings_round_trip:
  assumes "from_payload p = Inr s" and "\<forall>op \<in> set ops. wf_settings (snd op)"
  shows "from_payload (JDict (serialise s)) = Inr s \<and>
    settings_get True (settings_writes (ops @ [(Acked, s)]) st) = Inr s \<and>
    settings_get True (settings_writes ops st) =
      (case filter (\<lambda>op. fst op \<noteq> Refused) ops of
         [] \<Rightarrow> settings_get True st
       | reached \<Rightarrow> Inr (snd (last reached)))"
proof (intro conjI)
  note s = from_payload_wf [OF assms(1)]
  show "from_payload (JDict (serialise s)) = Inr s" using s by (rule from_payload_serialised)
  show "settings_get True (settings_writes (ops @ [(Acked, s)]) st) = Inr s"
    using page_settings.read_written [OF s] by (simp add: settings_writes_def)
  show "settings_get True (settings_writes ops st) =
      (case filter (\<lambda>op. fst op \<noteq> Refused) ops of
         [] \<Rightarrow> settings_get True st | reached \<Rightarrow> Inr (snd (last reached)))"
    using page_settings.read_after_writes [OF assms(2), of st]
    by (simp add: settings_writes_def page_settings.writes_def)
qed

definition demo_payload :: json where
  "demo_payload = JDict
    [(''watched_users'', JList [JStr '' bot_Jagwar '', JStr ''Bot Jagwar'', JStr ''Jagwar'']),
     (''check_probability'', JFloat (Finite (25/2))), (''cooldown_seconds'', JInt 0),
     (''ignored_edit_summaries'', JList []), (''job_history_limit'', JInt 100000),
     (''autonomous_agent_enabled'', JBool True), (''translation_prefilter_enabled'', JBool False)]"

definition demo_settings :: settings where
  "demo_settings =
    \<lparr>watched_users = [''bot_Jagwar'', ''Jagwar''], check_probability = JFloat (Finite (25/2)),
     cooldown_seconds = JInt 0, ignored_edit_summaries = [], job_history_limit = 100000,
     autonomous_agent_enabled = True, translation_prefilter_enabled = False\<rparr>"

definition no_settings :: settings_store where
  "no_settings = \<lparr>raw_settings = None, raw_agent = None, raw_limit = None, raw_prefilter = None\<rparr>"

lemma demo_payload_accepted: "from_payload demo_payload = Inr demo_settings"
  by code_simp

lemma no_settings_default: "settings_get True no_settings = Inr default_settings"
  by code_simp

lemma settings_round_trip_witness:
  "from_payload (JDict (serialise demo_settings)) = Inr demo_settings \<and>
   settings_get True (settings_writes [(Unacked, demo_settings), (Refused, default_settings)] no_settings) =
     Inr demo_settings"
  using settings_round_trip [OF demo_payload_accepted,
      of "[(Unacked, demo_settings), (Refused, default_settings)]" no_settings]
    from_payload_wf [OF demo_payload_accepted] default_settings_wf
  by simp

text \<open>
  C16: What an accepted payload becomes: the user names are the stripped names of the
  payload in order, each normal form kept once in its first spelling, none blank; the
  numbers are the payload's own and lie in their documented ranges.
\<close>

theorem accepted_settings_are_canonical:
  assumes "from_payload p = Inr s"
  shows "(\<exists>d names. p = JDict d \<and> dget ''watched_users'' d = JList (map JStr names) \<and>
      watched_users s = first_by normalize_username (map strip names) \<and>
      check_probability s = dget ''check_probability'' d \<and>
      cooldown_seconds s = dget ''cooldown_seconds'' d) \<and>
    distinct (map normalize_username (watched_users s)) \<and> [] \<notin> set (watched_users s) \<and>
    in_range 0 100 (check_probability s) \<and> in_range 0 86400 (cooldown_seconds s) \<and>
    1 \<le> job_history_limit s \<and> job_history_limit s \<le> 100000"
proof -
  obtain d where d: "p = JDict d" and made: "make_settings (dget ''watched_users'' d)
      (dget ''check_probability'' d) (dget ''cooldown_seconds'' d) (dget ''ignored_edit_summaries'' d)
      (dget ''job_history_limit'' d) (dget ''autonomous_agent_enabled'' d)
      (dget ''translation_prefilter_enabled'' d) = Inr s"
    using from_payload_made [OF assms] .
  then have "canonical_users (dget ''watched_users'' d) = Inr (watched_users s)"
    by (auto simp: make_settings_def bnd_Inr_iff)
  then obtain vs where vs: "dget ''watched_users'' d = JList vs"
    "canonical_users_from vs [] = Inr (watched_users s)"
    by (auto simp: canonical_users_spec)
  from vs(2) have v: "list_all is_str vs"
    "watched_users s = first_by normalize_username (map strip (map py_str vs))"
    by (simp_all add: canonical_users_from_spec o_def)
  have "map JStr (map py_str vs) = vs"
    using v(1) by (induction vs) (auto simp: is_str_iff)
  with d vs v(2) make_settings_wf(2,3) [OF made]
  have "\<exists>d names. p = JDict d \<and> dget ''watched_users'' d = JList (map JStr names) \<and>
      watched_users s = first_by normalize_username (map strip names) \<and>
      check_probability s = dget ''check_probability'' d \<and>
      cooldown_seconds s = dget ''cooldown_seconds'' d" by metis
  moreover have "canonical_names (watched_users s)"
    "in_range 0 100 (check_probability s)" "in_range 0 86400 (cooldown_seconds s)"
    "1 \<le> job_history_limit s" "job_history_limit s \<le> 100000"
    using make_settings_wf(1) [OF made]
    by (simp_all add: wf_settings_def max_cooldown_seconds_def in_range_limit)
  ultimately show ?thesis by (auto simp: canonical_names_def list_all_iff)
qed

lemma accepted_settings_are_canonical_witness:
  "watched_users demo_settings = first_by normalize_username [''bot_Jagwar'', ''Bot Jagwar'', ''Jagwar''] \<and>
   in_range 0 100 (check_probability demo_settings)"
proof
  show "in_range 0 100 (check_probability demo_settings)"
    using accepted_settings_are_canonical [OF demo_payload_accepted] by blast
  show "watched_users demo_settings = first_by normalize_username [''bot_Jagwar'', ''Bot Jagwar'', ''Jagwar'']"
    by code_simp
qed

text \<open>
  The four setters change one setting each: when the settings can be read before, they
  can be read after, and they are the old ones or, exactly when the write reached Redis,
  the old ones with the one field (or the four monitoring fields) replaced; a job-history
  limit outside 1..100000 is refused and changes nothing.
\<close>

theorem setters_change_one_setting:
  assumes "settings_get True st = Inr s" and "change_ok c" and "apply_change i c st = (st', r)"
  shows "settings_get True st' = Inr (if i = Refused then s else changed c s) \<and>
    (is_ok r \<longleftrightarrow> i = Acked \<and> (\<forall>n. c = SetLimit n \<longrightarrow> 1 \<le> n \<and> n \<le> 100000))"
proof
  show "settings_get True st' = Inr (if i = Refused then s else changed c s)"
    using apply_change_fst [OF assms(1,2), of i] assms(3) by simp
  have r: "r = snd (apply_change i c st)" using assms(3) by simp
  show "is_ok r \<longleftrightarrow> i = Acked \<and> (\<forall>n. c = SetLimit n \<longrightarrow> 1 \<le> n \<and> n \<le> 100000)"
  proof (cases c)
    case (SetMonitoring m)
    then have "dumps (JDict (serialise_monitoring m)) = Inr (Text (JDict (serialise_monitoring m)))"
      using assms(2) serialise_monitoring_finite by (simp add: dumps_def)
    with SetMonitoring r show ?thesis by (simp add: settings_set_monitoring_def settings_write_parts)
  qed (auto simp: r settings_set_agent_def settings_set_prefilter_def settings_set_limit_def
      make_default_limit settings_write_parts invalid_def)
qed

lemma setters_change_one_setting_witness:
  "settings_get True (fst (apply_change Acked (SetLimit 7) no_settings)) =
    Inr (default_settings\<lparr>job_history_limit := 7\<rparr>)"
  using setters_change_one_setting [OF no_settings_default, of "SetLimit 7" Acked
      "fst (apply_change Acked (SetLimit 7) no_settings)" "snd (apply_change Acked (SetLimit 7) no_settings)"]
  by simp

text \<open>
  The definition-translation settings: both payload shapes are read, the one-flag
  shape keeping the current round-trip flag and every other value being refused; and
  after any run of writes a read returns the last settings that reached Redis.
\<close>

theorem definition_settings_round_trip:
  "definition_from_payload (JDict (definition_serialise s)) c = Inr s \<and>
   definition_from_payload (JDict [(gate_key, JBool b)]) (Some s) = Inr (s\<lparr>basic_english_gate := b\<rparr>) \<and>
   definition_settings_get True (foldl (\<lambda>st p. fst (definition_settings_set (fst p) (snd p) st)) st ops) =
     (case filter (\<lambda>op. fst op \<noteq> Refused) ops of
        [] \<Rightarrow> definition_settings_get True st
      | reached \<Rightarrow> Inr (snd (last reached)))"
proof (intro conjI)
  show "definition_from_payload (JDict (definition_serialise s)) c = Inr s"
    by (rule definition_payload_serialised)
  show "definition_from_payload (JDict [(gate_key, JBool b)]) (Some s) = Inr (s\<lparr>basic_english_gate := b\<rparr>)"
    by (simp add: definition_from_payload_def keys_are_def dhas_def dget_def dget_or_def gate_key_def
        roundtrip_key_def)
qed (use gate_settings.read_after_writes [of ops st] in \<open>simp add: gate_settings.writes_def\<close>)

end
