(* ===== verification/ReviewQueue.thy ===== *)
theory ReviewQueue
  imports RedisIO "HOL-Library.List_Lexorder" "HOL-Library.Char_ord"
begin

text \<open>
  \<open>api/services/page_check_review_queue.py\<close>: the bounded review event built from a
  terminal page-check job, its validation, and its transport through RabbitMQ.  A message
  body is its length in bytes and what its text parses to.
\<close>

subsection \<open>JSON text\<close>

definition hex_digit :: "nat \<Rightarrow> char" where
  "hex_digit n = char_of (if n < 10 then n + 48 else n + 87)"

text \<open>The escapes of \<open>json.dumps\<close> with \<open>ensure_ascii=False\<close>.\<close>

definition json_char :: "char \<Rightarrow> string" where
  "json_char c = (let n = code c; backslash = char_of (92::nat) in
     if n = 34 \<or> n = 92 then [backslash, c]
     else if n = 10 then [backslash, CHR ''n'']
     else if n = 13 then [backslash, CHR ''r'']
     else if n = 9 then [backslash, CHR ''t'']
     else if n = 12 then [backslash, CHR ''f'']
     else if n = 8 then [backslash, CHR ''b'']
     else if n < 32 then [backslash, CHR ''u'', CHR ''0'', CHR ''0'', hex_digit (n div 16), hex_digit (n mod 16)]
     else [c])"

definition json_str :: "string \<Rightarrow> string" where
  "json_str s = [char_of (34::nat)] @ concat (map json_char s) @ [char_of (34::nat)]"

fun json_text :: "string \<Rightarrow> string \<Rightarrow> json \<Rightarrow> string" where
  "json_text item key JNull = ''null''"
| "json_text item key (JBool b) = (if b then ''true'' else ''false'')"
| "json_text item key (JInt i) = int_str i"
| "json_text item key (JFloat f) = float_str f"
| "json_text item key (JStr s) = json_str s"
| "json_text item key (JList xs) = ''['' @ join item (map (json_text item key) xs) @ '']''"
| "json_text item key (JDict d) =
    ''{'' @ join item (map (\<lambda>p. json_str (fst p) @ key @ json_text item key (snd p)) d) @ ''}''"

fun sort_json :: "json \<Rightarrow> json" where
  "sort_json (JList xs) = JList (map sort_json xs)"
| "sort_json (JDict d) = JDict (sort_key fst (map (\<lambda>p. (fst p, sort_json (snd p))) d))"
| "sort_json v = v"

record body =
  body_bytes :: nat
  body_text :: raw

definition queue_error :: "string \<Rightarrow> exn" where
  "queue_error message = PageCheckReviewQueueError message"

definition encode_message :: "json \<Rightarrow> body res" where
  "encode_message message =
    (if json_finite message
     then Inr \<lparr>body_bytes = utf8_len (json_text '','' '':'' (sort_json message)),
               body_text = Text (sort_json message)\<rparr>
     else Inl (queue_error ''Page-check review message is not JSON serializable.''))"

subsection \<open>Bounded fields\<close>

definition max_message_bytes :: nat where "max_message_bytes = 32000"
definition max_message_length :: nat where "max_message_length = 1000"
definition max_issues :: nat where "max_issues = 8"
definition max_description_length :: nat where "max_description_length = 1000"
definition max_entry_bytes :: nat where "max_entry_bytes = 8000"

definition reviewable_outcomes :: "string list" where
  "reviewable_outcomes = [''unverifiable'', ''error'']"

fun valid_page_title :: "json \<Rightarrow> bool" where
  "valid_page_title (JStr s) \<longleftrightarrow> s \<noteq> [] \<and> s = strip s \<and> length s \<le> 512 \<and> \<not> list_ex (\<lambda>c. code c < 32) s"
| "valid_page_title v \<longleftrightarrow> False"

definition bounded_text :: "json \<Rightarrow> nat \<Rightarrow> json" where
  "bounded_text v n = JStr (take n (py_str (py_or v (JStr []))))"

definition bounded_optional_text :: "json \<Rightarrow> nat \<Rightarrow> json" where
  "bounded_optional_text v n = (if v = JNull then JNull else bounded_text v n)"

definition bounded_optional_page_title :: "json \<Rightarrow> json" where
  "bounded_optional_page_title v = (if valid_page_title v then v else JNull)"

fun bounded_issue_list :: "json list \<Rightarrow> json list" where
  "bounded_issue_list [] = []"
| "bounded_issue_list (JDict issue # issues) =
    JDict [(''type'', bounded_text (dget ''type'' issue) 128),
           (''description'', bounded_text (dget ''description'' issue) max_description_length)]
    # bounded_issue_list issues"
| "bounded_issue_list (v # issues) = bounded_issue_list issues"

fun bounded_issues :: "json \<Rightarrow> json" where
  "bounded_issues (JList issues) = JList (bounded_issue_list (take max_issues issues))"
| "bounded_issues v = JList []"

fun str_within :: "nat \<Rightarrow> json \<Rightarrow> bool" where
  "str_within n (JStr s) \<longleftrightarrow> length s \<le> n"
| "str_within n v \<longleftrightarrow> False"

fun valid_issue :: "json \<Rightarrow> bool" where
  "valid_issue (JDict issue) \<longleftrightarrow> keys_are [''type'', ''description''] issue \<and>
     str_within 128 (dget ''type'' issue) \<and> str_within max_description_length (dget ''description'' issue)"
| "valid_issue v \<longleftrightarrow> False"

fun valid_issues :: "json \<Rightarrow> bool" where
  "valid_issues (JList issues) \<longleftrightarrow> length issues \<le> max_issues \<and> list_all valid_issue issues"
| "valid_issues v \<longleftrightarrow> False"

fun bounded_entry :: "json \<Rightarrow> json" where
  "bounded_entry (JDict d) =
    (if json_finite (JDict d) \<and> utf8_len (json_text '', '' '': '' (JDict d)) \<le> max_entry_bytes
     then JDict d else JNull)"
| "bounded_entry v = JNull"

subsection \<open>Validation\<close>

definition message_fields :: "string list" where
  "message_fields = [''kind'', ''schema_version'', ''event_id'', ''job_id'', ''queued_at'', ''language'',
     ''title'', ''outcome'', ''message'', ''source_language'', ''source_title'', ''issues'', ''mg_entry'']"

text \<open>
  \<open>math.isfinite\<close> converts an int to a float, which raises from the given bound on.
\<close>

definition float_overflow :: int where
  "float_overflow = 2 ^ 1024 - 2 ^ 970"

fun is_finite_number :: "json \<Rightarrow> bool res" where
  "is_finite_number (JInt i) =
    (if float_overflow \<le> \<bar>i\<bar> then Inl (OtherError ''OverflowError'') else Inr True)"
| "is_finite_number (JFloat f) = Inr (isfinite f)"
| "is_finite_number v = Inr False"

fun str_or_empty :: "json \<Rightarrow> string" where
  "str_or_empty (JStr s) = s"
| "str_or_empty v = []"

definition event_prefix :: string where "event_prefix = ''page-check:''"

definition head_fields_ok :: "dict \<Rightarrow> bool" where
  "head_fields_ok m \<longleftrightarrow>
    dget ''kind'' m = JStr ''page-check-review'' \<and>
    py_eq (dget ''schema_version'' m) (JInt 1) \<and>
    is_str (dget ''event_id'' m) \<and> startswith (str_or_empty (dget ''event_id'' m)) event_prefix \<and>
    is_str (dget ''job_id'' m) \<and> dget ''job_id'' m \<noteq> JStr [] \<and> str_within 512 (dget ''job_id'' m) \<and>
    dget ''event_id'' m = JStr (event_prefix @ str_or_empty (dget ''job_id'' m))"

definition tail_fields_ok :: "dict \<Rightarrow> bool" where
  "tail_fields_ok m \<longleftrightarrow>
    str_within max_message_length (dget ''message'' m) \<and>
    valid_issues (dget ''issues'' m) \<and>
    (dget ''source_language'' m = JNull \<or> str_within 32 (dget ''source_language'' m)) \<and>
    (dget ''source_title'' m = JNull \<or> valid_page_title (dget ''source_title'' m)) \<and>
    (dget ''mg_entry'' m = JNull \<or> bounded_entry (dget ''mg_entry'' m) \<noteq> JNull)"

definition validate_review_message :: "json \<Rightarrow> dict res" where
  "validate_review_message message =
    (case message of
       JDict m \<Rightarrow>
         if \<not> keys_are message_fields m
         then Inl (queue_error ''Page-check review message has an invalid shape.'')
         else
           let bad = Inl (queue_error ''Page-check review message is invalid.'') in
           if \<not> head_fields_ok m \<or> num_of (dget ''queued_at'' m) = None then bad
           else bnd (is_finite_number (dget ''queued_at'' m)) (\<lambda>finite.
             if \<not> finite \<or> \<not> is_str (dget ''language'' m) \<or> dget ''language'' m = JStr []
                \<or> \<not> str_within 32 (dget ''language'' m) \<or> \<not> valid_page_title (dget ''title'' m) then bad
             else bnd (py_in (dget ''outcome'' m) reviewable_outcomes) (\<lambda>reviewable.
               if \<not> reviewable \<or> \<not> tail_fields_ok m then bad
               else bnd (encode_message message) (\<lambda>encoded.
                 if max_message_bytes < body_bytes encoded
                 then Inl (queue_error ''Page-check review message is too large.'')
                 else Inr m)))
     | _ \<Rightarrow> Inl (queue_error ''Page-check review message must be an object.''))"

subsection \<open>Building the event\<close>

definition review_result :: "dict \<Rightarrow> json \<Rightarrow> dict res" where
  "review_result job title =
    (if dget ''status'' job = JStr ''error'' then
       Inr [(''word'', title), (''status'', JStr ''error''),
            (''message'', JStr (py_str (py_or (dget ''error'' job) (JStr ''The page check job failed.'')))),
            (''source_language'', JNull), (''source_title'', JNull), (''issues'', JList []),
            (''mg_entry'', JNull)]
     else case dget ''results'' job of
       JList [JDict result] \<Rightarrow> Inr result
     | _ \<Rightarrow> Inl (queue_error ''Completed page-check review jobs require exactly one result.''))"

definition review_message :: "string \<Rightarrow> string \<Rightarrow> json \<Rightarrow> json \<Rightarrow> json \<Rightarrow> dict \<Rightarrow> dict" where
  "review_message job_id language title queued_at outcome result =
    [(''kind'', JStr ''page-check-review''), (''schema_version'', JInt 1),
     (''event_id'', JStr (event_prefix @ job_id)), (''job_id'', JStr job_id),
     (''queued_at'', queued_at), (''language'', JStr language), (''title'', title),
     (''outcome'', outcome), (''message'', bounded_text (dget ''message'' result) max_message_length),
     (''source_language'', bounded_optional_text (dget ''source_language'' result) 32),
     (''source_title'', bounded_optional_page_title (dget ''source_title'' result)),
     (''issues'', bounded_issues (dget ''issues'' result)),
     (''mg_entry'', bounded_entry (dget ''mg_entry'' result))]"

definition build_review_message :: "dict \<Rightarrow> json \<Rightarrow> dict res" where
  "build_review_message job queued_at =
    (case (dget ''job_id'' job, dget ''language'' job, dget ''titles'' job) of
       (JStr (c # cs), language, titles) \<Rightarrow>
         (case language of
            JStr (l # ls) \<Rightarrow>
              (case titles of
                 JList [title] \<Rightarrow>
                   if \<not> valid_page_title title
                   then Inl (queue_error ''Page-check review jobs must identify exactly one title.'')
                   else
                     bnd (review_result job title) (\<lambda>result.
                     bnd (dindex ''status'' result) (\<lambda>outcome.
                     bnd (py_in outcome reviewable_outcomes) (\<lambda>reviewable.
                       if \<not> reviewable
                       then Inl (queue_error (''Page-check outcome '' @ [char_of (39::nat)] @ py_str outcome
                         @ [char_of (39::nat)] @ '' does not require manual review.''))
                       else
                         let message = review_message (c # cs) (l # ls) title queued_at outcome result in
                         bnd (encode_message (JDict message)) (\<lambda>encoded.
                           if max_message_bytes < body_bytes encoded
                           then Inl (queue_error ''Page-check review message is too large.'')
                           else validate_review_message (JDict message)))))
               | _ \<Rightarrow> Inl (queue_error ''Page-check review jobs must identify exactly one title.''))
          | _ \<Rightarrow> Inl (queue_error ''Page-check review jobs require a language.''))
     | _ \<Rightarrow> Inl (queue_error ''Page-check review jobs require a job ID.''))"

end
