(* ===== verification/ReviewTransport.thy ===== *)
theory ReviewTransport
  imports ReviewQueue "HOL-Library.Multiset"
begin

text \<open>
  The RabbitMQ side of \<open>api/services/page_check_review_queue.py\<close>: publishing one event and
  transferring the next one into a caller's store, and the facts about the sorted JSON text
  that make what is published valid when it is received.
\<close>

subsection \<open>Publishing and transferring\<close>

text \<open>
  \<open>discarded\<close> holds what was rejected without requeueing.  A \<open>link\<close> says which calls
  succeed: connecting and declaring, \<open>basic_get\<close>, the publication or the acknowledgement,
  whether channel and connection are open at cleanup, and the rejection.  The broker puts
  an unacknowledged delivery back in its place when it is rejected for requeueing or when
  the connection ends.
\<close>

record review_broker =
  inbox :: "body list"
  discarded :: "body list"

record link =
  opens :: bool
  gets :: bool
  answers :: io
  alive :: bool
  disposes :: io

definition publish_message :: "link \<Rightarrow> json \<Rightarrow> review_broker \<Rightarrow> review_broker \<times> json res" where
  "publish_message l message b =
    (case validate_review_message message of
       Inl e \<Rightarrow> (b, Inl e)
     | Inr m \<Rightarrow>
       let unqueued = Inl (queue_error ''Page-check review message could not be queued.'') in
       if \<not> opens l then (b, unqueued)
       else case encode_message (JDict m) of
         Inl e \<Rightarrow> (b, Inl e)
       | Inr body \<Rightarrow>
         (case answers l of
            Acked \<Rightarrow> (b\<lparr>inbox := inbox b @ [body]\<rparr>, Inr (dget ''event_id'' m))
          | Refused \<Rightarrow> (b, unqueued)
          | Unacked \<Rightarrow> (b\<lparr>inbox := inbox b @ [body]\<rparr>, unqueued)))"

definition publish_job :: "link \<Rightarrow> json \<Rightarrow> dict \<Rightarrow> review_broker \<Rightarrow> review_broker \<times> json res" where
  "publish_job l queued_at job b =
    (case build_review_message job queued_at of
       Inl e \<Rightarrow> (b, Inl e)
     | Inr m \<Rightarrow> publish_message l (JDict m) b)"

definition read_delivery :: "body \<Rightarrow> dict res" where
  "read_delivery body =
    (if max_message_bytes < body_bytes body
     then Inl (queue_error ''Page-check review message is too large.'')
     else bnd (loads (body_text body)) validate_review_message)"

fun is_queue_error :: "exn \<Rightarrow> bool" where
  "is_queue_error (PageCheckReviewQueueError m) = True"
| "is_queue_error e = False"

text \<open>What \<open>except (..., json.JSONDecodeError, PageCheckReviewQueueError)\<close> catches.\<close>

definition is_invalid_delivery :: "exn \<Rightarrow> bool" where
  "is_invalid_delivery e \<longleftrightarrow> e \<in> {ValueError, AttributeError, OtherError ''RecursionError''} \<or> is_queue_error e"

definition unread :: exn where
  "unread = queue_error ''Page-check review queue could not be read.''"

text \<open>\<open>except (OSError, AMQPError)\<close> around the whole transfer.\<close>

definition wrap_link_error :: "exn \<Rightarrow> exn" where
  "wrap_link_error e = (if e \<in> {OtherError ''OSError'', OtherError ''AMQPError''} then unread else e)"

definition dispose :: "bool \<Rightarrow> link \<Rightarrow> body \<Rightarrow> body list \<Rightarrow> review_broker \<Rightarrow> review_broker" where
  "dispose requeue l body rest b =
    (if \<not> requeue \<and> alive l \<and> disposes l \<noteq> Refused
     then b\<lparr>inbox := rest, discarded := discarded b @ [body]\<rparr> else b)"

definition transfer_next ::
  "link \<Rightarrow> ('s \<Rightarrow> dict \<Rightarrow> 's \<times> 'a res) \<Rightarrow> 's \<Rightarrow> review_broker \<Rightarrow> 's \<times> review_broker \<times> 'a option res" where
  "transfer_next l accept s b =
    (if \<not> opens l \<or> \<not> gets l then (s, b, Inl unread)
     else case inbox b of
       [] \<Rightarrow> (s, b, Inr None)
     | body # rest \<Rightarrow>
       (case read_delivery body of
          Inl e \<Rightarrow>
            if is_invalid_delivery e
            then (s, dispose False l body rest b,
              Inl (queue_error ''RabbitMQ returned an invalid page-check review message.''))
            else (s, dispose True l body rest b, Inl (wrap_link_error e))
        | Inr message \<Rightarrow>
          (case accept s message of
             (s', Inl e) \<Rightarrow>
               (s', dispose (\<not> is_queue_error e) l body rest b, Inl (wrap_link_error e))
           | (s', Inr x) \<Rightarrow>
             (case answers l of
                Acked \<Rightarrow> (s', b\<lparr>inbox := rest\<rparr>, Inr (Some x))
              | Refused \<Rightarrow> (s', dispose True l body rest b, Inl unread)
              | Unacked \<Rightarrow> (s', b\<lparr>inbox := rest\<rparr>, Inl unread)))))"

subsection \<open>Sorting the keys keeps length, finiteness and fields\<close>

lemma utf8_len_append [simp]: "utf8_len (s @ t) = utf8_len s + utf8_len t"
  by (simp add: utf8_len_def)

lemma utf8_len_Cons: "utf8_len (c # s) = (if code c < 128 then 1 else 2) + utf8_len s"
  by (simp add: utf8_len_def)

lemma utf8_len_join:
  "utf8_len (join sep xs) = sum_list (map utf8_len xs) + (length xs - 1) * utf8_len sep"
  by (induction sep xs rule: join.induct) (simp_all add: utf8_len_def)

lemma sum_list_sort_key: "sum_list (map g (sort_key f xs)) = (sum_list (map g xs) :: nat)"
  by (metis mset_map mset_sort sum_mset_sum_list)

lemma json_text_sort: "utf8_len (json_text item key (sort_json v)) = utf8_len (json_text item key v)"
proof (induction v)
  case (JList xs)
  then have "map utf8_len (map (json_text item key) (map sort_json xs)) =
      map utf8_len (map (json_text item key) xs)" by simp
  then show ?case
    unfolding sort_json.simps json_text.simps utf8_len_append utf8_len_join length_map
    by (simp only:)
next
  case (JDict d)
  let ?g = "\<lambda>p. utf8_len (json_str (fst p) @ key @ json_text item key (snd p))"
  have "sum_list (map ?g (sort_key fst (map (\<lambda>p. (fst p, sort_json (snd p))) d))) =
    sum_list (map ?g (map (\<lambda>p. (fst p, sort_json (snd p))) d))" by (rule sum_list_sort_key)
  also have "map ?g (map (\<lambda>p. (fst p, sort_json (snd p))) d) = map ?g d"
    using JDict by (auto simp: snds.simps)
  finally show ?case
    unfolding sort_json.simps json_text.simps utf8_len_append utf8_len_join length_map map_map o_def
    by simp
qed simp_all

lemma json_finite_sort [simp]: "json_finite (sort_json v) = json_finite v"
proof (induction v)
  case (JList xs)
  then show ?case by (auto simp: list_all_iff)
next
  case (JDict d)
  then show ?case by (auto simp: list_all_iff snds.simps)
qed simp_all

lemma map_of_filter: "map_of d k = map_of (filter (\<lambda>p. fst p = k) d) k"
  by (induction d) auto

lemma map_of_sort_key [simp]: "map_of (sort_key fst d) k = map_of d k"
  using map_of_filter [of "sort_key fst d" k] map_of_filter [of d k]
  by (simp only: sort_key_stable)

definition sorted_dict :: "dict \<Rightarrow> dict" where
  "sorted_dict d = sort_key fst (map (\<lambda>p. (fst p, sort_json (snd p))) d)"

lemma sort_json_JDict: "sort_json (JDict d) = JDict (sorted_dict d)"
  by (simp add: sorted_dict_def)

lemma map_of_sorted_dict: "map_of (sorted_dict d) k = map_option sort_json (map_of d k)"
proof -
  have "map_of (sorted_dict d) k = map_of (map (\<lambda>p. (fst p, sort_json (snd p))) d) k"
    by (simp add: sorted_dict_def)
  also have "\<dots> = map_option sort_json (map_of d k)" by (induction d) auto
  finally show ?thesis .
qed

lemma dget_sorted [simp]: "dget k (sorted_dict d) = sort_json (dget k d)"
  by (simp add: dget_def map_of_sorted_dict split: option.splits)

lemma dhas_sorted [simp]: "dhas k (sorted_dict d) = dhas k d"
  by (simp add: dhas_def map_of_sorted_dict)

lemma keys_are_sorted [simp]: "keys_are ks (sorted_dict d) = keys_are ks d"
  by (auto simp: keys_are_def sorted_dict_def dhas_sorted [unfolded sorted_dict_def])

lemma sort_json_idem [simp]: "sort_json (sort_json v) = sort_json v"
proof (induction v)
  case (JList xs)
  then show ?case by simp
next
  case (JDict d)
  let ?m = "map (\<lambda>p. (fst p, sort_json (snd p)))"
  have "?m (sort_key fst (?m d)) = sort_key fst (?m d)"
    using JDict by (intro map_idI) (auto simp: snds.simps)
  moreover have "sort_key fst (sort_key fst (?m d)) = sort_key fst (?m d)"
    by (intro sort_key_id_if_sorted) (rule sorted_sort_key)
  ultimately show ?case by simp
qed simp_all

lemma sort_json_consts [simp]:
  "sort_json v = JNull \<longleftrightarrow> v = JNull" "sort_json v = JStr s \<longleftrightarrow> v = JStr s"
  "num_of (sort_json v) = num_of v" "is_str (sort_json v) = is_str v"
  "str_within n (sort_json v) = str_within n v" "valid_page_title (sort_json v) = valid_page_title v"
  "str_or_empty (sort_json v) = str_or_empty v" "py_in (sort_json v) ss = py_in v ss"
  "is_finite_number (sort_json v) = is_finite_number v"
  by (cases v; simp add: py_in_def)+

lemma valid_issue_sort [simp]: "valid_issue (sort_json v) = valid_issue v"
  by (cases v) (simp_all del: sort_json.simps add: sort_json_JDict sort_json.simps(1,3-))

lemma valid_issues_sort [simp]: "valid_issues (sort_json v) = valid_issues v"
  by (cases v) (simp_all del: sort_json.simps(2) add: sort_json_JDict list_all_iff)

lemma bounded_entry_sort [simp]: "bounded_entry (sort_json v) = JNull \<longleftrightarrow> bounded_entry v = JNull"
proof (cases v)
  case (JDict d)
  have "json_finite (JDict (sorted_dict d)) = json_finite (JDict d)"
    using json_finite_sort [of v] unfolding JDict sort_json_JDict .
  moreover have "utf8_len (json_text i k (JDict (sorted_dict d))) = utf8_len (json_text i k (JDict d))" for i k
    using json_text_sort [of i k v] unfolding JDict sort_json_JDict .
  ultimately have "bounded_entry (JDict (sorted_dict d)) = JNull \<longleftrightarrow> bounded_entry (JDict d) = JNull"
    unfolding bounded_entry.simps by (metis json.distinct(11))
  then show ?thesis unfolding JDict sort_json_JDict .
qed simp_all

lemma py_eq_sort_int [simp]: "py_eq (sort_json v) (JInt i) = py_eq v (JInt i)"
  by (cases v) simp_all

lemma encode_sorted:
  "encode_message (JDict (sorted_dict m)) = encode_message (JDict m)"
proof -
  have "sort_json (JDict (sorted_dict m)) = sort_json (JDict m)"
    using sort_json_idem [of "JDict m"] unfolding sort_json_JDict .
  moreover have "json_finite (JDict (sorted_dict m)) = json_finite (JDict m)"
    using json_finite_sort [of "JDict m"] unfolding sort_json_JDict .
  ultimately show ?thesis unfolding encode_message_def by simp
qed

lemma validate_Inr:
  "validate_review_message v = Inr m \<longleftrightarrow>
    v = JDict m \<and> keys_are message_fields m \<and> head_fields_ok m \<and>
    num_of (dget ''queued_at'' m) \<noteq> None \<and> is_finite_number (dget ''queued_at'' m) = Inr True \<and>
    dget ''language'' m \<noteq> JStr [] \<and> str_within 32 (dget ''language'' m) \<and> valid_page_title (dget ''title'' m) \<and>
    in_strs (dget ''outcome'' m) reviewable_outcomes \<and> tail_fields_ok m \<and>
    (\<exists>body. encode_message (JDict m) = Inr body \<and> body_bytes body \<le> max_message_bytes)"
proof -
  have str: "is_str v" if "str_within n v" for n v using that by (cases v) auto
  show ?thesis
    by (cases v) (auto simp: validate_review_message_def Let_def bnd_Inr_iff py_in_True_iff
        not_less str split: if_splits)
qed

lemma head_sorted [simp]: "head_fields_ok (sorted_dict m) = head_fields_ok m"
  by (simp add: head_fields_ok_def)

lemma tail_sorted [simp]: "tail_fields_ok (sorted_dict m) = tail_fields_ok m"
  by (simp add: tail_fields_ok_def)

lemma in_strs_sort [simp]: "in_strs (sort_json v) ss = in_strs v ss"
  by (cases v) simp_all

lemma validate_sorted:
  "validate_review_message (JDict m) = Inr m \<Longrightarrow>
    validate_review_message (JDict (sorted_dict m)) = Inr (sorted_dict m)"
  unfolding validate_Inr encode_sorted by simp

text \<open>The body of a valid message is read as the message with its keys sorted.\<close>

lemma read_encoded:
  assumes "validate_review_message (JDict m) = Inr m" and "encode_message (JDict m) = Inr body"
  shows "read_delivery body = Inr (sorted_dict m)"
proof -
  have "body_text body = Text (JDict (sorted_dict m))"
    using assms(2) unfolding encode_message_def sort_json_JDict by (auto split: if_splits)
  moreover have "body_bytes body \<le> max_message_bytes" using assms by (auto simp: validate_Inr)
  ultimately show ?thesis by (simp add: read_delivery_def validate_sorted [OF assms(1)])
qed

end
