(* ===== verification/ReviewProps.thy ===== *)
theory ReviewProps
  imports ReviewTransport
begin

text \<open>Properties of the page-check review event and its transport.\<close>

subsection \<open>What the builder makes is valid\<close>

lemma str_within_bounded_text [simp]: "n \<le> k \<Longrightarrow> str_within k (bounded_text v n)"
  by (simp add: bounded_text_def)

lemma bounded_issue_list_length: "length (bounded_issue_list vs) \<le> length vs"
  by (induction vs rule: bounded_issue_list.induct) auto

lemma bounded_issue_list_valid: "list_all valid_issue (bounded_issue_list vs)"
  by (induction vs rule: bounded_issue_list.induct)
    (auto simp: keys_are_def dhas_def dget_def)

lemma bounded_issues_valid [simp]: "valid_issues (bounded_issues v)"
proof (cases v)
  case (JList vs)
  have "length (bounded_issue_list (take max_issues vs)) \<le> max_issues"
    using bounded_issue_list_length [of "take max_issues vs"] by simp
  with JList show ?thesis by (simp add: bounded_issue_list_valid)
qed (simp_all add: max_issues_def)

lemma bounded_issue_list_finite: "list_all json_finite (bounded_issue_list vs)"
  by (induction vs rule: bounded_issue_list.induct) (auto simp: bounded_text_def)

lemma bounded_issues_finite: "json_finite (bounded_issues v)"
  by (cases v) (auto simp: bounded_issue_list_finite)

lemma bounded_entry_fixed [simp]: "bounded_entry (bounded_entry v) = bounded_entry v"
  by (cases v) simp_all

lemma bounded_entry_finite: "json_finite (bounded_entry v)"
  by (cases v) auto

lemma dget_review_message:
  "dget ''kind'' (review_message j l t q oc r) = JStr ''page-check-review''"
  "dget ''schema_version'' (review_message j l t q oc r) = JInt 1"
  "dget ''event_id'' (review_message j l t q oc r) = JStr (event_prefix @ j)"
  "dget ''job_id'' (review_message j l t q oc r) = JStr j"
  "dget ''queued_at'' (review_message j l t q oc r) = q"
  "dget ''language'' (review_message j l t q oc r) = JStr l"
  "dget ''title'' (review_message j l t q oc r) = t"
  "dget ''outcome'' (review_message j l t q oc r) = oc"
  "dget ''message'' (review_message j l t q oc r) = bounded_text (dget ''message'' r) max_message_length"
  "dget ''source_language'' (review_message j l t q oc r) = bounded_optional_text (dget ''source_language'' r) 32"
  "dget ''source_title'' (review_message j l t q oc r) = bounded_optional_page_title (dget ''source_title'' r)"
  "dget ''issues'' (review_message j l t q oc r) = bounded_issues (dget ''issues'' r)"
  "dget ''mg_entry'' (review_message j l t q oc r) = bounded_entry (dget ''mg_entry'' r)"
  by (simp_all add: review_message_def dget_def)

lemma review_message_keys: "keys_are message_fields (review_message j l t q oc r)"
  by (simp add: keys_are_def message_fields_def review_message_def dhas_def)

lemma review_message_head:
  "j \<noteq> [] \<Longrightarrow> length j \<le> 512 \<Longrightarrow> head_fields_ok (review_message j l t q oc r)"
  by (simp add: head_fields_ok_def dget_review_message startswith_def)

lemma review_message_tail: "tail_fields_ok (review_message j l t q oc r)"
  by (simp add: tail_fields_ok_def dget_review_message bounded_optional_text_def
      bounded_optional_page_title_def)

lemma review_message_finite:
  assumes "json_finite q" and "valid_page_title t" and "in_strs oc reviewable_outcomes"
  shows "json_finite (JDict (review_message j l t q oc r))"
  using assms bounded_issues_finite bounded_entry_finite
  by (cases t; cases oc; cases "dget ''source_title'' r")
    (auto simp: review_message_def bounded_text_def bounded_optional_text_def
      bounded_optional_page_title_def)

definition reviewable_job :: "string \<Rightarrow> string \<Rightarrow> string \<Rightarrow> dict \<Rightarrow> dict \<Rightarrow> bool" where
  "reviewable_job jid language title result job \<longleftrightarrow>
    dget ''job_id'' job = JStr jid \<and> jid \<noteq> [] \<and> length jid \<le> 512 \<and>
    dget ''language'' job = JStr language \<and> language \<noteq> [] \<and> length language \<le> 32 \<and>
    dget ''titles'' job = JList [JStr title] \<and> valid_page_title (JStr title) \<and>
    review_result job (JStr title) = Inr result \<and> in_strs (dget ''status'' result) reviewable_outcomes"

lemma build_reviewable:
  assumes "reviewable_job jid language title result job"
  shows "build_review_message job q =
    (let m = review_message jid language (JStr title) q (dget ''status'' result) result in
     bnd (encode_message (JDict m)) (\<lambda>encoded.
       if max_message_bytes < body_bytes encoded
       then Inl (queue_error ''Page-check review message is too large.'')
       else validate_review_message (JDict m)))"
proof -
  obtain c cs l ls where n: "jid = c # cs" "language = l # ls"
    using assms by (auto simp: reviewable_job_def neq_Nil_conv)
  have s: "dindex ''status'' result = Inr (dget ''status'' result)"
    "py_in (dget ''status'' result) reviewable_outcomes = Inr True"
    using assms by (auto simp: reviewable_job_def in_strs_iff dindex_Inr_iff dget_dhas)
  show ?thesis
    using assms s unfolding n by (simp add: reviewable_job_def build_review_message_def Let_def)
qed

lemma review_message_valid:
  assumes "reviewable_job jid language title result job"
    and "encode_message (JDict (review_message jid language (JStr title) (JFloat (Finite t))
      (dget ''status'' result) result)) = Inr body" and "body_bytes body \<le> max_message_bytes"
  shows "validate_review_message (JDict (review_message jid language (JStr title) (JFloat (Finite t))
      (dget ''status'' result) result)) =
    Inr (review_message jid language (JStr title) (JFloat (Finite t)) (dget ''status'' result) result)"
  using assms unfolding validate_Inr
  by (simp del: valid_page_title.simps add: reviewable_job_def review_message_keys
      review_message_head review_message_tail dget_review_message)

text \<open>
  C17: The producer meets its own contract: for every terminal job that names one valid
  title, a job id of at most 512 and a language of at most 32 characters, and whose outcome
  needs a review, whatever its other fields hold, the builder returns the thirteen-field
  event and that event passes the consumer's validation unchanged; the only other answer
  is that its encoding exceeds 32000 bytes.
\<close>

theorem built_events_are_valid:
  assumes "reviewable_job jid language title result job" and "queued_at = JFloat (Finite t)"
  shows "\<exists>m body. m = review_message jid language (JStr title) queued_at (dget ''status'' result) result \<and>
    encode_message (JDict m) = Inr body \<and>
    build_review_message job queued_at =
      (if body_bytes body \<le> max_message_bytes then Inr m
       else Inl (PageCheckReviewQueueError ''Page-check review message is too large.'')) \<and>
    (body_bytes body \<le> max_message_bytes \<longrightarrow> validate_review_message (JDict m) = Inr m)"
proof -
  let ?m = "review_message jid language (JStr title) queued_at (dget ''status'' result) result"
  have "json_finite (JDict ?m)"
    using assms by (intro review_message_finite) (simp_all add: reviewable_job_def)
  then obtain body where body: "encode_message (JDict ?m) = Inr body"
    unfolding encode_message_def by simp
  have "validate_review_message (JDict ?m) = Inr ?m" if "body_bytes body \<le> max_message_bytes"
    using review_message_valid [OF assms(1)] body that assms(2) by simp
  with body build_reviewable [OF assms(1), of queued_at] show ?thesis
    by (intro exI [of _ ?m] exI [of _ body]) (simp add: queue_error_def not_less)
qed

definition failed_job :: dict where
  "failed_job = [(''job_id'', JStr ''j1''), (''language'', JStr ''mg''),
     (''titles'', JList [JStr ''vary'']), (''status'', JStr ''error''), (''error'', JStr ''timeout'')]"

definition failed_result :: dict where
  "failed_result = [(''word'', JStr ''vary''), (''status'', JStr ''error''), (''message'', JStr ''timeout''),
     (''source_language'', JNull), (''source_title'', JNull), (''issues'', JList []), (''mg_entry'', JNull)]"

lemma failed_job_reviewable: "reviewable_job ''j1'' ''mg'' ''vary'' failed_result failed_job"
  by code_simp

definition failed_event :: dict where
  "failed_event = review_message ''j1'' ''mg'' (JStr ''vary'') (JFloat (Finite 5)) (JStr ''error'') failed_result"

lemma failed_event_small:
  "utf8_len (json_text '','' '':'' (sort_json (JDict failed_event))) \<le> max_message_bytes"
  by code_simp

lemma failed_event_finite: "json_finite (JDict failed_event)"
  by code_simp

lemma failed_event_encoded: "\<exists>body. encode_message (JDict failed_event) = Inr body \<and> body_bytes body \<le> max_message_bytes"
  using failed_event_small failed_event_finite unfolding encode_message_def by auto

lemma failed_status: "dget ''status'' failed_result = JStr ''error''"
  by code_simp

lemma failed_event_valid: "validate_review_message (JDict failed_event) = Inr failed_event"
  using review_message_valid [OF failed_job_reviewable, of 5] failed_event_encoded
  unfolding failed_event_def failed_status by blast

lemma built_events_are_valid_witness:
  "build_review_message failed_job (JFloat (Finite 5)) = Inr failed_event \<and>
    validate_review_message (JDict failed_event) = Inr failed_event"
  using built_events_are_valid [OF failed_job_reviewable refl, of 5] failed_event_encoded
  unfolding failed_event_def failed_status by auto

subsection \<open>Transport\<close>

text \<open>
  What is published is received: a valid event, acknowledged by the broker, is later
  handed to the receiver's store as the same event (its fields equal up to the order of the
  keys of nested objects), is removed from the inbox when the store has accepted it and the
  acknowledgement arrives, and its body never exceeds 32000 bytes.
\<close>

theorem published_event_is_received:
  assumes "validate_review_message (JDict m) = Inr m"
    and "publish_message l (JDict m) b = (b1, r)" and "answers l = Acked" and "opens l"
    and "inbox b = []" and "opens k" and "gets k" and "answers k = Acked"
    and "accept s (sorted_dict m) = (s1, Inr x)"
  shows "r = Inr (dget ''event_id'' m) \<and> length (inbox b1) = 1 \<and>
    body_bytes (hd (inbox b1)) \<le> 32000 \<and>
    transfer_next k accept s b1 = (s1, b, Inr (Some x)) \<and>
    validate_review_message (JDict (sorted_dict m)) = Inr (sorted_dict m) \<and>
    (\<forall>key. dget key (sorted_dict m) = sort_json (dget key m))"
proof -
  obtain body where body: "encode_message (JDict m) = Inr body" "body_bytes body \<le> 32000"
    using assms(1) by (auto simp: validate_Inr max_message_bytes_def)
  have b1: "b1 = b\<lparr>inbox := [body]\<rparr>" "r = Inr (dget ''event_id'' m)"
    using assms(1-5) body by (auto simp: publish_message_def Let_def)
  have "transfer_next k accept s b1 = (s1, b1\<lparr>inbox := []\<rparr>, Inr (Some x))"
    using assms(6-9) b1 read_encoded [OF assms(1) body(1)] by (simp add: transfer_next_def)
  moreover have "b1\<lparr>inbox := []\<rparr> = b" using assms(5) b1 by simp
  ultimately show ?thesis
    using b1 body validate_sorted [OF assms(1)] by simp
qed

definition good_link :: link where
  "good_link = \<lparr>opens = True, gets = True, answers = Acked, alive = True, disposes = Acked\<rparr>"

definition remember :: "dict list \<Rightarrow> dict \<Rightarrow> dict list \<times> json res" where
  "remember s m = (s @ [m], Inr (dget ''event_id'' m))"

definition empty_broker :: review_broker where
  "empty_broker = \<lparr>inbox = [], discarded = []\<rparr>"

lemma published_event_is_received_witness:
  "transfer_next good_link remember []
      (fst (publish_message good_link (JDict failed_event) empty_broker)) =
    ([sorted_dict failed_event], empty_broker, Inr (Some (JStr ''page-check:j1'')))"
proof -
  have "dget ''event_id'' failed_event = JStr ''page-check:j1''" by code_simp
  then have "remember [] (sorted_dict failed_event) =
      ([sorted_dict failed_event], Inr (JStr ''page-check:j1''))" by (simp add: remember_def)
  then show ?thesis
    using published_event_is_received [OF failed_event_valid, of good_link empty_broker
      "fst (publish_message good_link (JDict failed_event) empty_broker)"
      "snd (publish_message good_link (JDict failed_event) empty_broker)" good_link remember "[]"
      "[sorted_dict failed_event]" "JStr ''page-check:j1''"]
    by (simp add: good_link_def empty_broker_def)
qed

text \<open>
  C18: A transfer never loses an event and never accepts a bad one: the receiver's store runs
  at most once, on the first delivery, and only when that delivery is a valid event; an
  event leaves the inbox only after the store accepted it, or to be discarded because it is
  invalid or the store refused it as invalid; and the caller is given a value exactly when
  the store accepted the event and the acknowledgement succeeded.
\<close>

theorem transfer_is_at_least_once:
  assumes "transfer_next l accept s b = (s1, b1, r)"
  shows "(s1 = s \<and> b1 = b) \<or>
    (\<exists>body rest. inbox b = body # rest \<and>
      (case read_delivery body of
         Inl e \<Rightarrow> s1 = s \<and> \<not> is_ok r \<and> b1 = b\<lparr>inbox := rest, discarded := discarded b @ [body]\<rparr>
       | Inr m \<Rightarrow> s1 = fst (accept s m) \<and>
         (case snd (accept s m) of
            Inl e \<Rightarrow> \<not> is_ok r \<and>
              (b1 = b \<or> is_queue_error e \<and> b1 = b\<lparr>inbox := rest, discarded := discarded b @ [body]\<rparr>)
          | Inr x \<Rightarrow> (r = Inr (Some x) \<and> b1 = b\<lparr>inbox := rest\<rparr>) \<or>
              (\<not> is_ok r \<and> (b1 = b \<or> b1 = b\<lparr>inbox := rest\<rparr>)))))"
proof (cases "opens l \<and> gets l \<and> inbox b \<noteq> []")
  case False
  then have "s1 = s \<and> b1 = b" using assms by (auto simp: transfer_next_def split: list.splits if_splits)
  then show ?thesis by simp
next
  case True
  then obtain body rest where ib: "inbox b = body # rest" by (auto simp: neq_Nil_conv)
  show ?thesis
  proof (cases "read_delivery body")
    case (Inl e)
    with assms True ib show ?thesis
      by (auto simp: transfer_next_def dispose_def split: if_splits)
  next
    case (Inr m)
    obtain s2 a where a: "accept s m = (s2, a)" by (cases "accept s m")
    show ?thesis
    proof (cases a)
      case (Inl e)
      with assms True ib Inr a show ?thesis
        by (auto simp: transfer_next_def dispose_def split: if_splits)
    next
      case (Inr x)
      with assms True ib \<open>read_delivery body = Inr m\<close> a show ?thesis
        by (cases "answers l") (auto simp: transfer_next_def dispose_def)
    qed
  qed
qed

definition garbage_broker :: review_broker where
  "garbage_broker = \<lparr>inbox = [\<lparr>body_bytes = 3, body_text = Garbage ''{,}''\<rparr>], discarded = []\<rparr>"

lemma transfer_is_at_least_once_witness:
  "discarded (fst (snd (transfer_next good_link remember [] garbage_broker))) = inbox garbage_broker"
proof -
  obtain s1 b1 r where t: "transfer_next good_link remember [] garbage_broker = (s1, b1, r)"
    by (cases "transfer_next good_link remember [] garbage_broker")
  have "discarded (fst (snd (transfer_next good_link remember [] garbage_broker))) \<noteq> []"
    by code_simp
  then have "b1 \<noteq> garbage_broker" using t by (auto simp: garbage_broker_def)
  with transfer_is_at_least_once [OF t] t show ?thesis
    by (auto simp: garbage_broker_def read_delivery_def max_message_bytes_def)
qed

text \<open>Repeated transfers, each over its own link.\<close>

fun transfers :: "link list \<Rightarrow> ('s \<Rightarrow> dict \<Rightarrow> 's \<times> 'a res) \<Rightarrow> 's \<Rightarrow> review_broker \<Rightarrow> 's \<times> review_broker" where
  "transfers [] accept s b = (s, b)"
| "transfers (l # ls) accept s b =
    (case transfer_next l accept s b of (s1, b1, r) \<Rightarrow> transfers ls accept s1 b1)"

text \<open>
  C19: A delivery whose validation raises another exception blocks the inbox: the message
  with the right shape and head whose outcome is a list or an object (not hashable, so the
  test against the frozenset raises \<open>TypeError\<close>) or whose time is an int too large for a
  float (\<open>OverflowError\<close>) is never discarded and never accepted: it stays first, and nothing
  behind it is transferred however often and over whatever links the transfer is repeated.
\<close>

theorem unhashable_outcome_blocks_the_inbox:
  assumes "inbox b = body # rest" and "body_bytes body \<le> max_message_bytes"
    and "body_text body = Text (JDict m)" and "keys_are message_fields m" and "head_fields_ok m"
    and "(\<exists>i. dget ''queued_at'' m = JInt i \<and> float_overflow \<le> \<bar>i\<bar>) \<or>
      (\<exists>t. dget ''queued_at'' m = JFloat (Finite t)) \<and> str_within 32 (dget ''language'' m) \<and>
      dget ''language'' m \<noteq> JStr [] \<and> valid_page_title (dget ''title'' m) \<and>
      \<not> hashable (dget ''outcome'' m)"
  shows "transfers ls accept s b = (s, b)"
proof -
  have str: "is_str v" if "str_within n v" for n v using that by (cases v) auto
  obtain e where e: "read_delivery body = Inl e" "\<not> is_invalid_delivery e"
  proof (cases "\<exists>i. dget ''queued_at'' m = JInt i \<and> float_overflow \<le> \<bar>i\<bar>")
    case True
    with assms(2-5) have "read_delivery body = Inl (OtherError ''OverflowError'')"
      by (auto simp: read_delivery_def validate_review_message_def Let_def)
    then show thesis
      by (intro that [of "OtherError ''OverflowError''"]) (simp_all add: is_invalid_delivery_def)
  next
    case False
    with assms(2-6) have "read_delivery body = Inl TypeError"
      by (auto simp: read_delivery_def validate_review_message_def Let_def py_in_def str)
    then show thesis by (intro that [of TypeError]) (simp_all add: is_invalid_delivery_def)
  qed
  have "\<exists>r. transfer_next l accept s b = (s, b, r)" for l
    using assms(1) e by (auto simp: transfer_next_def dispose_def)
  then show ?thesis by (induction ls) (auto split: prod.splits, metis old.prod.inject)
qed

definition poison :: dict where
  "poison = [(''kind'', JStr ''page-check-review''), (''schema_version'', JInt 1),
     (''event_id'', JStr ''page-check:j2''), (''job_id'', JStr ''j2''), (''queued_at'', JFloat (Finite 7)),
     (''language'', JStr ''mg''), (''title'', JStr ''rano''), (''outcome'', JList []),
     (''message'', JStr []), (''source_language'', JNull), (''source_title'', JNull),
     (''issues'', JList []), (''mg_entry'', JNull)]"

definition poisoned_broker :: review_broker where
  "poisoned_broker = \<lparr>inbox = [\<lparr>body_bytes = 250, body_text = Text (JDict poison)\<rparr>], discarded = []\<rparr>"

lemma poison_shape: "keys_are message_fields poison" "head_fields_ok poison"
  by code_simp+

lemma poison_title: "valid_page_title (JStr ''rano'')"
  by code_simp

lemma unhashable_outcome_blocks_the_inbox_witness:
  "transfers (replicate 100 good_link) remember [] poisoned_broker = ([], poisoned_broker)"
  using unhashable_outcome_blocks_the_inbox [of poisoned_broker
      "\<lparr>body_bytes = 250, body_text = Text (JDict poison)\<rparr>" "[]" poison "replicate 100 good_link" remember "[]"]
    poison_shape poison_title
  by (simp add: poisoned_broker_def max_message_bytes_def poison_def dget_def)

end
