(* ===== verification/PageCheckJobs.thy ===== *)
theory PageCheckJobs
  imports CheckJobCapacity ReviewTransport
begin

text \<open>
  The page-check jobs of \<open>EntryTranslatorService\<close>
  (\<open>api/services/entry_translator_service.py\<close>): admission, the task, the handoff of its
  review event, and the recovery of stale jobs.  The state holds the Redis hash, the
  review inbox, the job dictionary the running closure mutates and the jobs handed to the
  executor.  Every call to Redis or RabbitMQ is numbered, and the environment gives what
  the other processes write around it, whether it succeeds, the clock and the fresh ids.

  \<open>PageCheckService\<close> is a tree of calls to the two callbacks (\<open>check_code\<close>); what a
  callback raises is passed to the tree, which may stop or go on.
\<close>

subsection \<open>State and environment\<close>

record cworld =
  cw_hash :: rhash
  cw_inbox :: review_broker
  cw_job :: dict
  cw_launched :: "dict list"
  cw_calls :: nat

datatype check_code =
    CheckDone "json res"
  | CheckProgress rat "unit res \<Rightarrow> check_code"
  | CheckGuard "unit res \<Rightarrow> check_code"

record cenv =
  ce_attempts :: "nat \<Rightarrow> cas_env list"
  ce_others :: "nat \<Rightarrow> rhash \<Rightarrow> rhash"
  ce_io :: "nat \<Rightarrow> io"
  ce_time :: "nat \<Rightarrow> rat"
  ce_id :: "nat \<Rightarrow> string"
  ce_link :: "nat \<Rightarrow> link"
  ce_submits :: "nat \<Rightarrow> bool"
  ce_queue :: bool
  ce_text :: "exn \<Rightarrow> string"
  ce_type :: "exn \<Rightarrow> string"
  ce_kept :: nat

definition max_unfinished_check_jobs :: nat where "max_unfinished_check_jobs = 100"
definition stale_check_job_timeout :: rat where "stale_check_job_timeout = 900"
definition check_job_max_attempts :: rat where "check_job_max_attempts = 3"
definition review_handoff_recovery_batch_size :: nat where "review_handoff_recovery_batch_size = 20"
definition review_handoff_lease :: rat where "review_handoff_lease = 120"

type_synonym 'a check_op = "cworld \<Rightarrow> cworld \<times> 'a res"

definition called :: "cworld \<Rightarrow> cworld" where
  "called w = w\<lparr>cw_calls := Suc (cw_calls w)\<rparr>"

definition now_of :: "cenv \<Rightarrow> cworld \<Rightarrow> rat" where
  "now_of E w = ce_time E (cw_calls w)"

definition jid_of :: "cworld \<Rightarrow> string" where
  "jid_of w = py_str (dget ''job_id'' (cw_job w))"

text \<open>A store call with the attempts of the optimistic loop, and one that is a single command.\<close>

definition store_update ::
  "cenv \<Rightarrow> (cas_env list \<Rightarrow> rhash \<Rightarrow> rhash \<times> 'a res) \<Rightarrow> 'a check_op" where
  "store_update E f w =
    (case f (ce_attempts E (cw_calls w)) (cw_hash w) of
       (h, r) \<Rightarrow> (called (w\<lparr>cw_hash := h\<rparr>), r))"

definition store_command :: "cenv \<Rightarrow> (io \<Rightarrow> rhash \<Rightarrow> rhash \<times> 'a res) \<Rightarrow> 'a check_op" where
  "store_command E f w =
    (case f (ce_io E (cw_calls w)) (ce_others E (cw_calls w) (cw_hash w)) of
       (h, r) \<Rightarrow> (called (w\<lparr>cw_hash := h\<rparr>), r))"

definition store_all :: "cenv \<Rightarrow> dict list check_op" where
  "store_all E = store_command E (\<lambda>i h. (h, all_jobs (i = Acked) h))"

definition store_put :: "cenv \<Rightarrow> bool check_op" where
  "store_put E w =
    (case put (ce_attempts E (cw_calls w)) (cw_job w) (cw_hash w) of
       (h, r, j) \<Rightarrow> (called (w\<lparr>cw_hash := h, cw_job := j\<rparr>), r))"

definition edit_job :: "(dict \<Rightarrow> dict) \<Rightarrow> unit check_op" where
  "edit_job f w = (w\<lparr>cw_job := f (cw_job w)\<rparr>, Inr ())"

definition edit_job_res :: "(dict \<Rightarrow> dict res) \<Rightarrow> unit check_op" where
  "edit_job_res f w = (case f (cw_job w) of Inl e \<Rightarrow> (w, Inl e) | Inr j \<Rightarrow> (w\<lparr>cw_job := j\<rparr>, Inr ()))"

subsection \<open>Preparing and publishing the review event\<close>

fun queue_error_text :: "exn \<Rightarrow> string" where
  "queue_error_text (PageCheckReviewQueueError m) = m"
| "queue_error_text e = []"

definition review_state :: "string \<Rightarrow> json \<Rightarrow> json \<Rightarrow> dict \<Rightarrow> dict" where
  "review_state state event_id err job =
    dset ''review_queue_error'' err (dset ''review_event_id'' event_id
      (dset ''review_queue_state'' (JStr state) job))"

definition prepare_review :: "bool \<Rightarrow> rat \<Rightarrow> dict \<Rightarrow> dict res" where
  "prepare_review queue now job =
    (if is_dict (dget ''review_message'' job) then Inr job
     else
       let reviewable = (case page_check_job_outcome job of
             None \<Rightarrow> False | Some v \<Rightarrow> v \<in> set reviewable_outcomes) in
       if dget ''language'' job \<noteq> JStr ''mg'' \<or> \<not> reviewable
       then Inr (review_state ''not_needed'' JNull JNull job)
       else if \<not> queue then Inr (review_state ''disabled'' JNull JNull job)
       else case build_review_message job (JFloat (Finite now)) of
         Inl e \<Rightarrow>
           if is_queue_error e
           then Inr (review_state ''invalid'' JNull (JStr (take 1000 (queue_error_text e))) job)
           else Inl e
       | Inr message \<Rightarrow>
           Inr (dset ''review_queue_next_attempt_at'' (JFloat (Finite 0))
             (dset ''review_queue_attempts'' (JInt 0)
             (dset ''review_message'' (JDict message)
             (review_state ''pending'' (dget ''event_id'' message) JNull job)))))"

definition prepare_op :: "cenv \<Rightarrow> unit check_op" where
  "prepare_op E w = edit_job_res (prepare_review (ce_queue E) (now_of E w)) w"

fun is_check_store_error :: "exn \<Rightarrow> bool" where
  "is_check_store_error (CheckJobStoreError f) = True"
| "is_check_store_error e = False"

text \<open>\<open>except CheckJobStoreError: log; return\<close> around a store call.\<close>

definition unless_store_error :: "'a check_op \<Rightarrow> ('a option \<Rightarrow> unit check_op) \<Rightarrow> unit check_op" where
  "unless_store_error f g w =
    (case f w of
       (w', Inl e) \<Rightarrow> if is_check_store_error e then g None w' else (w', Inl e)
     | (w', Inr a) \<Rightarrow> g (Some a) w')"

text \<open>One publication attempt: the next state, event id and error of the handoff.\<close>

definition publish_claimed ::
  "cenv \<Rightarrow> dict \<Rightarrow> (string \<times> string \<times> string option) check_op" where
  "publish_claimed E claimed w =
    (let event_id = py_str (py_or (dget ''review_event_id'' claimed) (JStr [])) in
     case validate_review_message (dget ''review_message'' claimed) of
       Inl e \<Rightarrow>
         if is_queue_error e
         then (w, Inr (''invalid'', event_id, Some (take 1000 (queue_error_text e))))
         else (w, Inl e)
     | Inr message \<Rightarrow>
       (case publish_message (ce_link E (cw_calls w)) (JDict message) (cw_inbox w) of
          (b, Inl e) \<Rightarrow>
            (called (w\<lparr>cw_inbox := b\<rparr>), Inr (''failed'', event_id,
              Some (if is_queue_error e then take 1000 (queue_error_text e)
                    else ''Unexpected review transport failure: '' @ ce_type E e)))
        | (b, Inr v) \<Rightarrow> (called (w\<lparr>cw_inbox := b\<rparr>), Inr (''queued'', py_str v, None))))"

definition hand_over :: "cenv \<Rightarrow> unit check_op" where
  "hand_over E w =
    (let claim = ce_id E (cw_calls w) in
     unless_store_error
       (store_update E (\<lambda>es. claim_review_handoff es (jid_of w) claim (now_of E w) review_handoff_lease))
       (\<lambda>answer. case answer of
          Some (Some claimed) \<Rightarrow>
            sbind (publish_claimed E claimed) (\<lambda>(state, event_id, err) w1.
              unless_store_error
                (store_update E (\<lambda>es. finish_review_handoff es (jid_of w1) claim state event_id err (now_of E w1)))
                (\<lambda>finished.
                   if finished = Some True
                   then edit_job (review_state state (JStr event_id) (opt_str err))
                   else sreturn (Inr ())) w1)
        | _ \<Rightarrow> sreturn (Inr ())) w)"

definition publish_review :: "cenv \<Rightarrow> unit check_op" where
  "publish_review E w =
    (case py_in (dget ''review_queue_state'' (cw_job w)) claimable_states of
       Inl e \<Rightarrow> (w, Inl e)
     | Inr known \<Rightarrow>
       if \<not> known \<or> \<not> ce_queue E then (w, Inr ())
       else if is_dict (dget ''review_message'' (cw_job w)) then hand_over E w
       else sbind (prepare_op E) (\<lambda>_. unless_store_error (store_put E) (\<lambda>stored w1.
         if stored = None \<or> dget ''review_queue_state'' (cw_job w1) \<noteq> JStr ''pending''
         then (w1, Inr ()) else hand_over E w1)) w)"

subsection \<open>Trimming\<close>

text \<open>
  Numbers as sort keys, infinities at the ends; a NaN, which no record of the service holds
  and whose place in a sorted list is that of no order, is put first.
\<close>

definition time_key :: "json \<Rightarrow> nat \<times> rat" where
  "time_key v = (case val_of v of
     Some (Finite r) \<Rightarrow> (1, r) | Some PosInf \<Rightarrow> (2, 0) | _ \<Rightarrow> (0, 0))"

definition created_key :: "dict \<Rightarrow> ((nat \<times> rat) \<times> dict) res" where
  "created_key job =
    bnd (dindex ''created_at'' job) (\<lambda>v. if val_of v = None then Inl TypeError else Inr (time_key v, job))"

fun filter_res :: "('a \<Rightarrow> bool res) \<Rightarrow> 'a list \<Rightarrow> 'a list res" where
  "filter_res f [] = Inr []"
| "filter_res f (x # xs) =
    bnd (f x) (\<lambda>b. bnd (filter_res f xs) (\<lambda>ys. Inr (if b then x # ys else ys)))"

text \<open>
  \<open>sorted(jobs, key=created_at)\<close>: numbers are compared; other values raise (two strings
  would compare, but admission rejects a store with such records).
\<close>

definition sort_created :: "dict list \<Rightarrow> dict list res" where
  "sort_created jobs =
    (if length jobs \<le> 1
     then bnd (map_res (dindex ''created_at'') jobs) (\<lambda>keys. Inr jobs)
     else bnd (map_res created_key jobs) (\<lambda>keyed. Inr (map snd (sort_key fst keyed))))"

definition is_trimmable :: "dict \<Rightarrow> bool res" where
  "is_trimmable job =
    bnd (dindex ''status'' job) (\<lambda>status.
      if \<not> in_strs status terminal_statuses then Inr False
      else bnd (py_in (dget ''review_queue_state'' job) claimable_states) (\<lambda>b. Inr (\<not> b)))"

fun remove_each :: "cenv \<Rightarrow> dict list \<Rightarrow> unit check_op" where
  "remove_each E [] = sreturn (Inr ())"
| "remove_each E (job # jobs) =
    sbind (store_command E (\<lambda>i. remove_terminal i (py_str (dget ''job_id'' job))))
      (\<lambda>_. remove_each E jobs)"

definition trim_completed :: "cenv \<Rightarrow> dict list \<Rightarrow> unit check_op" where
  "trim_completed E jobs =
    (if length jobs \<le> ce_kept E then sreturn (Inr ())
     else sbind (sreturn (bnd (filter_res is_trimmable jobs) sort_created))
       (\<lambda>completed. remove_each E (take (length jobs - ce_kept E) completed)))"

definition trim_check_jobs :: "cenv \<Rightarrow> unit check_op" where
  "trim_check_jobs E = sbind (store_all E) (trim_completed E)"

subsection \<open>The task\<close>

definition superseded :: "'a res" where
  "superseded = Inl CheckJobExecutionSuperseded"

definition stamp :: "cenv \<Rightarrow> unit check_op" where
  "stamp E w = edit_job (dset ''last_updated_at'' (JFloat (Finite (now_of E w)))) w"

definition set_state :: "string \<Rightarrow> string \<Rightarrow> unit check_op" where
  "set_state stage message = edit_job_res (\<lambda>job. set_check_job_state job stage message)"

definition put_or_superseded :: "cenv \<Rightarrow> unit check_op" where
  "put_or_superseded E = sbind (store_put E) (\<lambda>ok. sreturn (if ok then Inr () else superseded))"

text \<open>
  \<open>on_progress\<close>.  The progress of a job is the int written at its creation, at its claim
  or here.
\<close>

definition new_progress :: "rat \<Rightarrow> dict \<Rightarrow> dict res" where
  "new_progress ratio job =
    bnd (dindex ''progress'' job) (\<lambda>v.
      case v of
        JInt old \<Rightarrow> Inr (dset ''progress'' (JInt (max old (max 0 (min 100 (trunc_rat (ratio * 100)))))) job)
      | _ \<Rightarrow> Inl TypeError)"

fun progress_int :: "json \<Rightarrow> int" where
  "progress_int (JInt i) = i"
| "progress_int v = 0"

definition on_progress :: "cenv \<Rightarrow> rat \<Rightarrow> unit check_op" where
  "on_progress E ratio =
    sbind (edit_job_res (new_progress ratio)) (\<lambda>_.
    sbind (stamp E) (\<lambda>_.
    sbind (\<lambda>w. case check_progress_state (progress_int (dget ''progress'' (cw_job w))) of
             (stage, message) \<Rightarrow> set_state stage message w) (\<lambda>_.
    put_or_superseded E)))"

definition publication_guard :: "cenv \<Rightarrow> unit check_op" where
  "publication_guard E =
    sbind (\<lambda>w. store_update E (\<lambda>es. touch_execution es (jid_of w)
        (str_or_empty (dget ''execution_token'' (cw_job w))) (now_of E w)) w)
      (\<lambda>ok. sreturn (if ok then Inr () else superseded))"

primrec run_check :: "cenv \<Rightarrow> check_code \<Rightarrow> json check_op" where
  "run_check E (CheckDone r) = sreturn r"
| "run_check E (CheckProgress ratio k) =
    (\<lambda>w. case on_progress E ratio w of (w', r) \<Rightarrow> run_check E (k r) w')"
| "run_check E (CheckGuard k) =
    (\<lambda>w. case publication_guard E w of (w', r) \<Rightarrow> run_check E (k r) w')"

definition put_and_publish :: "cenv \<Rightarrow> unit check_op" where
  "put_and_publish E =
    sbind (store_put E) (\<lambda>ok. if ok then publish_review E else sreturn (Inr ()))"

definition check_task_try :: "cenv \<Rightarrow> (dict \<Rightarrow> check_code) \<Rightarrow> unit check_op" where
  "check_task_try E checker =
    sbind (edit_job (dset ''status'' (JStr ''running''))) (\<lambda>_.
    sbind (stamp E) (\<lambda>_.
    sbind (set_state ''loading_target'' ''Loading the current Wiktionary page.'') (\<lambda>_.
    sbind (put_or_superseded E) (\<lambda>_.
    sbind (\<lambda>w. run_check E (checker (cw_job w)) w) (\<lambda>results.
    sbind (edit_job (\<lambda>job. dset ''progress'' (JInt 100) (dset ''status'' (JStr ''done'') job))) (\<lambda>_.
    sbind (stamp E) (\<lambda>_.
    sbind (edit_job (\<lambda>job. dset ''error'' JNull (dset ''results'' results job))) (\<lambda>_.
    sbind (set_state ''completed'' ''Page check completed; the full result is available.'') (\<lambda>_.
    sbind (prepare_op E) (\<lambda>_.
    put_and_publish E))))))))))"

definition fail_job :: "cenv \<Rightarrow> string \<Rightarrow> unit check_op" where
  "fail_job E text =
    sbind (edit_job (dset ''status'' (JStr ''error''))) (\<lambda>_.
    sbind (stamp E) (\<lambda>_.
    sbind (edit_job (dset ''error'' (JStr text))) (\<lambda>_.
    sbind (set_state ''failed'' text) (\<lambda>_.
    prepare_op E))))"

definition check_task_except :: "cenv \<Rightarrow> exn \<Rightarrow> unit check_op" where
  "check_task_except E e =
    (if e = CheckJobExecutionSuperseded then sreturn (Inr ())
     else sbind (fail_job E (ce_text E e)) (\<lambda>_. put_and_publish E))"

text \<open>The \<open>finally\<close> clause: an exception of the handler is re-raised after trimming.\<close>

definition check_task_body :: "cenv \<Rightarrow> (dict \<Rightarrow> check_code) \<Rightarrow> unit check_op" where
  "check_task_body E checker w =
    (case check_task_try E checker w of
       (w1, Inl e) \<Rightarrow> check_task_except E e w1
     | (w1, Inr u) \<Rightarrow> (w1, Inr ()))"

definition check_task :: "cenv \<Rightarrow> (dict \<Rightarrow> check_code) \<Rightarrow> unit check_op" where
  "check_task E checker w =
    (case check_task_body E checker w of (w1, r) \<Rightarrow>
      (case trim_check_jobs E w1 of
         (w2, Inl e) \<Rightarrow> (w2, Inl e)
       | (w2, Inr u) \<Rightarrow> (w2, r)))"

subsection \<open>Admission\<close>

definition waiting :: string where
  "waiting = ''Waiting for a page-check worker.''"

definition new_check_job :: "string \<Rightarrow> string \<Rightarrow> string \<Rightarrow> string \<Rightarrow> rat \<Rightarrow> dict" where
  "new_check_job jid token language title now =
    [(''job_id'', JStr jid), (''execution_token'', JStr token), (''language'', JStr language),
     (''titles'', JList [JStr title]), (''status'', JStr ''pending''),
     (''created_at'', JFloat (Finite now)), (''last_updated_at'', JFloat (Finite now)),
     (''attempts'', JInt 0), (''progress'', JInt 0), (''results'', JNull), (''error'', JNull),
     (''stage'', JStr ''queued''), (''message'', JStr waiting),
     (''timeline'', JList [timeline_event (JFloat (Finite now)) ''queued'' waiting]),
     (''review_queue_state'', JStr ''not_needed''), (''review_event_id'', JNull),
     (''review_queue_error'', JNull)]"

text \<open>\<open>_run_check_task\<close>: the executor takes the job or raises.\<close>

definition launch :: "cenv \<Rightarrow> unit check_op" where
  "launch E w =
    (if ce_submits E (cw_calls w)
     then (called (w\<lparr>cw_launched := cw_launched w @ [cw_job w]\<rparr>), Inr ())
     else (called w, Inl RuntimeError))"

definition launch_or_fail :: "cenv \<Rightarrow> string \<Rightarrow> unit check_op" where
  "launch_or_fail E text w =
    (case launch E w of
       (w1, Inr u) \<Rightarrow> (w1, Inr ())
     | (w1, Inl e) \<Rightarrow>
       sbind (fail_job E text) (\<lambda>_. sbind (store_put E) (\<lambda>_. publish_review E)) w1)"

definition start_error :: string where
  "start_error = ''The page check job could not be started.''"

text \<open>The \<open>with\<close> of a loop over jobs: the loop variable becomes the closure's job.\<close>

fun for_each_job :: "(dict \<Rightarrow> unit check_op) \<Rightarrow> dict list \<Rightarrow> dict list check_op" where
  "for_each_job f [] = sreturn (Inr [])"
| "for_each_job f (job # jobs) =
    sbind (\<lambda>w. f job (w\<lparr>cw_job := job\<rparr>)) (\<lambda>_ w1.
      sbind (for_each_job f jobs) (\<lambda>done. sreturn (Inr (cw_job w1 # done))) w1)"

text \<open>\<open>ids\<close> are the job id and the execution token drawn for each title.\<close>

definition enqueue_page_check ::
  "cenv \<Rightarrow> string \<Rightarrow> string list \<Rightarrow> (string \<times> string) list \<Rightarrow> dict list check_op" where
  "enqueue_page_check E language titles ids w =
    (let jobs = map2 (\<lambda>title (jid, token). new_check_job jid token language title (now_of E w)) titles ids in
     case store_command E (\<lambda>i. put_many_bounded i jobs (ce_kept E) max_unfinished_check_jobs) w of
       (w1, Inl e) \<Rightarrow>
         (w1, Inl (if is_check_store_error e
                   then ServiceError 503 ''Page check history is temporarily unavailable.'' else e))
     | (w1, Inr accepted) \<Rightarrow>
       if \<not> accepted then (w1, Inl (ServiceError 503 ''Page check capacity is currently full.''))
       else for_each_job (\<lambda>job. launch_or_fail E start_error) jobs w1)"

end
