(* ===== verification/PageCheckRecovery.thy ===== *)
theory PageCheckRecovery
  imports PageCheckJobs CheckJobOps
begin

text \<open>
  \<open>_recover_stale_check_jobs\<close> of \<open>EntryTranslatorService\<close> and the single-flight gate in
  front of it: failed review handoffs are retried, stale jobs are claimed and launched
  again until their attempts are used up.
\<close>

subsection \<open>Recovery\<close>

definition is_stale_check_job :: "rat \<Rightarrow> dict \<Rightarrow> bool res" where
  "is_stale_check_job now job =
    bnd (dindex ''status'' job) (\<lambda>status.
      if \<not> in_strs status unfinished_statuses then Inr False
      else bnd (dindex ''last_updated_at'' job) (\<lambda>v.
        case val_of v of
          None \<Rightarrow> Inl TypeError
        | Some f \<Rightarrow> Inr (f_less (Finite stale_check_job_timeout) (f_sub now f))))"

definition stalled_error :: string where
  "stalled_error = ''The page check job stalled and exceeded its retry limit.''"

definition relaunch_error :: string where
  "relaunch_error = ''The page check job could not be relaunched.''"

definition exceeded_retry_limit :: "dict \<Rightarrow> bool res" where
  "exceeded_retry_limit job =
    bnd (dindex ''attempts'' job) (\<lambda>v.
      case val_of v of
        None \<Rightarrow> Inl TypeError
      | Some n \<Rightarrow> Inr (f_less (Finite check_job_max_attempts) n))"

definition retry_message :: "dict \<Rightarrow> string" where
  "retry_message job =
    ''Retrying a stalled page check (attempt '' @ py_str (dget ''attempts'' job) @ '').''"

definition recover_claimed :: "cenv \<Rightarrow> unit check_op" where
  "recover_claimed E w =
    (case exceeded_retry_limit (cw_job w) of
       Inl e \<Rightarrow> (w, Inl e)
     | Inr exceeded \<Rightarrow>
       sbind (if exceeded then fail_job E stalled_error
              else set_state ''retrying'' (retry_message (cw_job w))) (\<lambda>_.
       sbind (store_put E) (\<lambda>ok.
         if \<not> ok then sreturn (Inr ())
         else if exceeded then publish_review E
         else launch_or_fail E relaunch_error)) w)"

definition recover_stale_job :: "cenv \<Rightarrow> rat \<Rightarrow> dict \<Rightarrow> unit check_op" where
  "recover_stale_job E now observed w =
    (let jid = py_str (dget ''job_id'' observed);
         seen = (case val_of (dget ''last_updated_at'' observed) of Some f \<Rightarrow> f | None \<Rightarrow> NaN) in
     sbind (store_update E (\<lambda>es. claim_stale_job es jid seen now stale_check_job_timeout (ce_id E (cw_calls w))))
       (\<lambda>claimed. case claimed of
          None \<Rightarrow> sreturn (Inr ())
        | Some job \<Rightarrow> sbind (edit_job (\<lambda>_. job)) (\<lambda>_. recover_claimed E)) w)"

fun each_job :: "(dict \<Rightarrow> unit check_op) \<Rightarrow> dict list \<Rightarrow> unit check_op" where
  "each_job f [] = sreturn (Inr ())"
| "each_job f (job # jobs) = sbind (f job) (\<lambda>_. each_job f jobs)"

definition retry_handoff :: "cenv \<Rightarrow> dict \<Rightarrow> unit check_op" where
  "retry_handoff E job = sbind (edit_job (\<lambda>_. job)) (\<lambda>_. publish_review E)"

text \<open>
  Publishing a handoff changes only review fields of its dictionary, so the stale jobs are
  computed from the jobs as they were read.
\<close>

definition recover_stale_check_jobs :: "cenv \<Rightarrow> unit check_op" where
  "recover_stale_check_jobs E w =
    (let now = now_of E w in
     sbind (store_all E) (\<lambda>jobs.
     sbind (sreturn (filter_res (\<lambda>job. review_handoff_is_claimable job now review_handoff_lease) jobs)) (\<lambda>handoffs.
     sbind (each_job (retry_handoff E) (take review_handoff_recovery_batch_size handoffs)) (\<lambda>_.
     sbind (sreturn (filter_res (is_stale_check_job now) jobs)) (\<lambda>stale.
     each_job (recover_stale_job E now) stale)))) w)"

subsection \<open>The single-flight gate\<close>

record recovery_gate =
  gate_running :: bool
  gate_last :: rat

text \<open>
  \<open>_schedule_stale_check_recovery\<close>: \<open>None\<close> when nothing is submitted; a refused submission
  releases the marker, the submitted recovery releases it when it ends.
\<close>

definition gate_interval :: rat where "gate_interval = 30"

definition gate_open :: "rat \<Rightarrow> recovery_gate \<Rightarrow> bool" where
  "gate_open now g \<longleftrightarrow> \<not> gate_running g \<and> \<not> now - gate_last g < gate_interval"

definition schedule_recovery :: "bool \<Rightarrow> bool \<Rightarrow> rat \<Rightarrow> recovery_gate \<Rightarrow> recovery_gate \<times> bool" where
  "schedule_recovery has_executor submits now g =
    (if \<not> has_executor \<or> \<not> gate_open now g then (g, False)
     else if submits then (g\<lparr>gate_last := now, gate_running := True\<rparr>, True)
     else (g\<lparr>gate_last := now, gate_running := False\<rparr>, False))"

definition run_scheduled_recovery :: "cenv \<Rightarrow> recovery_gate \<times> cworld \<Rightarrow> (recovery_gate \<times> cworld) \<times> unit res" where
  "run_scheduled_recovery E = (\<lambda>(g, w).
    case recover_stale_check_jobs E w of (w', r) \<Rightarrow> ((g\<lparr>gate_running := False\<rparr>, w'), r))"

definition maybe_recover_stale_check_jobs ::
  "cenv \<Rightarrow> rat \<Rightarrow> recovery_gate \<times> cworld \<Rightarrow> (recovery_gate \<times> cworld) \<times> unit res" where
  "maybe_recover_stale_check_jobs E now = (\<lambda>(g, w).
    if \<not> gate_open now g then ((g, w), Inr ())
    else run_scheduled_recovery E (g\<lparr>gate_last := now, gate_running := True\<rparr>, w))"

subsection \<open>Store calls that nobody disturbs\<close>

definition calm :: "cenv \<Rightarrow> bool" where
  "calm E \<longleftrightarrow> (\<forall>n. \<exists>es. ce_attempts E n = quiet # es) \<and> (\<forall>n. ce_others E n = id) \<and>
     (\<forall>n. ce_io E n = Acked)"

lemma calm_attempts: "calm E \<Longrightarrow> \<exists>es. ce_attempts E n = quiet # es"
  by (simp add: calm_def)

lemma calm_update:
  assumes "calm E"
  obtains es where "ce_attempts E n = quiet # es"
  using assms calm_attempts by blast

lemma update_existing_calm:
  "update_existing (quiet # es) upd jid seen h = (h', s', r) \<Longrightarrow> (h', r) = atomic_update upd jid h"
  using update_existing_quiet by metis

lemma store_all_calm:
  assumes "calm E" and "deserialise_all (cw_hash w) = Inr jobs"
  shows "store_all E w = (called w, Inr jobs)"
  using assms by (simp add: store_all_def store_command_def calm_def all_jobs_def)

text \<open>A hash with one record.\<close>

definition holds :: "string \<Rightarrow> dict \<Rightarrow> rhash \<Rightarrow> bool" where
  "holds jid job h \<longleftrightarrow> h = [(jid, Text (JDict job))] \<and> jid \<noteq> [] \<and> dget ''job_id'' job = JStr jid \<and>
     normal_job job \<and> json_finite (JDict job)"

lemma holds_stored:
  assumes "holds jid job h"
  shows "map_of h jid = Some (Text (JDict job))" and "deserialise_job jid (Text (JDict job)) = Inr job"
    and "deserialise_all h = Inr [job]" and "serialise_job job = Inr (Text (JDict job))"
proof -
  show s: "serialise_job job = Inr (Text (JDict job))"
    using assms by (auto simp: holds_def serialise_job_Inr_iff)
  show d: "deserialise_job jid (Text (JDict job)) = Inr job"
    using assms deserialise_serialise [OF s] by (simp add: holds_def)
  show "map_of h jid = Some (Text (JDict job))" "deserialise_all h = Inr [job]"
    using assms d by (simp_all add: holds_def)
qed

lemma holds_update:
  assumes "holds jid job h" and "normal_job rep" and "dget ''job_id'' rep = JStr jid"
    and "json_finite (JDict rep)"
  shows "holds jid rep (AList.update jid (Text (JDict rep)) h)"
  using assms by (simp add: holds_def)

lemma atomic_update_holds:
  assumes "holds jid job h" and "upd job = Inr (Some rep)" and "normal_job rep"
    and "dget ''job_id'' rep = JStr jid" and "json_finite (JDict rep)"
  shows "atomic_update upd jid h = (AList.update jid (Text (JDict rep)) h, Inr (Some rep))"
    and "holds jid rep (AList.update jid (Text (JDict rep)) h)"
proof -
  show r: "holds jid rep (AList.update jid (Text (JDict rep)) h)"
    using assms by (intro holds_update)
  then show "atomic_update upd jid h = (AList.update jid (Text (JDict rep)) h, Inr (Some rep))"
    using assms(2) holds_stored [OF assms(1)] holds_stored [OF r] by (simp add: atomic_update_def)
qed

lemma atomic_update_holds_None:
  assumes "holds jid job h" and "upd job = Inr None"
  shows "atomic_update upd jid h = (h, Inr None)"
  using assms holds_stored [OF assms(1)] by (simp add: atomic_update_def)

end
