(* ===== verification/PageCheckLemmas.thy ===== *)
theory PageCheckLemmas
  imports PageCheckRecovery
begin

text \<open>
  Lemmas about the page-check tasks and their recovery: the records written stay normal
  and serialisable, an undisturbed \<open>put\<close> stores the job, and the review handoff of a
  finished job never changes its outcome.
\<close>

subsection \<open>Normal and serialisable jobs\<close>

lemma push_event_dicts:
  assumes "list_all is_dict es"
  shows "list_all is_dict (push_event ts stage message es)"
proof -
  have new: "list_all is_dict (last_n n (es @ [timeline_event ts stage message]))" for n
    using assms set_last_n [of n "es @ [timeline_event ts stage message]"]
    by (auto simp: list_all_iff timeline_event_def)
  show ?thesis
  proof (cases "rev es")
    case (Cons e older)
    then have "es = rev older @ [e]" by (simp add: rev_swap)
    with assms new Cons show ?thesis by (cases e) (auto simp: push_event_def)
  qed (use new in \<open>simp add: push_event_def\<close>)
qed

lemma normal_timeline_fixed:
  "list_all is_dict es \<Longrightarrow> length es \<le> check_job_timeline_limit \<Longrightarrow> normal_timeline (JList es) = JList es"
  by (simp add: list_all_iff)

lemma normal_timeline_list:
  assumes "normal_job job"
  obtains es where "dget ''timeline'' job = JList es" and "list_all is_dict es"
    and "length es \<le> check_job_timeline_limit"
proof -
  have n: "normal_timeline (dget ''timeline'' job) = dget ''timeline'' job"
    using assms by (simp add: normal_job_def)
  obtain es where es: "dget ''timeline'' job = JList es"
  proof (cases "dget ''timeline'' job")
    case (JList es)
    then show thesis using that by simp
  qed (use n in auto)
  from n es have e: "last_n check_job_timeline_limit (filter is_dict es) = es" by simp
  have "list_all is_dict es" using set_last_n [of check_job_timeline_limit "filter is_dict es"] e
    by (auto simp: list_all_iff)
  moreover have "length es \<le> check_job_timeline_limit"
    using e length_last_n [of check_job_timeline_limit "filter is_dict es"] by simp
  ultimately show thesis using es that by simp
qed

lemma push_event_finite:
  assumes "list_all json_finite es" and "json_finite ts"
  shows "list_all json_finite (push_event ts stage message es)"
proof -
  have new: "list_all json_finite (last_n n (es @ [timeline_event ts stage message]))" for n
    using assms set_last_n [of n "es @ [timeline_event ts stage message]"]
    by (auto simp: list_all_iff timeline_event_def)
  show ?thesis
  proof (cases "rev es")
    case (Cons e older)
    then have es: "es = rev older @ [e]" by (simp add: rev_swap)
    show ?thesis
    proof (cases e)
      case (JDict d)
      then have "json_finite (JDict (dset ''timestamp'' ts (dset ''message'' (JStr message) d)))"
        using assms es by (intro json_finite_dset) auto
      with es assms new Cons JDict show ?thesis by (auto simp: push_event_def)
    qed (use new Cons in \<open>auto simp: push_event_def\<close>)
  qed (use new in \<open>simp add: push_event_def\<close>)
qed

definition good_job :: "string \<Rightarrow> dict \<Rightarrow> bool" where
  "good_job jid job \<longleftrightarrow> normal_job job \<and> json_finite (JDict job) \<and> dget ''job_id'' job = JStr jid \<and>
     jid \<noteq> []"

lemma finite_dset: "json_finite (JDict d) \<Longrightarrow> json_finite v \<Longrightarrow> json_finite (JDict (dset k v d))"
  by (rule json_finite_dset)

lemma good_job_dset:
  assumes "good_job jid job" and "k \<notin> {''timeline'', ''job_id''}" and "hashable v" and "json_finite v"
  shows "good_job jid (dset k v job)"
  using assms by (auto simp del: json_finite.simps simp: good_job_def intro: normal_job_dset finite_dset)

lemma good_job_dset_other:
  assumes "good_job jid job" and "k \<notin> {''timeline'', ''job_id'', ''status''}" and "json_finite v"
  shows "good_job jid (dset k v job)"
  using assms by (auto simp del: json_finite.simps simp: good_job_def normal_job_def intro: finite_dset)

lemma good_set_state:
  assumes "good_job jid job" and "set_check_job_state job stage message = Inr j"
  shows "good_job jid j"
proof -
  note s = set_state_Inr [OF assms(2)]
  obtain es where es: "dget ''timeline'' job = JList es" "list_all is_dict es"
    "length es \<le> check_job_timeline_limit"
    using assms(1) normal_timeline_list by (auto simp: good_job_def)
  have t: "dget ''timeline'' j = JList (push_event (dget ''last_updated_at'' job) stage message es)"
    using s(3) es by simp
  have fin: "json_finite (JDict job)" using assms(1) by (simp add: good_job_def)
  have tf: "list_all json_finite es"
    using json_finite_dget [OF fin, of "''timeline''"] es by simp
  have lf: "json_finite (dget ''last_updated_at'' job)" using fin by (rule json_finite_dget)
  have "j = dset ''timeline'' (JList (push_event (dget ''last_updated_at'' job) stage message es))
      (dset ''message'' (JStr message) (dset ''stage'' (JStr stage) job))"
    using assms(2) es(1) by (auto simp: set_check_job_state_def Let_def bnd_Inr_iff dindex_Inr_iff)
  then have "json_finite (JDict j)"
    using push_event_finite [OF tf lf] fin
    by (simp del: json_finite.simps(3) add: finite_dset)
  moreover have "normal_job j"
    unfolding normal_job_def
  proof (intro conjI ballI)
    have n: "normal_job job" using assms(1) by (simp add: good_job_def)
    show "hashable (dget_or ''status'' (JStr ''pending'') j)"
      using n s(4) [of "''status''"] s(5) [of "''status''"]
      by (cases "dhas ''status'' job") (simp_all add: normal_job_def dget_or_dget dget_or_absent)
    show "normal_timeline (dget ''timeline'' j) = dget ''timeline'' j"
      unfolding t by (rule normal_timeline_fixed [OF push_event_dicts [OF es(2)] push_event_length [OF es(3)]])
    fix k
    assume k: "k \<in> set display_fields"
    show "dhas k j"
    proof (cases "k \<in> {''stage'', ''message'', ''timeline''}")
      case True
      then have "dget k j \<noteq> JNull" using s(1,2) t by auto
      then show ?thesis by (rule dget_dhas)
    next
      case False
      then show ?thesis using s(5) n k by (simp add: normal_job_def)
    qed
  qed
  ultimately show ?thesis using assms(1) s(4) by (simp add: good_job_def)
qed

lemma copy_fields_self: "copy_fields ks j j = j"
proof (induction ks)
  case (Cons k ks)
  show ?case
  proof (cases "map_of j k")
    case None
    then have "dpop k j = j" by (simp add: dpop_def map_of_eq_None_iff)
    with None Cons show ?thesis by simp
  next
    case (Some v)
    then have "dset k v j = j" by (intro dset_same) (simp_all add: dhas_def dget_def)
    with Some Cons show ?thesis by simp
  qed
qed simp

lemma copy_review_self: "copy_review_fields j j = j"
  by (simp add: copy_review_fields_def copy_fields_self)

subsection \<open>An undisturbed put\<close>

lemma holds_good: "holds jid job h \<Longrightarrow> good_job jid job"
  by (simp add: holds_def good_job_def)

lemma good_serialise:
  assumes "good_job jid job"
  shows "serialise_job job = Inr (Text (JDict job))" and "deserialise_job jid (Text (JDict job)) = Inr job"
proof -
  show s: "serialise_job job = Inr (Text (JDict job))"
    using assms by (auto simp: good_job_def serialise_job_Inr_iff)
  show "deserialise_job jid (Text (JDict job)) = Inr job"
    using assms deserialise_serialise [OF s] by (simp add: good_job_def)
qed

lemma put_calm:
  assumes "holds jid cur h" and "good_job jid job"
    and "dget ''execution_token'' job = JStr token" and "dget ''execution_token'' cur = JStr token"
    and "\<not> is_dict (dget ''review_message'' cur)" and "dget ''review_queue_state'' cur \<noteq> JStr ''invalid''"
  shows "put (quiet # es) job h = (AList.update jid (Text (JDict job)) h, Inr True, job)"
    and "holds jid job (AList.update jid (Text (JDict job)) h)"
proof -
  note g = good_serialise [OF assms(2)]
  have id: "dget ''job_id'' job = JStr jid" using assms(2) by (simp add: good_job_def)
  have u: "put_update job cur = Inr (Some job)"
    using assms(3-6) by (simp add: put_update_def Let_def)
  have n: "normal_job job" "json_finite (JDict job)" using assms(2) by (simp_all add: good_job_def)
  note a = atomic_update_holds [where upd = "put_update job", OF assms(1) u n(1) id n(2)]
  show "holds jid job (AList.update jid (Text (JDict job)) h)" by (rule a(2))
  obtain h' s' r where e: "update_existing (quiet # es) (put_update job) jid [] h = (h', s', r)"
    by (cases "update_existing (quiet # es) (put_update job) jid [] h") auto
  from update_existing_calm [OF e] a(1)
  have "h' = AList.update jid (Text (JDict job)) h" "r = Inr (Some job)" by simp_all
  moreover have "job \<noteq> []" using id by (auto simp: dget_def)
  ultimately show "put (quiet # es) job h = (AList.update jid (Text (JDict job)) h, Inr True, job)"
    using e g id assms(3) by (simp add: put_def Let_def copy_review_self py_eq_JStr)
qed

lemma store_put_calm:
  assumes "calm E" and "holds jid cur (cw_hash w)" and "good_job jid (cw_job w)"
    and "dget ''execution_token'' (cw_job w) = JStr token" and "dget ''execution_token'' cur = JStr token"
    and "\<not> is_dict (dget ''review_message'' cur)" and "dget ''review_queue_state'' cur \<noteq> JStr ''invalid''"
  obtains w' where "store_put E w = (w', Inr True)" and "holds jid (cw_job w) (cw_hash w')"
    and "cw_job w' = cw_job w" and "cw_launched w' = cw_launched w"
proof -
  obtain es where es: "ce_attempts E (cw_calls w) = quiet # es" using assms(1) calm_update by blast
  note p = put_calm(1) [OF assms(2-7), of es] put_calm(2) [OF assms(2-7)]
  show thesis
    using p es by (intro that [of "called (w\<lparr>cw_hash := AList.update jid (Text (JDict (cw_job w))) (cw_hash w)\<rparr>)"])
      (simp_all add: store_put_def called_def)
qed

subsection \<open>Preparing the event of a failed job\<close>

lemma validate_errors:
  assumes "validate_review_message (JDict (review_message j l t (JFloat (Finite q)) (JStr oc) r)) = Inl e"
  shows "is_queue_error e"
proof -
  have d: "dget ''queued_at'' (review_message j l t (JFloat (Finite q)) (JStr oc) r) = JFloat (Finite q)"
    "dget ''outcome'' (review_message j l t (JFloat (Finite q)) (JStr oc) r) = JStr oc"
    by (simp_all add: review_message_def dget_def)
  show ?thesis
    using assms
    by (auto simp: validate_review_message_def Let_def d queue_error_def encode_message_def
        split: if_splits)
qed

lemma build_failed_errors:
  assumes "dget ''status'' job = JStr ''error''" and "build_review_message job (JFloat (Finite q)) = Inl e"
  shows "is_queue_error e"
proof -
  have p: "py_in (JStr ''error'') reviewable_outcomes = Inr True" by (simp add: reviewable_outcomes_def)
  have r: "review_result job t = Inr r \<Longrightarrow> dindex ''status'' r = Inr (JStr ''error'')" for t r
    using assms(1) by (auto simp: review_result_def dindex_def)
  have ok: "review_result job t \<noteq> Inl e" for t using assms(1) by (simp add: review_result_def)
  show ?thesis
    using assms(2) ok
    by (auto simp: build_review_message_def Let_def queue_error_def r p bnd_def encode_message_def
        split: json.splits list.splits if_splits sum.splits dest: validate_errors)
qed

lemma build_finite:
  assumes "build_review_message job q = Inr m"
  shows "json_finite (JDict m)" and "dget ''event_id'' m \<noteq> JNull"
proof -
  have v: "validate_review_message (JDict m) = Inr m"
    using assms by (auto simp: build_review_message_def Let_def bnd_Inr_iff queue_error_def validate_Inr
        split: json.splits list.splits if_splits)
  show "json_finite (JDict m)"
    using v by (auto simp: validate_Inr encode_message_def split: if_splits)
  show "dget ''event_id'' m \<noteq> JNull"
    using v by (auto simp: validate_Inr head_fields_ok_def)
qed

definition settled_review :: "dict \<Rightarrow> bool" where
  "settled_review job \<longleftrightarrow> is_dict (dget ''review_message'' job) \<or>
     \<not> in_strs (dget ''review_queue_state'' job) claimable_states"

lemma review_state_good:
  assumes "good_job jid job" and "json_finite event_id" and "json_finite err"
  shows "good_job jid (review_state state event_id err job)"
  using assms by (simp add: review_state_def good_job_dset_other)

lemma review_state_dget:
  "dget k (review_state state event_id err job) =
    (if k = ''review_queue_error'' then err else if k = ''review_event_id'' then event_id
     else if k = ''review_queue_state'' then JStr state else dget k job)"
  by (auto simp: review_state_def)

definition pending_review :: "dict \<Rightarrow> dict \<Rightarrow> dict" where
  "pending_review message job =
    dset ''review_queue_next_attempt_at'' (JFloat (Finite 0)) (dset ''review_queue_attempts'' (JInt 0)
      (dset ''review_message'' (JDict message)
        (review_state ''pending'' (dget ''event_id'' message) JNull job)))"

lemma prepare_cases:
  assumes "prepare_review queue now job = r"
    and "\<And>e. build_review_message job (JFloat (Finite now)) = Inl e \<Longrightarrow> is_queue_error e"
  obtains (kept) "is_dict (dget ''review_message'' job)" and "r = Inr job"
    | (plain) state err where "r = Inr (review_state state JNull err job)"
        and "state \<notin> set claimable_states" and "json_finite err"
    | (pending) m where "build_review_message job (JFloat (Finite now)) = Inr m"
        and "r = Inr (pending_review m job)"
proof (cases "build_review_message job (JFloat (Finite now))")
  case (Inl e)
  with assms show thesis
    by (auto simp: prepare_review_def Let_def claimable_states_def intro: kept plain split: if_splits)
next
  case (Inr m)
  with assms show thesis
    by (auto simp: prepare_review_def Let_def claimable_states_def pending_review_def
        intro: kept plain pending split: if_splits)
qed

lemma pending_review_good:
  assumes "good_job jid job" and "json_finite (JDict m)"
  shows "good_job jid (pending_review m job)"
proof -
  have "json_finite (dget ''event_id'' m)" using assms(2) by (rule json_finite_dget)
  with assms show ?thesis
    unfolding pending_review_def
    by (intro good_job_dset_other review_state_good) (simp_all del: json_finite.simps(3) add: json_finite.simps(1))
qed

lemma prepare_failed:
  assumes "good_job jid job" and "dget ''status'' job = JStr ''error''"
  obtains j where "prepare_review queue now job = Inr j" and "good_job jid j" and "settled_review j"
    and "\<And>k. k \<notin> set review_fields \<Longrightarrow> dget k j = dget k job"
proof -
  have q: "\<And>e. build_review_message job (JFloat (Finite now)) = Inl e \<Longrightarrow> is_queue_error e"
    by (rule build_failed_errors [OF assms(2)])
  show thesis
  proof (rule prepare_cases [where queue = queue, OF refl q])
    assume "is_dict (dget ''review_message'' job)" and "prepare_review queue now job = Inr job"
    then show thesis using assms(1) by (intro that) (simp_all add: settled_review_def)
  next
    fix state err
    assume plain: "prepare_review queue now job = Inr (review_state state JNull err job)"
      "state \<notin> set claimable_states" "json_finite err"
    have "good_job jid (review_state state JNull err job)"
      using assms(1) plain(3) by (intro review_state_good) simp_all
    with plain show thesis
      by (intro that [of "review_state state JNull err job"])
        (auto simp: settled_review_def review_state_dget review_fields_def)
  next
    fix m
    assume pending: "build_review_message job (JFloat (Finite now)) = Inr m"
      "prepare_review queue now job = Inr (pending_review m job)"
    have "good_job jid (pending_review m job)"
      using assms(1) build_finite(1) [OF pending(1)] by (rule pending_review_good)
    with pending show thesis
      by (intro that [of "pending_review m job"])
        (auto simp: settled_review_def pending_review_def review_state_dget review_fields_def)
  qed
qed

lemma sbind_edit: "sbind (edit_job f) g w = g () (w\<lparr>cw_job := f (cw_job w)\<rparr>)"
  by (simp add: sbind_def edit_job_def)

lemma fail_job_effect:
  assumes "good_job jid (cw_job w)"
  obtains j where "fail_job E text w = (w\<lparr>cw_job := j\<rparr>, Inr ())" and "good_job jid j"
    and "settled_review j" and "dget ''status'' j = JStr ''error''"
    and "\<And>k. k \<notin> set review_fields \<union> {''status'', ''last_updated_at'', ''error'', ''stage'', ''message'', ''timeline''}
      \<Longrightarrow> dget k j = dget k (cw_job w)"
proof -
  let ?a = "dset ''error'' (JStr text) (dset ''last_updated_at'' (JFloat (Finite (now_of E w)))
    (dset ''status'' (JStr ''error'') (cw_job w)))"
  have a: "good_job jid ?a" using assms by (intro good_job_dset) simp_all
  obtain b where b: "set_check_job_state ?a ''failed'' text = Inr b"
    using set_state_ok [of ?a] by auto
  note sb = set_state_Inr [OF b]
  have gb: "good_job jid b" using a b by (rule good_set_state)
  have st: "dget ''status'' b = JStr ''error''" using sb(4) [of "''status''"] by simp
  obtain j where j: "prepare_review (ce_queue E) (now_of E w) b = Inr j" "good_job jid j" "settled_review j"
    "\<And>k. k \<notin> set review_fields \<Longrightarrow> dget k j = dget k b"
    using prepare_failed [OF gb st] by metis
  have "fail_job E text w = (w\<lparr>cw_job := j\<rparr>, Inr ())"
    using b j(1) by (simp add: fail_job_def sbind_edit stamp_def set_state_def prepare_op_def
        edit_job_res_def sbind_def edit_job_def now_of_def)
  moreover have "dget ''status'' j = JStr ''error''" using j(4) [of "''status''"] st by (simp add: review_fields_def)
  moreover have "dget k j = dget k (cw_job w)"
    if "k \<notin> set review_fields \<union> {''status'', ''last_updated_at'', ''error'', ''stage'', ''message'', ''timeline''}" for k
    using that j(4) [of k] sb(4) [of k] by auto
  ultimately show thesis using j that by blast
qed

lemma new_check_job_good:
  "jid \<noteq> [] \<Longrightarrow> good_job jid (new_check_job jid token language title now)"
  by (simp add: good_job_def normal_job_def new_check_job_def display_fields_def dhas_def dget_def
      dget_or_def timeline_event_def check_job_timeline_limit_def)

end
