(* ===== verification/PageCheckStall.thy ===== *)
theory PageCheckStall
  imports PageCheckLemmas
begin

text \<open>
  A page-check job whose workers die: what each recovery does to its record, and that the
  review handoff of a failed job never revives it.
\<close>

subsection \<open>Handoff updates leave a failed job failed\<close>

definition dead :: "string \<Rightarrow> rhash \<Rightarrow> bool" where
  "dead jid h \<longleftrightarrow> (\<exists>job. holds jid job h \<and> dget ''status'' job = JStr ''error'' \<and> settled_review job)"

locale handoff_update =
  fixes upd :: "dict \<Rightarrow> dict option res"
  assumes needs_handoff: "upd cur = Inr (Some rep) \<Longrightarrow> in_strs (dget ''review_queue_state'' cur) claimable_states"
    and keeps_normal_job: "upd cur = Inr (Some rep) \<Longrightarrow> normal_job cur \<Longrightarrow> normal_job rep"
    and keeps_outcome: "upd cur = Inr (Some rep) \<Longrightarrow> k \<in> {''job_id'', ''status'', ''review_message''} \<Longrightarrow>
      dget k rep = dget k cur"
begin

lemma dead_update:
  assumes "dead jid h" and "atomic_update upd jid h = (h', r)"
  shows "dead jid h'"
proof -
  obtain job where job: "holds jid job h" "dget ''status'' job = JStr ''error''" "settled_review job"
    using assms(1) by (auto simp: dead_def)
  note hs = holds_stored [OF job(1)]
  show ?thesis
  proof (cases "\<exists>rep. upd job = Inr (Some rep) \<and> json_finite (JDict rep)")
    case True
    then obtain rep where rep: "upd job = Inr (Some rep)" "json_finite (JDict rep)" by blast
    have n: "normal_job rep" using keeps_normal_job [OF rep(1)] job(1) by (simp add: holds_def)
    have k: "dget ''job_id'' rep = JStr jid" "dget ''status'' rep = JStr ''error''"
      "dget ''review_message'' rep = dget ''review_message'' job"
      using keeps_outcome [OF rep(1)] job by (simp_all add: holds_def)
    have "settled_review rep" using needs_handoff [OF rep(1)] job(3) k(3) by (simp add: settled_review_def)
    moreover have "holds jid rep h'"
      using atomic_update_holds [of jid job h upd rep] job(1) rep n k(1) assms(2) by simp
    ultimately show ?thesis using k(2) by (auto simp: dead_def)
  next
    case False
    have "h' = h"
    proof (cases "upd job")
      case (Inl e)
      then show ?thesis using assms(2) hs by (simp add: atomic_update_def)
    next
      case (Inr v)
      then show ?thesis
        using assms(2) hs False by (cases v) (auto simp: atomic_update_def serialise_job_Inr_iff split: sum.splits)
    qed
    with assms(1) show ?thesis by simp
  qed
qed

end

interpretation claim_step: handoff_update "claim_handoff_update claim now lease" for claim now lease
proof unfold_locales
  fix cur rep k
  assume u: "claim_handoff_update claim now lease cur = Inr (Some rep)"
  show "in_strs (dget ''review_queue_state'' cur) claimable_states"
    by (rule claim_handoff_update_Some [OF u]) (rule claimable_state)
  show "normal_job cur \<Longrightarrow> normal_job rep" by (rule handoff.keeps_normal [OF _ u])
  show "k \<in> {''job_id'', ''status'', ''review_message''} \<Longrightarrow> dget k rep = dget k cur"
    by (rule claim_handoff_update_Some [OF u]) auto
qed

interpretation finish_step: handoff_update "finish_handoff_update claim state event_id err now"
  for claim state event_id err now
proof unfold_locales
  fix cur rep k
  assume u: "finish_handoff_update claim state event_id err now cur = Inr (Some rep)"
  show "in_strs (dget ''review_queue_state'' cur) claimable_states"
    using finish_handoff_update_Some(1) [OF u] by (simp add: claimable_states_def)
  show "normal_job cur \<Longrightarrow> normal_job rep" using finish_handoff_update_Some(8) [OF u] .
  show "k \<in> {''job_id'', ''status'', ''review_message''} \<Longrightarrow> dget k rep = dget k cur"
    using u by (auto simp: finish_handoff_update_def Let_def bnd_Inr_iff split: if_splits option.splits)
qed

text \<open>A step after which the job is as dead as before and nothing was launched.\<close>

definition rests :: "string \<Rightarrow> cworld \<Rightarrow> cworld \<Rightarrow> bool" where
  "rests jid w w' \<longleftrightarrow> cw_launched w' = cw_launched w \<and>
     (dead jid (cw_hash w) \<and> jid_of w = jid \<longrightarrow> dead jid (cw_hash w') \<and> jid_of w' = jid)"

lemma rests_refl: "rests jid w w"
  by (simp add: rests_def)

lemma rests_trans: "rests jid w w1 \<Longrightarrow> rests jid w1 w2 \<Longrightarrow> rests jid w w2"
  by (simp add: rests_def)

lemma rests_claim:
  assumes "calm E" and "store_update E (\<lambda>es. claim_review_handoff es (jid_of w) c n l) w = (w', r)"
  shows "rests jid w w'"
proof -
  obtain es where es: "ce_attempts E (cw_calls w) = quiet # es" using assms(1) calm_update by blast
  obtain h s a where u: "update_existing (quiet # es) (claim_handoff_update c n l) (jid_of w) [] (cw_hash w) = (h, s, a)"
    by (cases "update_existing (quiet # es) (claim_handoff_update c n l) (jid_of w) [] (cw_hash w)") auto
  have at: "atomic_update (claim_handoff_update c n l) (jid_of w) (cw_hash w) = (h, a)"
    using update_existing_calm [OF u] by simp
  have w': "w' = called (w\<lparr>cw_hash := h\<rparr>)"
    using assms(2) u unfolding store_update_def claim_review_handoff_def es
    by (simp del: update_existing.simps)
  then show ?thesis
    using claim_step.dead_update [OF _ at] by (auto simp: rests_def called_def jid_of_def)
qed

lemma rests_finish:
  assumes "calm E" and "store_update E (\<lambda>es. finish_review_handoff es (jid_of w) c s v e n) w = (w', r)"
  shows "rests jid w w'"
proof (cases "s \<in> {''queued'', ''failed'', ''invalid''}")
  case False
  then have "w' = called (w\<lparr>cw_hash := cw_hash w\<rparr>)"
    using assms(2) by (simp add: store_update_def finish_review_handoff_def)
  then show ?thesis by (simp add: rests_def called_def jid_of_def)
next
  case True
  obtain es where es: "ce_attempts E (cw_calls w) = quiet # es" using assms(1) calm_update by blast
  obtain h x a where u: "update_existing (quiet # es) (finish_handoff_update c s v e n) (jid_of w) [] (cw_hash w) = (h, x, a)"
    by (cases "update_existing (quiet # es) (finish_handoff_update c s v e n) (jid_of w) [] (cw_hash w)") auto
  have at: "atomic_update (finish_handoff_update c s v e n) (jid_of w) (cw_hash w) = (h, a)"
    using update_existing_calm [OF u] by simp
  have w': "w' = called (w\<lparr>cw_hash := h\<rparr>)"
    using assms(2) u True
    unfolding store_update_def finish_review_handoff_def es if_not_P [OF not_not [THEN iffD2, OF True]]
    by (simp del: update_existing.simps)
  then show ?thesis
    using finish_step.dead_update [OF _ at] by (auto simp: rests_def called_def jid_of_def)
qed

lemma rests_publish_claimed: "publish_claimed E claimed w = (w', r) \<Longrightarrow> rests jid w w'"
  by (auto simp: publish_claimed_def Let_def rests_def called_def jid_of_def
      split: sum.splits prod.splits if_splits)

lemma rests_review_state: "rests jid w (w\<lparr>cw_job := review_state s v e (cw_job w)\<rparr>)"
  by (simp add: rests_def jid_of_def review_state_dget)

lemma rests_hand_over:
  assumes "calm E"
  shows "rests jid w (fst (hand_over E w))"
proof -
  let ?c = "ce_id E (cw_calls w)"
  obtain w1 r1 where 1: "store_update E (\<lambda>es. claim_review_handoff es (jid_of w) ?c (now_of E w) review_handoff_lease) w = (w1, r1)"
    by (cases "store_update E (\<lambda>es. claim_review_handoff es (jid_of w) ?c (now_of E w) review_handoff_lease) w")
  note s1 = rests_claim [OF assms 1, of jid]
  show ?thesis
  proof (cases "\<exists>claimed. r1 = Inr (Some claimed)")
    case False
    with 1 s1 show ?thesis
      by (auto simp: hand_over_def Let_def unless_store_error_def sreturn_def split: sum.splits option.splits)
  next
    case True
    then obtain claimed where r1: "r1 = Inr (Some claimed)" by blast
    obtain w2 r2 where 2: "publish_claimed E claimed w1 = (w2, r2)" by (cases "publish_claimed E claimed w1")
    note s2 = rests_trans [OF s1 rests_publish_claimed [OF 2]]
    show ?thesis
    proof (cases r2)
      case (Inl e)
      with 1 2 r1 s2 show ?thesis by (simp add: hand_over_def Let_def unless_store_error_def sbind_def)
    next
      case (Inr p)
      obtain s v e where p: "p = (s, v, e)" by (cases p)
      obtain w3 r3 where 3: "store_update E (\<lambda>es. finish_review_handoff es (jid_of w2) ?c s v e (now_of E w2)) w2 = (w3, r3)"
        by (cases "store_update E (\<lambda>es. finish_review_handoff es (jid_of w2) ?c s v e (now_of E w2)) w2")
      note s3 = rests_trans [OF s2 rests_finish [OF assms 3]]
      have "fst (hand_over E w) \<in> {w3, w3\<lparr>cw_job := review_state s (JStr v) (opt_str e) (cw_job w3)\<rparr>}"
        using 1 2 3 r1 Inr p
        by (auto simp: hand_over_def Let_def unless_store_error_def sbind_def sreturn_def edit_job_def
            split: sum.splits if_splits)
      with s3 rests_trans [OF s3 rests_review_state] show ?thesis by auto
    qed
  qed
qed

lemma rests_publish_review:
  assumes "calm E" and "settled_review (cw_job w)"
  shows "rests jid w (fst (publish_review E w))"
  using assms rests_hand_over [OF assms(1), of jid w]
  by (auto simp: publish_review_def settled_review_def py_in_def rests_refl split: sum.splits)

subsection \<open>One recovery of a stalled job\<close>

definition stalled :: "string \<Rightarrow> int \<Rightarrow> rat \<Rightarrow> rhash \<Rightarrow> bool" where
  "stalled jid attempts t h \<longleftrightarrow> (\<exists>job. holds jid job h \<and> in_strs (dget ''status'' job) unfinished_statuses \<and>
     dget ''last_updated_at'' job = JFloat (Finite t) \<and> dget ''attempts'' job = JInt attempts \<and>
     dget ''review_queue_state'' job = JStr ''not_needed'' \<and> \<not> is_dict (dget ''review_message'' job))"

definition claimed_job :: "string \<Rightarrow> rat \<Rightarrow> int \<Rightarrow> dict \<Rightarrow> dict" where
  "claimed_job token now attempts job =
    dset ''execution_token'' (JStr token) (dset ''last_updated_at'' (JFloat (Finite now))
      (dset ''error'' JNull (dset ''progress'' (JInt 0) (dset ''status'' (JStr ''pending'')
        (dset ''attempts'' (JInt (attempts + 1)) job)))))"

lemma claimed_job_good: "good_job jid job \<Longrightarrow> good_job jid (claimed_job token now k job)"
  unfolding claimed_job_def by (intro good_job_dset) simp_all

lemma claim_update_stalled:
  assumes "in_strs (dget ''status'' job) unfinished_statuses"
    and "dget ''last_updated_at'' job = JFloat (Finite t)" and "dget ''attempts'' job = JInt k"
    and "900 < now - t"
  shows "claim_stale_update (Finite t) now stale_check_job_timeout token job = Inr (Some (claimed_job token now k job))"
proof -
  have "py_in (dget ''status'' job) unfinished_statuses = Inr True" using assms(1) by (simp add: py_in_True_iff)
  moreover have "dget_or ''attempts'' (JInt 0) job = JInt k"
    using assms(3) dget_dhas [of "''attempts''" job] by (simp add: dget_or_dget)
  ultimately show ?thesis
    using assms(2,4) by (simp add: claim_stale_update_def claimed_job_def stale_check_job_timeout_def)
qed

text \<open>The claim: the record is the job with one attempt more, and the closure's job is that record.\<close>

lemma recover_stale_job_claims:
  assumes "calm E" and "holds jid job (cw_hash w)" and "in_strs (dget ''status'' job) unfinished_statuses"
    and "dget ''last_updated_at'' job = JFloat (Finite t)" and "dget ''attempts'' job = JInt k"
    and "900 < now - t"
  obtains w1 token where "recover_stale_job E now job w = recover_claimed E w1"
    and "cw_job w1 = claimed_job token now k job" and "holds jid (cw_job w1) (cw_hash w1)"
    and "cw_launched w1 = cw_launched w" and "cw_calls w1 = Suc (cw_calls w)"
proof -
  let ?tok = "ce_id E (cw_calls w)"
  let ?j = "claimed_job ?tok now k job"
  obtain es where es: "ce_attempts E (cw_calls w) = quiet # es" using assms(1) calm_update by blast
  note upd = claim_update_stalled [OF assms(3-6), of ?tok]
  have g: "good_job jid ?j" using claimed_job_good holds_good [OF assms(2)] by blast
  then have n: "normal_job ?j" "dget ''job_id'' ?j = JStr jid" "json_finite (JDict ?j)"
    by (simp_all add: good_job_def)
  let ?upd = "claim_stale_update (Finite t) now stale_check_job_timeout ?tok"
  note a = atomic_update_holds [where upd = ?upd and rep = ?j and job = job and jid = jid
      and h = "cw_hash w", OF assms(2) upd n]
  obtain h s r where u: "update_existing (quiet # es) ?upd jid [] (cw_hash w) = (h, s, r)"
    by (cases "update_existing (quiet # es) ?upd jid [] (cw_hash w)") auto
  have hr: "h = AList.update jid (Text (JDict ?j)) (cw_hash w)" "r = Inr (Some ?j)"
    using update_existing_calm [OF u] a(1) by simp_all
  have id: "py_str (dget ''job_id'' job) = jid" using assms(2) by (simp add: holds_def)
  have "recover_stale_job E now job w = recover_claimed E (called (w\<lparr>cw_hash := h\<rparr>)\<lparr>cw_job := ?j\<rparr>)"
    unfolding recover_stale_job_def Let_def id assms(4)
    by (simp del: update_existing.simps add: store_update_def claim_stale_job_def es u hr(2)
        sbind_def edit_job_def)
  then show thesis
    using a(2) hr(1) by (intro that [of "called (w\<lparr>cw_hash := h\<rparr>)\<lparr>cw_job := ?j\<rparr>" ?tok]) (simp_all add: called_def)
qed

lemma recover_claimed_relaunches:
  assumes "calm E" and "\<And>n. ce_submits E n" and "holds jid (cw_job w) (cw_hash w)"
    and "cw_job w = claimed_job token now k job" and "k + 1 \<le> 3"
    and "dget ''review_queue_state'' job = JStr ''not_needed''" and "\<not> is_dict (dget ''review_message'' job)"
  shows "stalled jid (k + 1) now (cw_hash (fst (recover_claimed E w))) \<and>
    length (cw_launched (fst (recover_claimed E w))) = Suc (length (cw_launched w))"
proof -
  have ex: "exceeded_retry_limit (cw_job w) = Inr False"
  proof -
    have "\<not> (3::rat) < of_int (k + 1)" using assms(5) by (metis not_less of_int_le_iff of_int_numeral)
    then show ?thesis
      by (simp add: exceeded_retry_limit_def assms(4) claimed_job_def dindex_ok check_job_max_attempts_def)
  qed
  let ?m = "retry_message (cw_job w)"
  obtain b where b: "set_check_job_state (cw_job w) ''retrying'' ?m = Inr b"
    using set_state_ok [of "cw_job w"] by (auto simp: assms(4) claimed_job_def)
  note sb = set_state_Inr(4) [OF b]
  let ?w = "w\<lparr>cw_job := b\<rparr>"
  have gb: "good_job jid b" using holds_good [OF assms(3)] b by (rule good_set_state)
  have tok: "dget ''execution_token'' b = JStr token" "dget ''execution_token'' (cw_job w) = JStr token"
    using sb [of "''execution_token''"] by (simp_all add: assms(4) claimed_job_def)
  obtain w2 where w2: "store_put E ?w = (w2, Inr True)" "holds jid b (cw_hash w2)" "cw_job w2 = b"
    "cw_launched w2 = cw_launched w"
    using store_put_calm [OF assms(1), of jid "cw_job w" ?w token] assms(3,6,7) gb tok
    by (auto simp: assms(4) claimed_job_def)
  have r: "recover_claimed E w = (called (w2\<lparr>cw_launched := cw_launched w2 @ [b]\<rparr>), Inr ())"
    using ex b w2 assms(2)
    by (simp add: recover_claimed_def sbind_def set_state_def edit_job_res_def launch_or_fail_def launch_def)
  have "stalled jid (k + 1) now (cw_hash w2)"
    unfolding stalled_def
    using w2(2) sb [of "''status''"] sb [of "''last_updated_at''"] sb [of "''attempts''"]
      sb [of "''review_queue_state''"] sb [of "''review_message''"] assms(6,7)
    by (intro exI [of _ b]) (simp add: assms(4) claimed_job_def unfinished_statuses_def)
  then show ?thesis using r w2(4) by (simp add: called_def)
qed

lemma recover_claimed_gives_up:
  assumes "calm E" and "holds jid (cw_job w) (cw_hash w)"
    and "cw_job w = claimed_job token now k job" and "3 < k + 1"
    and "dget ''review_queue_state'' job = JStr ''not_needed''" and "\<not> is_dict (dget ''review_message'' job)"
  shows "dead jid (cw_hash (fst (recover_claimed E w))) \<and>
    cw_launched (fst (recover_claimed E w)) = cw_launched w"
proof -
  have ex: "exceeded_retry_limit (cw_job w) = Inr True"
  proof -
    have "(3::rat) < of_int (k + 1)" using assms(4) by (metis of_int_less_iff of_int_numeral)
    then show ?thesis
      by (simp add: exceeded_retry_limit_def assms(3) claimed_job_def dindex_ok check_job_max_attempts_def)
  qed
  obtain j where j: "fail_job E stalled_error w = (w\<lparr>cw_job := j\<rparr>, Inr ())" "good_job jid j"
    "settled_review j" "dget ''status'' j = JStr ''error''"
    "dget ''execution_token'' j = dget ''execution_token'' (cw_job w)"
  proof (rule fail_job_effect [OF holds_good [OF assms(2)], of E stalled_error])
    fix j
    assume j: "fail_job E stalled_error w = (w\<lparr>cw_job := j\<rparr>, Inr ())" "good_job jid j"
      "settled_review j" "dget ''status'' j = JStr ''error''"
      "\<And>k. k \<notin> set review_fields \<union> {''status'', ''last_updated_at'', ''error'', ''stage'', ''message'', ''timeline''}
        \<Longrightarrow> dget k j = dget k (cw_job w)"
    show thesis using j(5) [of "''execution_token''"] by (intro that [OF j(1-4)]) (simp add: review_fields_def)
  qed
  have tok: "dget ''execution_token'' (cw_job w) = JStr token" by (simp add: assms(3) claimed_job_def)
  obtain w2 where w2: "store_put E (w\<lparr>cw_job := j\<rparr>) = (w2, Inr True)" "holds jid j (cw_hash w2)"
    "cw_job w2 = j" "cw_launched w2 = cw_launched w"
    using store_put_calm [OF assms(1), of jid "cw_job w" "w\<lparr>cw_job := j\<rparr>" token] assms(2,5,6) j tok
    by (auto simp: assms(3) claimed_job_def)
  have "recover_claimed E w = publish_review E w2"
    using ex j(1) w2(1) by (simp add: recover_claimed_def sbind_def)
  moreover have "rests jid w2 (fst (publish_review E w2))"
    using assms(1) j(3) w2(3) by (intro rests_publish_review) simp_all
  moreover have "dead jid (cw_hash w2)" using w2(2) j(3,4) by (auto simp: dead_def)
  moreover have "jid_of w2 = jid" using w2(3) j(2) by (simp add: jid_of_def good_job_def)
  ultimately show ?thesis using w2(4) by (simp add: rests_def)
qed

end
