(* ===== verification/PageCheckProps.thy ===== *)
theory PageCheckProps
  imports PageCheckStall
begin

text \<open>Properties of the page-check jobs: admission, supersession, bounded relaunching.\<close>

subsection \<open>Operations that only touch review fields\<close>

definition only_review :: "cworld \<Rightarrow> cworld \<Rightarrow> bool" where
  "only_review w w' \<longleftrightarrow> cw_launched w' = cw_launched w \<and>
     (\<forall>k. k \<notin> set review_fields \<longrightarrow> dget k (cw_job w') = dget k (cw_job w))"

lemma only_review_trans: "transp only_review"
  by (auto simp: only_review_def transp_def)

lemma only_review_refl: "reflp only_review"
  by (simp add: only_review_def reflp_def)

lemma only_review_store_update: "stays only_review (store_update E f)"
  by (auto simp: stays_def only_review_def store_update_def called_def split: prod.splits)

lemma put_job: "put es job h = (h', r, j) \<Longrightarrow> k \<notin> set review_fields \<Longrightarrow> dget k j = dget k job"
  by (auto simp: put_def Let_def split: sum.splits prod.splits option.splits)

lemma only_review_put: "stays only_review (store_put E)"
  by (auto simp: stays_def only_review_def store_put_def called_def put_job split: prod.splits)

lemma review_state_other: "k \<notin> set review_fields \<Longrightarrow> dget k (review_state s v e job) = dget k job"
  by (auto simp: review_state_dget review_fields_def)

lemma prepare_other:
  "prepare_review q now job = Inr j \<Longrightarrow> k \<notin> set review_fields \<Longrightarrow> dget k j = dget k job"
  by (auto simp: prepare_review_def Let_def review_state_other review_fields_def
      split: if_splits sum.splits option.splits)

lemma only_review_prepare: "stays only_review (prepare_op E)"
  by (auto simp: stays_def only_review_def prepare_op_def edit_job_res_def prepare_other split: sum.splits)

lemma only_review_edit: "stays only_review (edit_job (review_state s v e))"
  by (simp add: stays_def only_review_def edit_job_def review_state_other)

lemma stays_unless_store_error:
  assumes "transp R" and "stays R f" and "\<And>a. stays R (g a)"
  shows "stays R (unless_store_error f g)"
  unfolding stays_def
proof
  fix w
  obtain w1 r where f: "f w = (w1, r)" by (cases "f w")
  have 1: "R w w1" using staysD [OF assms(2) f] .
  have "R w1 (fst (g a w1))" for a using assms(3) by (simp add: stays_def)
  with 1 assms(1) f show "R w (fst (unless_store_error f g w))"
    by (cases r) (auto simp: unless_store_error_def dest: transpD)
qed

lemma stays_at: "stays R f \<Longrightarrow> R w (fst (f w))"
  by (simp add: stays_def)

lemma publish_claimed_only:
  "publish_claimed E claimed w = (w', r) \<Longrightarrow> cw_launched w' = cw_launched w \<and> cw_job w' = cw_job w"
  by (auto simp: publish_claimed_def Let_def called_def split: sum.splits prod.splits if_splits)

lemma only_review_publish_claimed: "stays only_review (publish_claimed E claimed)"
  unfolding stays_def only_review_def
proof
  fix w
  obtain w' r where "publish_claimed E claimed w = (w', r)" by (cases "publish_claimed E claimed w")
  with publish_claimed_only [OF this]
  show "cw_launched (fst (publish_claimed E claimed w)) = cw_launched w \<and>
    (\<forall>k. k \<notin> set review_fields \<longrightarrow> dget k (cw_job (fst (publish_claimed E claimed w))) = dget k (cw_job w))"
    by simp
qed

lemma stays_of: "(\<And>v. stays R (F v)) \<Longrightarrow> stays R (\<lambda>w. F (g w) w)"
  by (simp add: stays_def)

definition finish_op ::
  "cenv \<Rightarrow> string \<Rightarrow> string \<Rightarrow> string \<Rightarrow> string option \<Rightarrow> string \<times> rat \<Rightarrow> unit check_op" where
  "finish_op E claim state event_id err p =
    unless_store_error
      (store_update E (\<lambda>es. finish_review_handoff es (fst p) claim state event_id err (snd p)))
      (\<lambda>finished. if finished = Some True then edit_job (review_state state (JStr event_id) (opt_str err))
                  else sreturn (Inr ()))"

definition claim_op :: "cenv \<Rightarrow> string \<times> string \<times> rat \<Rightarrow> unit check_op" where
  "claim_op E p =
    unless_store_error
      (store_update E (\<lambda>es. claim_review_handoff es (fst p) (fst (snd p)) (snd (snd p)) review_handoff_lease))
      (\<lambda>answer. case answer of
         Some (Some claimed) \<Rightarrow> sbind (publish_claimed E claimed) (\<lambda>(state, event_id, err) w1.
           finish_op E (fst (snd p)) state event_id err (jid_of w1, now_of E w1) w1)
       | _ \<Rightarrow> sreturn (Inr ()))"

lemma hand_over_ops: "hand_over E = (\<lambda>w. claim_op E (jid_of w, ce_id E (cw_calls w), now_of E w) w)"
  by (simp add: fun_eq_iff hand_over_def claim_op_def finish_op_def Let_def)

lemma only_review_finish: "stays only_review (finish_op E c s v e p)"
  unfolding finish_op_def
  by (rule stays_unless_store_error [OF only_review_trans only_review_store_update])
    (simp add: only_review_edit stays_sreturn only_review_refl)

lemma only_review_claim: "stays only_review (claim_op E p)"
  unfolding claim_op_def
proof (rule stays_unless_store_error [OF only_review_trans only_review_store_update])
  fix a
  have "stays only_review (\<lambda>w1. finish_op E c s v e (jid_of w1, now_of E w1) w1)" for c s v e
    by (rule stays_of [where F = "finish_op E c s v e" and g = "\<lambda>w. (jid_of w, now_of E w)"])
      (rule only_review_finish)
  then have "stays only_review (case p of (state, event_id, err) \<Rightarrow>
      \<lambda>w1. finish_op E c state event_id err (jid_of w1, now_of E w1) w1)" for c and p :: "string \<times> string \<times> string option"
    by (cases p) simp
  then have "stays only_review (sbind (publish_claimed E claimed) (\<lambda>(state, event_id, err) w1.
      finish_op E c state event_id err (jid_of w1, now_of E w1) w1))" for claimed c
    by (rule stays_sbind [OF only_review_trans only_review_publish_claimed])
  then show "stays only_review (case a of
         Some (Some claimed) \<Rightarrow> sbind (publish_claimed E claimed) (\<lambda>(state, event_id, err) w1.
           finish_op E (fst (snd p)) state event_id err (jid_of w1, now_of E w1) w1)
       | _ \<Rightarrow> sreturn (Inr ()))"
    by (simp add: stays_sreturn only_review_refl split: option.splits)
qed

lemma only_review_hand_over: "stays only_review (hand_over E)"
  unfolding hand_over_ops
  by (rule stays_of [where F = "claim_op E" and g = "\<lambda>w. (jid_of w, ce_id E (cw_calls w), now_of E w)"])
    (rule only_review_claim)

lemma only_review_publish: "stays only_review (publish_review E)"
proof -
  have "stays only_review (\<lambda>w1. if stored = None \<or> dget ''review_queue_state'' (cw_job w1) \<noteq> JStr ''pending''
      then (w1, Inr ()) else hand_over E w1)" for stored :: "bool option"
    using only_review_hand_over by (simp add: stays_def only_review_def)
  then have "stays only_review (unless_store_error (store_put E) (\<lambda>stored w1.
      if stored = None \<or> dget ''review_queue_state'' (cw_job w1) \<noteq> JStr ''pending''
      then (w1, Inr ()) else hand_over E w1))"
    by (rule stays_unless_store_error [OF only_review_trans only_review_put])
  then have s: "stays only_review (sbind (prepare_op E) (\<lambda>_. unless_store_error (store_put E) (\<lambda>stored w1.
      if stored = None \<or> dget ''review_queue_state'' (cw_job w1) \<noteq> JStr ''pending''
      then (w1, Inr ()) else hand_over E w1)))"
    by (rule stays_sbind [OF only_review_trans only_review_prepare])
  show ?thesis
    unfolding stays_def
  proof
    fix w
    show "only_review w (fst (publish_review E w))"
      using stays_at [OF s, of w] stays_at [OF only_review_hand_over, where w = w] only_review_refl
      by (simp add: publish_review_def reflpD split: sum.splits)
  qed
qed

subsection \<open>Recovery of one stalled job\<close>

lemma recover_stalled:
  assumes "calm E" and "\<And>n. ce_submits E n" and "stalled jid k t (cw_hash w)" and "900 < now_of E w - t"
  shows "if k + 1 \<le> 3
    then stalled jid (k + 1) (now_of E w) (cw_hash (fst (recover_stale_check_jobs E w))) \<and>
      length (cw_launched (fst (recover_stale_check_jobs E w))) = Suc (length (cw_launched w))
    else dead jid (cw_hash (fst (recover_stale_check_jobs E w))) \<and>
      cw_launched (fst (recover_stale_check_jobs E w)) = cw_launched w"
proof -
  obtain job where job: "holds jid job (cw_hash w)" "in_strs (dget ''status'' job) unfinished_statuses"
    "dget ''last_updated_at'' job = JFloat (Finite t)" "dget ''attempts'' job = JInt k"
    "dget ''review_queue_state'' job = JStr ''not_needed''" "\<not> is_dict (dget ''review_message'' job)"
    using assms(3) by (auto simp: stalled_def)
  let ?now = "now_of E w"
  have all: "store_all E w = (called w, Inr [job])"
    using store_all_calm [OF assms(1) holds_stored(3) [OF job(1)]] .
  have none: "review_handoff_is_claimable job ?now review_handoff_lease = Inr False"
    by (rule not_claimable_other [OF job(5)]) (simp add: claimable_states_def)
  have stale: "is_stale_check_job ?now job = Inr True"
    using job(2-4) assms(4) dindex_ok [OF dget_dhas, of "''status''" job] dindex_ok [OF dget_dhas, of "''last_updated_at''" job]
    by (auto simp: is_stale_check_job_def stale_check_job_timeout_def in_strs_iff)
  have 1: "fst (recover_stale_check_jobs E w) = fst (recover_stale_job E ?now job (called w))"
    using all none stale
    by (auto simp: recover_stale_check_jobs_def Let_def sbind_def sreturn_def split: prod.splits sum.splits)
  have hc: "holds jid job (cw_hash (called w))" using job(1) by (simp add: called_def)
  obtain w1 token where w1: "recover_stale_job E ?now job (called w) = recover_claimed E w1"
    "cw_job w1 = claimed_job token ?now k job" "holds jid (cw_job w1) (cw_hash w1)"
    "cw_launched w1 = cw_launched (called w)" "cw_calls w1 = Suc (cw_calls (called w))"
    using recover_stale_job_claims [OF assms(1) hc job(2-4) assms(4)] .
  then have "cw_launched w1 = cw_launched w" by (simp add: called_def)
  note w1 = w1 this
  show ?thesis
  proof (cases "k + 1 \<le> 3")
    case True
    with recover_claimed_relaunches [OF assms(1,2) w1(3,2) _ job(5,6)] 1 w1 show ?thesis by simp
  next
    case False
    with recover_claimed_gives_up [OF assms(1) w1(3,2) _ job(5,6)] 1 w1 show ?thesis by simp
  qed
qed

lemma recover_dead:
  assumes "calm E" and "dead jid (cw_hash w)"
  shows "dead jid (cw_hash (fst (recover_stale_check_jobs E w))) \<and>
    cw_launched (fst (recover_stale_check_jobs E w)) = cw_launched w"
proof -
  obtain job where job: "holds jid job (cw_hash w)" "dget ''status'' job = JStr ''error''" "settled_review job"
    using assms(2) by (auto simp: dead_def)
  let ?now = "now_of E w"
  have all: "store_all E w = (called w, Inr [job])"
    using store_all_calm [OF assms(1) holds_stored(3) [OF job(1)]] .
  have live: "filter_res (is_stale_check_job ?now) [job] = Inr []"
    using job(2) dindex_ok [OF dget_dhas, of "''status''" job]
    by (simp add: is_stale_check_job_def unfinished_statuses_def)
  let ?w = "called w\<lparr>cw_job := job\<rparr>"
  obtain w2 r2 where p: "publish_review E ?w = (w2, r2)" by (cases "publish_review E ?w")
  have "rests jid ?w (fst (publish_review E ?w))"
    using assms(1) job(3) by (intro rests_publish_review) simp_all
  moreover have "jid_of ?w = jid" using job(1) by (simp add: jid_of_def holds_def)
  ultimately have w2: "dead jid (cw_hash w2)" "cw_launched w2 = cw_launched w"
    using assms(2) p by (simp_all add: rests_def called_def)
  have "fst (recover_stale_check_jobs E w) \<in> {called w, w2}"
    using all live p
    by (auto simp: recover_stale_check_jobs_def Let_def sbind_def sreturn_def retry_handoff_def edit_job_def
        bnd_def review_handoff_recovery_batch_size_def split: sum.splits prod.splits)
  with w2 assms(2) show ?thesis by (auto simp: called_def)
qed

text \<open>Recoveries more than the timeout apart, each with its clock standing still.\<close>

fun spaced_recoveries :: "rat \<Rightarrow> cenv list \<Rightarrow> bool" where
  "spaced_recoveries t [] \<longleftrightarrow> True"
| "spaced_recoveries t (E # Es) \<longleftrightarrow> (\<forall>n. ce_time E n = ce_time E 0) \<and> 900 < ce_time E 0 - t \<and>
     spaced_recoveries (ce_time E 0) Es"

definition run_recoveries :: "cenv list \<Rightarrow> cworld \<Rightarrow> cworld" where
  "run_recoveries Es w = foldl (\<lambda>w E. fst (recover_stale_check_jobs E w)) w Es"

lemma run_recoveries_simps [simp]:
  "run_recoveries [] w = w"
  "run_recoveries (E # Es) w = run_recoveries Es (fst (recover_stale_check_jobs E w))"
  by (simp_all add: run_recoveries_def)

lemma run_recoveries_dead:
  assumes "\<forall>E \<in> set Es. calm E" and "dead jid (cw_hash w)"
  shows "dead jid (cw_hash (run_recoveries Es w)) \<and> cw_launched (run_recoveries Es w) = cw_launched w"
  using assms by (induction Es arbitrary: w) (simp_all add: recover_dead)

lemma run_recoveries_stalled:
  assumes "\<forall>E \<in> set Es. calm E \<and> (\<forall>n. ce_submits E n)" and "spaced_recoveries t Es"
    and "stalled jid k t (cw_hash w)" and "0 \<le> k" and "k \<le> 3"
  shows "length (cw_launched (run_recoveries Es w)) = length (cw_launched w) + min (nat (3 - k)) (length Es) \<and>
    (if k + int (length Es) \<le> 3 then \<exists>t'. stalled jid (k + int (length Es)) t' (cw_hash (run_recoveries Es w))
     else dead jid (cw_hash (run_recoveries Es w)))"
  using assms
proof (induction Es arbitrary: w t k)
  case Nil
  then show ?case by auto
next
  case (Cons E Es)
  let ?w = "fst (recover_stale_check_jobs E w)"
  have now: "now_of E w = ce_time E 0" using Cons.prems(2) by (auto simp: now_of_def)
  have step: "if k + 1 \<le> 3 then stalled jid (k + 1) (ce_time E 0) (cw_hash ?w) \<and>
      length (cw_launched ?w) = Suc (length (cw_launched w))
    else dead jid (cw_hash ?w) \<and> cw_launched ?w = cw_launched w"
    using recover_stalled [of E jid k t w] Cons.prems unfolding now by simp
  show ?case
  proof (cases "k + 1 \<le> 3")
    case True
    have n: "nat (3 - k) = Suc (nat (3 - (k + 1)))" using True Cons.prems(4) by simp
    have i: "k + int (length (E # Es)) = k + 1 + int (length Es)" by simp
    from step True Cons.prems Cons.IH [of "ce_time E 0" "k + 1" ?w]
    have "length (cw_launched (run_recoveries Es ?w)) =
        Suc (length (cw_launched w)) + min (nat (3 - (k + 1))) (length Es)"
      and "if k + 1 + int (length Es) \<le> 3
        then \<exists>t'. stalled jid (k + 1 + int (length Es)) t' (cw_hash (run_recoveries Es ?w))
        else dead jid (cw_hash (run_recoveries Es ?w))"
      by simp_all
    then show ?thesis unfolding n i by simp
  next
    case False
    then have k: "k = 3" using Cons.prems by simp
    with step Cons.prems run_recoveries_dead [of Es jid ?w] show ?thesis by simp
  qed
qed

subsection \<open>Properties\<close>

text \<open>
  C20: A page check whose workers die is relaunched at most three times and then fails: after
  any number of recoveries of a job that never finishes (each more than fifteen minutes after
  the previous one, over a store nobody disturbs), it has been launched once per recovery up
  to three times; up to then its record waits with the attempts counted, and from the fourth
  recovery on it is stored as an error for good, nothing is launched again, and the handoff of
  its review event goes on without reviving it.
\<close>

theorem stalled_check_is_bounded:
  assumes "stalled jid 0 t (cw_hash w)" and "spaced_recoveries t Es"
    and "\<forall>E \<in> set Es. calm E \<and> (\<forall>n. ce_submits E n)"
  shows "length (cw_launched (run_recoveries Es w)) = length (cw_launched w) + min 3 (length Es) \<and>
    (length Es \<le> 3 \<longrightarrow>
      (\<exists>t'. stalled jid (int (length Es)) t' (cw_hash (run_recoveries Es w)))) \<and>
    (3 < length Es \<longrightarrow> (\<exists>job. stored jid (cw_hash (run_recoveries Es w)) = Some job \<and>
      dget ''status'' job = JStr ''error''))"
proof -
  have "stored jid h = Some job" if "holds jid job h" for h job
    using holds_stored [OF that] by (simp add: stored_Some_iff)
  then have "\<exists>job. stored jid h = Some job \<and> dget ''status'' job = JStr ''error''" if "dead jid h" for h
    using that by (auto simp: dead_def)
  with run_recoveries_stalled [OF assms(3,2,1)] show ?thesis
    by (auto split: if_splits)
qed

definition calm_env :: "rat \<Rightarrow> cenv" where
  "calm_env t = \<lparr>ce_attempts = (\<lambda>n. replicate 8 quiet), ce_others = (\<lambda>n. id), ce_io = (\<lambda>n. Acked),
     ce_time = (\<lambda>n. t), ce_id = (\<lambda>n. nat_str n), ce_link = (\<lambda>n. \<lparr>opens = True, gets = True,
       answers = Acked, alive = True, disposes = Acked\<rparr>), ce_submits = (\<lambda>n. True), ce_queue = True,
     ce_text = (\<lambda>e. ''failed''), ce_type = (\<lambda>e. ''Exception''), ce_kept = 100\<rparr>"

lemma calm_env_calm: "calm (calm_env t) \<and> (\<forall>n. ce_submits (calm_env t) n)"
proof -
  have "replicate 8 quiet = quiet # replicate 7 quiet" by (simp add: eval_nat_numeral)
  then show ?thesis by (auto simp: calm_def calm_env_def)
qed

definition waiting_job :: dict where
  "waiting_job = new_check_job ''j1'' ''t1'' ''mg'' ''vary'' 0"

definition waiting_world :: cworld where
  "waiting_world = \<lparr>cw_hash = [(''j1'', Text (JDict waiting_job))],
     cw_inbox = \<lparr>inbox = [], discarded = []\<rparr>, cw_job = [], cw_launched = [], cw_calls = 0\<rparr>"

lemma waiting_stalled: "stalled ''j1'' 0 0 (cw_hash waiting_world)"
proof -
  have "good_job ''j1'' waiting_job" unfolding waiting_job_def by (rule new_check_job_good) simp
  then have "holds ''j1'' waiting_job (cw_hash waiting_world)"
    by (simp add: holds_def good_job_def waiting_world_def)
  then show ?thesis
    unfolding stalled_def
    by (intro exI [of _ waiting_job]) (simp add: waiting_job_def new_check_job_def dget_def unfinished_statuses_def)
qed

lemma stalled_check_is_bounded_witness:
  "length (cw_launched (run_recoveries (map calm_env [1000, 2000, 3000, 4000, 5000]) waiting_world)) = 3"
  using stalled_check_is_bounded [OF waiting_stalled, of "map calm_env [1000, 2000, 3000, 4000, 5000]"]
    calm_env_calm
  by (simp add: calm_env_def waiting_world_def)

end
