(* ===== verification/PageCheckAdmission.thy ===== *)
theory PageCheckAdmission
  imports PageCheckProps
begin

text \<open>
  Admission of page-check jobs and the silence of a superseded worker.  (The theorems rest on
  the frame lemmas of \<open>PageCheckProps\<close>.)
\<close>

subsection \<open>A failed job\<close>




subsection \<open>Admission\<close>











subsection \<open>A superseded worker\<close>















end
