(* ===== verification/CheckStats.thy ===== *)
theory CheckStats
  imports PageCheckJobs PageCheckerSettings
begin

text \<open>
  Page-check statistics of \<open>api/services/entry_translator_service.py\<close>: result counts,
  calendar arithmetic on UTC instants, aggregation per period and the summaries of the job
  list.  A UTC \<open>datetime\<close> is a date with the seconds of the day; its timestamp counts the
  days from the civil calendar.
\<close>

subsection \<open>Counting results\<close>

record counts =
  good_count :: nat
  fixed_count :: nat
  unverifiable_count :: nat
  error_count :: nat

definition no_counts :: counts where
  "no_counts = \<lparr>good_count = 0, fixed_count = 0, unverifiable_count = 0, error_count = 0\<rparr>"

definition count_one :: "string \<Rightarrow> counts \<Rightarrow> counts" where
  "count_one outcome c =
    (if outcome = ''good'' then c\<lparr>good_count := good_count c + 1\<rparr>
     else if outcome = ''fixed'' then c\<lparr>fixed_count := fixed_count c + 1\<rparr>
     else if outcome = ''unverifiable'' then c\<lparr>unverifiable_count := unverifiable_count c + 1\<rparr>
     else c\<lparr>error_count := error_count c + 1\<rparr>)"

definition total_count :: "counts \<Rightarrow> nat" where
  "total_count c = good_count c + fixed_count c + unverifiable_count c + error_count c"

text \<open>\<open>_count_check_results\<close>: a result that is no dict or has an unhashable status raises.\<close>

fun count_list :: "json list \<Rightarrow> counts \<Rightarrow> counts res" where
  "count_list [] c = Inr c"
| "count_list (JDict result # results) c =
    bnd (py_in (dget ''status'' result) outcomes) (\<lambda>known.
      count_list results (count_one (if known then py_str (dget ''status'' result) else ''error'') c))"
| "count_list (v # results) c = Inl AttributeError"

definition count_check_results :: "json \<Rightarrow> counts res" where
  "count_check_results results =
    (if \<not> truthy results then Inr no_counts
     else case results of
       JList vs \<Rightarrow> count_list vs no_counts
     | JStr s \<Rightarrow> Inl AttributeError
     | JDict d \<Rightarrow> Inl AttributeError
     | _ \<Rightarrow> Inl TypeError)"

subsection \<open>Dates\<close>

record datetime =
  year :: int
  month :: int
  day :: int
  second_of_day :: rat

definition is_leap :: "int \<Rightarrow> bool" where
  "is_leap y \<longleftrightarrow> 4 dvd y \<and> (\<not> 100 dvd y \<or> 400 dvd y)"

definition month_days :: "int \<Rightarrow> int \<Rightarrow> int" where
  "month_days y m = (if m = 2 then (if is_leap y then 29 else 28)
     else if m \<in> {4, 6, 9, 11} then 30 else 31)"

definition valid_datetime :: "datetime \<Rightarrow> bool" where
  "valid_datetime t \<longleftrightarrow> 1 \<le> month t \<and> month t \<le> 12 \<and> 1 \<le> day t \<and> day t \<le> month_days (year t) (month t) \<and>
     0 \<le> second_of_day t \<and> second_of_day t < 86400"

text \<open>
  Days before a year, before a month of it, the proleptic ordinal (719163 for 1970-01-01) and
  the timestamp.  Years before 1, which \<open>datetime\<close> rejects, are not excluded.
\<close>

definition days_before_year :: "int \<Rightarrow> int" where
  "days_before_year y = 365 * (y - 1) + (y - 1) div 4 - (y - 1) div 100 + (y - 1) div 400"

definition days_before_month :: "int \<Rightarrow> int \<Rightarrow> int" where
  "days_before_month y m =
    [0, 31, 59, 90, 120, 151, 181, 212, 243, 273, 304, 334] ! nat (m - 1) +
    (if 2 < m \<and> is_leap y then 1 else 0)"

definition ordinal :: "datetime \<Rightarrow> int" where
  "ordinal t = days_before_year (year t) + days_before_month (year t) (month t) + day t"

definition timestamp :: "datetime \<Rightarrow> rat" where
  "timestamp t = of_int (ordinal t - 719163) * 86400 + second_of_day t"

definition subtract_calendar_months :: "datetime \<Rightarrow> int \<Rightarrow> datetime res" where
  "subtract_calendar_months t months =
    (if months < 0 then Inl ValueError
     else
       let month_index = month t - 1 - months;
           y = year t + month_index div 12;
           m = month_index mod 12 + 1
       in Inr (t\<lparr>year := y, month := m, day := min (day t) (month_days y m)\<rparr>))"

text \<open>\<open>weekday()\<close>: Monday is 0.\<close>

definition weekday :: "datetime \<Rightarrow> int" where
  "weekday t = (ordinal t + 6) mod 7"

text \<open>\<open>datetime.fromtimestamp\<close> is the argument \<open>current\<close>; \<open>as_of\<close> is its timestamp.\<close>

definition page_check_period_bounds :: "datetime \<Rightarrow> (string \<times> rat \<times> rat) list res" where
  "page_check_period_bounds current =
    (let as_of = timestamp current;
         day_start = timestamp (current\<lparr>second_of_day := 0\<rparr>);
         week_start = day_start - of_int (weekday current) * 86400;
         month_start = timestamp (current\<lparr>second_of_day := 0, day := 1\<rparr>)
     in bnd (subtract_calendar_months current 3) (\<lambda>three.
        bnd (subtract_calendar_months current 6) (\<lambda>six.
          Inr [(''today'', day_start, as_of), (''last_7_days'', as_of - 7 * 86400, as_of),
               (''current_week'', week_start, as_of), (''current_month'', month_start, as_of),
               (''last_3_months'', timestamp three, as_of), (''last_6_months'', timestamp six, as_of)])))"

subsection \<open>Aggregation\<close>

definition page_check_grade :: "rat option \<Rightarrow> string option" where
  "page_check_grade percentage =
    (case percentage of
       None \<Rightarrow> None
     | Some p \<Rightarrow> Some (if 90 \<le> p then ''A'' else if 80 \<le> p then ''B'' else if 70 \<le> p then ''C''
         else if 60 \<le> p then ''D'' else ''E''))"

text \<open>
  \<open>round(x, 1)\<close>: the nearest tenth, ties to the even one (the binary rounding of the
  quotient before it is not modelled).
\<close>

definition round_half_even :: "rat \<Rightarrow> int" where
  "round_half_even x =
    (let n = floor x; f = x - of_int n in
     if f < 1 / 2 then n else if 1 / 2 < f then n + 1 else if even n then n else n + 1)"

definition round1 :: "rat \<Rightarrow> rat" where
  "round1 x = of_int (round_half_even (10 * x)) / 10"

record period_statistics =
  ps_period :: string
  ps_start :: rat
  ps_end :: rat
  ps_job_count :: nat
  ps_checked_count :: nat
  ps_assessable_count :: nat
  ps_result_counts :: counts
  ps_good_percentage :: "rat option"
  ps_grade :: "string option"

text \<open>A bool counts as a number here (\<open>isinstance(True, (int, float))\<close>).\<close>

definition in_period :: "rat \<Rightarrow> rat \<Rightarrow> dict \<Rightarrow> bool" where
  "in_period start stop job \<longleftrightarrow>
    (case val_of (dget ''created_at'' job) of
       None \<Rightarrow> False
     | Some f \<Rightarrow> f_le (Finite start) f \<and> f_less f (Finite stop))"

definition count_outcomes :: "dict list \<Rightarrow> counts" where
  "count_outcomes jobs =
    foldl (\<lambda>c job. case page_check_job_outcome job of None \<Rightarrow> c | Some v \<Rightarrow> count_one v c) no_counts jobs"

definition aggregate_page_check_period ::
  "dict list \<Rightarrow> string \<Rightarrow> rat \<Rightarrow> rat \<Rightarrow> period_statistics" where
  "aggregate_page_check_period jobs period start stop =
    (let period_jobs = filter (in_period start stop) jobs;
         c = count_outcomes period_jobs;
         n = length period_jobs;
         percentage = (if n = 0 then None else Some (round1 (of_nat (good_count c * 100) / of_nat n)))
     in \<lparr>ps_period = period, ps_start = start, ps_end = stop, ps_job_count = n,
         ps_checked_count = total_count c, ps_assessable_count = good_count c + fixed_count c,
         ps_result_counts = c, ps_good_percentage = percentage,
         ps_grade = page_check_grade percentage\<rparr>)"

subsection \<open>The statistics request\<close>

text \<open>The sort key \<open>(created_at, str(job_id))\<close>, with minus infinity for a missing time.\<close>

definition newest_key :: "dict \<Rightarrow> (nat \<times> rat) \<times> string" where
  "newest_key job = (time_key (dget ''created_at'' job), py_str (dget_or ''job_id'' (JStr []) job))"

text \<open>\<open>list.sort(key, reverse=True)\<close> keeps the order of equal elements.\<close>

definition sort_newest :: "dict list \<Rightarrow> dict list" where
  "sort_newest jobs = rev (sort_key newest_key (rev jobs))"

definition job_history_limit_of :: "bool \<Rightarrow> settings_store \<Rightarrow> int" where
  "job_history_limit_of ok st =
    (case settings_get ok st of Inl e \<Rightarrow> default_job_history_limit | Inr s \<Rightarrow> job_history_limit s)"

record statistics_answer =
  sa_language :: string
  sa_generated_at :: rat
  sa_retention_limit :: int
  sa_retained_job_count :: nat
  sa_statistics :: "period_statistics list"

definition page_check_statistics ::
  "bool \<Rightarrow> bool \<Rightarrow> settings_store \<Rightarrow> rhash \<Rightarrow> datetime \<Rightarrow> string \<Rightarrow> statistics_answer res" where
  "page_check_statistics ok settings_ok st h current language =
    (case all_jobs ok h of
       Inl e \<Rightarrow>
         Inl (case e of CheckJobStoreError f \<Rightarrow> ServiceError 503 ''Page check history is temporarily unavailable.''
              | _ \<Rightarrow> e)
     | Inr stored_jobs \<Rightarrow>
       let limit = job_history_limit_of settings_ok st;
           retained = take (nat limit) (sort_newest stored_jobs);
           jobs = filter (\<lambda>job. dget ''language'' job = JStr language) retained
       in bnd (page_check_period_bounds current) (\<lambda>bounds.
         Inr \<lparr>sa_language = language, sa_generated_at = timestamp current, sa_retention_limit = limit,
              sa_retained_job_count = length jobs,
              sa_statistics = map (\<lambda>(period, start, stop). aggregate_page_check_period jobs period start stop) bounds\<rparr>))"

subsection \<open>The job list\<close>

text \<open>\<open>created_at\<close> and \<open>job_id\<close> of the pending jobs, which the positions are sorted by.\<close>

definition queue_positions :: "dict list \<Rightarrow> string list" where
  "queue_positions jobs =
    map (\<lambda>job. py_str (dget ''job_id'' job))
      (sort_key (\<lambda>job. (time_key (dget ''created_at'' job), py_str (dget ''job_id'' job)))
        (filter (\<lambda>job. dget ''status'' job = JStr ''pending'') jobs))"

fun position :: "string \<Rightarrow> string list \<Rightarrow> int option" where
  "position k [] = None"
| "position k (x # xs) = (case position k xs of Some n \<Rightarrow> Some (n + 1) | None \<Rightarrow> if x = k then Some 1 else None)"

text \<open>\<open>list(v)\<close>.\<close>

fun list_of :: "json \<Rightarrow> json res" where
  "list_of (JList vs) = Inr (JList vs)"
| "list_of (JStr s) = Inr (JList (map (\<lambda>c. JStr [c]) s))"
| "list_of (JDict d) = Inr (JList (map (JStr \<circ> fst) d))"
| "list_of v = Inl TypeError"

definition job_summary :: "string list \<Rightarrow> dict \<Rightarrow> (dict \<times> counts) res" where
  "job_summary positions job =
    bnd (count_check_results (dget ''results'' job)) (\<lambda>c.
    bnd (dindex ''job_id'' job) (\<lambda>jid. bnd (dindex ''language'' job) (\<lambda>language.
    bnd (bnd (dindex ''titles'' job) list_of) (\<lambda>titles. bnd (dindex ''status'' job) (\<lambda>status.
    bnd (dindex ''created_at'' job) (\<lambda>created. bnd (dindex ''last_updated_at'' job) (\<lambda>updated.
    bnd (dindex ''attempts'' job) (\<lambda>attempts. bnd (dindex ''progress'' job) (\<lambda>progress.
    bnd (dindex ''error'' job) (\<lambda>err.
      Inr ([(''job_id'', jid), (''language'', language), (''titles'', titles), (''status'', status),
            (''created_at'', created), (''last_updated_at'', updated), (''attempts'', attempts),
            (''progress'', progress), (''error'', err),
            (''stage'', dget_or ''stage'' (JStr ''queued'') job),
            (''message'', dget_or ''message'' (JStr ''Waiting for a page-check worker.'') job),
            (''review_queue_state'', dget_or ''review_queue_state'' (JStr ''not_needed'') job),
            (''review_event_id'', dget ''review_event_id'' job),
            (''review_queue_error'', dget ''review_queue_error'' job),
            (''queue_position'', case position (py_str jid) positions of None \<Rightarrow> JNull | Some n \<Rightarrow> JInt n)], c)))))))))))"

text \<open>
  \<open>list.sort(key=created_at, reverse=True)\<close>; the pending jobs are read after it, so their
  times compare.
\<close>

definition list_page_check_jobs ::
  "bool \<Rightarrow> bool \<Rightarrow> settings_store \<Rightarrow> rhash \<Rightarrow> string option \<Rightarrow> int \<Rightarrow> (dict \<times> counts) list res" where
  "list_page_check_jobs ok settings_ok st h language limit =
    (case all_jobs ok h of
       Inl e \<Rightarrow>
         Inl (case e of CheckJobStoreError f \<Rightarrow> ServiceError 503 ''Page check history is temporarily unavailable.''
              | _ \<Rightarrow> e)
     | Inr stored_jobs \<Rightarrow>
       bnd (case language of
              None \<Rightarrow> Inr stored_jobs
            | Some l \<Rightarrow> filter_res (\<lambda>job. bnd (dindex ''language'' job) (\<lambda>v. Inr (v = JStr l))) stored_jobs) (\<lambda>jobs.
       bnd (map_sum id rev (sort_created (rev jobs))) (\<lambda>newest.
       bnd (map_res (dindex ''status'') newest) (\<lambda>_.
         let positions = queue_positions newest;
             shown = max 0 (min limit (job_history_limit_of settings_ok st))
         in map_res (job_summary positions) (take (nat shown) newest)))))"

end
