(* ===== verification/StatsProps.thy ===== *)
theory StatsProps
  imports CheckStats PageCheckLemmas
begin

text \<open>
  The page-check statistics are exact counts over nested periods: calendar lemmas, the
  counts as lengths of filtered lists, and the bounds of percentages.
\<close>

subsection \<open>The calendar\<close>

lemma days_before_year_Suc:
  "days_before_year (y + 1) = days_before_year y + 365 + (if is_leap y then 1 else 0)"
proof -
  have d: "y div n = (y - 1) div n + (if n dvd y then 1 else 0)" if "0 < n" for n :: int
  proof (cases "n dvd y")
    case True
    then obtain k where k: "y = n * k" by (elim dvdE)
    have "(n * k - 1) div n = k - 1"
    proof -
      have "n * k - 1 = (n - 1) + n * (k - 1)" by (simp add: algebra_simps)
      also have "\<dots> div n = (n - 1) div n + (k - 1)" using that by (subst div_mult_self2) simp_all
      finally show ?thesis using that by (simp add: div_pos_pos_trivial)
    qed
    with k that True show ?thesis by simp
  next
    case False
    then have "y mod n \<noteq> 0" by (simp add: dvd_eq_mod_eq_0)
    moreover have "0 \<le> y mod n" "y mod n < n" using that by simp_all
    ultimately have "(y - 1) div n = y div n"
    proof -
      assume m: "y mod n \<noteq> 0" "0 \<le> y mod n" "y mod n < n"
      have "y - 1 = (y mod n - 1) + n * (y div n)" by (simp add: mult.commute)
      also have "\<dots> div n = (y mod n - 1) div n + y div n" using that by (subst div_mult_self2) simp_all
      also have "(y mod n - 1) div n = 0" using m by (intro div_pos_pos_trivial) simp_all
      finally show ?thesis by simp
    qed
    with False show ?thesis by simp
  qed
  have dvd: "100 dvd y \<Longrightarrow> 4 dvd y" "400 dvd y \<Longrightarrow> 100 dvd y"
    by (rule dvd_trans [of 4 100 y], simp, assumption) (rule dvd_trans [of 100 400 y], simp, assumption)
  have "days_before_year (y + 1) = 365 * y + y div 4 - y div 100 + y div 400"
    by (simp add: days_before_year_def)
  also have "\<dots> = days_before_year y + 365 + (if 4 dvd y then 1 else 0) - (if 100 dvd y then 1 else 0)
      + (if 400 dvd y then 1 else 0)"
  proof -
    have "y div 4 = (y - 1) div 4 + (if 4 dvd y then 1 else 0)" by (rule d) simp
    moreover have "y div 100 = (y - 1) div 100 + (if 100 dvd y then 1 else 0)" by (rule d) simp
    moreover have "y div 400 = (y - 1) div 400 + (if 400 dvd y then 1 else 0)" by (rule d) simp
    moreover have "a4 = b4 + p \<Longrightarrow> a100 = b100 + q \<Longrightarrow> a400 = b400 + r \<Longrightarrow>
      365 * y + a4 - a100 + a400 = 365 * (y - 1) + b4 - b100 + b400 + 365 + p - q + r"
      for a4 b4 p a100 b100 q a400 b400 r :: int by simp
    ultimately show ?thesis unfolding days_before_year_def by blast
  qed
  also have "\<dots> = days_before_year y + 365 + (if is_leap y then 1 else 0)"
    using dvd unfolding is_leap_def by (cases "4 dvd y"; cases "100 dvd y"; cases "400 dvd y") simp_all
  finally show ?thesis .
qed

lemma month_cases:
  assumes "1 \<le> (m::int)" and "m \<le> 12"
  shows "m \<in> {1, 2, 3, 4, 5, 6, 7, 8, 9, 10, 11, 12}"
  using assms by (simp add: insert_iff) presburger

lemma days_before_month_Suc:
  assumes "1 \<le> m" and "m < 12"
  shows "days_before_month y (m + 1) = days_before_month y m + month_days y m"
proof -
  have "m \<in> {1, 2, 3, 4, 5, 6, 7, 8, 9, 10, 11, 12}" using month_cases [of m] assms by simp
  then show ?thesis
    using assms(2) by (elim insertE) (simp_all add: days_before_month_def month_days_def)
qed

lemma days_before_month_12:
  "days_before_month y 12 + month_days y 12 = 365 + (if is_leap y then 1 else 0)"
  by (simp add: days_before_month_def month_days_def)

text \<open>Months counted from year 0: the days before a month grow with it.\<close>

definition days_before :: "int \<Rightarrow> int" where
  "days_before i = days_before_year (i div 12) + days_before_month (i div 12) (i mod 12 + 1)"

definition days_of :: "int \<Rightarrow> int" where
  "days_of i = month_days (i div 12) (i mod 12 + 1)"

lemma split12: "0 \<le> r \<Longrightarrow> r < 12 \<Longrightarrow> (r + 12 * q) div 12 = (q::int) \<and> (r + 12 * q) mod 12 = r"
  by (simp add: div_pos_pos_trivial mod_pos_pos_trivial)

lemma days_before_Suc: "days_before (i + 1) = days_before i + days_of i"
proof (cases "i mod 12 = 11")
  case True
  then have e: "i + 1 = 0 + 12 * (i div 12 + 1)" using mult_div_mod_eq [of 12 i] by simp
  have "(i + 1) div 12 = i div 12 + 1" "(i + 1) mod 12 = 0"
    using split12 [of 0 "i div 12 + 1", folded e] by simp_all
  with True show ?thesis
    using days_before_year_Suc [of "i div 12"] days_before_month_12 [of "i div 12"]
    by (simp add: days_before_def days_of_def days_before_month_def)
next
  case False
  have b: "0 \<le> i mod 12" "i mod 12 < 11"
    using False pos_mod_bound [of 12 i] by simp_all
  have e: "i + 1 = (i mod 12 + 1) + 12 * (i div 12)" using mult_div_mod_eq [of 12 i] by simp
  have "(i + 1) div 12 = i div 12" "(i + 1) mod 12 = i mod 12 + 1"
    using split12 [of "i mod 12 + 1" "i div 12", folded e] b by simp_all
  moreover note b
  ultimately show ?thesis
    using days_before_month_Suc [of "i mod 12 + 1" "i div 12"] by (simp add: days_before_def days_of_def)
qed

lemma days_of_bounds: "28 \<le> days_of i" "days_of i \<le> 31"
  by (simp_all add: days_of_def month_days_def)

lemma days_before_add: "days_before i + 28 * int n \<le> days_before (i + int n)"
proof (induction n)
  case (Suc n)
  have "days_before (i + int (Suc n)) = days_before (i + int n) + days_of (i + int n)"
    using days_before_Suc [of "i + int n"] by (simp add: algebra_simps)
  with Suc days_of_bounds [of "i + int n"] show ?case by simp
qed simp

definition month_number :: "datetime \<Rightarrow> int" where
  "month_number t = 12 * year t + (month t - 1)"

lemma ordinal_month_number:
  assumes "1 \<le> month t" and "month t \<le> 12"
  shows "ordinal t = days_before (month_number t) + day t"
    and "month_days (year t) (month t) = days_of (month_number t)"
proof -
  have "month_number t div 12 = year t" "month_number t mod 12 = month t - 1"
    using split12 [of "month t - 1" "year t"] assms unfolding month_number_def
    by (simp_all add: add.commute)
  then show "ordinal t = days_before (month_number t) + day t"
    and "month_days (year t) (month t) = days_of (month_number t)"
    by (simp_all add: ordinal_def days_before_def days_of_def)
qed

lemma month_days_bounds: "28 \<le> month_days y m" "month_days y m \<le> 31"
  by (simp_all add: month_days_def)

text \<open>A month before another ends before it.\<close>

lemma ordinal_less:
  assumes "valid_datetime s" and "valid_datetime t" and "month_number s < month_number t"
  shows "ordinal s < ordinal t"
proof -
  obtain n where n: "month_number t = month_number s + 1 + int n"
    using assms(3) by (metis add.assoc add.commute zless_iff_Suc_zadd of_nat_Suc)
  have "days_before (month_number s) + days_of (month_number s) \<le> days_before (month_number t)"
    using days_before_add [of "month_number s + 1" n] days_before_Suc [of "month_number s"] n by simp
  with assms ordinal_month_number [of s] ordinal_month_number [of t] show ?thesis
    by (simp add: valid_datetime_def)
qed

lemma subtract_months:
  assumes "valid_datetime t" and "0 \<le> k" and "subtract_calendar_months t k = Inr s"
  shows "valid_datetime s" and "month_number s = month_number t - k"
    and "second_of_day s = second_of_day t" and "day s = min (day t) (month_days (year s) (month s))"
proof -
  let ?i = "month t - 1 - k"
  have s: "s = t\<lparr>year := year t + ?i div 12, month := ?i mod 12 + 1,
      day := min (day t) (month_days (year t + ?i div 12) (?i mod 12 + 1))\<rparr>"
    using assms(2,3) by (simp add: subtract_calendar_months_def Let_def)
  have m: "0 \<le> ?i mod 12" "?i mod 12 < 12" by simp_all
  show "valid_datetime s"
    using assms(1) m month_days_bounds [of "year t + ?i div 12" "?i mod 12 + 1"]
    by (simp add: s valid_datetime_def)
  show "month_number s = month_number t - k"
    unfolding month_number_def s by simp
  show "second_of_day s = second_of_day t" "day s = min (day t) (month_days (year s) (month s))"
    by (simp_all add: s)
qed

lemma subtract_months_ok: "0 \<le> k \<Longrightarrow> \<exists>s. subtract_calendar_months t k = Inr s"
  by (simp add: subtract_calendar_months_def Let_def)

lemma timestamp_ordinal:
  assumes "ordinal s < ordinal t" and "second_of_day s < 86400" and "0 \<le> second_of_day t"
  shows "timestamp s < timestamp t"
proof -
  have "of_int (ordinal s - 719163) + 1 \<le> (of_int (ordinal t - 719163) :: rat)"
    using assms(1) by (metis add1_zle_eq of_int_add of_int_le_iff of_int_1 diff_strict_right_mono)
  then have "(of_int (ordinal s - 719163) + 1) * 86400 \<le> (of_int (ordinal t - 719163) :: rat) * 86400"
    by (intro mult_right_mono) simp_all
  with assms(2,3) show ?thesis by (simp add: timestamp_def algebra_simps)
qed

lemma months_earlier:
  assumes "valid_datetime s" and "valid_datetime t" and "month_number s < month_number t"
  shows "timestamp s < timestamp t"
  using assms ordinal_less [OF assms] by (intro timestamp_ordinal) (simp_all add: valid_datetime_def)

subsection \<open>Counts\<close>

definition with_outcome :: "string \<Rightarrow> dict list \<Rightarrow> nat" where
  "with_outcome v jobs = length (filter (\<lambda>job. page_check_job_outcome job = Some v) jobs)"

lemma count_outcomes_snoc:
  "count_outcomes (jobs @ [job]) =
    (case page_check_job_outcome job of None \<Rightarrow> count_outcomes jobs | Some v \<Rightarrow> count_one v (count_outcomes jobs))"
  by (simp add: count_outcomes_def split: option.splits)

lemma count_outcomes_exact:
  "good_count (count_outcomes jobs) = with_outcome ''good'' jobs \<and>
   fixed_count (count_outcomes jobs) = with_outcome ''fixed'' jobs \<and>
   unverifiable_count (count_outcomes jobs) = with_outcome ''unverifiable'' jobs \<and>
   error_count (count_outcomes jobs) = with_outcome ''error'' jobs"
proof (induction jobs rule: rev_induct)
  case Nil
  then show ?case by (simp add: count_outcomes_def no_counts_def with_outcome_def)
next
  case (snoc job jobs)
  show ?case
  proof (cases "page_check_job_outcome job")
    case None
    with snoc show ?thesis by (simp add: count_outcomes_snoc with_outcome_def)
  next
    case (Some v)
    then have "v \<in> set outcomes" by (rule page_check_job_outcome_range)
    with Some snoc show ?thesis
      by (auto simp: count_outcomes_snoc with_outcome_def outcomes_def count_one_def)
  qed
qed

lemma total_count_terminal:
  "total_count (count_outcomes jobs) = length (filter (\<lambda>job. in_strs (dget ''status'' job) terminal_statuses) jobs)"
proof (induction jobs rule: rev_induct)
  case Nil
  then show ?case by (simp add: count_outcomes_def no_counts_def total_count_def)
next
  case (snoc job jobs)
  have one: "total_count (count_one v c) = Suc (total_count c)" for v c
    by (simp add: count_one_def total_count_def)
  show ?case
    using snoc page_check_job_outcome_None [of job] one
    by (cases "page_check_job_outcome job") (simp_all add: count_outcomes_snoc)
qed

lemma round1_mono_bounds:
  assumes "0 \<le> x" and "x \<le> 100"
  shows "0 \<le> round1 x" and "round1 x \<le> 100" and "\<bar>round1 x - x\<bar> \<le> 1 / 20"
proof -
  define n where "n = floor (10 * x)"
  have n: "of_int n \<le> 10 * x" "10 * x < of_int n + 1" unfolding n_def by linarith+
  have r: "round_half_even (10 * x) = n \<and> 10 * x - of_int n \<le> 1 / 2 \<or>
      round_half_even (10 * x) = n + 1 \<and> 1 / 2 \<le> 10 * x - of_int n"
    unfolding round_half_even_def n_def [symmetric] Let_def by (auto split: if_splits)
  have "0 \<le> n" using assms(1) unfolding n_def by simp
  then have "0 \<le> round_half_even (10 * x)" using r by auto
  then show "0 \<le> round1 x" by (simp add: round1_def)
  have "of_int (round_half_even (10 * x)) < (1001 :: rat)" using r n assms(2) by auto
  then have "round_half_even (10 * x) \<le> 1000" by linarith
  then have "of_int (round_half_even (10 * x)) \<le> (1000 :: rat)" by linarith
  then show "round1 x \<le> 100" by (simp add: round1_def)
  have "of_int (round_half_even (10 * x)) - 10 * x \<le> (1 / 2 :: rat)"
    "10 * x - of_int (round_half_even (10 * x)) \<le> (1 / 2 :: rat)" using r n by auto
  then show "\<bar>round1 x - x\<bar> \<le> 1 / 20"
    by (intro abs_leI) (simp_all add: round1_def)
qed

lemma month_start:
  assumes "valid_datetime t" and "subtract_calendar_months t 3 = Inr s"
  shows "timestamp s \<le> timestamp (t\<lparr>second_of_day := 0, day := 1\<rparr>)"
proof -
  let ?m = "t\<lparr>second_of_day := 0, day := 1\<rparr>"
  have v: "valid_datetime ?m"
    using assms(1) month_days_bounds [of "year t" "month t"] by (simp add: valid_datetime_def)
  have "month_number s < month_number ?m"
    using subtract_months(2) [OF assms(1) _ assms(2)] by (simp add: month_number_def)
  with months_earlier [OF subtract_months(1) [OF assms(1) _ assms(2)] v] show ?thesis by simp
qed

lemma ordinal_day: "ordinal (t\<lparr>second_of_day := x, day := d\<rparr>) = ordinal t - day t + d"
  "ordinal (t\<lparr>second_of_day := x\<rparr>) = ordinal t"
  by (simp_all add: ordinal_def)

text \<open>The starts of the six periods.\<close>

lemma period_bounds:
  assumes "valid_datetime t"
  obtains d w m three six where "page_check_period_bounds t = Inr
      [(''today'', d, timestamp t), (''last_7_days'', timestamp t - 604800, timestamp t),
       (''current_week'', w, timestamp t), (''current_month'', m, timestamp t),
       (''last_3_months'', three, timestamp t), (''last_6_months'', six, timestamp t)]"
    and "timestamp t - 604800 < w" and "w \<le> d" and "d \<le> timestamp t" and "m \<le> d"
    and "three \<le> m" and "six < three"
proof -
  obtain s3 s6 where s: "subtract_calendar_months t 3 = Inr s3" "subtract_calendar_months t 6 = Inr s6"
    using subtract_months_ok [of 3 t] subtract_months_ok [of 6 t] by auto
  let ?d = "timestamp (t\<lparr>second_of_day := 0\<rparr>)"
  let ?m = "timestamp (t\<lparr>second_of_day := 0, day := 1\<rparr>)"
  let ?w = "?d - of_int (weekday t) * 86400"
  have sec: "0 \<le> second_of_day t" "second_of_day t < 86400" "1 \<le> day t"
    using assms by (simp_all add: valid_datetime_def)
  have d: "timestamp t = ?d + second_of_day t" by (simp add: timestamp_def ordinal_day)
  have wd: "0 \<le> weekday t" "weekday t \<le> 6"
    using pos_mod_bound [of 7 "ordinal t + 6"] unfolding weekday_def by simp_all
  have w6: "of_int (weekday t) \<le> (of_int 6 :: rat)" using wd(2) by (simp only: of_int_le_iff)
  have wr: "0 \<le> (of_int (weekday t) :: rat)" "of_int (weekday t) \<le> (6 :: rat)"
    using wd(1) w6 by simp_all
  have "of_int (ordinal t - day t + 1 - 719163) \<le> (of_int (ordinal t - 719163) :: rat)"
    using sec(3) by (simp only: of_int_le_iff)
  then have md: "?m \<le> ?d" by (simp add: timestamp_def ordinal_day)
  have n3: "month_number s3 = month_number t - 3" and n6: "month_number s6 = month_number t - 6"
    using subtract_months(2) [OF assms _ s(1)] subtract_months(2) [OF assms _ s(2)] by simp_all
  have "timestamp s6 < timestamp s3"
    using months_earlier [OF subtract_months(1) [OF assms _ s(2)] subtract_months(1) [OF assms _ s(1)]] n3 n6
    by simp
  moreover have "page_check_period_bounds t = Inr
      [(''today'', ?d, timestamp t), (''last_7_days'', timestamp t - 604800, timestamp t),
       (''current_week'', ?w, timestamp t), (''current_month'', ?m, timestamp t),
       (''last_3_months'', timestamp s3, timestamp t), (''last_6_months'', timestamp s6, timestamp t)]"
    using s by (simp add: page_check_period_bounds_def Let_def)
  ultimately show thesis
    using month_start [OF assms s(1)] md wr sec d
    by (intro that [of ?d ?w ?m "timestamp s3" "timestamp s6"]) simp_all
qed

lemma in_period_mono: "start2 \<le> start1 \<Longrightarrow> in_period start1 stop job \<Longrightarrow> in_period start2 stop job"
  unfolding in_period_def
  by (cases "val_of (dget ''created_at'' job)"; simp; case_tac a) (auto simp: f_le_def)

lemma job_count_mono:
  assumes "start2 \<le> start1"
  shows "ps_job_count (aggregate_page_check_period jobs p1 start1 stop) \<le>
    ps_job_count (aggregate_page_check_period jobs p2 start2 stop)"
proof -
  have "length (filter (in_period start1 stop) jobs) \<le> length (filter (in_period start2 stop) jobs)"
    using in_period_mono [OF assms] by (induction jobs) auto
  then show ?thesis by (simp add: aggregate_page_check_period_def Let_def)
qed

text \<open>What one period reports, in terms of the jobs created in it.\<close>

definition exact_statistics :: "dict list \<Rightarrow> period_statistics \<Rightarrow> bool" where
  "exact_statistics jobs st \<longleftrightarrow>
    (let sample = filter (in_period (ps_start st) (ps_end st)) jobs; n = length sample in
     ps_job_count st = n \<and>
     good_count (ps_result_counts st) = with_outcome ''good'' sample \<and>
     fixed_count (ps_result_counts st) = with_outcome ''fixed'' sample \<and>
     unverifiable_count (ps_result_counts st) = with_outcome ''unverifiable'' sample \<and>
     error_count (ps_result_counts st) = with_outcome ''error'' sample \<and>
     ps_checked_count st = length (filter (\<lambda>job. in_strs (dget ''status'' job) terminal_statuses) sample) \<and>
     ps_checked_count st \<le> n \<and>
     (case ps_good_percentage st of
        None \<Rightarrow> n = 0 \<and> ps_grade st = None
      | Some p \<Rightarrow> 0 < n \<and> 0 \<le> p \<and> p \<le> 100 \<and>
          \<bar>p - of_nat (100 * with_outcome ''good'' sample) / of_nat n\<bar> \<le> 1 / 20 \<and>
          (ps_grade st = Some ''A'' \<longleftrightarrow> 90 \<le> p) \<and> (ps_grade st = Some ''E'' \<longleftrightarrow> p < 60)))"

lemma aggregate_exact: "exact_statistics jobs (aggregate_page_check_period jobs period start stop)"
proof -
  let ?s = "filter (in_period start stop) jobs"
  let ?g = "with_outcome ''good'' ?s"
  have g: "?g \<le> length ?s" unfolding with_outcome_def by (rule length_filter_le)
  show ?thesis
  proof (cases "length ?s = 0")
    case True
    then show ?thesis
      using count_outcomes_exact [of ?s] total_count_terminal [of ?s]
      by (simp add: exact_statistics_def aggregate_page_check_period_def Let_def page_check_grade_def)
  next
    case False
    let ?x = "of_nat (?g * 100) / of_nat (length ?s) :: rat"
    have n: "0 < (of_nat (length ?s) :: rat)" using False by simp
    have "(of_nat (?g * 100) :: rat) \<le> of_nat (100 * length ?s)" using g by (simp only: of_nat_le_iff)
    then have "?x \<le> 100" using n by (simp add: divide_le_eq)
    moreover have "0 \<le> ?x" by simp
    ultimately have r: "0 \<le> round1 ?x" "round1 ?x \<le> 100" "\<bar>round1 ?x - ?x\<bar> \<le> 1 / 20"
      using round1_mono_bounds [of ?x] by blast+
    have gr: "page_check_grade (Some p) = Some ''A'' \<longleftrightarrow> 90 \<le> p" "page_check_grade (Some p) = Some ''E'' \<longleftrightarrow> p < 60" for p
      by (auto simp: page_check_grade_def)
    have st: "aggregate_page_check_period jobs period start stop =
      \<lparr>ps_period = period, ps_start = start, ps_end = stop, ps_job_count = length ?s,
       ps_checked_count = total_count (count_outcomes ?s),
       ps_assessable_count = good_count (count_outcomes ?s) + fixed_count (count_outcomes ?s),
       ps_result_counts = count_outcomes ?s, ps_good_percentage = Some (round1 ?x),
       ps_grade = page_check_grade (Some (round1 ?x))\<rparr>"
      using False count_outcomes_exact [of ?s] by (simp add: aggregate_page_check_period_def Let_def)
    have c: "total_count (count_outcomes ?s) =
        length (filter (\<lambda>job. in_strs (dget ''status'' job) terminal_statuses) ?s)"
      by (rule total_count_terminal)
    then have "total_count (count_outcomes ?s) \<le> length ?s" using length_filter_le by metis
    with c r gr False count_outcomes_exact [of ?s] show ?thesis
      unfolding exact_statistics_def st Let_def by (simp add: mult.commute)
  qed
qed

text \<open>What is retained of the stored jobs: the newest of them.\<close>

lemma sort_newest_mset [simp]: "mset (sort_newest jobs) = mset jobs"
  by (simp add: sort_newest_def)

lemma sort_newest_sorted: "sorted_wrt (\<lambda>a b. newest_key b \<le> newest_key a) (sort_newest jobs)"
proof -
  have "sorted (map newest_key (sort_key newest_key (rev jobs)))" by (rule sorted_sort_key)
  then show ?thesis by (simp add: sort_newest_def sorted_wrt_rev sorted_map)
qed

definition newest_of :: "int \<Rightarrow> dict list \<Rightarrow> dict list \<Rightarrow> bool" where
  "newest_of limit records kept \<longleftrightarrow>
    length kept = min (nat limit) (length records) \<and>
    (\<exists>dropped. mset records = mset kept + mset dropped \<and>
      (\<forall>a \<in> set kept. \<forall>b \<in> set dropped. newest_key b \<le> newest_key a))"

lemma take_newest: "newest_of limit records (take (nat limit) (sort_newest records))"
  unfolding newest_of_def
proof (intro conjI exI ballI)
  let ?k = "take (nat limit) (sort_newest records)" and ?d = "drop (nat limit) (sort_newest records)"
  have "length (sort_newest records) = length records"
    using sort_newest_mset [of records] by (rule mset_eq_length)
  then show "length ?k = min (nat limit) (length records)" by (simp add: min.commute)
  show "mset records = mset ?k + mset ?d"
    using mset_append [of ?k ?d] by simp
  fix a b assume "a \<in> set ?k" "b \<in> set ?d"
  moreover have "sorted_wrt (\<lambda>a b. newest_key b \<le> newest_key a) (?k @ ?d)"
    using sort_newest_sorted [of records] by simp
  ultimately show "newest_key b \<le> newest_key a" unfolding sorted_wrt_append by blast
qed

definition period_names :: "string list" where
  "period_names = [''today'', ''last_7_days'', ''current_week'', ''current_month'',
     ''last_3_months'', ''last_6_months'']"

text \<open>
  C23: The page-check statistics are exact and consistent.  When the job store can be read, an answer
  reports the six periods in their fixed order over the
  newest retained jobs of the language, and every period counts exactly the jobs created
  in it, each outcome separately, never checks more jobs than it has, gives a good percentage
  within 0.05 of the true one (none for an empty period) and grades it accordingly.  The
  periods are nested, so the job counts grow from today over the week to the last seven days
  and from today over the month and three months to six.
\<close>

theorem page_check_statistics_are_exact:
  assumes "valid_datetime current"
    and "all_jobs ok h = Inr records"
  shows "\<exists>ans kept jobs. page_check_statistics ok settings_ok st h current language = Inr ans \<and>
    newest_of (job_history_limit_of settings_ok st) records kept \<and>
    jobs = filter (\<lambda>job. dget ''language'' job = JStr language) kept \<and>
    sa_retained_job_count ans = length jobs \<and>
    map ps_period (sa_statistics ans) = period_names \<and>
    (\<forall>p \<in> set (sa_statistics ans). exact_statistics jobs p \<and> ps_end p = timestamp current) \<and>
    (\<exists>today week7 week month m3 m6. map ps_job_count (sa_statistics ans) = [today, week7, week, month, m3, m6] \<and>
      today \<le> week \<and> week \<le> week7 \<and> today \<le> month \<and> month \<le> m3 \<and> m3 \<le> m6)"
proof -
  define kept where "kept = take (nat (job_history_limit_of settings_ok st)) (sort_newest records)"
  define jobs where "jobs = filter (\<lambda>job. dget ''language'' job = JStr language) kept"
  obtain d w m three six where b: "page_check_period_bounds current = Inr
      [(''today'', d, timestamp current), (''last_7_days'', timestamp current - 604800, timestamp current),
       (''current_week'', w, timestamp current), (''current_month'', m, timestamp current),
       (''last_3_months'', three, timestamp current), (''last_6_months'', six, timestamp current)]"
    and le: "timestamp current - 604800 < w" "w \<le> d" "d \<le> timestamp current" "m \<le> d" "three \<le> m" "six < three"
    by (rule period_bounds [OF assms(1)])
  let ?a = "\<lambda>p start. aggregate_page_check_period jobs p start (timestamp current)"
  let ?stats = "[?a ''today'' d, ?a ''last_7_days'' (timestamp current - 604800), ?a ''current_week'' w,
      ?a ''current_month'' m, ?a ''last_3_months'' three, ?a ''last_6_months'' six]"
  let ?ans = "\<lparr>sa_language = language, sa_generated_at = timestamp current,
      sa_retention_limit = job_history_limit_of settings_ok st, sa_retained_job_count = length jobs,
      sa_statistics = ?stats\<rparr>"
  have ans: "page_check_statistics ok settings_ok st h current language = Inr ?ans"
    by (simp add: page_check_statistics_def assms(2) b kept_def jobs_def Let_def)
  have names: "map ps_period ?stats = period_names"
    by (simp add: aggregate_page_check_period_def Let_def period_names_def)
  have exact: "\<forall>p \<in> set ?stats. exact_statistics jobs p \<and> ps_end p = timestamp current"
    using aggregate_exact [of jobs] by (auto simp: aggregate_page_check_period_def Let_def)
  note mono = job_count_mono [of _ _ jobs _ "timestamp current"]
  have nested: "ps_job_count (?a ''today'' d) \<le> ps_job_count (?a ''current_week'' w)"
    "ps_job_count (?a ''current_week'' w) \<le> ps_job_count (?a ''last_7_days'' (timestamp current - 604800))"
    "ps_job_count (?a ''today'' d) \<le> ps_job_count (?a ''current_month'' m)"
    "ps_job_count (?a ''current_month'' m) \<le> ps_job_count (?a ''last_3_months'' three)"
    "ps_job_count (?a ''last_3_months'' three) \<le> ps_job_count (?a ''last_6_months'' six)"
    using le by (intro mono; simp)+
  have kept: "newest_of (job_history_limit_of settings_ok st) records kept"
    unfolding kept_def by (rule take_newest)
  show ?thesis
    by (rule exI [of _ ?ans], rule exI [of _ kept], rule exI [of _ jobs])
      (use ans kept names exact nested jobs_def in simp)
qed

subsection \<open>An answer\<close>

definition finished_check :: "string \<Rightarrow> dict" where
  "finished_check jid =
    dset ''status'' (JStr ''completed'') (dset ''results'' (JList [JDict [(''status'', JStr ''good'')]])
      (new_check_job jid ''t'' ''mg'' ''vary'' 0))"

definition check_history :: rhash where
  "check_history = [(''j1'', Text (JDict (finished_check ''j1'')))]"

definition sixth_of_january :: datetime where
  "sixth_of_january = \<lparr>year = 1970, month = 1, day = 6, second_of_day = 10\<rparr>"

definition stored_settings :: settings_store where
  "stored_settings = \<lparr>raw_settings = None, raw_agent = None, raw_limit = Some (Text (JInt 25)), raw_prefilter = None\<rparr>"

lemma check_history_read: "all_jobs True check_history = Inr [finished_check ''j1'']"
proof -
  have "good_job ''j1'' (finished_check ''j1'')" unfolding finished_check_def
    by (rule good_job_dset [OF good_job_dset_other [OF new_check_job_good]]) simp_all
  then have "holds ''j1'' (finished_check ''j1'') check_history"
    by (simp add: holds_def good_job_def check_history_def)
  then show ?thesis by (simp add: all_jobs_def holds_stored(3))
qed

lemma page_check_statistics_are_exact_witness:
  "\<exists>ans. page_check_statistics True True stored_settings check_history sixth_of_january ''mg'' = Inr ans \<and>
    map ps_period (sa_statistics ans) = period_names \<and>
    (\<exists>kept. newest_of (job_history_limit_of True stored_settings) [finished_check ''j1''] kept)"
proof -
  have "valid_datetime sixth_of_january"
    by (simp add: valid_datetime_def sixth_of_january_def month_days_def)
  from page_check_statistics_are_exact [OF this check_history_read, of True stored_settings "''mg''"]
  show ?thesis by blast
qed

end
