(* ===== verification/ReviewStore.thy ===== *)
theory ReviewStore
  imports ReviewTransport "HOL-Library.Product_Lexorder"
begin

text \<open>
  \<open>SqliteWiktionaryReviewStore\<close> of \<open>api/services/wiktionary_review_service.py\<close>: the review
  tasks and the fix proposals with their state columns.  The connection's context manager
  commits a call that returns and rolls back one that raises, and \<open>BEGIN IMMEDIATE\<close> (or the
  first write) makes each call one step; what SQLite itself raises is an \<open>io\<close> outcome.
  A payload is what its text parses to; columns added by the migration may be NULL.
\<close>

subsection \<open>Tables\<close>

record review_task =
  rt_payload :: raw
  rt_state :: string
  rt_proposal :: "string option"
  rt_received :: rat
  rt_completed :: "rat option"

record fix_proposal =
  fp_event :: string
  fp_target_title :: string
  fp_target_sha :: string
  fp_english_title :: string
  fp_english_sha :: string
  fp_replacement :: string
  fp_replacement_sha :: string
  fp_summary :: string
  fp_diff :: string
  fp_diff_sha :: "string option"
  fp_queue :: "string option"
  fp_digest :: string
  fp_state :: string
  fp_created :: rat
  fp_started :: "rat option"
  fp_claim :: "string option"
  fp_queued_at :: "rat option"
  fp_environment :: "string option"
  fp_expires :: "rat option"

record review_db =
  db_tasks :: "(string \<times> review_task) list"
  db_proposals :: "(string \<times> fix_proposal) list"
  db_metadata :: "(int \<times> string) option"

definition review_error :: "string \<Rightarrow> exn" where
  "review_error message = WiktionaryReviewError message"

text \<open>A call in one transaction; an \<open>Unacked\<close> commit raises after the write.\<close>

definition transaction :: "io \<Rightarrow> (review_db \<Rightarrow> review_db \<times> 'a res) \<Rightarrow> review_db \<Rightarrow> review_db \<times> 'a res" where
  "transaction i f db =
    (case i of
       Acked \<Rightarrow> f db
     | Refused \<Rightarrow> (db, Inl SqliteError)
     | Unacked \<Rightarrow> (fst (f db), Inl SqliteError))"

text \<open>\<open>UPDATE ... WHERE\<close> and its row count.\<close>

definition update_where ::
  "(string \<Rightarrow> 'r \<Rightarrow> bool) \<Rightarrow> ('r \<Rightarrow> 'r) \<Rightarrow> (string \<times> 'r) list \<Rightarrow> (string \<times> 'r) list" where
  "update_where P f rows = map (\<lambda>(k, r). (k, if P k r then f r else r)) rows"

definition rowcount :: "(string \<Rightarrow> 'r \<Rightarrow> bool) \<Rightarrow> (string \<times> 'r) list \<Rightarrow> nat" where
  "rowcount P rows = length (filter (\<lambda>(k, r). P k r) rows)"

subsection \<open>Opening the database\<close>

definition is_sha256 :: "json \<Rightarrow> bool" where
  "is_sha256 v \<longleftrightarrow> (case v of
     JStr s \<Rightarrow> length s = 64 \<and> list_all (\<lambda>c. is_digit c \<or> (97 \<le> code c \<and> code c \<le> 102)) s
   | _ \<Rightarrow> False)"

definition validate_sha256 :: "json \<Rightarrow> string \<Rightarrow> string res" where
  "validate_sha256 v field =
    (if is_sha256 v then Inr (py_str v)
     else Inl (review_error (field @ '' must be a lowercase SHA-256 value.'')))"

definition review_schema_version :: int where
  "review_schema_version = 2"

text \<open>
  The migration of a database without metadata or of version 1: a proposal that could have
  been sent becomes \<open>queue_unknown\<close>, an unsent one is superseded and its task reopened.  A
  table that does not exist yet is empty.
\<close>

definition migrate_rows :: "review_db \<Rightarrow> review_db" where
  "migrate_rows db =
    (let unsent = update_where (\<lambda>k r. fp_state r \<in> {''prepared'', ''superseded''})
           (\<lambda>r. r\<lparr>fp_state := ''superseded'', fp_started := None, fp_claim := None\<rparr>) (db_proposals db);
         proposals = update_where (\<lambda>k r. fp_state r = ''queueing'')
           (\<lambda>r. r\<lparr>fp_state := ''queue_unknown'', fp_claim := None\<rparr>) unsent;
         reopened = update_where (\<lambda>k r. rt_state r = ''proposed'')
           (\<lambda>r. r\<lparr>rt_state := ''pending'', rt_proposal := None, rt_completed := None\<rparr>) (db_tasks db);
         tasks = update_where (\<lambda>k r. rt_state r = ''queueing'')
           (\<lambda>r. r\<lparr>rt_state := ''queue_unknown''\<rparr>) reopened
     in db\<lparr>db_tasks := tasks, db_proposals := proposals\<rparr>)"

definition open_rows :: "string \<Rightarrow> review_db \<Rightarrow> review_db \<times> unit res" where
  "open_rows fingerprint db =
    (case db_metadata db of
       None \<Rightarrow> ((migrate_rows db)\<lparr>db_metadata := Some (review_schema_version, fingerprint)\<rparr>, Inr ())
     | Some (version, environment) \<Rightarrow>
       if version \<notin> {1, review_schema_version}
       then (db, Inl (review_error ''The Wiktionary review database schema is unsupported.''))
       else if environment \<noteq> fingerprint
       then (db, Inl (review_error ''The Wiktionary review database belongs to another environment.''))
       else if version = 1
       then ((migrate_rows db)\<lparr>db_metadata := Some (review_schema_version, environment)\<rparr>, Inr ())
       else (db, Inr ()))"

definition open_store :: "io \<Rightarrow> string \<Rightarrow> review_db \<Rightarrow> review_db \<times> unit res" where
  "open_store i fingerprint db =
    (case validate_sha256 (JStr fingerprint) ''environment_fingerprint'' of
       Inl e \<Rightarrow> (db, Inl e)
     | Inr f \<Rightarrow> transaction i (open_rows fingerprint) db)"

subsection \<open>Tasks\<close>

fun task_from_row :: "review_task \<Rightarrow> dict res" where
  "task_from_row row =
    (case loads (rt_payload row) of
       Inl e \<Rightarrow> Inl e
     | Inr (JDict payload) \<Rightarrow>
         Inr (dset ''content_trust'' (JStr ''untrusted_page_check_evidence'')
           (dset ''completed_at'' (case rt_completed row of None \<Rightarrow> JNull | Some t \<Rightarrow> JFloat (Finite t))
           (dset ''received_at'' (JFloat (Finite (rt_received row)))
           (dset ''proposal_id'' (case rt_proposal row of None \<Rightarrow> JNull | Some p \<Rightarrow> JStr p)
           (dset ''state'' (JStr (rt_state row)) payload)))))
     | Inr v \<Rightarrow> Inl TypeError)"

definition insert_task :: "string \<Rightarrow> raw \<Rightarrow> rat \<Rightarrow> review_db \<Rightarrow> review_db \<times> review_task res" where
  "insert_task event_id payload now db =
    (case map_of (db_tasks db) event_id of
       Some row \<Rightarrow> (db, Inr row)
     | None \<Rightarrow>
       let row = \<lparr>rt_payload = payload, rt_state = ''pending'', rt_proposal = None,
            rt_received = now, rt_completed = None\<rparr>
       in (db\<lparr>db_tasks := db_tasks db @ [(event_id, row)]\<rparr>, Inr row))"

definition accept_task :: "io \<Rightarrow> rat \<Rightarrow> review_db \<Rightarrow> dict \<Rightarrow> review_db \<times> dict res" where
  "accept_task i now db message =
    (case validate_review_message (JDict message) of
       Inl e \<Rightarrow> (db, Inl e)
     | Inr m \<Rightarrow>
       let payload = Text (sort_json (JDict m)) in
       case transaction i (insert_task (py_str (dget ''event_id'' m)) payload now) db of
         (db', Inl e) \<Rightarrow> (db', Inl e)
       | (db', Inr row) \<Rightarrow>
         if rt_payload row \<noteq> payload
         then (db', Inl (queue_error
           ''A conflicting page-check review message reused an existing event ID.''))
         else (db', task_from_row row))"

definition get_task :: "bool \<Rightarrow> string \<Rightarrow> review_db \<Rightarrow> dict res" where
  "get_task ok event_id db =
    (if \<not> ok then Inl SqliteError
     else case map_of (db_tasks db) event_id of
       None \<Rightarrow> Inl (review_error ''Unknown page-check review event.'')
     | Some row \<Rightarrow> task_from_row row)"

definition listed_states :: "string list" where
  "listed_states = [''pending'', ''proposed'', ''queueing'', ''queue_unknown'']"

fun tasks_from_rows :: "review_task list \<Rightarrow> dict list res" where
  "tasks_from_rows [] = Inr []"
| "tasks_from_rows (row # rows) =
    bnd (task_from_row row) (\<lambda>t. bnd (tasks_from_rows rows) (\<lambda>ts. Inr (t # ts)))"

definition list_tasks :: "bool \<Rightarrow> json \<Rightarrow> review_db \<Rightarrow> dict list res" where
  "list_tasks ok limit db =
    (case limit of
       JInt n \<Rightarrow>
         if n < 1 \<or> 100 < n then Inl (review_error ''Review task limit must be between 1 and 100.'')
         else if \<not> ok then Inl SqliteError
         else tasks_from_rows (map snd (take (nat n)
           (sort_key (\<lambda>(event_id, row). (rt_received row, event_id))
             (filter (\<lambda>(event_id, row). rt_state row \<in> set listed_states) (db_tasks db)))))
     | _ \<Rightarrow> Inl (review_error ''Review task limit must be between 1 and 100.''))"

subsection \<open>Proposals\<close>

definition immutable_fields where
  "immutable_fields p =
    ((fp_event p, fp_target_title p, fp_target_sha p, fp_english_title p, fp_english_sha p),
     (fp_replacement p, fp_replacement_sha p, fp_summary p, fp_diff p, fp_diff_sha p),
     (fp_queue p, fp_digest p, fp_environment p, fp_expires p))"

definition insert_proposal :: "string \<Rightarrow> fix_proposal \<Rightarrow> (string \<times> fix_proposal) list \<Rightarrow> (string \<times> fix_proposal) list" where
  "insert_proposal pid p rows =
    rows @ [(pid, p\<lparr>fp_state := ''prepared'', fp_started := None, fp_claim := None, fp_queued_at := None\<rparr>)]"

definition save_proposal_rows :: "string \<Rightarrow> fix_proposal \<Rightarrow> review_db \<Rightarrow> review_db \<times> fix_proposal res" where
  "save_proposal_rows pid p db =
    (case map_of (db_tasks db) (fp_event p) of
       None \<Rightarrow> (db, Inl (review_error ''Unknown page-check review event.''))
     | Some task \<Rightarrow>
       if rt_state task \<in> {''queueing'', ''queued''}
       then (db, Inl (review_error ''This review task is already being queued or was queued.''))
       else
         let existing = map_of (db_proposals db) pid;
             open_task = (\<lambda>k r. k = fp_event p \<and> rt_state r \<in> {''pending'', ''proposed''})
         in if (case existing of None \<Rightarrow> False | Some q \<Rightarrow> immutable_fields q \<noteq> immutable_fields p)
         then (db, Inl (review_error ''A conflicting Wiktionary fix reused an existing proposal ID.''))
         else if (case existing of None \<Rightarrow> False | Some q \<Rightarrow> fp_state q \<noteq> ''prepared'')
         then (db, Inl (review_error ''This Wiktionary fix proposal cannot be prepared again.''))
         else if rowcount open_task (db_tasks db) \<noteq> 1
         then (db, Inl (review_error ''The review task changed while its proposal was being stored.''))
         else
           let superseded = update_where
                 (\<lambda>k r. fp_event r = fp_event p \<and> k \<noteq> pid \<and> fp_state r = ''prepared'')
                 (\<lambda>r. r\<lparr>fp_state := ''superseded''\<rparr>) (db_proposals db);
               rows = (if existing = None then insert_proposal pid p superseded else superseded);
               tasks = update_where open_task
                 (\<lambda>r. r\<lparr>rt_state := ''proposed'', rt_proposal := Some pid\<rparr>) (db_tasks db)
           in (db\<lparr>db_tasks := tasks, db_proposals := rows\<rparr>,
               case map_of rows pid of
                 None \<Rightarrow> Inl (review_error ''The fix proposal could not be stored.'')
               | Some row \<Rightarrow> Inr row))"

definition save_proposal :: "io \<Rightarrow> string \<Rightarrow> fix_proposal \<Rightarrow> review_db \<Rightarrow> review_db \<times> fix_proposal res" where
  "save_proposal i pid p = transaction i (save_proposal_rows pid p)"

definition get_proposal :: "bool \<Rightarrow> string \<Rightarrow> review_db \<Rightarrow> fix_proposal res" where
  "get_proposal ok pid db =
    (if \<not> ok then Inl SqliteError
     else case map_of (db_proposals db) pid of
       None \<Rightarrow> Inl (review_error ''Unknown Wiktionary fix proposal.'')
     | Some row \<Rightarrow> Inr row)"

subsection \<open>Claims\<close>

text \<open>
  The paired updates of a proposal that is in \<open>state\<close> (and, with a token, claimed by it) and
  of its task; the answer says which row count was not 1.
\<close>

definition move_proposal ::
  "string \<Rightarrow> string option \<Rightarrow> string \<Rightarrow> (fix_proposal \<Rightarrow> fix_proposal) \<Rightarrow> review_db \<Rightarrow> review_db" where
  "move_proposal pid token state f db =
    db\<lparr>db_proposals := update_where
      (\<lambda>k r. k = pid \<and> (token = None \<or> fp_claim r = token) \<and> fp_state r = state) f (db_proposals db)\<rparr>"

definition move_task ::
  "string \<Rightarrow> string \<Rightarrow> string \<Rightarrow> (review_task \<Rightarrow> review_task) \<Rightarrow> review_db \<Rightarrow> review_db" where
  "move_task event_id pid state f db =
    db\<lparr>db_tasks := update_where
      (\<lambda>k r. k = event_id \<and> rt_proposal r = Some pid \<and> rt_state r = state) f (db_tasks db)\<rparr>"

definition task_is :: "string \<Rightarrow> string \<Rightarrow> string \<Rightarrow> review_db \<Rightarrow> bool" where
  "task_is event_id pid state db \<longleftrightarrow>
    rowcount (\<lambda>k r. k = event_id \<and> rt_proposal r = Some pid \<and> rt_state r = state) (db_tasks db) = 1"

definition stored_proposal :: "string \<Rightarrow> review_db \<Rightarrow> fix_proposal res" where
  "stored_proposal pid db =
    (case map_of (db_proposals db) pid of
       None \<Rightarrow> Inl (review_error ''The queue attempt could not be stored.'')
     | Some row \<Rightarrow> Inr row)"

definition queue_attempt_lease :: rat where
  "queue_attempt_lease = 240"

definition claim_rows :: "rat \<Rightarrow> rat \<Rightarrow> string \<Rightarrow> string \<Rightarrow> review_db \<Rightarrow> review_db \<times> fix_proposal res" where
  "claim_rows lease now token pid db =
    (case map_of (db_proposals db) pid of
       None \<Rightarrow> (db, Inl (review_error ''Unknown Wiktionary fix proposal.''))
     | Some p \<Rightarrow>
       let e = fp_event p; s = fp_state p in
       if s = ''queued'' then (db, Inl (review_error ''This Wiktionary fix was already queued.''))
       else if s = ''superseded'' then (db, Inl (review_error ''This Wiktionary fix proposal was superseded.''))
       else if s = ''queue_unknown''
       then (db, Inl (review_error ''This Wiktionary fix has an unknown queue outcome.''))
       else if (case map_of (db_tasks db) e of
                  None \<Rightarrow> True
                | Some t \<Rightarrow> rt_proposal t \<noteq> Some pid \<or>
                    rt_state t \<noteq> (if s = ''queueing'' then ''queueing'' else ''proposed''))
       then (db, Inl (review_error ''This proposal is no longer current for its review task.''))
       else if s = ''queueing'' \<and> (case fp_started p of None \<Rightarrow> False | Some t \<Rightarrow> now - t < lease)
       then (db, Inl (review_error ''This Wiktionary fix is already being queued.''))
       else if s = ''queueing''
       then (move_task e pid ''queueing'' (\<lambda>r. r\<lparr>rt_state := ''queue_unknown''\<rparr>)
              (move_proposal pid None ''queueing''
                (\<lambda>r. r\<lparr>fp_state := ''queue_unknown'', fp_claim := None\<rparr>) db),
             Inl (review_error
               ''The previous queue attempt has an unknown outcome and requires reconciliation.''))
       else if s \<noteq> ''prepared'' then (db, Inl (review_error ''This Wiktionary fix cannot be queued.''))
       else if \<not> task_is e pid ''proposed'' db
       then (db, Inl (review_error ''The review task changed while its proposal was being claimed.''))
       else
         let db' = move_task e pid ''proposed'' (\<lambda>r. r\<lparr>rt_state := ''queueing''\<rparr>)
           (move_proposal pid None ''prepared''
             (\<lambda>r. r\<lparr>fp_state := ''queueing'', fp_started := Some now, fp_claim := Some token\<rparr>) db)
         in (db', stored_proposal pid db'))"

definition claim_for_queue :: "io \<Rightarrow> rat \<Rightarrow> rat \<Rightarrow> string \<Rightarrow> string \<Rightarrow> review_db \<Rightarrow> review_db \<times> fix_proposal res" where
  "claim_for_queue i lease now token pid = transaction i (claim_rows lease now token pid)"

text \<open>The row a claim token still owns.\<close>

definition claimed_row :: "string \<Rightarrow> string \<Rightarrow> review_db \<Rightarrow> fix_proposal option" where
  "claimed_row pid token db =
    (case map_of (db_proposals db) pid of
       None \<Rightarrow> None
     | Some p \<Rightarrow> if fp_claim p = Some token then Some p else None)"

definition release_rows :: "string \<Rightarrow> string \<Rightarrow> review_db \<Rightarrow> review_db \<times> unit res" where
  "release_rows pid token db =
    (case claimed_row pid token db of
       None \<Rightarrow> (db, Inr ())
     | Some p \<Rightarrow>
       if fp_state p \<noteq> ''queueing'' then (db, Inr ())
       else if \<not> task_is (fp_event p) pid ''queueing'' db
       then (db, Inl (review_error ''The review task changed while its queue claim was released.''))
       else
         (move_task (fp_event p) pid ''queueing'' (\<lambda>r. r\<lparr>rt_state := ''proposed''\<rparr>)
           (move_proposal pid (Some token) ''queueing''
             (\<lambda>r. r\<lparr>fp_state := ''prepared'', fp_started := None, fp_claim := None\<rparr>) db), Inr ()))"

definition release_queue_claim :: "io \<Rightarrow> string \<Rightarrow> string \<Rightarrow> review_db \<Rightarrow> review_db \<times> unit res" where
  "release_queue_claim i pid token = transaction i (release_rows pid token)"

definition queued_rows :: "rat \<Rightarrow> string \<Rightarrow> string \<Rightarrow> review_db \<Rightarrow> review_db \<times> fix_proposal res" where
  "queued_rows now pid token db =
    (case claimed_row pid token db of
       None \<Rightarrow> (db, Inl (review_error ''Unknown Wiktionary fix proposal.''))
     | Some p \<Rightarrow>
       if fp_state p \<noteq> ''queueing''
       then (db, Inl (review_error ''Only a claimed Wiktionary fix proposal can be marked queued.''))
       else if \<not> task_is (fp_event p) pid ''queueing'' db
       then (db, Inl (review_error ''The review task changed before queue completion.''))
       else
         let db' = move_task (fp_event p) pid ''queueing''
               (\<lambda>r. r\<lparr>rt_state := ''queued'', rt_completed := Some now\<rparr>)
             (move_proposal pid (Some token) ''queueing''
               (\<lambda>r. r\<lparr>fp_state := ''queued'', fp_queued_at := Some now, fp_claim := None\<rparr>) db)
         in (db', stored_proposal pid db'))"

definition mark_queued :: "io \<Rightarrow> rat \<Rightarrow> string \<Rightarrow> string \<Rightarrow> review_db \<Rightarrow> review_db \<times> fix_proposal res" where
  "mark_queued i now pid token = transaction i (queued_rows now pid token)"

definition unknown_rows :: "string \<Rightarrow> string \<Rightarrow> review_db \<Rightarrow> review_db \<times> unit res" where
  "unknown_rows pid token db =
    (case claimed_row pid token db of
       None \<Rightarrow> (db, Inr ())
     | Some p \<Rightarrow>
       if fp_state p \<noteq> ''queueing'' then (db, Inr ())
       else if \<not> task_is (fp_event p) pid ''queueing'' db
       then (db, Inl (review_error ''The review task changed while queue uncertainty was recorded.''))
       else
         (move_task (fp_event p) pid ''queueing'' (\<lambda>r. r\<lparr>rt_state := ''queue_unknown''\<rparr>)
           (move_proposal pid (Some token) ''queueing''
             (\<lambda>r. r\<lparr>fp_state := ''queue_unknown'', fp_claim := None\<rparr>) db), Inr ()))"

definition mark_queue_unknown :: "io \<Rightarrow> string \<Rightarrow> string \<Rightarrow> review_db \<Rightarrow> review_db \<times> unit res" where
  "mark_queue_unknown i pid token = transaction i (unknown_rows pid token)"

end
