(* ===== verification/ReviewService.thy ===== *)
theory ReviewService
  imports ReviewStore Publishers
begin

text \<open>
  \<open>WiktionaryReviewService\<close>, its validators and the snapshot client of
  \<open>api/services/wiktionary_review_service.py\<close>, with the approval digest of
  \<open>api/services/reviewed_wiktionary_fix.py\<close>.  SHA-256 and \<open>difflib.unified_diff\<close> are
  parameters (any functions), the HTTP answer is a value.
\<close>

record review_code =
  sha :: "string \<Rightarrow> string"
  unified_diff :: "string list \<Rightarrow> string list \<Rightarrow> string \<Rightarrow> string \<Rightarrow> string list"

subsection \<open>Validators\<close>

definition no_nul :: "string \<Rightarrow> bool" where
  "no_nul s \<longleftrightarrow> char_of (0::nat) \<notin> set s"

fun validate_title :: "json \<Rightarrow> string res" where
  "validate_title (JStr s) =
    (if strip s = [] then Inl (review_error ''A Wiktionary page title is required.'')
     else if 512 < length (strip s) \<or> \<not> no_nul (strip s)
     then Inl (review_error ''The Wiktionary page title is invalid.'')
     else Inr (strip s))"
| "validate_title v = Inl (review_error ''A Wiktionary page title is required.'')"

fun validate_replacement :: "json \<Rightarrow> string res" where
  "validate_replacement (JStr s) =
    (if s = [] \<or> \<not> no_nul s then Inl (review_error ''Replacement Wiktionary content is invalid.'')
     else if 1000000 < utf8_len s then Inl (review_error ''Replacement Wiktionary content is too large.'')
     else Inr s)"
| "validate_replacement v = Inl (review_error ''Replacement Wiktionary content is invalid.'')"

fun validate_summary :: "json \<Rightarrow> string res" where
  "validate_summary (JStr s) =
    (if strip s = [] \<or> 500 < length s \<or> char_of (10::nat) \<in> set s \<or> char_of (13::nat) \<in> set s \<or> \<not> no_nul s
     then Inl (review_error ''The Wiktionary edit summary is invalid.'') else Inr (strip s))"
| "validate_summary v = Inl (review_error ''The Wiktionary edit summary is invalid.'')"

definition queue_name_char :: "char \<Rightarrow> bool" where
  "queue_name_char c \<longleftrightarrow> is_digit c \<or> (65 \<le> code c \<and> code c \<le> 90) \<or> (97 \<le> code c \<and> code c \<le> 122) \<or>
     c \<in> {CHR ''.'', CHR ''_'', CHR ''-''}"

definition queue_name_ok :: "string \<Rightarrow> bool" where
  "queue_name_ok s \<longleftrightarrow> 1 \<le> length s \<and> length s \<le> 255 \<and> list_all queue_name_char s"

subsection \<open>Snapshots\<close>

definition snapshot_fields :: "string list" where
  "snapshot_fields = [''language'', ''title'', ''namespace'', ''content'', ''content_sha256'', ''entries'',
     ''parsed'', ''parse_error'', ''content_trust'']"

fun is_int :: "json \<Rightarrow> bool" where
  "is_int (JInt i) = True"
| "is_int v = False"

definition snapshot_ok :: "review_code \<Rightarrow> string \<Rightarrow> string \<Rightarrow> dict \<Rightarrow> bool" where
  "snapshot_ok C language title s \<longleftrightarrow>
    dget ''language'' s = JStr language \<and> dget ''title'' s = JStr title \<and>
    (dget ''namespace'' s = JNull \<or> is_int (dget ''namespace'' s)) \<and>
    is_str (dget ''content'' s) \<and> is_list (dget ''entries'' s) \<and> is_bool (dget ''parsed'' s) \<and>
    (dget ''parse_error'' s = JNull \<or> is_str (dget ''parse_error'' s)) \<and>
    dget ''content_trust'' s = JStr ''untrusted_wiktionary_content'' \<and>
    is_sha256 (dget ''content_sha256'' s) \<and>
    dget ''content_sha256'' s = JStr (sha C (py_str (dget ''content'' s)))"

fun validate_snapshot :: "review_code \<Rightarrow> json \<Rightarrow> string \<Rightarrow> string \<Rightarrow> dict res" where
  "validate_snapshot C (JDict s) language title =
    (if \<not> list_all (\<lambda>k. dhas k s) snapshot_fields
     then Inl (review_error ''Entry translator returned an incomplete snapshot.'')
     else if snapshot_ok C language title s then Inr s
     else Inl (review_error ''Entry translator returned an invalid snapshot.''))"
| "validate_snapshot C v language title = Inl (review_error ''Entry translator returned an invalid snapshot.'')"

text \<open>The HTTP answer: a request error, or a status with the body, if it is JSON.\<close>

datatype http_answer = RequestFailed | Answered nat "json option"

definition get_snapshot :: "review_code \<Rightarrow> http_answer \<Rightarrow> string \<Rightarrow> json \<Rightarrow> dict res" where
  "get_snapshot C answer language title =
    (if language \<notin> {''en'', ''mg''}
     then Inl (review_error ''Review snapshots are limited to English and Malagasy Wiktionary.'')
     else bnd (validate_title title) (\<lambda>t.
       case answer of
         RequestFailed \<Rightarrow> Inl (review_error ''Entry translator could not provide the Wiktionary snapshot.'')
       | Answered status body \<Rightarrow>
         if status \<noteq> 200
         then Inl (review_error (''Entry translator rejected the snapshot request with status '' @
           nat_str status @ ''.''))
         else case body of
           None \<Rightarrow> Inl (review_error ''Entry translator returned an invalid snapshot response.'')
         | Some v \<Rightarrow> validate_snapshot C v language t))"

definition require_main_namespace :: "dict \<Rightarrow> string \<Rightarrow> unit res" where
  "require_main_namespace snapshot label =
    (if py_eq (dget ''namespace'' snapshot) (JInt 0) then Inr ()
     else Inl (review_error (label @ '' is not in the main namespace.'')))"

subsection \<open>The reviewed difference\<close>

text \<open>\<open>str.splitlines(keepends=True)\<close> below code point 256.\<close>

definition line_end :: "char \<Rightarrow> bool" where
  "line_end c \<longleftrightarrow> (let n = code c in (10 \<le> n \<and> n \<le> 13) \<or> (28 \<le> n \<and> n \<le> 30) \<or> n = 133)"

fun split_lines :: "string \<Rightarrow> string \<Rightarrow> string list" where
  "split_lines line [] = (if line = [] then [] else [line])"
| "split_lines line (c # s) =
    (if \<not> line_end c then split_lines (line @ [c]) s
     else case s of
       [] \<Rightarrow> [line @ [c]]
     | d # s' \<Rightarrow>
       if code c = 13 \<and> code d = 10 then (line @ [c, d]) # split_lines [] s'
       else (line @ [c]) # split_lines [] s)"

definition ends_line :: "string \<Rightarrow> bool" where
  "ends_line line \<longleftrightarrow> line \<noteq> [] \<and> [last line] = newline"

definition build_review_diff :: "review_code \<Rightarrow> string \<Rightarrow> string \<Rightarrow> string \<Rightarrow> string res" where
  "build_review_diff C title current replacement =
    (let lines = unified_diff C (split_lines [] current) (split_lines [] replacement)
           (''mg.wiktionary/'' @ title @ '':current'') (''mg.wiktionary/'' @ title @ '':proposed'');
         diff = concat (map (\<lambda>line. if ends_line line then line
           else line @ newline @ [char_of (92::nat)] @ '' No newline at end of file'' @ newline) lines)
     in if diff = [] then Inl (review_error ''The proposed replacement does not change the page.'')
        else if 50000 < length diff
        then Inl (review_error ''The proposed diff is too large for an explicit OpenCode review.'')
        else Inr diff)"

subsection \<open>The approval contract\<close>

definition fix_schema_version :: int where "fix_schema_version = 2"
definition fix_validity_seconds :: rat where "fix_validity_seconds = 3600"

definition approval_digest :: "review_code \<Rightarrow> dict \<Rightarrow> string res" where
  "approval_digest C contract =
    (if json_finite (JDict contract)
     then Inr (sha C (json_text '','' '':'' (sort_json (JDict contract))))
     else Inl ValueError)"

definition approval_contract where
  "approval_contract event_id target_title target_hash english_title english_hash replacement_hash
      diff_hash summary publication_queue environment prepared_at expires_at =
    [(''schema_version'', JInt fix_schema_version), (''event_id'', JStr event_id),
     (''target_title'', JStr target_title), (''target_content_sha256'', JStr target_hash),
     (''english_title'', JStr english_title), (''english_content_sha256'', JStr english_hash),
     (''replacement_content_sha256'', JStr replacement_hash), (''diff_sha256'', JStr diff_hash),
     (''summary'', JStr summary), (''minor'', JBool False), (''publication_queue'', JStr publication_queue),
     (''publication_action'', JStr ''edit_malagasy_wiktionary_page''),
     (''environment_fingerprint'', JStr environment), (''prepared_at'', JFloat (Finite prepared_at)),
     (''expires_at'', JFloat (Finite expires_at))]"

definition opt_json :: "string option \<Rightarrow> json" where
  "opt_json v = (case v of None \<Rightarrow> JNull | Some s \<Rightarrow> JStr s)"

text \<open>\<open>_validate_stored_proposal\<close>; a missing diff has the text \<open>None\<close>.\<close>

definition validate_stored_proposal :: "review_code \<Rightarrow> string \<Rightarrow> fix_proposal \<Rightarrow> unit res" where
  "validate_stored_proposal C pid p =
    bnd (validate_title (JStr (fp_target_title p))) (\<lambda>target_title.
    bnd (validate_title (JStr (fp_english_title p))) (\<lambda>english_title.
    bnd (validate_sha256 (JStr (fp_target_sha p)) ''target_content_sha256'') (\<lambda>target_hash.
    bnd (validate_sha256 (JStr (fp_english_sha p)) ''english_content_sha256'') (\<lambda>english_hash.
    bnd (validate_replacement (JStr (fp_replacement p))) (\<lambda>replacement.
    bnd (validate_sha256 (JStr (fp_replacement_sha p)) ''replacement_content_sha256'') (\<lambda>replacement_hash.
    bnd (validate_summary (JStr (fp_summary p))) (\<lambda>summary.
    bnd (validate_sha256 (opt_json (fp_diff_sha p)) ''diff_sha256'') (\<lambda>diff_hash.
      case fp_queue p of
        None \<Rightarrow> Inl (review_error ''The stored publication queue is invalid.'')
      | Some publication_queue \<Rightarrow>
        if \<not> queue_name_ok publication_queue
        then Inl (review_error ''The stored publication queue is invalid.'')
        else if fp_event p = [] then Inl (review_error ''The stored proposal event ID is invalid.'')
        else case fp_expires p of
          None \<Rightarrow> Inl (review_error ''The stored proposal validity window is invalid.'')
        | Some expires_at \<Rightarrow>
          if expires_at \<le> fp_created p \<or> fix_validity_seconds < expires_at - fp_created p
          then Inl (review_error ''The stored proposal validity window is invalid.'')
          else if sha C replacement \<noteq> replacement_hash
          then Inl (review_error ''The stored replacement content is invalid.'')
          else if sha C (fp_diff p) \<noteq> diff_hash
          then Inl (review_error ''The stored proposal diff hash is invalid.'')
          else
            bnd (validate_sha256 (opt_json (fp_environment p)) ''environment_fingerprint'') (\<lambda>environment.
            bnd (approval_digest C (approval_contract (fp_event p) target_title target_hash english_title
              english_hash replacement_hash diff_hash summary publication_queue environment
              (fp_created p) expires_at)) (\<lambda>digest.
              if fp_digest p \<noteq> digest \<or> pid \<noteq> ''wiktionary-fix:'' @ digest
              then Inl (review_error ''The stored proposal no longer matches its approval contract.'')
              else Inr ()))))))))))"

definition require_unexpired :: "rat \<Rightarrow> fix_proposal \<Rightarrow> unit res" where
  "require_unexpired now p =
    (case fp_expires p of
       None \<Rightarrow> Inl TypeError
     | Some t \<Rightarrow> if t \<le> now
         then Inl (review_error ''The reviewed proposal expired; prepare and approve a new proposal.'')
         else Inr ())"

subsection \<open>The review environment\<close>

definition rstrip_slashes :: "string \<Rightarrow> string" where
  "rstrip_slashes s = rev (dropWhile (\<lambda>c. c = CHR ''/'') (rev s))"

fun validate_review_environment_id :: "json \<Rightarrow> string res" where
  "validate_review_environment_id (JStr s) =
    (if strip s = [] \<or> lower (strip s) = ''default'' \<or> 128 < length (strip s) \<or>
        list_ex (\<lambda>c. code c < 32) s
     then Inl ValueError else Inr (strip s))"
| "validate_review_environment_id v = Inl ValueError"

definition review_identity ::
  "string \<Rightarrow> string \<Rightarrow> string \<Rightarrow> string \<Rightarrow> string \<Rightarrow> string \<Rightarrow> string \<Rightarrow> dict" where
  "review_identity mode environment_id url host virtual_host review_queue publication_queue =
    [(''schema_version'', JInt 1), (''configuration_mode'', JStr mode), (''environment_id'', JStr environment_id),
     (''entry_translator_url'', JStr (rstrip_slashes url)), (''rabbitmq_host'', JStr (strip host)),
     (''rabbitmq_virtual_host'', JStr (strip virtual_host)), (''review_queue'', JStr review_queue),
     (''publication_queue'', JStr publication_queue), (''target_language'', JStr ''mg''),
     (''target_site'', JStr ''wiktionary'')]"

definition review_environment_fingerprint ::
  "review_code \<Rightarrow> string \<Rightarrow> json \<Rightarrow> json \<Rightarrow> json \<Rightarrow> json \<Rightarrow> json \<Rightarrow> json \<Rightarrow> string res" where
  "review_environment_fingerprint C mode environment_id url host virtual_host review_queue publication_queue =
    (if mode \<notin> {''test'', ''production''} then Inl ValueError
     else bnd (validate_review_environment_id environment_id) (\<lambda>e.
       if \<not> list_all (\<lambda>v. is_str v \<and> strip (py_str v) \<noteq> []) [url, host, virtual_host, review_queue, publication_queue]
       then Inl ValueError
       else Inr (sha C (json_text '','' '':'' (sort_json (JDict (review_identity mode e (py_str url) (py_str host)
         (py_str virtual_host) (py_str review_queue) (py_str publication_queue))))))))"

subsection \<open>The service\<close>

record review_service =
  sv_queue :: string
  sv_environment :: string

definition make_service :: "string \<Rightarrow> string option \<Rightarrow> string \<Rightarrow> string option \<Rightarrow> review_service res" where
  "make_service publication_queue review_queue store_environment environment =
    (if \<not> queue_name_ok publication_queue then Inl ValueError
     else if (case review_queue of None \<Rightarrow> False | Some n \<Rightarrow> \<not> queue_name_ok n \<or> n = publication_queue)
     then Inl ValueError
     else
       let resolved = (case environment of None \<Rightarrow> store_environment | Some f \<Rightarrow> f) in
       bnd (validate_sha256 (JStr resolved) ''environment_fingerprint'') (\<lambda>f.
         if resolved \<noteq> store_environment then Inl ValueError
         else Inr \<lparr>sv_queue = publication_queue, sv_environment = resolved\<rparr>))"

definition opt_time :: "rat option \<Rightarrow> json" where
  "opt_time t = (case t of None \<Rightarrow> JNull | Some r \<Rightarrow> JFloat (Finite r))"

definition public_proposal :: "string \<Rightarrow> fix_proposal \<Rightarrow> dict" where
  "public_proposal pid p =
    [(''proposal_id'', JStr pid), (''event_id'', JStr (fp_event p)),
     (''target_title'', JStr (fp_target_title p)), (''target_content_sha256'', JStr (fp_target_sha p)),
     (''english_title'', JStr (fp_english_title p)), (''english_content_sha256'', JStr (fp_english_sha p)),
     (''replacement_content_sha256'', JStr (fp_replacement_sha p)), (''diff_sha256'', opt_json (fp_diff_sha p)),
     (''summary'', JStr (fp_summary p)), (''publication_queue'', opt_json (fp_queue p)),
     (''environment_fingerprint'', opt_json (fp_environment p)),
     (''prepared_at'', JFloat (Finite (fp_created p))), (''expires_at'', opt_time (fp_expires p)),
     (''diff'', JStr (fp_diff p)), (''approval_digest'', JStr (fp_digest p)), (''state'', JStr (fp_state p)),
     (''created_at'', JFloat (Finite (fp_created p))), (''queue_started_at'', opt_time (fp_started p)),
     (''queued_at'', opt_time (fp_queued_at p)), (''schema_version'', JInt fix_schema_version),
     (''minor'', JBool False), (''publication_action'', JStr ''edit_malagasy_wiktionary_page''),
     (''content_trust'', JStr ''proposal_diff_contains_untrusted_wiktionary_content''),
     (''publication_status'', JStr
       (if fp_state p = ''queued'' then ''queued_not_published''
        else if fp_state p = ''queueing'' then ''queue_attempt_in_progress''
        else if fp_state p = ''queue_unknown'' then ''queue_outcome_unknown''
        else ''not_queued''))]"

definition get_fix_proposal :: "review_code \<Rightarrow> review_service \<Rightarrow> bool \<Rightarrow> rat \<Rightarrow> string \<Rightarrow> review_db \<Rightarrow> dict res" where
  "get_fix_proposal C sv ok now pid db =
    bnd (get_proposal ok pid db) (\<lambda>p.
    bnd (validate_stored_proposal C pid p) (\<lambda>_.
    bnd (require_unexpired now p) (\<lambda>_.
      if fp_environment p \<noteq> Some (sv_environment sv)
      then Inl (review_error ''The proposal belongs to a different review environment.'')
      else Inr (public_proposal pid p))))"

definition get_malagasy_snapshot :: "review_code \<Rightarrow> bool \<Rightarrow> http_answer \<Rightarrow> string \<Rightarrow> review_db \<Rightarrow> dict res" where
  "get_malagasy_snapshot C ok answer event_id db =
    bnd (get_task ok event_id db) (\<lambda>task.
    bnd (dindex ''language'' task) (\<lambda>language.
      if language \<noteq> JStr ''mg''
      then Inl (review_error ''Only Malagasy Wiktionary review targets can be published.'')
      else bnd (dindex ''title'' task) (\<lambda>title. get_snapshot C answer ''mg'' title)))"

definition claim_unchecked_entry ::
  "link \<Rightarrow> io \<Rightarrow> rat \<Rightarrow> review_db \<Rightarrow> review_broker \<Rightarrow> review_db \<times> review_broker \<times> dict res" where
  "claim_unchecked_entry l i now db b =
    (case transfer_next l (accept_task i now) db b of
       (db', b', r) \<Rightarrow> (db', b', bnd r (\<lambda>task. Inr (case task of
          None \<Rightarrow> [(''status'', JStr ''empty''), (''task'', JNull)]
        | Some t \<Rightarrow> [(''status'', JStr ''claimed''), (''task'', JDict t)]))))"

definition list_unchecked_entries :: "bool \<Rightarrow> json \<Rightarrow> review_db \<Rightarrow> dict res" where
  "list_unchecked_entries ok limit db =
    bnd (list_tasks ok limit db) (\<lambda>tasks. Inr [(''tasks'', JList (map JDict tasks))])"

definition get_unchecked_entry :: "bool \<Rightarrow> string \<Rightarrow> review_db \<Rightarrow> dict res" where
  "get_unchecked_entry ok event_id db = get_task ok event_id db"

definition get_english_snapshot :: "review_code \<Rightarrow> http_answer \<Rightarrow> json \<Rightarrow> dict res" where
  "get_english_snapshot C answer title = get_snapshot C answer ''en'' title"

subsection \<open>Preparing a fix\<close>

text \<open>
  The database as the other processes leave it before each call, the outcomes of the calls,
  the two HTTP answers and the clock readings.
\<close>

record prepare_env =
  pe_others :: "nat \<Rightarrow> review_db \<Rightarrow> review_db"
  pe_reads :: "nat \<Rightarrow> bool"
  pe_save :: io
  pe_target :: http_answer
  pe_english :: http_answer
  pe_times :: "nat \<Rightarrow> rat"

text \<open>The fields shared by a proposal and its contract, without times and digest.\<close>

definition proposal_fields ::
  "review_code \<Rightarrow> review_service \<Rightarrow> string \<Rightarrow> string \<Rightarrow> string \<Rightarrow> string \<Rightarrow> string \<Rightarrow> string \<Rightarrow> string \<Rightarrow> string \<Rightarrow> fix_proposal" where
  "proposal_fields C sv event_id title target_sha english_title english_sha replacement diff summary =
    \<lparr>fp_event = event_id, fp_target_title = title, fp_target_sha = target_sha,
     fp_english_title = english_title, fp_english_sha = english_sha, fp_replacement = replacement,
     fp_replacement_sha = sha C replacement, fp_summary = summary, fp_diff = diff,
     fp_diff_sha = Some (sha C diff), fp_queue = Some (sv_queue sv), fp_digest = [], fp_state = [],
     fp_created = 0, fp_started = None, fp_claim = None, fp_queued_at = None,
     fp_environment = Some (sv_environment sv), fp_expires = None\<rparr>"

definition same_fields :: "fix_proposal \<Rightarrow> fix_proposal \<Rightarrow> bool" where
  "same_fields p q \<longleftrightarrow>
    immutable_fields (p\<lparr>fp_digest := [], fp_expires := None\<rparr>) =
    immutable_fields (q\<lparr>fp_digest := [], fp_expires := None\<rparr>)"

text \<open>The contract of the fields, its digest, and the proposal both make.\<close>

definition sign_proposal :: "review_code \<Rightarrow> rat \<Rightarrow> fix_proposal \<Rightarrow> (string \<times> fix_proposal) res" where
  "sign_proposal C prepared_at p =
    (let expires_at = prepared_at + fix_validity_seconds in
     bnd (approval_digest C (approval_contract (fp_event p) (fp_target_title p) (fp_target_sha p)
       (fp_english_title p) (fp_english_sha p) (fp_replacement_sha p)
       (case fp_diff_sha p of None \<Rightarrow> [] | Some h \<Rightarrow> h) (fp_summary p)
       (case fp_queue p of None \<Rightarrow> [] | Some q \<Rightarrow> q) (case fp_environment p of None \<Rightarrow> [] | Some f \<Rightarrow> f)
       prepared_at expires_at)) (\<lambda>digest.
       Inr (''wiktionary-fix:'' @ digest,
            p\<lparr>fp_digest := digest, fp_created := prepared_at, fp_expires := Some expires_at\<rparr>)))"

text \<open>Validation and the live snapshots up to the fields of the proposal.\<close>

definition propose :: "review_code \<Rightarrow> review_service \<Rightarrow> prepare_env \<Rightarrow> dict \<Rightarrow> string \<Rightarrow> json \<Rightarrow> json \<Rightarrow> json \<Rightarrow> json \<Rightarrow> json
    \<Rightarrow> fix_proposal res" where
  "propose C sv E task event_id target_sha english_title english_sha replacement summary =
    bnd (validate_sha256 target_sha ''target_content_sha256'') (\<lambda>th.
    bnd (validate_sha256 english_sha ''english_content_sha256'') (\<lambda>eh.
    bnd (validate_title english_title) (\<lambda>et.
    bnd (validate_replacement replacement) (\<lambda>repl.
    bnd (validate_summary summary) (\<lambda>sm.
    bnd (dindex ''title'' task) (\<lambda>title.
    bnd (get_snapshot C (pe_target E) ''mg'' title) (\<lambda>target.
    bnd (get_snapshot C (pe_english E) ''en'' (JStr et)) (\<lambda>english.
    bnd (require_main_namespace target ''Malagasy target'') (\<lambda>_.
    bnd (require_main_namespace english ''English source'') (\<lambda>_.
      if dget ''content_sha256'' target \<noteq> JStr th
      then Inl (review_error ''The Malagasy target changed; fetch a new snapshot before proposing a fix.'')
      else if dget ''content_sha256'' english \<noteq> JStr eh
      then Inl (review_error ''The English source changed; fetch a new snapshot before proposing a fix.'')
      else if dget ''content'' target = JStr repl
      then Inl (review_error ''The proposed replacement does not change the page.'')
      else bnd (build_review_diff C (py_str title) (py_str (dget ''content'' target)) repl) (\<lambda>diff.
        Inr (proposal_fields C sv event_id (py_str title) th et eh repl diff sm))))))))))))"

text \<open>The proposal of the task that is still good for the same fields.\<close>

definition reusable ::
  "review_code \<Rightarrow> prepare_env \<Rightarrow> json \<Rightarrow> fix_proposal \<Rightarrow> review_db \<Rightarrow> (string \<times> fix_proposal) option res" where
  "reusable C E current draft db =
    (case current of
       JStr pid \<Rightarrow>
         bnd (get_proposal (pe_reads E 1) pid db) (\<lambda>p.
           if fp_state p \<noteq> ''prepared'' then Inr None
           else case fp_expires p of
             None \<Rightarrow> Inl TypeError
           | Some t \<Rightarrow>
             if t \<le> pe_times E 0 \<or> \<not> same_fields p draft then Inr None
             else bnd (validate_stored_proposal C pid p) (\<lambda>_. Inr (Some (pid, p))))
     | _ \<Rightarrow> Inr None)"

definition prepare_fix ::
  "review_code \<Rightarrow> review_service \<Rightarrow> prepare_env \<Rightarrow> string \<Rightarrow> json \<Rightarrow> json \<Rightarrow> json \<Rightarrow> json \<Rightarrow> json
    \<Rightarrow> review_db \<Rightarrow> review_db \<times> dict res" where
  "prepare_fix C sv E event_id target_sha english_title english_sha replacement summary db =
    (let db0 = pe_others E 0 db in
     case get_task (pe_reads E 0) event_id db0 of
       Inl e \<Rightarrow> (db0, Inl e)
     | Inr task \<Rightarrow>
       if dget ''state'' task = JStr ''queued''
       then (db0, Inl (review_error ''This review task was already queued.''))
       else if dget ''language'' task \<noteq> JStr ''mg''
       then (db0, Inl (review_error ''Only Malagasy Wiktionary review targets can be published.''))
       else case propose C sv E task event_id target_sha english_title english_sha replacement summary of
         Inl e \<Rightarrow> (db0, Inl e)
       | Inr draft \<Rightarrow>
         let db1 = pe_others E 1 db0 in
         case reusable C E (dget ''proposal_id'' task) draft db1 of
           Inl e \<Rightarrow> (db1, Inl e)
         | Inr (Some (pid, p)) \<Rightarrow> (db1, Inr (public_proposal pid p))
         | Inr None \<Rightarrow>
           let db2 = pe_others E 2 db1 in
           case sign_proposal C (pe_times E 1) draft of
             Inl e \<Rightarrow> (db2, Inl e)
           | Inr (pid, p) \<Rightarrow>
             (case save_proposal (pe_save E) pid p db2 of
                (db3, Inl e) \<Rightarrow> (db3, Inl e)
              | (db3, Inr row) \<Rightarrow> (db3, Inr (public_proposal pid row))))"

end
