(* ===== verification/ReviewPublication.thy ===== *)
theory ReviewPublication
  imports ReviewService
begin

text \<open>
  \<open>WiktionaryReviewService.queue_reviewed_fix\<close>, cut where it calls the database, the wiki
  or RabbitMQ: an attempt is where one call of the method stands, and every step of it may
  be interleaved with the steps of other processes.  \<open>rw_sent\<close> is a ghost: the event and the
  digest under which each message of the queue was sent.
\<close>

subsection \<open>An attempt\<close>

datatype attempt =
    Asked string string
  | Found string string
  | Held string string string fix_proposal
  | Ready string string string fix_proposal
  | Undo string string fix_proposal exn
  | Doubt string string fix_proposal exn
  | Sent string string fix_proposal
  | Unmarked string string fix_proposal
  | Ended "fix_proposal res"

record review_world =
  rw_db :: review_db
  rw_edits :: broker
  rw_sent :: "(string \<times> string \<times> dict) list"

text \<open>What one step meets: the outcome of its call, the clock, a fresh token, the wiki.\<close>

record step_input =
  si_io :: io
  si_now :: rat
  si_token :: string
  si_target :: http_answer
  si_english :: http_answer
  si_connects :: bool

definition first_checks :: "review_code \<Rightarrow> review_service \<Rightarrow> string \<Rightarrow> string \<Rightarrow> fix_proposal \<Rightarrow> unit res" where
  "first_checks C sv pid digest p =
    (if fp_state p \<notin> {''prepared'', ''queueing''}
     then Inl (review_error ''Only a prepared Wiktionary fix proposal can be queued.'')
     else bnd (validate_stored_proposal C pid p) (\<lambda>_.
       if fp_queue p \<noteq> Some (sv_queue sv)
       then Inl (review_error ''The proposal belongs to a different publication queue.'')
       else if fp_environment p \<noteq> Some (sv_environment sv)
       then Inl (review_error ''The proposal belongs to a different review environment.'')
       else if digest \<noteq> fp_digest p
       then Inl (review_error ''The proposal approval digest does not match.'')
       else Inr ()))"

definition live_checks ::
  "review_code \<Rightarrow> step_input \<Rightarrow> string \<Rightarrow> string \<Rightarrow> fix_proposal \<Rightarrow> unit res" where
  "live_checks C i pid digest p =
    bnd (validate_stored_proposal C pid p) (\<lambda>_.
    bnd (require_unexpired (si_now i) p) (\<lambda>_.
      if digest \<noteq> fp_digest p
      then Inl (review_error ''The proposal approval digest does not match.'')
      else
        bnd (get_snapshot C (si_target i) ''mg'' (JStr (fp_target_title p))) (\<lambda>target.
        bnd (get_snapshot C (si_english i) ''en'' (JStr (fp_english_title p))) (\<lambda>english.
        bnd (require_main_namespace target ''Malagasy target'') (\<lambda>_.
        bnd (require_main_namespace english ''English source'') (\<lambda>_.
          if dget ''content_sha256'' target \<noteq> JStr (fp_target_sha p)
          then Inl (review_error
            ''The Malagasy target changed after review; prepare and approve a new proposal.'')
          else if dget ''content_sha256'' english \<noteq> JStr (fp_english_sha p)
          then Inl (review_error
            ''The English source changed after review; prepare and approve a new proposal.'')
          else bnd (build_review_diff C (fp_target_title p) (py_str (dget ''content'' target))
              (fp_replacement p)) (\<lambda>diff.
            if diff \<noteq> fp_diff p
            then Inl (review_error
              ''The stored proposal diff no longer matches its replacement content.'')
            else Inr ())))))))"

fun is_review_error :: "exn \<Rightarrow> bool" where
  "is_review_error (WiktionaryReviewError m) = True"
| "is_review_error e = False"

text \<open>
  The four \<open>except\<close> clauses: which way out is taken for an exception raised before or after
  \<open>publication_attempted\<close>.
\<close>

definition failing_attempt :: "bool \<Rightarrow> string \<Rightarrow> string \<Rightarrow> fix_proposal \<Rightarrow> exn \<Rightarrow> attempt" where
  "failing_attempt attempted pid token p e =
    (if is_review_error e then Undo pid token p e
     else if e = push_rejected
     then Undo pid token p (review_error ''The reviewed edit was rejected before RabbitMQ accepted it.'')
     else if e \<in> {push_outcome_unknown, rabbit_error}
     then Doubt pid token p
       (review_error ''The reviewed fix queue outcome is unknown and requires reconciliation.'')
     else (if attempted then Doubt else Undo) pid token p
       (review_error ''The reviewed fix queue attempt failed unexpectedly.''))"

definition reviewed_message :: "fix_proposal \<Rightarrow> dict" where
  "reviewed_message p =
    publish_wikipage_message (fp_replacement p) (fp_target_title p) (fp_summary p) False (Some (fp_target_sha p))"

text \<open>\<open>publish_wikipage\<close> on the queue of the world; the ghost records what got into it.\<close>

definition publish_edit :: "step_input \<Rightarrow> string \<Rightarrow> fix_proposal \<Rightarrow> review_world \<Rightarrow> review_world \<times> unit res" where
  "publish_edit i digest p w =
    (case publish_wikipage None (\<lambda>m b. rabbit_push (si_connects i) (si_io i) m b)
        (fp_replacement p) (fp_target_title p) (fp_summary p) False (Some (fp_target_sha p)) (rw_edits w) of
       (b, r) \<Rightarrow>
         (w\<lparr>rw_edits := b,
            rw_sent := (if queue b = queue (rw_edits w) then rw_sent w
              else rw_sent w @ [(fp_event p, digest, reviewed_message p)])\<rparr>, r))"

definition on_db :: "(review_db \<Rightarrow> review_db \<times> 'a res) \<Rightarrow> review_world \<Rightarrow> review_world \<times> 'a res" where
  "on_db f w = (case f (rw_db w) of (db, r) \<Rightarrow> (w\<lparr>rw_db := db\<rparr>, r))"

definition unknown_outcome :: exn where
  "unknown_outcome = review_error
    ''The reviewed fix queue outcome is unknown and requires reconciliation.''"

definition unpersisted_outcome :: exn where
  "unpersisted_outcome = review_error
    (''The reviewed fix queue outcome is unknown, and that state could not be persisted; '' @
     ''do not retry without operator reconciliation.'')"

fun advance :: "review_code \<Rightarrow> review_service \<Rightarrow> step_input \<Rightarrow> attempt \<Rightarrow> review_world \<Rightarrow> review_world \<times> attempt" where
  "advance C sv i (Asked pid digest) w =
    (w, case bnd (get_proposal (si_io i = Acked) pid (rw_db w)) (first_checks C sv pid digest) of
          Inl e \<Rightarrow> Ended (Inl e)
        | Inr u \<Rightarrow> Found pid digest)"
| "advance C sv i (Found pid digest) w =
    (case on_db (claim_for_queue (si_io i) queue_attempt_lease (si_now i) (si_token i) pid) w of
       (w', Inl e) \<Rightarrow> (w', Ended (Inl e))
     | (w', Inr p) \<Rightarrow>
         (w', Held pid digest (case fp_claim p of None \<Rightarrow> [] | Some t \<Rightarrow> t) p))"
| "advance C sv i (Held pid digest token p) w =
    (w, case live_checks C i pid digest p of
          Inl e \<Rightarrow> failing_attempt False pid token p e
        | Inr u \<Rightarrow> Ready pid digest token p)"
| "advance C sv i (Ready pid digest token p) w =
    (case publish_edit i digest p w of
       (w', Inl e) \<Rightarrow> (w', failing_attempt True pid token p e)
     | (w', Inr u) \<Rightarrow> (w', Sent pid token p))"
| "advance C sv i (Undo pid token p e) w =
    (case on_db (release_queue_claim (si_io i) pid token) w of
       (w', Inl e') \<Rightarrow> (w', Ended (Inl e'))
     | (w', Inr u) \<Rightarrow> (w', Ended (Inl e)))"
| "advance C sv i (Doubt pid token p e) w =
    (case on_db (mark_queue_unknown (si_io i) pid token) w of
       (w', Inl e') \<Rightarrow> (w', Ended (Inl e'))
     | (w', Inr u) \<Rightarrow> (w', Ended (Inl e)))"
| "advance C sv i (Sent pid token p) w =
    (case on_db (mark_queued (si_io i) (si_now i) pid token) w of
       (w', Inl e) \<Rightarrow> (w', Unmarked pid token p)
     | (w', Inr row) \<Rightarrow> (w', Ended (Inr row)))"
| "advance C sv i (Unmarked pid token p) w =
    (case on_db (mark_queue_unknown (si_io i) pid token) w of
       (w', Inl e) \<Rightarrow> (w', Ended (Inl unpersisted_outcome))
     | (w', Inr u) \<Rightarrow> (w', Ended (Inl unknown_outcome)))"
| "advance C sv i (Ended r) w = (w, Ended r)"

text \<open>The method without interruption: six steps end every attempt.\<close>

fun run_attempt :: "review_code \<Rightarrow> review_service \<Rightarrow> step_input list \<Rightarrow> attempt \<Rightarrow> review_world \<Rightarrow> review_world \<times> attempt" where
  "run_attempt C sv [] a w = (w, a)"
| "run_attempt C sv (i # is) a w = (case advance C sv i a w of (w', a') \<Rightarrow> run_attempt C sv is a' w')"

definition queued_answer :: "review_service \<Rightarrow> string \<Rightarrow> fix_proposal \<Rightarrow> dict" where
  "queued_answer sv pid row =
    [(''status'', JStr ''queued_for_publication''), (''published'', JBool False),
     (''queue'', JStr (sv_queue sv)), (''proposal_id'', JStr pid), (''event_id'', JStr (fp_event row)),
     (''target_title'', JStr (fp_target_title row)),
     (''expected_content_sha256'', JStr (fp_target_sha row)),
     (''message'', JStr (''The reviewed fix was accepted by the Wiktionary edit queue; '' @
       ''the Wiktionary write has not been confirmed.''))]"

definition queue_reviewed_fix ::
  "review_code \<Rightarrow> review_service \<Rightarrow> step_input list \<Rightarrow> string \<Rightarrow> string \<Rightarrow> review_world \<Rightarrow> review_world \<times> dict res option" where
  "queue_reviewed_fix C sv is pid digest w =
    (case run_attempt C sv is (Asked pid digest) w of
       (w', Ended (Inl e)) \<Rightarrow> (w', Some (Inl e))
     | (w', Ended (Inr row)) \<Rightarrow> (w', Some (Inr (queued_answer sv pid row)))
     | (w', a) \<Rightarrow> (w', None))"

end
