(* ===== verification/ReviewWorkflow.thy ===== *)
theory ReviewWorkflow
  imports ReviewPublication
begin

text \<open>
  All processes on one review database: a step relation whose steps are the transactions of
  the store and the calls of \<open>queue_reviewed_fix\<close>, in any order, and the lemmas about what
  each transaction keeps.
\<close>

subsection \<open>The system\<close>

record review_system =
  rs_world :: review_world
  rs_attempts :: "attempt list"
  rs_calls :: "(string \<times> string) list"

definition with_db :: "review_db \<Rightarrow> review_system \<Rightarrow> review_system" where
  "with_db db s = s\<lparr>rs_world := (rs_world s)\<lparr>rw_db := db\<rparr>\<rparr>"

inductive review_step :: "review_code \<Rightarrow> review_system \<Rightarrow> review_system \<Rightarrow> bool" for C where
  opens: "open_store i fingerprint (rw_db (rs_world s)) = (db, r) \<Longrightarrow> review_step C s (with_db db s)"
| accepts: "accept_task i now (rw_db (rs_world s)) message = (db, answer) \<Longrightarrow> review_step C s (with_db db s)"
| saves: "save_proposal i pid p (rw_db (rs_world s)) = (db, row) \<Longrightarrow> review_step C s (with_db db s)"
| begins: "review_step C s
    (s\<lparr>rs_attempts := rs_attempts s @ [Asked pid digest], rs_calls := rs_calls s @ [(pid, digest)]\<rparr>)"
| advances: "n < length (rs_attempts s) \<Longrightarrow> advance C sv i (rs_attempts s ! n) (rs_world s) = (w, a) \<Longrightarrow>
    review_step C s (s\<lparr>rs_world := w, rs_attempts := (rs_attempts s)[n := a]\<rparr>)"

inductive_cases review_stepE: "review_step C s s'"

inductive review_reachable :: "review_code \<Rightarrow> review_db \<Rightarrow> review_system \<Rightarrow> bool" for C db where
  starts: "review_reachable C db \<lparr>rs_world = \<lparr>rw_db = db, rw_edits = \<lparr>connected = False, queue = []\<rparr>, rw_sent = []\<rparr>,
    rs_attempts = [], rs_calls = []\<rparr>"
| steps: "review_reachable C db s \<Longrightarrow> review_step C s s' \<Longrightarrow> review_reachable C db s'"

subsection \<open>Rows\<close>

lemma map_of_update_where:
  "map_of (update_where P f rows) k = map_option (\<lambda>r. if P k r then f r else r) (map_of rows k)"
  unfolding update_where_def by (induction rows) auto

lemma keys_update_where [simp]: "map fst (update_where P f rows) = map fst rows"
  unfolding update_where_def by (induction rows) auto

lemma map_of_snoc: "map_of (rows @ [(k, r)]) x =
    (case map_of rows x of Some q \<Rightarrow> Some q | None \<Rightarrow> if x = k then Some r else None)"
  by (simp add: map_add_def split: option.splits)

lemma rowcount_one:
  assumes "distinct (map fst rows)"
  shows "rowcount (\<lambda>k r. k = x \<and> Q r) rows = 1 \<longleftrightarrow> (\<exists>r. map_of rows x = Some r \<and> Q r)"
  using assms
proof (induction rows)
  case Nil
  then show ?case by (simp add: rowcount_def)
next
  case (Cons p rows)
  obtain k r where p: "p = (k, r)" by (cases p)
  have none: "rowcount (\<lambda>k r. k = x \<and> Q r) rows = 0" if "x \<notin> fst ` set rows"
    using that unfolding rowcount_def by (auto simp: filter_empty_conv image_iff)
  show ?case
  proof (cases "k = x")
    case True
    then have "x \<notin> fst ` set rows" using Cons.prems p by simp
    with True none show ?thesis by (simp add: p rowcount_def)
  next
    case False
    with Cons show ?thesis by (simp add: p rowcount_def)
  qed
qed

subsection \<open>A consistent database\<close>

definition proposal_states :: "string list" where
  "proposal_states = [''prepared'', ''superseded'', ''queueing'', ''queued'', ''queue_unknown'']"

definition task_state_for :: "string \<Rightarrow> string" where
  "task_state_for s = (if s = ''prepared'' then ''proposed'' else s)"

definition current_for :: "string \<Rightarrow> fix_proposal \<Rightarrow> review_task \<Rightarrow> bool" where
  "current_for pid p t \<longleftrightarrow> rt_proposal t = Some pid \<and> rt_state t = task_state_for (fp_state p)"

text \<open>
  Every proposal that is not superseded is the current one of its task, and a task that is
  not pending has one; a claim token is held only while queueing.
\<close>

definition review_db_ok :: "review_db \<Rightarrow> bool" where
  "review_db_ok db \<longleftrightarrow>
    distinct (map fst (db_tasks db)) \<and> distinct (map fst (db_proposals db)) \<and>
    (\<forall>pid p. map_of (db_proposals db) pid = Some p \<longrightarrow>
      fp_state p \<in> set proposal_states \<and>
      (fp_claim p \<noteq> None \<longrightarrow> fp_state p = ''queueing'') \<and>
      (fp_state p \<noteq> ''superseded'' \<longrightarrow>
        (\<exists>t. map_of (db_tasks db) (fp_event p) = Some t \<and> current_for pid p t))) \<and>
    (\<forall>e t. map_of (db_tasks db) e = Some t \<longrightarrow>
      rt_state t = ''pending'' \<or>
      (\<exists>pid p. map_of (db_proposals db) pid = Some p \<and> fp_event p = e \<and> fp_state p \<noteq> ''superseded'' \<and>
        current_for pid p t))"

lemma proposal_ok:
  assumes "review_db_ok db" and "map_of (db_proposals db) pid = Some p"
  shows "fp_state p \<in> set proposal_states" and "fp_claim p \<noteq> None \<Longrightarrow> fp_state p = ''queueing''"
    and "fp_state p \<noteq> ''superseded'' \<Longrightarrow>
      \<exists>t. map_of (db_tasks db) (fp_event p) = Some t \<and> current_for pid p t"
  using assms unfolding review_db_ok_def by blast+

lemma task_ok:
  assumes "review_db_ok db" and "map_of (db_tasks db) e = Some t" and "rt_state t \<noteq> ''pending''"
  obtains pid p where "map_of (db_proposals db) pid = Some p" and "fp_event p = e"
    and "fp_state p \<noteq> ''superseded''" and "current_for pid p t"
  using assms unfolding review_db_ok_def by blast

lemma review_db_okI:
  assumes "distinct (map fst (db_tasks db))" and "distinct (map fst (db_proposals db))"
    and "\<And>pid p. map_of (db_proposals db) pid = Some p \<Longrightarrow> fp_state p \<in> set proposal_states"
    and "\<And>pid p. map_of (db_proposals db) pid = Some p \<Longrightarrow> fp_claim p \<noteq> None \<Longrightarrow> fp_state p = ''queueing''"
    and "\<And>pid p. map_of (db_proposals db) pid = Some p \<Longrightarrow> fp_state p \<noteq> ''superseded'' \<Longrightarrow>
      \<exists>t. map_of (db_tasks db) (fp_event p) = Some t \<and> current_for pid p t"
    and "\<And>e t. map_of (db_tasks db) e = Some t \<Longrightarrow> rt_state t \<noteq> ''pending'' \<Longrightarrow>
      \<exists>pid p. map_of (db_proposals db) pid = Some p \<and> fp_event p = e \<and> fp_state p \<noteq> ''superseded'' \<and>
        current_for pid p t"
  shows "review_db_ok db"
  using assms unfolding review_db_ok_def by blast

text \<open>The move of one current proposal and its task from a state to another one.\<close>

lemma move_ok:
  assumes ok: "review_db_ok db" and p: "map_of (db_proposals db) pid = Some p"
    and s: "fp_state p = s" "s \<noteq> ''superseded''"
    and f: "\<And>r. fp_event (f r) = fp_event r" "\<And>r. fp_state (f r) = s'"
      "\<And>r. fp_claim (f r) \<noteq> None \<Longrightarrow> s' = ''queueing''"
    and g: "\<And>t. rt_proposal (g t) = rt_proposal t" "\<And>t. rt_state (g t) = task_state_for s'"
    and s': "s' \<in> set proposal_states" "s' \<noteq> ''superseded''"
    and token: "token = None \<or> fp_claim p = token"
  shows "review_db_ok (move_task (fp_event p) pid (task_state_for s) g (move_proposal pid token s f db))"
    (is "review_db_ok ?db")
proof -
  obtain t where t: "map_of (db_tasks db) (fp_event p) = Some t" and c: "current_for pid p t"
    using proposal_ok(3) [OF ok p] s by auto
  have props: "map_of (db_proposals ?db) = (map_of (db_proposals db))(pid \<mapsto> f p)"
    using p s token by (auto simp: move_task_def move_proposal_def map_of_update_where fun_eq_iff option.map_ident)
  have tasks: "map_of (db_tasks ?db) = (map_of (db_tasks db))(fp_event p \<mapsto> g t)"
    using t c s(1) by (auto simp: move_task_def move_proposal_def map_of_update_where fun_eq_iff current_for_def option.map_ident)
  have mine: "k = pid" if k: "map_of (db_proposals db) k = Some q" and e: "fp_event q = fp_event p"
    and n: "fp_state q \<noteq> ''superseded''" for k q
  proof -
    obtain u where "map_of (db_tasks db) (fp_event q) = Some u" "current_for k q u"
      using proposal_ok(3) [OF ok k] n by blast
    with e t c show ?thesis by (simp add: current_for_def)
  qed
  show ?thesis
  proof (rule review_db_okI)
    show "distinct (map fst (db_tasks ?db))" "distinct (map fst (db_proposals ?db))"
      using ok by (simp_all add: review_db_ok_def move_task_def move_proposal_def)
    fix k q assume q: "map_of (db_proposals ?db) k = Some q"
    show "fp_state q \<in> set proposal_states"
      using q proposal_ok(1) [OF ok] f(2) s' unfolding props by (auto split: if_splits)
    show "fp_claim q \<noteq> None \<Longrightarrow> fp_state q = ''queueing''"
      using q proposal_ok(2) [OF ok, of k q] f(2,3) unfolding props by (auto split: if_splits)
    assume ns: "fp_state q \<noteq> ''superseded''"
    show "\<exists>t. map_of (db_tasks ?db) (fp_event q) = Some t \<and> current_for k q t"
    proof (cases "k = pid")
      case True
      with q props have "q = f p" by simp
      with True c g f tasks show ?thesis by (simp add: current_for_def)
    next
      case False
      with q props have q0: "map_of (db_proposals db) k = Some q" by simp
      with mine ns False have "fp_event q \<noteq> fp_event p" by blast
      with proposal_ok(3) [OF ok q0] ns tasks show ?thesis by simp
    qed
  next
    fix e u assume u: "map_of (db_tasks ?db) e = Some u" "rt_state u \<noteq> ''pending''"
    show "\<exists>k q. map_of (db_proposals ?db) k = Some q \<and> fp_event q = e \<and> fp_state q \<noteq> ''superseded'' \<and>
        current_for k q u"
    proof (cases "e = fp_event p")
      case True
      with u tasks have "u = g t" by simp
      with True c f g s' props show ?thesis by (intro exI [of _ pid]) (simp add: current_for_def)
    next
      case False
      with u tasks have "map_of (db_tasks db) e = Some u" by simp
      from task_ok [OF ok this u(2)] obtain k q where k: "map_of (db_proposals db) k = Some q"
        "fp_event q = e" "fp_state q \<noteq> ''superseded''" "current_for k q u" by blast
      have "k \<noteq> pid" using k(1,2) p False by auto
      with k props show ?thesis by (intro exI [of _ k] exI [of _ q]) simp
    qed
  qed
qed

lemma task_is_current:
  assumes "review_db_ok db"
  shows "task_is e pid s db \<longleftrightarrow> (\<exists>t. map_of (db_tasks db) e = Some t \<and> rt_proposal t = Some pid \<and> rt_state t = s)"
  using rowcount_one [of "db_tasks db" e "\<lambda>r. rt_proposal r = Some pid \<and> rt_state r = s"] assms
  unfolding task_is_def review_db_ok_def by simp

subsection \<open>What a transaction keeps\<close>

text \<open>An event is locked while a message of it may be on its way or sent.\<close>

definition locked :: "review_db \<Rightarrow> string \<Rightarrow> bool" where
  "locked db e \<longleftrightarrow> (\<exists>t. map_of (db_tasks db) e = Some t \<and> rt_state t \<in> {''queueing'', ''queued'', ''queue_unknown''})"

definition signed_fields where
  "signed_fields p = (immutable_fields p, fp_created p)"

definition evolves :: "review_db \<Rightarrow> review_db \<Rightarrow> bool" where
  "evolves db db' \<longleftrightarrow>
    (\<forall>pid q. map_of (db_proposals db) pid = Some q \<longrightarrow>
      (\<exists>q'. map_of (db_proposals db') pid = Some q' \<and> signed_fields q' = signed_fields q)) \<and>
    (\<forall>e. locked db e \<longrightarrow> locked db' e)"

lemma evolves_refl [simp]: "evolves db db"
  by (simp add: evolves_def)

lemma evolves_row:
  assumes "evolves db db'" and "map_of (db_proposals db) pid = Some q"
  obtains q' where "map_of (db_proposals db') pid = Some q'" and "signed_fields q' = signed_fields q"
  using assms unfolding evolves_def by blast

lemma signed_event: "signed_fields p = signed_fields q \<Longrightarrow> fp_event p = fp_event q"
  by (simp add: signed_fields_def immutable_fields_def)

locale review_transaction =
  fixes f :: "review_db \<Rightarrow> review_db \<times> 'a res"
  assumes keeps: "review_db_ok db \<Longrightarrow> f db = (db', r) \<Longrightarrow> review_db_ok db' \<and> evolves db db'"
begin

lemma call_keeps:
  assumes "review_db_ok db" and "transaction i f db = (db', r)"
  shows "review_db_ok db' \<and> evolves db db'"
proof -
  obtain db1 r1 where f: "f db = (db1, r1)" by (cases "f db")
  then have "db' = db \<or> db' = db1" using assms(2) by (auto simp: transaction_def split: io.splits)
  with keeps [OF assms(1) f] assms(1) show ?thesis by auto
qed

end

lemma insert_task_keeps:
  assumes ok: "review_db_ok db" and "insert_task e payload now db = (db', r)"
  shows "review_db_ok db' \<and> evolves db db'"
proof (cases "map_of (db_tasks db) e")
  case (Some row)
  with assms show ?thesis by (simp add: insert_task_def)
next
  case None
  define row where "row = \<lparr>rt_payload = payload, rt_state = ''pending'', rt_proposal = None,
    rt_received = now, rt_completed = None\<rparr>"
  have db': "db' = db\<lparr>db_tasks := db_tasks db @ [(e, row)]\<rparr>"
    using None assms(2) by (simp add: insert_task_def Let_def row_def)
  have tasks: "map_of (db_tasks db') = (map_of (db_tasks db))(e \<mapsto> row)"
    using None by (auto simp: db' map_add_def fun_eq_iff split: option.splits)
  have props: "db_proposals db' = db_proposals db" by (simp add: db')
  have old: "map_of (db_tasks db') x = Some t" if "map_of (db_tasks db) x = Some t" for x t
    using that None tasks by auto
  have "review_db_ok db'"
  proof (rule review_db_okI)
    show "distinct (map fst (db_proposals db'))" using ok by (simp add: props review_db_ok_def)
    have "e \<notin> fst ` set (db_tasks db)" using None by (simp add: map_of_eq_None_iff)
    then show "distinct (map fst (db_tasks db'))" using ok by (simp add: db' review_db_ok_def)
    fix k q assume q: "map_of (db_proposals db') k = Some q"
    then have q0: "map_of (db_proposals db) k = Some q" by (simp add: props)
    show "fp_state q \<in> set proposal_states" "fp_claim q \<noteq> None \<Longrightarrow> fp_state q = ''queueing''"
      using proposal_ok(1,2) [OF ok q0] by blast+
    show "fp_state q \<noteq> ''superseded'' \<Longrightarrow>
        \<exists>t. map_of (db_tasks db') (fp_event q) = Some t \<and> current_for k q t"
      using proposal_ok(3) [OF ok q0] old by blast
  next
    fix x t assume t: "map_of (db_tasks db') x = Some t" "rt_state t \<noteq> ''pending''"
    then have "map_of (db_tasks db) x = Some t" using tasks by (auto simp: row_def split: if_splits)
    from task_ok [OF ok this t(2)] show "\<exists>pid p. map_of (db_proposals db') pid = Some p \<and> fp_event p = x \<and>
        fp_state p \<noteq> ''superseded'' \<and> current_for pid p t"
      unfolding props by blast
  qed
  moreover have "evolves db db'" using None tasks by (auto simp: evolves_def locked_def db' split: if_splits)
  ultimately show ?thesis by blast
qed

lemma move_evolves:
  assumes "\<And>r. signed_fields (f r) = signed_fields r"
    and "\<And>t. rt_state (g t) \<in> {''queueing'', ''queued'', ''queue_unknown''} \<or>
      s' \<notin> {''queueing'', ''queued'', ''queue_unknown''}"
  shows "evolves db (move_task e pid s' g (move_proposal pid token s f db))"
  unfolding evolves_def
proof (intro conjI allI impI)
  fix k q assume "map_of (db_proposals db) k = Some q"
  then show "\<exists>q'. map_of (db_proposals (move_task e pid s' g (move_proposal pid token s f db))) k = Some q' \<and>
      signed_fields q' = signed_fields q"
    using assms(1) by (simp add: move_task_def move_proposal_def map_of_update_where)
next
  fix x assume "locked db x"
  then show "locked (move_task e pid s' g (move_proposal pid token s f db)) x"
    using assms(2) by (auto simp: locked_def move_task_def move_proposal_def map_of_update_where)
qed

text \<open>The states that a claim, a completion or a doubt moves a proposal to.\<close>

lemma claim_rows_keeps:
  assumes ok: "review_db_ok db" and c: "claim_rows lease now token pid db = (db', r)"
  shows "review_db_ok db' \<and> evolves db db'"
proof -
  consider (same) "db' = db"
    | (stale) p where "map_of (db_proposals db) pid = Some p" "fp_state p = ''queueing''"
        "db' = move_task (fp_event p) pid (task_state_for ''queueing'') (\<lambda>r. r\<lparr>rt_state := ''queue_unknown''\<rparr>)
          (move_proposal pid None ''queueing'' (\<lambda>r. r\<lparr>fp_state := ''queue_unknown'', fp_claim := None\<rparr>) db)"
    | (claim) p where "map_of (db_proposals db) pid = Some p" "fp_state p = ''prepared''"
        "db' = move_task (fp_event p) pid (task_state_for ''prepared'') (\<lambda>r. r\<lparr>rt_state := ''queueing''\<rparr>)
          (move_proposal pid None ''prepared''
            (\<lambda>r. r\<lparr>fp_state := ''queueing'', fp_started := Some now, fp_claim := Some token\<rparr>) db)"
    using c by (auto simp: claim_rows_def Let_def task_state_for_def split: option.splits if_splits)
  then show ?thesis
  proof cases
    case same
    with ok show ?thesis by simp
  next
    case stale
    have "review_db_ok db'" unfolding stale(3)
      by (rule move_ok [OF ok stale(1,2), where s' = "''queue_unknown''"]) (simp_all add: task_state_for_def proposal_states_def)
    moreover have "evolves db db'" unfolding stale(3)
      by (rule move_evolves) (simp_all add: signed_fields_def immutable_fields_def task_state_for_def)
    ultimately show ?thesis by blast
  next
    case claim
    have "review_db_ok db'" unfolding claim(3)
      by (rule move_ok [OF ok claim(1,2), where s' = "''queueing''"]) (simp_all add: task_state_for_def proposal_states_def)
    moreover have "evolves db db'" unfolding claim(3)
      by (rule move_evolves) (simp_all add: signed_fields_def immutable_fields_def task_state_for_def)
    ultimately show ?thesis by blast
  qed
qed

lemma claimed_row_Some:
  "claimed_row pid token db = Some p \<longleftrightarrow> map_of (db_proposals db) pid = Some p \<and> fp_claim p = Some token"
  by (auto simp: claimed_row_def split: option.splits)

lemma queued_rows_keeps:
  assumes ok: "review_db_ok db" and c: "queued_rows now pid token db = (db', r)"
  shows "review_db_ok db' \<and> evolves db db'"
proof (cases "db' = db")
  case True
  with ok show ?thesis by simp
next
  case False
  then obtain p where p: "map_of (db_proposals db) pid = Some p" "fp_claim p = Some token"
    "fp_state p = ''queueing''" and db': "db' = move_task (fp_event p) pid (task_state_for ''queueing'')
        (\<lambda>r. r\<lparr>rt_state := ''queued'', rt_completed := Some now\<rparr>)
      (move_proposal pid (Some token) ''queueing''
        (\<lambda>r. r\<lparr>fp_state := ''queued'', fp_queued_at := Some now, fp_claim := None\<rparr>) db)"
    using c by (auto simp: queued_rows_def Let_def task_state_for_def claimed_row_Some
        split: option.splits if_splits)
  have "review_db_ok db'" unfolding db'
    by (rule move_ok [OF ok p(1,3), where s' = "''queued''"]) (simp_all add: task_state_for_def proposal_states_def p)
  moreover have "evolves db db'" unfolding db'
    by (rule move_evolves) (simp_all add: signed_fields_def immutable_fields_def task_state_for_def)
  ultimately show ?thesis by blast
qed

lemma unknown_rows_keeps:
  assumes ok: "review_db_ok db" and c: "unknown_rows pid token db = (db', r)"
  shows "review_db_ok db' \<and> evolves db db'"
proof (cases "db' = db")
  case True
  with ok show ?thesis by simp
next
  case False
  then obtain p where p: "map_of (db_proposals db) pid = Some p" "fp_claim p = Some token"
    "fp_state p = ''queueing''" and db': "db' = move_task (fp_event p) pid (task_state_for ''queueing'')
        (\<lambda>r. r\<lparr>rt_state := ''queue_unknown''\<rparr>)
      (move_proposal pid (Some token) ''queueing''
        (\<lambda>r. r\<lparr>fp_state := ''queue_unknown'', fp_claim := None\<rparr>) db)"
    using c by (auto simp: unknown_rows_def Let_def task_state_for_def claimed_row_Some
        split: option.splits if_splits)
  have "review_db_ok db'" unfolding db'
    by (rule move_ok [OF ok p(1,3), where s' = "''queue_unknown''"]) (simp_all add: task_state_for_def proposal_states_def p)
  moreover have "evolves db db'" unfolding db'
    by (rule move_evolves) (simp_all add: signed_fields_def immutable_fields_def task_state_for_def)
  ultimately show ?thesis by blast
qed

text \<open>Releasing unlocks its own event only.\<close>

lemma release_rows_keeps:
  assumes ok: "review_db_ok db" and c: "release_rows pid token db = (db', r)"
  shows "review_db_ok db'"
    and "map_of (db_proposals db) k = Some q \<Longrightarrow>
      \<exists>q'. map_of (db_proposals db') k = Some q' \<and> signed_fields q' = signed_fields q"
    and "locked db e \<Longrightarrow> (\<And>p. map_of (db_proposals db) pid = Some p \<Longrightarrow> fp_event p \<noteq> e) \<Longrightarrow> locked db' e"
proof -
  have "review_db_ok db' \<and>
    (map_of (db_proposals db) k = Some q \<longrightarrow>
      (\<exists>q'. map_of (db_proposals db') k = Some q' \<and> signed_fields q' = signed_fields q)) \<and>
    (locked db e \<longrightarrow> (\<forall>p. map_of (db_proposals db) pid = Some p \<longrightarrow> fp_event p \<noteq> e) \<longrightarrow> locked db' e)"
  proof (cases "db' = db")
    case True
    with ok show ?thesis by simp
  next
    case False
    then obtain p where p: "map_of (db_proposals db) pid = Some p" "fp_claim p = Some token"
      "fp_state p = ''queueing''" and db': "db' = move_task (fp_event p) pid (task_state_for ''queueing'')
          (\<lambda>r. r\<lparr>rt_state := ''proposed''\<rparr>)
        (move_proposal pid (Some token) ''queueing''
          (\<lambda>r. r\<lparr>fp_state := ''prepared'', fp_started := None, fp_claim := None\<rparr>) db)"
      using c by (auto simp: release_rows_def Let_def task_state_for_def claimed_row_Some
          split: option.splits if_splits)
    have "review_db_ok db'" unfolding db'
      by (rule move_ok [OF ok p(1,3), where s' = "''prepared''"])
        (simp_all add: task_state_for_def proposal_states_def p)
    moreover have "map_of (db_proposals db) k = Some q \<longrightarrow>
        (\<exists>q'. map_of (db_proposals db') k = Some q' \<and> signed_fields q' = signed_fields q)"
      by (simp add: db' move_task_def move_proposal_def map_of_update_where signed_fields_def
          immutable_fields_def)
    moreover have "locked db' e" if l: "locked db e" and n: "fp_event p \<noteq> e"
      using l n by (simp add: locked_def db' move_task_def move_proposal_def map_of_update_where)
    ultimately show ?thesis using p(1) by simp
  qed
  then show "review_db_ok db'"
    and "map_of (db_proposals db) k = Some q \<Longrightarrow>
      \<exists>q'. map_of (db_proposals db') k = Some q' \<and> signed_fields q' = signed_fields q"
    and "locked db e \<Longrightarrow> (\<And>p. map_of (db_proposals db) pid = Some p \<Longrightarrow> fp_event p \<noteq> e) \<Longrightarrow> locked db' e"
    by blast+
qed

lemma save_rows_cases:
  assumes ok: "review_db_ok db" and c: "save_proposal_rows pid p db = (db', r)" and ch: "db' \<noteq> db"
  obtains t q where "map_of (db_tasks db) (fp_event p) = Some t" and "rt_state t \<in> {''pending'', ''proposed''}"
    and "map_of (db_proposals db) pid = None \<or> map_of (db_proposals db) pid = Some q"
    and "immutable_fields q = immutable_fields p" and "fp_state q = ''prepared''" and "fp_claim q = None"
    and "db_tasks db' = update_where (\<lambda>k r. k = fp_event p \<and> rt_state r \<in> {''pending'', ''proposed''})
      (\<lambda>r. r\<lparr>rt_state := ''proposed'', rt_proposal := Some pid\<rparr>) (db_tasks db)"
    and "db_proposals db' = update_where
        (\<lambda>k r. fp_event r = fp_event p \<and> k \<noteq> pid \<and> fp_state r = ''prepared'')
        (\<lambda>r. r\<lparr>fp_state := ''superseded''\<rparr>) (db_proposals db) @
      (if map_of (db_proposals db) pid = None then [(pid, q)] else [])"
    and "r = Inr q"
proof -
  let ?open = "\<lambda>k r. k = fp_event p \<and> rt_state r \<in> {''pending'', ''proposed''}"
  let ?sup = "update_where (\<lambda>k r. fp_event r = fp_event p \<and> k \<noteq> pid \<and> fp_state r = ''prepared'')
      (\<lambda>r. r\<lparr>fp_state := ''superseded''\<rparr>) (db_proposals db)"
  let ?row = "p\<lparr>fp_state := ''prepared'', fp_started := None, fp_claim := None, fp_queued_at := None\<rparr>"
  obtain t0 where t0: "map_of (db_tasks db) (fp_event p) = Some t0"
    using c ch by (cases "map_of (db_tasks db) (fp_event p)") (auto simp: save_proposal_rows_def)
  have cnt: "rowcount ?open (db_tasks db) = 1"
    using c ch t0 by (auto simp: save_proposal_rows_def Let_def split: if_splits)
  then obtain t where t: "map_of (db_tasks db) (fp_event p) = Some t" "rt_state t \<in> {''pending'', ''proposed''}"
    using rowcount_one [of "db_tasks db" "fp_event p" "\<lambda>r. rt_state r \<in> {''pending'', ''proposed''}"] ok
    by (auto simp: review_db_ok_def)
  have n: "rt_state t0 \<notin> {''queueing'', ''queued''}" using t t0 by auto
  show thesis
  proof (cases "map_of (db_proposals db) pid")
    case None
    have "map_of (?sup @ [(pid, ?row)]) pid = Some ?row"
      using None by (simp add: map_of_update_where map_add_def)
    then have e: "db' = db\<lparr>db_tasks := update_where ?open (\<lambda>r. r\<lparr>rt_state := ''proposed'', rt_proposal := Some pid\<rparr>)
        (db_tasks db), db_proposals := ?sup @ [(pid, ?row)]\<rparr>" "r = Inr ?row"
      using c t0 n cnt None
      by (simp_all add: save_proposal_rows_def Let_def insert_proposal_def del: map_of_append)
    show thesis
      by (rule that [of t ?row]) (use e t None in \<open>simp_all add: immutable_fields_def\<close>)
  next
    case (Some q)
    have q: "immutable_fields q = immutable_fields p" "fp_state q = ''prepared''"
      using c ch t0 n Some by (auto simp: save_proposal_rows_def Let_def split: if_splits)
    then have "fp_claim q = None" using proposal_ok(2) [OF ok Some] by (cases "fp_claim q") auto
    moreover have "map_of ?sup pid = Some q" using Some by (simp add: map_of_update_where)
    then have "db' = db\<lparr>db_tasks := update_where ?open (\<lambda>r. r\<lparr>rt_state := ''proposed'', rt_proposal := Some pid\<rparr>)
        (db_tasks db), db_proposals := ?sup\<rparr>" "r = Inr q"
      using c t0 n cnt Some q by (simp_all add: save_proposal_rows_def Let_def)
    ultimately show thesis
      by (intro that [of t q]) (use t q Some in simp_all)
  qed
qed

lemma save_rows_keeps:
  assumes ok: "review_db_ok db" and c: "save_proposal_rows pid p db = (db', r)"
  shows "review_db_ok db' \<and> evolves db db'"
proof (cases "db' = db")
  case True
  with ok show ?thesis by simp
next
  case False
  let ?e = "fp_event p"
  obtain t q where t: "map_of (db_tasks db) ?e = Some t" "rt_state t \<in> {''pending'', ''proposed''}"
    and pid: "map_of (db_proposals db) pid = None \<or> map_of (db_proposals db) pid = Some q"
    and q: "immutable_fields q = immutable_fields p" "fp_state q = ''prepared''" "fp_claim q = None"
    and dt: "db_tasks db' = update_where (\<lambda>k r. k = ?e \<and> rt_state r \<in> {''pending'', ''proposed''})
      (\<lambda>r. r\<lparr>rt_state := ''proposed'', rt_proposal := Some pid\<rparr>) (db_tasks db)"
    and dp: "db_proposals db' = update_where
        (\<lambda>k r. fp_event r = ?e \<and> k \<noteq> pid \<and> fp_state r = ''prepared'')
        (\<lambda>r. r\<lparr>fp_state := ''superseded''\<rparr>) (db_proposals db) @
      (if map_of (db_proposals db) pid = None then [(pid, q)] else [])"
    by (rule save_rows_cases [OF ok c False])
  have eq: "fp_event q = ?e" using q(1) by (simp add: immutable_fields_def)
  define t' where "t' = t\<lparr>rt_state := ''proposed'', rt_proposal := Some pid\<rparr>"
  have tasks: "map_of (db_tasks db') = (map_of (db_tasks db))(?e \<mapsto> t')"
    using t by (auto simp: dt map_of_update_where fun_eq_iff option.map_ident t'_def)
  have props: "map_of (db_proposals db') k = (if k = pid then Some q else
      map_option (\<lambda>r. if fp_event r = ?e \<and> fp_state r = ''prepared'' then r\<lparr>fp_state := ''superseded''\<rparr> else r)
        (map_of (db_proposals db) k))" for k
    using pid unfolding dp by (auto simp: map_of_update_where map_add_def split: option.splits)
  have locked: "locked db x \<Longrightarrow> locked db' x" for x
    using tasks t by (auto simp: locked_def)
  have old: "fp_event k1 \<noteq> ?e \<and> map_of (db_proposals db) k = Some k1"
    if k: "k \<noteq> pid" "map_of (db_proposals db') k = Some k1" "fp_state k1 \<noteq> ''superseded''" for k k1
  proof -
    obtain k0 where k0: "map_of (db_proposals db) k = Some k0"
      "k1 = (if fp_event k0 = ?e \<and> fp_state k0 = ''prepared'' then k0\<lparr>fp_state := ''superseded''\<rparr> else k0)"
      using k(1,2) by (auto simp: props)
    then have s: "k1 = k0" "\<not> (fp_event k0 = ?e \<and> fp_state k0 = ''prepared'')" using k(3) by (auto split: if_splits)
    have "fp_event k0 \<noteq> ?e"
    proof
      assume e: "fp_event k0 = ?e"
      have ns: "fp_state k0 \<noteq> ''superseded''" using k(3) s(1) by simp
      obtain u where u: "map_of (db_tasks db) (fp_event k0) = Some u" "current_for k k0 u"
        using proposal_ok(3) [OF ok k0(1) ns] by blast
      have "u = t" using u(1) e t(1) by simp
      then have "rt_state t = fp_state k0"
        using u(2) s(2) e by (simp add: current_for_def task_state_for_def)
      then have "fp_state k0 \<in> {''pending'', ''proposed''}" using t(2) by simp
      with proposal_ok(1) [OF ok k0(1)] show False unfolding proposal_states_def by force
    qed
    with k0(1) s(1) show ?thesis by simp
  qed
  have "review_db_ok db'"
  proof (rule review_db_okI)
    show "distinct (map fst (db_tasks db'))" using ok by (simp add: dt review_db_ok_def)
    show "distinct (map fst (db_proposals db'))"
      using ok by (auto simp: dp review_db_ok_def map_of_eq_None_iff)
  next
    fix k k1 assume k: "map_of (db_proposals db') k = Some k1"
    have org: "k1 = q \<or> (\<exists>k0. map_of (db_proposals db) k = Some k0 \<and> fp_claim k1 = fp_claim k0 \<and>
        (k1 = k0 \<or> fp_state k0 = ''prepared'' \<and> fp_state k1 = ''superseded''))"
      using k by (auto simp: props split: if_splits)
    then show "fp_state k1 \<in> set proposal_states"
      using q(2) proposal_ok(1) [OF ok] by (auto simp: proposal_states_def)
    show "fp_claim k1 \<noteq> None \<Longrightarrow> fp_state k1 = ''queueing''"
      using org q(3) proposal_ok(2) [OF ok] by force
    assume ns: "fp_state k1 \<noteq> ''superseded''"
    show "\<exists>u. map_of (db_tasks db') (fp_event k1) = Some u \<and> current_for k k1 u"
    proof (cases "k = pid")
      case True
      with k have "k1 = q" by (simp add: props)
      with True eq q(2) tasks show ?thesis by (simp add: t'_def current_for_def task_state_for_def)
    next
      case False
      with old [OF False k ns] proposal_ok(3) [OF ok] ns tasks show ?thesis by auto
    qed
  next
    fix x u assume u: "map_of (db_tasks db') x = Some u" "rt_state u \<noteq> ''pending''"
    show "\<exists>k k1. map_of (db_proposals db') k = Some k1 \<and> fp_event k1 = x \<and> fp_state k1 \<noteq> ''superseded'' \<and>
        current_for k k1 u"
    proof (cases "x = ?e")
      case True
      with u tasks have "u = t'" by simp
      with True eq q(2) props show ?thesis
        by (intro exI [of _ pid] exI [of _ q]) (simp add: t'_def current_for_def task_state_for_def)
    next
      case False
      with u tasks have "map_of (db_tasks db) x = Some u" by simp
      from task_ok [OF ok this u(2)] obtain k k1 where k: "map_of (db_proposals db) k = Some k1"
        "fp_event k1 = x" "fp_state k1 \<noteq> ''superseded''" "current_for k k1 u" by blast
      have "k \<noteq> pid" using k(1,2) pid eq False by auto
      with k False props show ?thesis by (intro exI [of _ k] exI [of _ k1]) simp
    qed
  qed
  moreover have "evolves db db'"
    unfolding evolves_def
  proof (intro conjI allI impI)
    fix k k0 assume k: "map_of (db_proposals db) k = Some k0"
    show "\<exists>k1. map_of (db_proposals db') k = Some k1 \<and> signed_fields k1 = signed_fields k0"
    proof (cases "k = pid")
      case True
      with k pid have "k0 = q" by simp
      with True props show ?thesis by simp
    next
      case False
      with k props show ?thesis by (simp add: signed_fields_def immutable_fields_def)
    qed
  qed (rule locked)
  ultimately show ?thesis by blast
qed

lemma metadata_irrelevant [simp]:
  "review_db_ok (db\<lparr>db_metadata := m\<rparr>) = review_db_ok db"
  "evolves db (db'\<lparr>db_metadata := m\<rparr>) = evolves db db'"
  by (simp_all add: review_db_ok_def evolves_def locked_def)

lemma migrate_proposal:
  "map_of (db_proposals (migrate_rows db)) k = map_option (\<lambda>r.
    if fp_state r \<in> {''prepared'', ''superseded''} then r\<lparr>fp_state := ''superseded'', fp_started := None, fp_claim := None\<rparr>
    else if fp_state r = ''queueing'' then r\<lparr>fp_state := ''queue_unknown'', fp_claim := None\<rparr> else r)
    (map_of (db_proposals db) k)"
  by (cases "map_of (db_proposals db) k") (simp_all add: migrate_rows_def Let_def map_of_update_where)

lemma migrate_task:
  "map_of (db_tasks (migrate_rows db)) e = map_option (\<lambda>r.
    if rt_state r = ''proposed'' then r\<lparr>rt_state := ''pending'', rt_proposal := None, rt_completed := None\<rparr>
    else if rt_state r = ''queueing'' then r\<lparr>rt_state := ''queue_unknown''\<rparr> else r)
    (map_of (db_tasks db) e)"
  by (cases "map_of (db_tasks db) e") (simp_all add: migrate_rows_def Let_def map_of_update_where)

lemma migrate_keeps:
  assumes ok: "review_db_ok db"
  shows "review_db_ok (migrate_rows db) \<and> evolves db (migrate_rows db)"
proof
  show "review_db_ok (migrate_rows db)"
  proof (rule review_db_okI)
    show "distinct (map fst (db_tasks (migrate_rows db)))" "distinct (map fst (db_proposals (migrate_rows db)))"
      using ok by (simp_all add: migrate_rows_def Let_def review_db_ok_def)
  next
    fix k k1 assume "map_of (db_proposals (migrate_rows db)) k = Some k1"
    then obtain k0 where k0: "map_of (db_proposals db) k = Some k0"
      and k1: "k1 = (if fp_state k0 \<in> {''prepared'', ''superseded''}
        then k0\<lparr>fp_state := ''superseded'', fp_started := None, fp_claim := None\<rparr>
        else if fp_state k0 = ''queueing'' then k0\<lparr>fp_state := ''queue_unknown'', fp_claim := None\<rparr> else k0)"
      by (auto simp: migrate_proposal)
    show "fp_state k1 \<in> set proposal_states"
      using proposal_ok(1) [OF ok k0] by (auto simp: k1 proposal_states_def)
    show "fp_claim k1 \<noteq> None \<Longrightarrow> fp_state k1 = ''queueing''"
      using proposal_ok(2) [OF ok k0] by (simp add: k1 split: if_splits)
    assume ns: "fp_state k1 \<noteq> ''superseded''"
    then have s: "fp_state k0 \<notin> {''prepared'', ''superseded''}" by (auto simp: k1)
    then obtain t where "map_of (db_tasks db) (fp_event k0) = Some t" "current_for k k0 t"
      using proposal_ok(3) [OF ok k0] by auto
    with s show "\<exists>t. map_of (db_tasks (migrate_rows db)) (fp_event k1) = Some t \<and> current_for k k1 t"
      using proposal_ok(1) [OF ok k0]
      by (auto simp: k1 migrate_task current_for_def task_state_for_def proposal_states_def)
  next
    fix e u assume "map_of (db_tasks (migrate_rows db)) e = Some u" and n: "rt_state u \<noteq> ''pending''"
    then obtain t where t: "map_of (db_tasks db) e = Some t"
      and m: "(if rt_state t = ''proposed'' then t\<lparr>rt_state := ''pending'', rt_proposal := None, rt_completed := None\<rparr>
        else if rt_state t = ''queueing'' then t\<lparr>rt_state := ''queue_unknown''\<rparr> else t) = u"
      unfolding migrate_task by (cases "map_of (db_tasks db) e") simp_all
    have s: "rt_state t \<noteq> ''pending''" "rt_state t \<noteq> ''proposed''" using m n by (auto split: if_splits)
    then have u: "u = (if rt_state t = ''queueing'' then t\<lparr>rt_state := ''queue_unknown''\<rparr> else t)"
      using m by simp
    from task_ok [OF ok t s(1)] obtain k k0 where k: "map_of (db_proposals db) k = Some k0" "fp_event k0 = e"
      "fp_state k0 \<noteq> ''superseded''" "current_for k k0 t" by blast
    with s have "fp_state k0 \<noteq> ''prepared''" by (auto simp: current_for_def task_state_for_def)
    with k u show "\<exists>k k1. map_of (db_proposals (migrate_rows db)) k = Some k1 \<and> fp_event k1 = e \<and>
        fp_state k1 \<noteq> ''superseded'' \<and> current_for k k1 u"
      by (intro exI [of _ k]) (auto simp: migrate_proposal current_for_def task_state_for_def)
  qed
next
  show "evolves db (migrate_rows db)"
    unfolding evolves_def
  proof (intro conjI allI impI)
    fix k q assume "map_of (db_proposals db) k = Some q"
    then show "\<exists>q'. map_of (db_proposals (migrate_rows db)) k = Some q' \<and> signed_fields q' = signed_fields q"
      by (simp add: migrate_proposal signed_fields_def immutable_fields_def)
  next
    fix e assume "locked db e"
    then obtain t where t: "map_of (db_tasks db) e = Some t" "rt_state t \<in> {''queueing'', ''queued'', ''queue_unknown''}"
      by (auto simp: locked_def)
    then have "rt_state t \<noteq> ''proposed''" by auto
    with t show "locked (migrate_rows db) e" by (auto simp: locked_def migrate_task)
  qed
qed

lemma open_rows_keeps:
  assumes "review_db_ok db" and "open_rows fingerprint db = (db', r)"
  shows "review_db_ok db' \<and> evolves db db'"
  using assms migrate_keeps [OF assms(1)]
  by (auto simp: open_rows_def split: option.splits if_splits)

interpretation inserted: review_transaction "insert_task e payload now"
  by unfold_locales (rule insert_task_keeps)
interpretation opened: review_transaction "open_rows fingerprint"
  by unfold_locales (rule open_rows_keeps)
interpretation saved: review_transaction "save_proposal_rows pid p"
  by unfold_locales (rule save_rows_keeps)
interpretation claimed: review_transaction "claim_rows lease now token pid"
  by unfold_locales (rule claim_rows_keeps)
interpretation completed: review_transaction "queued_rows now pid token"
  by unfold_locales (rule queued_rows_keeps)
interpretation doubted: review_transaction "unknown_rows pid token"
  by unfold_locales (rule unknown_rows_keeps)

lemma store_calls_keep:
  assumes "review_db_ok db"
  shows "open_store i fingerprint db = (db', r1) \<Longrightarrow> review_db_ok db' \<and> evolves db db'"
    and "accept_task i now db message = (db', r2) \<Longrightarrow> review_db_ok db' \<and> evolves db db'"
    and "save_proposal i pid p db = (db', r3) \<Longrightarrow> review_db_ok db' \<and> evolves db db'"
    and "claim_for_queue i lease now token pid db = (db', r4) \<Longrightarrow> review_db_ok db' \<and> evolves db db'"
    and "mark_queued i now pid token db = (db', r5) \<Longrightarrow> review_db_ok db' \<and> evolves db db'"
    and "mark_queue_unknown i pid token db = (db', r6) \<Longrightarrow> review_db_ok db' \<and> evolves db db'"
  using assms
  by (auto simp: open_store_def accept_task_def save_proposal_def claim_for_queue_def mark_queued_def
      mark_queue_unknown_def Let_def split: sum.splits prod.splits if_splits
      dest: opened.call_keeps inserted.call_keeps saved.call_keeps claimed.call_keeps
        completed.call_keeps doubted.call_keeps)

end
