(* ===== verification/ReviewSafety.thy ===== *)
theory ReviewSafety
  imports ReviewWorkflow
begin

text \<open>
  The invariant of the review workflow: what the attempts of all processes, the database and
  the edit queue have to do with each other in every reachable state.
\<close>

subsection \<open>The invariant\<close>

text \<open>An attempt that may still send a message for an event, or give its claim back.\<close>

fun live_for :: "string \<Rightarrow> attempt \<Rightarrow> bool" where
  "live_for e (Held pid digest token p) = (fp_event p = e)"
| "live_for e (Ready pid digest token p) = (fp_event p = e)"
| "live_for e (Undo pid token p ex) = (fp_event p = e)"
| "live_for e a = False"

fun carried :: "attempt \<Rightarrow> (string \<times> fix_proposal) option" where
  "carried (Held pid digest token p) = Some (pid, p)"
| "carried (Ready pid digest token p) = Some (pid, p)"
| "carried (Undo pid token p ex) = Some (pid, p)"
| "carried a = None"

fun asked_for :: "attempt \<Rightarrow> (string \<times> string) option" where
  "asked_for (Asked pid digest) = Some (pid, digest)"
| "asked_for (Found pid digest) = Some (pid, digest)"
| "asked_for (Held pid digest token p) = Some (pid, digest)"
| "asked_for (Ready pid digest token p) = Some (pid, digest)"
| "asked_for a = None"

definition valid_for :: "review_code \<Rightarrow> string \<Rightarrow> string \<Rightarrow> fix_proposal \<Rightarrow> bool" where
  "valid_for C pid digest p \<longleftrightarrow> validate_stored_proposal C pid p = Inr () \<and> digest = fp_digest p"

fun checked :: "review_code \<Rightarrow> attempt \<Rightarrow> bool" where
  "checked C (Ready pid digest token p) = valid_for C pid digest p"
| "checked C a = True"

definition in_flight :: "string \<Rightarrow> review_system \<Rightarrow> nat" where
  "in_flight e s = length (filter (live_for e) (rs_attempts s)) +
     length (filter (\<lambda>x. fst x = e) (rw_sent (rs_world s)))"

definition attempt_ok :: "review_code \<Rightarrow> review_system \<Rightarrow> attempt \<Rightarrow> bool" where
  "attempt_ok C s a \<longleftrightarrow> checked C a \<and>
    (\<forall>x. asked_for a = Some x \<longrightarrow> x \<in> set (rs_calls s)) \<and>
    (\<forall>pid p. carried a = Some (pid, p) \<longrightarrow>
      (\<exists>q. map_of (db_proposals (rw_db (rs_world s))) pid = Some q \<and> signed_fields q = signed_fields p))"

definition sent_ok :: "review_code \<Rightarrow> review_system \<Rightarrow> string \<times> string \<times> dict \<Rightarrow> bool" where
  "sent_ok C s = (\<lambda>(e, digest, message). \<exists>pid q.
    map_of (db_proposals (rw_db (rs_world s))) pid = Some q \<and> fp_event q = e \<and>
    message = reviewed_message q \<and> valid_for C pid digest q \<and> (pid, digest) \<in> set (rs_calls s))"

definition review_inv :: "review_code \<Rightarrow> review_system \<Rightarrow> bool" where
  "review_inv C s \<longleftrightarrow>
    review_db_ok (rw_db (rs_world s)) \<and>
    (\<forall>e. in_flight e s \<le> 1 \<and> (in_flight e s = 1 \<longrightarrow> locked (rw_db (rs_world s)) e)) \<and>
    (\<forall>a \<in> set (rs_attempts s). attempt_ok C s a) \<and>
    (\<forall>x \<in> set (rw_sent (rs_world s)). sent_ok C s x) \<and>
    map (\<lambda>x. snd (snd x)) (rw_sent (rs_world s)) = queue (rw_edits (rs_world s))"

lemma review_invD:
  assumes "review_inv C s"
  shows "review_db_ok (rw_db (rs_world s))" and "in_flight e s \<le> 1"
    and "0 < in_flight e s \<Longrightarrow> locked (rw_db (rs_world s)) e"
    and "a \<in> set (rs_attempts s) \<Longrightarrow> attempt_ok C s a"
    and "x \<in> set (rw_sent (rs_world s)) \<Longrightarrow> sent_ok C s x"
    and "map (\<lambda>x. snd (snd x)) (rw_sent (rs_world s)) = queue (rw_edits (rs_world s))"
proof -
  show "0 < in_flight e s \<Longrightarrow> locked (rw_db (rs_world s)) e"
    using assms unfolding review_inv_def by (metis One_nat_def Suc_leI le_antisym)
qed (use assms in \<open>unfold review_inv_def, blast+\<close>)

subsection \<open>Rows that keep their signed fields\<close>

lemma valid_for_signed:
  assumes "signed_fields p = signed_fields q"
  shows "valid_for C pid digest p = valid_for C pid digest q" and "reviewed_message p = reviewed_message q"
proof -
  have e: "fp_event p = fp_event q" "fp_target_title p = fp_target_title q" "fp_target_sha p = fp_target_sha q"
    "fp_english_title p = fp_english_title q" "fp_english_sha p = fp_english_sha q"
    "fp_replacement p = fp_replacement q" "fp_replacement_sha p = fp_replacement_sha q"
    "fp_summary p = fp_summary q" "fp_diff p = fp_diff q" "fp_diff_sha p = fp_diff_sha q"
    "fp_queue p = fp_queue q" "fp_digest p = fp_digest q" "fp_environment p = fp_environment q"
    "fp_expires p = fp_expires q" "fp_created p = fp_created q"
    using assms by (simp_all add: signed_fields_def immutable_fields_def)
  show "valid_for C pid digest p = valid_for C pid digest q" "reviewed_message p = reviewed_message q"
    unfolding valid_for_def validate_stored_proposal_def reviewed_message_def e by (rule refl)+
qed

lemma rows_kept_trans:
  assumes "\<And>pid q. map_of (db_proposals db) pid = Some q \<Longrightarrow>
      \<exists>q'. map_of (db_proposals db') pid = Some q' \<and> signed_fields q' = signed_fields q"
  shows "sent_ok C s x \<Longrightarrow> rw_db (rs_world s) = db \<Longrightarrow> rw_db (rs_world s') = db' \<Longrightarrow>
      set (rs_calls s) \<subseteq> set (rs_calls s') \<Longrightarrow> sent_ok C s' x"
    and "attempt_ok C s a \<Longrightarrow> rw_db (rs_world s) = db \<Longrightarrow> rw_db (rs_world s') = db' \<Longrightarrow>
      set (rs_calls s) \<subseteq> set (rs_calls s') \<Longrightarrow> attempt_ok C s' a"
proof -
  assume x: "sent_ok C s x" and db: "rw_db (rs_world s) = db" "rw_db (rs_world s') = db'"
    and calls: "set (rs_calls s) \<subseteq> set (rs_calls s')"
  obtain e digest message where p: "x = (e, digest, message)" by (cases x)
  then obtain pid q where q: "map_of (db_proposals db) pid = Some q" "fp_event q = e"
    "message = reviewed_message q" "valid_for C pid digest q" "(pid, digest) \<in> set (rs_calls s)"
    using x db by (auto simp: sent_ok_def)
  obtain q' where q': "map_of (db_proposals db') pid = Some q'" "signed_fields q' = signed_fields q"
    using assms [OF q(1)] by blast
  note same = valid_for_signed [OF q'(2)] signed_event [OF q'(2)]
  have "fp_event q' = e \<and> message = reviewed_message q' \<and> valid_for C pid digest q' \<and>
      (pid, digest) \<in> set (rs_calls s')"
    using q calls same by auto
  with q'(1) show "sent_ok C s' x" unfolding sent_ok_def p db by auto
next
  assume a: "attempt_ok C s a" and db: "rw_db (rs_world s) = db" "rw_db (rs_world s') = db'"
    and calls: "set (rs_calls s) \<subseteq> set (rs_calls s')"
  have "\<exists>q. map_of (db_proposals db') pid = Some q \<and> signed_fields q = signed_fields p"
    if c: "carried a = Some (pid, p)" for pid p
  proof -
    obtain q where q: "map_of (db_proposals db) pid = Some q" "signed_fields q = signed_fields p"
      using a c db by (auto simp: attempt_ok_def)
    with assms [OF q(1)] show ?thesis by auto
  qed
  with a calls db show "attempt_ok C s' a" unfolding attempt_ok_def by blast
qed

subsection \<open>Counting\<close>

lemma length_filter_update:
  assumes "n < length xs"
  shows "length (filter P (xs[n := x])) + (if P (xs ! n) then 1 else 0) =
    length (filter P xs) + (if P x then 1 else 0)"
proof -
  have "xs = take n xs @ xs ! n # drop (Suc n) xs" using assms by (rule id_take_nth_drop)
  then have "length (filter P xs) = length (filter P (take n xs @ xs ! n # drop (Suc n) xs))" by simp
  moreover have "xs[n := x] = take n xs @ x # drop (Suc n) xs" using assms by (rule upd_conv_take_nth_drop)
  ultimately show ?thesis by simp
qed

text \<open>A step of one attempt, with the messages it adds.\<close>

lemma in_flight_update:
  assumes "n < length (rs_attempts s)" and "rw_sent w = rw_sent (rs_world s) @ added"
  shows "in_flight e (s\<lparr>rs_world := w, rs_attempts := (rs_attempts s)[n := a]\<rparr>) +
      (if live_for e (rs_attempts s ! n) then 1 else 0) =
    in_flight e s + (if live_for e a then 1 else 0) + length (filter (\<lambda>x. fst x = e) added)"
  using length_filter_update [OF assms(1), of "live_for e" a] assms(2) unfolding in_flight_def by simp

text \<open>
  The general step: the database evolves but for the events in \<open>freed\<close>, which nothing
  is in flight for afterwards.
\<close>

lemma attempt_step_inv:
  assumes inv: "review_inv C s" and n: "n < length (rs_attempts s)"
    and s': "s' = s\<lparr>rs_world := w, rs_attempts := (rs_attempts s)[n := a]\<rparr>"
    and ok: "review_db_ok (rw_db w)"
    and rows: "\<And>pid q. map_of (db_proposals (rw_db (rs_world s))) pid = Some q \<Longrightarrow>
      \<exists>q'. map_of (db_proposals (rw_db w)) pid = Some q' \<and> signed_fields q' = signed_fields q"
    and sent: "rw_sent w = rw_sent (rs_world s) @ added"
    and edits: "queue (rw_edits w) = queue (rw_edits (rs_world s)) @ map (\<lambda>x. snd (snd x)) added"
    and flight: "\<And>e. in_flight e s' \<le> 1 \<and> (in_flight e s' = 1 \<longrightarrow> locked (rw_db w) e)"
    and a: "attempt_ok C s' a" and added: "\<And>x. x \<in> set added \<Longrightarrow> sent_ok C s' x"
  shows "review_inv C s'"
proof -
  have calls: "set (rs_calls s) \<subseteq> set (rs_calls s')" by (simp add: s')
  have w: "rw_db (rs_world s') = rw_db w" by (simp add: s')
  have "attempt_ok C s' b" if "b \<in> set (rs_attempts s')" for b
  proof -
    have "b = a \<or> b \<in> set (rs_attempts s)" using that set_update_subset_insert by (fastforce simp: s')
    with a rows_kept_trans(2) [OF rows _ refl w calls] review_invD(4) [OF inv] show ?thesis by blast
  qed
  moreover have "sent_ok C s' x" if "x \<in> set (rw_sent (rs_world s'))" for x
  proof -
    have "x \<in> set added \<or> x \<in> set (rw_sent (rs_world s))" using that by (auto simp: s' sent)
    with added rows_kept_trans(1) [OF rows _ refl w calls] review_invD(5) [OF inv] show ?thesis by blast
  qed
  moreover have "map (\<lambda>x. snd (snd x)) (rw_sent (rs_world s')) = queue (rw_edits (rs_world s'))"
    using review_invD(6) [OF inv] by (simp add: s' sent edits)
  ultimately show ?thesis using ok flight w unfolding review_inv_def by auto
qed

subsection \<open>Steps of the store and new attempts\<close>

lemma db_step_inv:
  assumes inv: "review_inv C s" and "review_db_ok db \<and> evolves (rw_db (rs_world s)) db"
  shows "review_inv C (with_db db s)"
proof -
  have rows: "\<exists>q'. map_of (db_proposals db) pid = Some q' \<and> signed_fields q' = signed_fields q"
    if "map_of (db_proposals (rw_db (rs_world s))) pid = Some q" for pid q
    using assms(2) that unfolding evolves_def by blast
  have w: "rw_db (rs_world (with_db db s)) = db" by (simp add: with_db_def)
  have flight: "in_flight e (with_db db s) = in_flight e s" for e by (simp add: in_flight_def with_db_def)
  have "attempt_ok C (with_db db s) a" if "a \<in> set (rs_attempts s)" for a
    by (rule rows_kept_trans(2) [OF rows review_invD(4) [OF inv that] refl w])
      (assumption, simp add: with_db_def)
  moreover have "sent_ok C (with_db db s) x" if "x \<in> set (rw_sent (rs_world s))" for x
    by (rule rows_kept_trans(1) [OF rows review_invD(5) [OF inv that] refl w])
      (assumption, simp add: with_db_def)
  ultimately show ?thesis
    using assms flight unfolding review_inv_def w by (auto simp: with_db_def evolves_def)
qed

lemma begin_inv:
  assumes inv: "review_inv C s"
  shows "review_inv C (s\<lparr>rs_attempts := rs_attempts s @ [Asked pid digest],
    rs_calls := rs_calls s @ [(pid, digest)]\<rparr>)" (is "review_inv C ?s")
proof -
  have w: "rw_db (rs_world ?s) = rw_db (rs_world s)" "set (rs_calls s) \<subseteq> set (rs_calls ?s)" by auto
  have rows: "\<exists>q'. map_of (db_proposals (rw_db (rs_world s))) k = Some q' \<and> signed_fields q' = signed_fields q"
    if "map_of (db_proposals (rw_db (rs_world s))) k = Some q" for k q using that by blast
  have "attempt_ok C ?s a" if "a \<in> set (rs_attempts ?s)" for a
    using that rows_kept_trans(2) [OF rows review_invD(4) [OF inv] refl w]
    by (auto simp: attempt_ok_def [of C ?s "Asked pid digest"])
  moreover have "sent_ok C ?s x" if "x \<in> set (rw_sent (rs_world s))" for x
    by (rule rows_kept_trans(1) [OF rows review_invD(5) [OF inv that] refl w])
  moreover have "in_flight e ?s = in_flight e s" for e by (simp add: in_flight_def)
  ultimately show ?thesis using inv unfolding review_inv_def by simp
qed

subsection \<open>Steps of an attempt\<close>

text \<open>A step that sends nothing, whose successor is at most as live, over a database that evolves.\<close>

lemma silent_step_inv:
  assumes inv: "review_inv C s" and n: "n < length (rs_attempts s)"
    and db: "review_db_ok db \<and> evolves (rw_db (rs_world s)) db"
    and live: "\<And>e. live_for e a \<Longrightarrow> live_for e (rs_attempts s ! n)"
    and a: "checked C a" "asked_for a = None \<or> asked_for a = asked_for (rs_attempts s ! n)"
      "carried a = None \<or> carried a = carried (rs_attempts s ! n)"
    and b: "queue b = queue (rw_edits (rs_world s))"
  shows "review_inv C (s\<lparr>rs_world := (rs_world s)\<lparr>rw_db := db, rw_edits := b\<rparr>, rs_attempts := (rs_attempts s)[n := a]\<rparr>)"
    (is "review_inv C ?s")
proof (rule attempt_step_inv [OF inv n refl, where added = "[]"])
  have rows: "\<exists>q'. map_of (db_proposals db) pid = Some q' \<and> signed_fields q' = signed_fields q"
    if "map_of (db_proposals (rw_db (rs_world s))) pid = Some q" for pid q
    using db that unfolding evolves_def by blast
  then show "\<exists>q'. map_of (db_proposals (rw_db ((rs_world s)\<lparr>rw_db := db, rw_edits := b\<rparr>))) pid = Some q' \<and>
      signed_fields q' = signed_fields q"
    if "map_of (db_proposals (rw_db (rs_world s))) pid = Some q" for pid q using that by simp
  fix e
  have "in_flight e ?s \<le> in_flight e s"
    using in_flight_update [OF n, of "(rs_world s)\<lparr>rw_db := db, rw_edits := b\<rparr>" "[]" e a] live [of e] by (auto split: if_splits)
  then show "in_flight e ?s \<le> 1 \<and> (in_flight e ?s = 1 \<longrightarrow> locked (rw_db ((rs_world s)\<lparr>rw_db := db, rw_edits := b\<rparr>)) e)"
    using review_invD(2,3) [OF inv, of e] db unfolding evolves_def by auto
  have "attempt_ok C s (rs_attempts s ! n)" using review_invD(4) [OF inv] n by simp
  from rows_kept_trans(2) [OF rows this refl, where s' = ?s] have "attempt_ok C ?s (rs_attempts s ! n)"
    by simp
  with a show "attempt_ok C ?s a" unfolding attempt_ok_def by auto
qed (use db b in simp_all)

lemma quiet_step_inv:
  assumes "review_inv C s" and "n < length (rs_attempts s)"
    and "review_db_ok db \<and> evolves (rw_db (rs_world s)) db"
    and "\<And>e. live_for e a \<Longrightarrow> live_for e (rs_attempts s ! n)"
    and "checked C a" and "asked_for a = None \<or> asked_for a = asked_for (rs_attempts s ! n)"
    and "carried a = None \<or> carried a = carried (rs_attempts s ! n)"
  shows "review_inv C (s\<lparr>rs_world := (rs_world s)\<lparr>rw_db := db\<rparr>, rs_attempts := (rs_attempts s)[n := a]\<rparr>)"
  using silent_step_inv [OF assms refl] by simp

lemma same_db: "review_inv C s \<Longrightarrow> review_db_ok (rw_db (rs_world s)) \<and> evolves (rw_db (rs_world s)) (rw_db (rs_world s))"
  by (simp add: review_invD(1))

text \<open>What a successful claim reads, and that it locks its event.\<close>

lemma claim_Inr:
  assumes ok: "review_db_ok db" and c: "claim_for_queue i lease now token pid db = (db', Inr p)"
  shows "map_of (db_proposals db') pid = Some p" and "\<not> locked db (fp_event p)" and "locked db' (fp_event p)"
    and "fp_state p = ''queueing''" and "fp_claim p = Some token"
proof -
  have rows: "claim_rows lease now token pid db = (db', Inr p)"
    using c by (auto simp: claim_for_queue_def transaction_def split: io.splits)
  then obtain q where q: "map_of (db_proposals db) pid = Some q" "fp_state q = ''prepared''"
    and db': "db' = move_task (fp_event q) pid ''proposed'' (\<lambda>r. r\<lparr>rt_state := ''queueing''\<rparr>)
      (move_proposal pid None ''prepared''
        (\<lambda>r. r\<lparr>fp_state := ''queueing'', fp_started := Some now, fp_claim := Some token\<rparr>) db)"
    and p: "stored_proposal pid db' = Inr p"
    by (auto simp: claim_rows_def Let_def split: option.splits if_splits)
  have "map_of (db_proposals db') pid =
      Some (q\<lparr>fp_state := ''queueing'', fp_started := Some now, fp_claim := Some token\<rparr>)"
    using q by (simp add: db' move_task_def move_proposal_def map_of_update_where)
  with p have e: "map_of (db_proposals db') pid = Some p" "fp_event p = fp_event q"
    "fp_state p = ''queueing''" "fp_claim p = Some token"
    by (auto simp: stored_proposal_def)
  show "fp_state p = ''queueing''" "fp_claim p = Some token" by (rule e)+
  show "map_of (db_proposals db') pid = Some p" by (rule e)
  obtain t where t: "map_of (db_tasks db) (fp_event q) = Some t" "current_for pid q t"
    using proposal_ok(3) [OF ok q(1)] q(2) by auto
  then show "\<not> locked db (fp_event p)" using e q(2) by (auto simp: locked_def current_for_def task_state_for_def)
  have "rt_state t = ''proposed''" "rt_proposal t = Some pid"
    using t(2) q(2) by (simp_all add: current_for_def task_state_for_def)
  then have "map_of (db_tasks db') (fp_event q) = Some (t\<lparr>rt_state := ''queueing''\<rparr>)"
    using t(1) by (simp add: db' move_task_def move_proposal_def map_of_update_where)
  then show "locked db' (fp_event p)" using e by (simp add: locked_def)
qed

lemma claim_step_inv:
  assumes inv: "review_inv C s" and n: "n < length (rs_attempts s)"
    and found: "rs_attempts s ! n = Found pid digest"
    and c: "claim_for_queue i lease now token pid (rw_db (rs_world s)) = (db, Inr p)"
  shows "review_inv C (s\<lparr>rs_world := (rs_world s)\<lparr>rw_db := db\<rparr>,
    rs_attempts := (rs_attempts s)[n := Held pid digest t p]\<rparr>)" (is "review_inv C ?s")
proof (rule attempt_step_inv [OF inv n refl, where added = "[]"])
  have db: "review_db_ok db \<and> evolves (rw_db (rs_world s)) db"
    using store_calls_keep(4) [OF review_invD(1) [OF inv] c] .
  note claim = claim_Inr [OF review_invD(1) [OF inv] c]
  show "\<exists>q'. map_of (db_proposals (rw_db ((rs_world s)\<lparr>rw_db := db\<rparr>))) k = Some q' \<and>
      signed_fields q' = signed_fields q"
    if "map_of (db_proposals (rw_db (rs_world s))) k = Some q" for k q
    using db that unfolding evolves_def by simp
  show "review_db_ok (rw_db ((rs_world s)\<lparr>rw_db := db\<rparr>))" using db by simp
  fix e
  have u: "in_flight e ?s = in_flight e s + (if fp_event p = e then 1 else 0)"
    using in_flight_update [OF n, of "(rs_world s)\<lparr>rw_db := db\<rparr>" "[]" e "Held pid digest t p"] found by simp
  have "in_flight (fp_event p) s = 0" using claim(2) review_invD(3) [OF inv] by blast
  then show "in_flight e ?s \<le> 1 \<and> (in_flight e ?s = 1 \<longrightarrow> locked (rw_db ((rs_world s)\<lparr>rw_db := db\<rparr>)) e)"
    using u review_invD(2,3) [OF inv, of e] claim(3) db unfolding evolves_def by auto
  have "attempt_ok C s (Found pid digest)" using review_invD(4) [OF inv] n found by (metis nth_mem)
  with claim(1) show "attempt_ok C ?s (Held pid digest t p)" by (simp add: attempt_ok_def)
qed simp_all

text \<open>Publishing: the message is in the queue once, or the attempt keeps what it had.\<close>

lemma publish_edit_cases:
  assumes "publish_edit i digest p w = (w', r)"
  obtains (kept) b where "w' = w\<lparr>rw_edits := b\<rparr>" "queue b = queue (rw_edits w)" "r \<noteq> Inr ()"
      "r = Inl push_rejected \<or> r = Inl push_outcome_unknown"
    | (added) b where "w' = w\<lparr>rw_edits := b, rw_sent := rw_sent w @ [(fp_event p, digest, reviewed_message p)]\<rparr>"
        "queue b = queue (rw_edits w) @ [reviewed_message p]" "r = Inr () \<or> r = Inl push_outcome_unknown"
proof -
  obtain b where b: "rabbit_push (si_connects i) (si_io i) (reviewed_message p) (rw_edits w) = (b, r)"
    using assms by (auto simp: publish_edit_def publish_wikipage_def run_guard_def reviewed_message_def Let_def
        split: prod.splits)
  have w': "w' = w\<lparr>rw_edits := b, rw_sent := (if queue b = queue (rw_edits w) then rw_sent w
      else rw_sent w @ [(fp_event p, digest, reviewed_message p)])\<rparr>"
    using assms b by (auto simp: publish_edit_def publish_wikipage_def run_guard_def reviewed_message_def Let_def)
  have r: "r = Inr () \<or> r = Inl push_rejected \<or> r = Inl push_outcome_unknown"
    using b by (auto simp: rabbit_push_def redis_call_def Let_def split: if_splits io.splits)
  have "queue b = queue (rw_edits w) \<or> queue b = queue (rw_edits w) @ [reviewed_message p]"
    using rabbit_push_queue(1) [OF b] .
  then show thesis
  proof
    assume q: "queue b = queue (rw_edits w)"
    then have "r \<noteq> Inr ()" using rabbit_push_queue(2) [OF b] by auto
    with kept q w' r show thesis by auto
  next
    assume q: "queue b = queue (rw_edits w) @ [reviewed_message p]"
    then have "r \<noteq> Inl push_rejected" using rabbit_push_queue(3) [OF b] by auto
    with added q w' r show thesis by auto
  qed
qed

lemma publish_step_inv:
  assumes inv: "review_inv C s" and n: "n < length (rs_attempts s)"
    and ready: "rs_attempts s ! n = Ready pid digest token p"
    and pub: "publish_edit i digest p (rs_world s) = (w, r)"
    and a: "a = (case r of Inl e \<Rightarrow> failing_attempt True pid token p e | Inr u \<Rightarrow> Sent pid token p)"
  shows "review_inv C (s\<lparr>rs_world := w, rs_attempts := (rs_attempts s)[n := a]\<rparr>)" (is "review_inv C ?s")
  using pub
proof (cases rule: publish_edit_cases)
  case (kept b)
  have "a = Undo pid token p (review_error ''The reviewed edit was rejected before RabbitMQ accepted it.'') \<or>
      a = Doubt pid token p unknown_outcome"
    using kept(4) unfolding a
    by (auto simp: failing_attempt_def push_rejected_def push_outcome_unknown_def unknown_outcome_def)
  then have "review_inv C (s\<lparr>rs_world := (rs_world s)\<lparr>rw_db := rw_db (rs_world s), rw_edits := b\<rparr>,
      rs_attempts := (rs_attempts s)[n := a]\<rparr>)"
    by (intro silent_step_inv [OF inv n same_db [OF inv]]) (use ready kept(2) in auto)
  then show ?thesis by (simp add: kept(1))
next
  case (added b)
  let ?x = "(fp_event p, digest, reviewed_message p)"
  have w: "rw_db w = rw_db (rs_world s)" "rw_sent w = rw_sent (rs_world s) @ [?x]" "rw_edits w = b"
    by (simp_all add: added(1))
  have a': "a = Sent pid token p \<or> a = Doubt pid token p unknown_outcome"
    using added(3) unfolding a
    by (auto simp: failing_attempt_def push_rejected_def push_outcome_unknown_def unknown_outcome_def)
  have at: "attempt_ok C s (Ready pid digest token p)"
    using review_invD(4) [OF inv] n ready by (metis nth_mem)
  obtain q where q: "map_of (db_proposals (rw_db (rs_world s))) pid = Some q" "signed_fields q = signed_fields p"
    using at by (auto simp: attempt_ok_def)
  show ?thesis
  proof (rule attempt_step_inv [OF inv n refl, where added = "[?x]"])
    show "review_db_ok (rw_db w)" using review_invD(1) [OF inv] by (simp add: w)
    show "\<exists>q'. map_of (db_proposals (rw_db w)) k = Some q' \<and> signed_fields q' = signed_fields k0"
      if "map_of (db_proposals (rw_db (rs_world s))) k = Some k0" for k k0 using that by (simp add: w)
    show "rw_sent w = rw_sent (rs_world s) @ [?x]" by (rule w(2))
    show "queue (rw_edits w) = queue (rw_edits (rs_world s)) @ map (\<lambda>x. snd (snd x)) [?x]"
      using added(2) by (simp add: w)
    fix e
    have "in_flight e ?s = in_flight e s"
      using in_flight_update [OF n w(2), of e a] a' ready by (cases "fp_event p = e") auto
    then show "in_flight e ?s \<le> 1 \<and> (in_flight e ?s = 1 \<longrightarrow> locked (rw_db w) e)"
      using review_invD(2,3) [OF inv, of e] by (simp add: w)
    show "attempt_ok C ?s a" using a' by (auto simp: attempt_ok_def)
    show "sent_ok C ?s x" if "x \<in> set [?x]" for x
    proof -
      have "map_of (db_proposals (rw_db w)) pid = Some q \<and> fp_event q = fp_event p \<and>
          reviewed_message p = reviewed_message q \<and> valid_for C pid digest q \<and> (pid, digest) \<in> set (rs_calls s)"
        using q at valid_for_signed [OF q(2)] signed_event [OF q(2)] by (simp add: w attempt_ok_def)
      with that show ?thesis unfolding sent_ok_def by auto
    qed
  qed
qed

lemma release_step_inv:
  assumes inv: "review_inv C s" and n: "n < length (rs_attempts s)"
    and undo: "rs_attempts s ! n = Undo pid token p ex"
    and rel: "release_queue_claim i pid token (rw_db (rs_world s)) = (db, r)"
  shows "review_inv C (s\<lparr>rs_world := (rs_world s)\<lparr>rw_db := db\<rparr>,
    rs_attempts := (rs_attempts s)[n := Ended answer]\<rparr>)" (is "review_inv C ?s")
proof -
  let ?db = "rw_db (rs_world s)"
  obtain db1 r1 where f: "release_rows pid token ?db = (db1, r1)" by (cases "release_rows pid token ?db")
  then have db: "db = ?db \<or> db = db1"
    using rel by (auto simp: release_queue_claim_def transaction_def split: io.splits)
  note keeps = release_rows_keeps [OF review_invD(1) [OF inv] f]
  have "attempt_ok C s (Undo pid token p ex)" using review_invD(4) [OF inv] n undo by (metis nth_mem)
  then obtain q where q: "map_of (db_proposals ?db) pid = Some q" "signed_fields q = signed_fields p"
    by (auto simp: attempt_ok_def)
  show ?thesis
  proof (rule attempt_step_inv [OF inv n refl, where added = "[]"])
    show "review_db_ok (rw_db ((rs_world s)\<lparr>rw_db := db\<rparr>))"
      using db keeps(1) review_invD(1) [OF inv] by auto
    show "\<exists>q'. map_of (db_proposals (rw_db ((rs_world s)\<lparr>rw_db := db\<rparr>))) k = Some q' \<and>
        signed_fields q' = signed_fields k0"
      if "map_of (db_proposals ?db) k = Some k0" for k k0 using db keeps(2) [OF that] that by auto
    fix e
    have u: "in_flight e ?s + (if fp_event p = e then 1 else 0) = in_flight e s"
      using in_flight_update [OF n, of "(rs_world s)\<lparr>rw_db := db\<rparr>" "[]" e "Ended answer"] undo by simp
    show "in_flight e ?s \<le> 1 \<and> (in_flight e ?s = 1 \<longrightarrow> locked (rw_db ((rs_world s)\<lparr>rw_db := db\<rparr>)) e)"
    proof (cases "fp_event p = e")
      case True
      with u review_invD(2) [OF inv, of e] show ?thesis by simp
    next
      case False
      with q signed_event [OF q(2)] have "locked db e" if "locked ?db e"
        using that db keeps(3) [of e] by auto
      with False u review_invD(2,3) [OF inv, of e] show ?thesis by auto
    qed
    show "attempt_ok C ?s (Ended answer)" by (simp add: attempt_ok_def)
  qed simp_all
qed

lemma advance_inv:
  assumes inv: "review_inv C s" and n: "n < length (rs_attempts s)"
    and step: "advance C sv i (rs_attempts s ! n) (rs_world s) = (w, a)"
  shows "review_inv C (s\<lparr>rs_world := w, rs_attempts := (rs_attempts s)[n := a]\<rparr>)"
proof (cases "rs_attempts s ! n")
  case (Asked pid digest)
  with step have w: "w = rs_world s" and a: "a = Found pid digest \<or> (\<exists>e. a = Ended (Inl e))"
    by (auto split: sum.splits)
  from a have "review_inv C (s\<lparr>rs_world := (rs_world s)\<lparr>rw_db := rw_db (rs_world s)\<rparr>,
      rs_attempts := (rs_attempts s)[n := a]\<rparr>)"
    by (intro quiet_step_inv [OF inv n same_db [OF inv]]) (use Asked in auto)
  then show ?thesis by (simp add: w)
next
  case (Found pid digest)
  obtain db r where c: "claim_for_queue (si_io i) queue_attempt_lease (si_now i) (si_token i) pid
      (rw_db (rs_world s)) = (db, r)"
    by (cases "claim_for_queue (si_io i) queue_attempt_lease (si_now i) (si_token i) pid (rw_db (rs_world s))")
  show ?thesis
  proof (cases r)
    case (Inl e)
    then have wa: "w = (rs_world s)\<lparr>rw_db := db\<rparr>" "a = Ended (Inl e)"
      using step Found c by (auto simp: on_db_def)
    show ?thesis unfolding wa
      by (rule quiet_step_inv [OF inv n store_calls_keep(4) [OF review_invD(1) [OF inv] c]]) simp_all
  next
    case (Inr p)
    then have wa: "w = (rs_world s)\<lparr>rw_db := db\<rparr>" "a = Held pid digest (case fp_claim p of None \<Rightarrow> [] | Some t \<Rightarrow> t) p"
      using step Found c by (auto simp: on_db_def)
    show ?thesis unfolding wa by (rule claim_step_inv [OF inv n Found c [unfolded Inr]])
  qed
next
  case (Held pid digest token p)
  with step have w: "w = rs_world s" and a: "a = (case live_checks C i pid digest p of
      Inl e \<Rightarrow> failing_attempt False pid token p e | Inr u \<Rightarrow> Ready pid digest token p)" by auto
  have c: "checked C a"
  proof (cases "live_checks C i pid digest p")
    case (Inr u)
    then have "valid_for C pid digest p"
      by (auto simp: live_checks_def valid_for_def bnd_Inr_iff split: if_splits)
    with Inr a show ?thesis by simp
  qed (simp add: a failing_attempt_def)
  have k: "(\<exists>e. a = Undo pid token p e) \<or> (\<exists>e. a = Doubt pid token p e) \<or> a = Ready pid digest token p"
    unfolding a failing_attempt_def by (auto split: sum.splits)
  then have "review_inv C (s\<lparr>rs_world := (rs_world s)\<lparr>rw_db := rw_db (rs_world s)\<rparr>,
      rs_attempts := (rs_attempts s)[n := a]\<rparr>)"
    by (intro quiet_step_inv [OF inv n same_db [OF inv]]) (use Held c in auto)
  then show ?thesis by (simp add: w)
next
  case (Ready pid digest token p)
  obtain w1 r where pub: "publish_edit i digest p (rs_world s) = (w1, r)"
    by (cases "publish_edit i digest p (rs_world s)")
  then have "w1 = w" "a = (case r of Inl e \<Rightarrow> failing_attempt True pid token p e | Inr u \<Rightarrow> Sent pid token p)"
    using step Ready by (auto split: sum.splits)
  with publish_step_inv [OF inv n Ready pub] show ?thesis by simp
next
  case (Undo pid token p ex)
  obtain db r where c: "release_queue_claim (si_io i) pid token (rw_db (rs_world s)) = (db, r)"
    by (cases "release_queue_claim (si_io i) pid token (rw_db (rs_world s))")
  then have w: "w = (rs_world s)\<lparr>rw_db := db\<rparr>" and "\<exists>answer. a = Ended answer"
    using step Undo by (auto simp: on_db_def split: sum.splits)
  then obtain answer where a: "a = Ended answer" by blast
  show ?thesis unfolding w a by (rule release_step_inv [OF inv n Undo c])
next
  case (Doubt pid token p ex)
  obtain db r where c: "mark_queue_unknown (si_io i) pid token (rw_db (rs_world s)) = (db, r)"
    by (cases "mark_queue_unknown (si_io i) pid token (rw_db (rs_world s))")
  then have w: "w = (rs_world s)\<lparr>rw_db := db\<rparr>" and a: "\<exists>answer. a = Ended answer"
    using step Doubt by (auto simp: on_db_def split: sum.splits)
  show ?thesis unfolding w
    by (rule quiet_step_inv [OF inv n store_calls_keep(6) [OF review_invD(1) [OF inv] c]]) (use a in auto)
next
  case (Sent pid token p)
  obtain db r where c: "mark_queued (si_io i) (si_now i) pid token (rw_db (rs_world s)) = (db, r)"
    by (cases "mark_queued (si_io i) (si_now i) pid token (rw_db (rs_world s))")
  then have w: "w = (rs_world s)\<lparr>rw_db := db\<rparr>" and a: "(\<exists>answer. a = Ended answer) \<or> a = Unmarked pid token p"
    using step Sent by (auto simp: on_db_def split: sum.splits)
  show ?thesis unfolding w
    by (rule quiet_step_inv [OF inv n store_calls_keep(5) [OF review_invD(1) [OF inv] c]]) (use a in auto)
next
  case (Unmarked pid token p)
  obtain db r where c: "mark_queue_unknown (si_io i) pid token (rw_db (rs_world s)) = (db, r)"
    by (cases "mark_queue_unknown (si_io i) pid token (rw_db (rs_world s))")
  then have w: "w = (rs_world s)\<lparr>rw_db := db\<rparr>" and a: "\<exists>answer. a = Ended answer"
    using step Unmarked by (auto simp: on_db_def split: sum.splits)
  show ?thesis unfolding w
    by (rule quiet_step_inv [OF inv n store_calls_keep(6) [OF review_invD(1) [OF inv] c]]) (use a in auto)
next
  case (Ended answer)
  with step have wa: "w = rs_world s" "a = Ended answer" by auto
  have "(rs_attempts s)[n := Ended answer] = rs_attempts s" using Ended n by (metis list_update_id)
  with inv show ?thesis by (simp add: wa)
qed

lemma review_step_inv: "review_step C s s' \<Longrightarrow> review_inv C s \<Longrightarrow> review_inv C s'"
proof (induction rule: review_step.induct)
  case (opens i fingerprint s db r)
  show ?case by (rule db_step_inv [OF opens(2) store_calls_keep(1) [OF review_invD(1) [OF opens(2)] opens(1)]])
next
  case (accepts i now s message db answer)
  show ?case by (rule db_step_inv [OF accepts(2) store_calls_keep(2) [OF review_invD(1) [OF accepts(2)] accepts(1)]])
next
  case (saves i pid p s db row)
  show ?case by (rule db_step_inv [OF saves(2) store_calls_keep(3) [OF review_invD(1) [OF saves(2)] saves(1)]])
next
  case (begins s pid digest)
  then show ?case by (rule begin_inv)
next
  case (advances n s sv i w a)
  show ?case by (rule advance_inv [OF advances(3,1,2)])
qed

lemma review_reachable_inv:
  assumes "review_reachable C db s" and "review_db_ok db"
  shows "review_inv C s"
  using assms
proof (induction rule: review_reachable.induct)
  case starts
  then show ?case by (simp add: review_inv_def in_flight_def)
next
  case (steps s s')
  then show ?case using review_step_inv by blast
qed

end
