(* ===== verification/ReviewOutcome.thy ===== *)
theory ReviewOutcome
  imports ReviewSafety
begin

text \<open>
  The answer of the review workflow: a task is reported queued only when its message is in
  the edit queue, and every attempt ends.
\<close>

subsection \<open>Queued tasks\<close>

definition task_queued :: "review_db \<Rightarrow> string \<Rightarrow> bool" where
  "task_queued db e \<longleftrightarrow> (\<exists>t. map_of (db_tasks db) e = Some t \<and> rt_state t = ''queued'')"

lemma move_task_queued:
  assumes "\<And>t. rt_state (g t) \<noteq> ''queued''"
  shows "task_queued (move_task e pid s g (move_proposal k token s2 f db)) x \<Longrightarrow> task_queued db x"
  using assms
  by (auto simp: task_queued_def move_task_def move_proposal_def map_of_update_where split: if_splits)

text \<open>The transactions other than a completion queue no task.\<close>

locale no_completion =
  fixes f :: "review_db \<Rightarrow> review_db \<times> 'a res"
  assumes completes_nothing: "f db = (db', r) \<Longrightarrow> task_queued db' e \<Longrightarrow> task_queued db e"
begin

lemma call_completes_nothing: "transaction i f db = (db', r) \<Longrightarrow> task_queued db' e \<Longrightarrow> task_queued db e"
  using completes_nothing [of db "fst (f db)" "snd (f db)" e]
  by (auto simp: transaction_def split: io.splits)

end

interpretation inserting: no_completion "insert_task k payload now"
  by unfold_locales
    (auto simp: insert_task_def task_queued_def Let_def map_of_snoc simp del: map_of_append
      split: option.splits if_splits)

interpretation migrating: no_completion "open_rows fingerprint"
proof unfold_locales
  fix db db' :: review_db and r e assume o: "open_rows fingerprint db = (db', r)" and q: "task_queued db' e"
  have m: "task_queued (migrate_rows db) e \<Longrightarrow> task_queued db e"
    by (auto simp: task_queued_def migrate_task split: if_splits)
  from o have "db' = db \<or> db_tasks db' = db_tasks (migrate_rows db)"
    by (auto simp: open_rows_def split: option.splits if_splits)
  with q m show "task_queued db e" by (auto simp: task_queued_def)
qed

interpretation saving: no_completion "save_proposal_rows pid p"
proof unfold_locales
  fix db db' :: review_db and r e assume s: "save_proposal_rows pid p db = (db', r)" and q: "task_queued db' e"
  have "db' = db \<or> db_tasks db' = update_where (\<lambda>k r. k = fp_event p \<and> rt_state r \<in> {''pending'', ''proposed''})
      (\<lambda>r. r\<lparr>rt_state := ''proposed'', rt_proposal := Some pid\<rparr>) (db_tasks db)"
    using s by (auto simp: save_proposal_rows_def Let_def split: option.splits if_splits)
  with q show "task_queued db e" by (auto simp: task_queued_def map_of_update_where split: if_splits)
qed

interpretation claiming: no_completion "claim_rows lease now token pid"
  by unfold_locales
    (auto simp: claim_rows_def Let_def dest!: move_task_queued [rotated] split: option.splits if_splits)

interpretation doubting: no_completion "unknown_rows pid token"
  by unfold_locales
    (auto simp: unknown_rows_def dest!: move_task_queued [rotated] split: option.splits if_splits)

interpretation releasing: no_completion "release_rows pid token"
  by unfold_locales
    (auto simp: release_rows_def dest!: move_task_queued [rotated] split: option.splits if_splits)

lemma calls_complete_nothing:
  shows "open_store i fingerprint db = (db', r1) \<Longrightarrow> task_queued db' e \<Longrightarrow> task_queued db e"
    and "accept_task i now db message = (db', r2) \<Longrightarrow> task_queued db' e \<Longrightarrow> task_queued db e"
    and "save_proposal i pid p db = (db', r3) \<Longrightarrow> task_queued db' e \<Longrightarrow> task_queued db e"
    and "claim_for_queue i lease now token pid db = (db', r4) \<Longrightarrow> task_queued db' e \<Longrightarrow> task_queued db e"
    and "mark_queue_unknown i pid token db = (db', r5) \<Longrightarrow> task_queued db' e \<Longrightarrow> task_queued db e"
    and "release_queue_claim i pid token db = (db', r6) \<Longrightarrow> task_queued db' e \<Longrightarrow> task_queued db e"
  by (auto simp: open_store_def accept_task_def save_proposal_def claim_for_queue_def mark_queue_unknown_def
      release_queue_claim_def Let_def split: sum.splits prod.splits if_splits
      dest: migrating.call_completes_nothing inserting.call_completes_nothing saving.call_completes_nothing
        claiming.call_completes_nothing doubting.call_completes_nothing releasing.call_completes_nothing)

lemma mark_queued_task:
  assumes "mark_queued i now pid token db = (db', r)" and "task_queued db' e"
  shows "task_queued db e \<or> (\<exists>p. map_of (db_proposals db) pid = Some p \<and> fp_event p = e)"
proof -
  obtain db1 r1 where f: "queued_rows now pid token db = (db1, r1)" by (cases "queued_rows now pid token db")
  then have "db' = db \<or> db' = db1"
    using assms(1) by (auto simp: mark_queued_def transaction_def split: io.splits)
  moreover have "task_queued db1 e \<Longrightarrow> ?thesis"
    using f by (auto simp: queued_rows_def Let_def claimed_row_Some task_queued_def move_task_def move_proposal_def
        map_of_update_where split: option.splits if_splits)
  ultimately show ?thesis using assms(2) by auto
qed

subsection \<open>Queued means sent\<close>

fun completing :: "attempt \<Rightarrow> (string \<times> fix_proposal) option" where
  "completing (Sent pid token p) = Some (pid, p)"
| "completing a = None"

definition queued_inv :: "review_db \<Rightarrow> review_system \<Rightarrow> bool" where
  "queued_inv db0 s \<longleftrightarrow>
    (\<forall>e. task_queued (rw_db (rs_world s)) e \<longrightarrow>
      task_queued db0 e \<or> e \<in> fst ` set (rw_sent (rs_world s))) \<and>
    (\<forall>a \<in> set (rs_attempts s). \<forall>pid p. completing a = Some (pid, p) \<longrightarrow>
      fp_event p \<in> fst ` set (rw_sent (rs_world s)) \<and>
      (\<exists>q. map_of (db_proposals (rw_db (rs_world s))) pid = Some q \<and> fp_event q = fp_event p))"

text \<open>The database after a step, and what the step may add to the ghost.\<close>

lemma review_step_rows:
  assumes step: "review_step C s s'" and inv: "review_inv C s"
  shows "map_of (db_proposals (rw_db (rs_world s))) pid = Some q \<Longrightarrow>
      \<exists>q'. map_of (db_proposals (rw_db (rs_world s'))) pid = Some q' \<and> fp_event q' = fp_event q"
proof -
  assume q: "map_of (db_proposals (rw_db (rs_world s))) pid = Some q"
  have ev: ?thesis if "evolves (rw_db (rs_world s)) (rw_db (rs_world s'))"
    using evolves_row [OF that q] signed_event by metis
  from step show ?thesis
  proof (cases rule: review_step.cases)
    case (advances n sv i w a)
    then show ?thesis
    proof (cases "\<exists>k token p ex. rs_attempts s ! n = Undo k token p ex")
      case True
      then obtain k token p ex where u: "rs_attempts s ! n = Undo k token p ex" by blast
      obtain db r where c: "release_queue_claim (si_io i) k token (rw_db (rs_world s)) = (db, r)"
        by (cases "release_queue_claim (si_io i) k token (rw_db (rs_world s))")
      obtain db1 r1 where f: "release_rows k token (rw_db (rs_world s)) = (db1, r1)"
        by (cases "release_rows k token (rw_db (rs_world s))")
      have "db = rw_db (rs_world s) \<or> db = db1"
        using c f by (auto simp: release_queue_claim_def transaction_def split: io.splits)
      moreover have "rw_db (rs_world s') = db"
        using advances u c by (auto simp: on_db_def split: sum.splits)
      ultimately show ?thesis
        using q release_rows_keeps(2) [OF review_invD(1) [OF inv] f q] signed_event by metis
    next
      case False
      note keep = store_calls_keep [OF review_invD(1) [OF inv]]
      have "evolves (rw_db (rs_world s)) (rw_db w)"
        using advances False
        by (cases "rs_attempts s ! n")
          (auto simp: on_db_def publish_edit_def dest!: keep(4-6) split: sum.splits prod.splits)
      with advances show ?thesis by (intro ev) simp
    qed
  qed (use store_calls_keep [OF review_invD(1) [OF inv]] in
      \<open>intro ev, force simp: with_db_def\<close>)+
qed

lemma queued_invI:
  assumes q: "queued_inv db0 s" and step: "review_step C s s'" and inv: "review_inv C s"
    and sent: "fst ` set (rw_sent (rs_world s)) \<subseteq> fst ` set (rw_sent (rs_world s'))"
    and tasks: "\<And>e. task_queued (rw_db (rs_world s')) e \<Longrightarrow>
      task_queued (rw_db (rs_world s)) e \<or> e \<in> fst ` set (rw_sent (rs_world s'))"
    and new: "\<And>a pid p. a \<in> set (rs_attempts s') \<Longrightarrow> completing a = Some (pid, p) \<Longrightarrow>
      a \<in> set (rs_attempts s) \<or> fp_event p \<in> fst ` set (rw_sent (rs_world s')) \<and>
        (\<exists>k. map_of (db_proposals (rw_db (rs_world s))) pid = Some k \<and> fp_event k = fp_event p)"
  shows "queued_inv db0 s'"
  unfolding queued_inv_def
proof (intro conjI allI ballI impI)
  fix e assume "task_queued (rw_db (rs_world s')) e"
  with tasks q sent show "task_queued db0 e \<or> e \<in> fst ` set (rw_sent (rs_world s'))"
    unfolding queued_inv_def by blast
next
  fix a pid p assume a: "a \<in> set (rs_attempts s')" "completing a = Some (pid, p)"
  have b: "fp_event p \<in> fst ` set (rw_sent (rs_world s')) \<and>
      (\<exists>k. map_of (db_proposals (rw_db (rs_world s))) pid = Some k \<and> fp_event k = fp_event p)"
    using new [OF a] q sent a(2) unfolding queued_inv_def by blast
  then show "fp_event p \<in> fst ` set (rw_sent (rs_world s'))" by blast
  from b obtain k where k: "map_of (db_proposals (rw_db (rs_world s))) pid = Some k" "fp_event k = fp_event p"
    by blast
  with review_step_rows [OF step inv k(1)]
  show "\<exists>k. map_of (db_proposals (rw_db (rs_world s'))) pid = Some k \<and> fp_event k = fp_event p" by auto
qed

lemma advance_queued_inv:
  assumes inv: "review_inv C s" and q: "queued_inv db0 s" and n: "n < length (rs_attempts s)"
    and adv: "advance C sv i (rs_attempts s ! n) (rs_world s) = (w, a)"
  shows "queued_inv db0 (s\<lparr>rs_world := w, rs_attempts := (rs_attempts s)[n := a]\<rparr>)" (is "queued_inv db0 ?s")
proof -
  have step: "review_step C s ?s" using n adv by (rule review_step.advances)
  let ?db = "rw_db (rs_world s)"
  have old: "b \<in> set (rs_attempts s) \<or> b = a" if "b \<in> set (rs_attempts ?s)" for b
    using that set_update_subset_insert by (fastforce)
  have none: "b \<in> set (rs_attempts s)" if "completing a = None" "b \<in> set ((rs_attempts s)[n := a])"
    "completing b = Some x" for b x using that old [of b] by auto
  have mem: "rs_attempts s ! n \<in> set (rs_attempts s)" using n by simp
  have quiet: "rw_sent w = rw_sent (rs_world s) \<and> completing a = None \<and>
      (\<forall>e. task_queued (rw_db w) e \<longrightarrow> task_queued ?db e)"
    if "\<nexists>pid digest token p. rs_attempts s ! n = Ready pid digest token p"
      and "\<nexists>pid token p. rs_attempts s ! n = Sent pid token p"
    using adv that
    by (cases "rs_attempts s ! n")
      (auto simp: on_db_def failing_attempt_def split: sum.splits prod.splits if_splits
        dest: calls_complete_nothing(4-6),
        metis completing.simps(9))
  consider (ready) pid digest token p where "rs_attempts s ! n = Ready pid digest token p"
    | (sent) pid token p where "rs_attempts s ! n = Sent pid token p"
    | (other) "rw_sent w = rw_sent (rs_world s)" "completing a = None"
        "\<forall>e. task_queued (rw_db w) e \<longrightarrow> task_queued ?db e"
  proof (cases "rs_attempts s ! n")
    case (Ready pid digest token p)
    then show thesis by (rule that(1))
  next
    case (Sent pid token p)
    then show thesis by (rule that(2))
  qed (use quiet that(3) in auto)
  then show ?thesis
  proof cases
    case ready
    obtain w1 r where pub: "publish_edit i digest p (rs_world s) = (w1, r)"
      by (cases "publish_edit i digest p (rs_world s)")
    then have wa: "w = w1" "a = (case r of Inl e \<Rightarrow> failing_attempt True pid token p e | Inr u \<Rightarrow> Sent pid token p)"
      using adv ready by (auto split: sum.splits)
    have "attempt_ok C s (Ready pid digest token p)" using review_invD(4) [OF inv] mem ready by simp
    then obtain k where k: "map_of (db_proposals ?db) pid = Some k" "fp_event k = fp_event p"
      using signed_event by (auto simp: attempt_ok_def)
    have c: "completing a = Some (x, y) \<Longrightarrow> x = pid \<and> y = p \<and> r = Inr ()" for x y
      by (auto simp: wa(2) failing_attempt_def split: sum.splits if_splits)
    from pub show ?thesis
    proof (cases rule: publish_edit_cases)
      case (kept b)
      then have "completing a = None" using c by (cases "completing a") auto
      with kept(1) show ?thesis
        by (intro queued_invI [OF q step inv]) (auto simp: wa(1) dest: none)
    next
      case (added b)
      show ?thesis
      proof (rule queued_invI [OF q step inv])
        fix x pid' p' assume "x \<in> set (rs_attempts ?s)" "completing x = Some (pid', p')"
        then show "x \<in> set (rs_attempts s) \<or> fp_event p' \<in> fst ` set (rw_sent (rs_world ?s)) \<and>
          (\<exists>k. map_of (db_proposals (rw_db (rs_world s))) pid' = Some k \<and> fp_event k = fp_event p')"
          using old [of x] c [of pid' p'] k by (auto simp: wa(1) added(1))
      qed (auto simp: wa(1) added(1))
    qed
  next
    case sent
    obtain db r where c: "mark_queued (si_io i) (si_now i) pid token ?db = (db, r)"
      by (cases "mark_queued (si_io i) (si_now i) pid token ?db")
    then have w: "w = (rs_world s)\<lparr>rw_db := db\<rparr>" and a: "completing a = None"
      using adv sent by (auto simp: on_db_def split: sum.splits)
    have mine: "fp_event p \<in> fst ` set (rw_sent (rs_world s)) \<and>
        (\<exists>k. map_of (db_proposals ?db) pid = Some k \<and> fp_event k = fp_event p)"
      using q mem sent unfolding queued_inv_def by fastforce
    show ?thesis
    proof (rule queued_invI [OF q step inv])
      fix e assume "task_queued (rw_db (rs_world ?s)) e"
      then have "task_queued ?db e \<or> (\<exists>k. map_of (db_proposals ?db) pid = Some k \<and> fp_event k = e)"
        by (intro mark_queued_task [OF c]) (simp add: w)
      with mine have "task_queued ?db e \<or> e \<in> fst ` set (rw_sent (rs_world s))"
        by (elim disjE exE conjE) simp_all
      then show "task_queued (rw_db (rs_world s)) e \<or> e \<in> fst ` set (rw_sent (rs_world ?s))"
        by (simp add: w)
    qed (use a in \<open>auto simp: w dest: none\<close>)
  next
    case other
    show ?thesis
      by (rule queued_invI [OF q step inv]) (use other in \<open>auto dest: none\<close>)
  qed
qed

lemma review_step_queued:
  "review_step C s s' \<Longrightarrow> review_inv C s \<Longrightarrow> queued_inv db0 s \<Longrightarrow> queued_inv db0 s'"
proof (induction rule: review_step.induct)
  case (opens i fingerprint s db r)
  then show ?case
    by (intro queued_invI [OF opens(3) review_step.opens [OF opens(1)] opens(2)])
      (auto simp: with_db_def dest: calls_complete_nothing(1))
next
  case (accepts i now s message db answer)
  then show ?case
    by (intro queued_invI [OF accepts(3) review_step.accepts [OF accepts(1)] accepts(2)])
      (auto simp: with_db_def dest: calls_complete_nothing(2))
next
  case (saves i pid p s db row)
  then show ?case
    by (intro queued_invI [OF saves(3) review_step.saves [OF saves(1)] saves(2)])
      (auto simp: with_db_def dest: calls_complete_nothing(3))
next
  case (begins s pid digest)
  then show ?case
    by (intro queued_invI [OF begins(2) review_step.begins begins(1)]) auto
next
  case (advances n s sv i w a)
  then show ?case by (intro advance_queued_inv)
qed

lemma review_reachable_queued:
  assumes "review_reachable C db0 s" and "review_db_ok db0"
  shows "queued_inv db0 s"
  using assms
proof (induction rule: review_reachable.induct)
  case starts
  then show ?case by (simp add: queued_inv_def)
next
  case (steps s s')
  then show ?case using review_step_queued review_reachable_inv by blast
qed

end
