(* ===== verification/ReviewWorkflowProps.thy ===== *)
theory ReviewWorkflowProps
  imports ReviewOutcome
begin

text \<open>
  The properties of the review workflow (\<open>api/services/wiktionary_review_service.py\<close>), and a
  concrete run from a prepared proposal to a queued edit.
\<close>

subsection \<open>A run\<close>

lemma run_reachable:
  assumes "review_reachable C db s" and "n < length (rs_attempts s)"
    and "run_attempt C sv is (rs_attempts s ! n) (rs_world s) = (w, a)"
  shows "review_reachable C db (s\<lparr>rs_world := w, rs_attempts := (rs_attempts s)[n := a]\<rparr>)"
  using assms
proof (induction "is" arbitrary: s)
  case Nil
  then have "w = rs_world s" "a = rs_attempts s ! n" by auto
  with Nil(1) show ?case by simp
next
  case (Cons i "is")
  obtain w1 a1 where adv: "advance C sv i (rs_attempts s ! n) (rs_world s) = (w1, a1)"
    by (cases "advance C sv i (rs_attempts s ! n) (rs_world s)")
  let ?s = "s\<lparr>rs_world := w1, rs_attempts := (rs_attempts s)[n := a1]\<rparr>"
  have "review_reachable C db ?s"
    using review_reachable.steps [OF Cons.prems(1) review_step.advances [OF Cons.prems(2) adv]] .
  moreover have "run_attempt C sv is (rs_attempts ?s ! n) (rs_world ?s) = (w, a)"
    using Cons.prems(2,3) adv by simp
  ultimately have "review_reachable C db (?s\<lparr>rs_world := w, rs_attempts := (rs_attempts ?s)[n := a]\<rparr>)"
    using Cons.prems(2) by (intro Cons.IH) simp_all
  then show ?case by simp
qed

definition zeros :: string where
  "zeros = replicate 64 CHR ''0''"

definition demo_code :: review_code where
  "demo_code = \<lparr>sha = (\<lambda>s. zeros), unified_diff = (\<lambda>a b f t. [''+new'' @ newline])\<rparr>"

definition demo_service :: review_service where
  "demo_service = \<lparr>sv_queue = ''translated'', sv_environment = zeros\<rparr>"

definition demo_proposal :: fix_proposal where
  "demo_proposal = \<lparr>fp_event = ''page-check:j1'', fp_target_title = ''vary'', fp_target_sha = zeros,
     fp_english_title = ''rice'', fp_english_sha = zeros, fp_replacement = ''new'', fp_replacement_sha = zeros,
     fp_summary = ''fix'', fp_diff = ''+new'' @ newline, fp_diff_sha = Some zeros, fp_queue = Some ''translated'',
     fp_digest = zeros, fp_state = ''prepared'', fp_created = 100, fp_started = None, fp_claim = None,
     fp_queued_at = None, fp_environment = Some zeros, fp_expires = Some 3700\<rparr>"

definition demo_pid :: string where
  "demo_pid = ''wiktionary-fix:'' @ zeros"

definition demo_task :: review_task where
  "demo_task = \<lparr>rt_payload = Text (JDict []), rt_state = ''proposed'', rt_proposal = Some demo_pid,
     rt_received = 50, rt_completed = None\<rparr>"

definition demo_db :: review_db where
  "demo_db = \<lparr>db_tasks = [(''page-check:j1'', demo_task)], db_proposals = [(demo_pid, demo_proposal)],
     db_metadata = Some (2, zeros)\<rparr>"

definition demo_snapshot :: "string \<Rightarrow> string \<Rightarrow> dict" where
  "demo_snapshot language title =
    [(''language'', JStr language), (''title'', JStr title), (''namespace'', JInt 0), (''content'', JStr ''old''),
     (''content_sha256'', JStr zeros), (''entries'', JList []), (''parsed'', JBool True), (''parse_error'', JNull),
     (''content_trust'', JStr ''untrusted_wiktionary_content'')]"

definition demo_input :: step_input where
  "demo_input = \<lparr>si_io = Acked, si_now = 200, si_token = ''c1'',
     si_target = Answered 200 (Some (JDict (demo_snapshot ''mg'' ''vary''))),
     si_english = Answered 200 (Some (JDict (demo_snapshot ''en'' ''rice''))), si_connects = True\<rparr>"

definition demo_world :: review_world where
  "demo_world = \<lparr>rw_db = demo_db, rw_edits = \<lparr>connected = False, queue = []\<rparr>, rw_sent = []\<rparr>"

definition demo_end :: "review_world \<times> attempt" where
  "demo_end = run_attempt demo_code demo_service [demo_input, demo_input, demo_input, demo_input, demo_input] (Asked demo_pid zeros) demo_world"

lemma demo_db_ok: "review_db_ok demo_db"
  by (simp add: review_db_ok_def demo_db_def demo_proposal_def demo_task_def proposal_states_def
      current_for_def task_state_for_def demo_pid_def)

lemma demo_digest:
  "approval_digest demo_code (approval_contract e t th et eh rh dh sm q env c x) = Inr zeros"
  by (simp add: approval_digest_def approval_contract_def demo_code_def)

lemma demo_sha [simp]: "sha demo_code s = zeros"
  by (simp add: demo_code_def)

lemma demo_facts:
  "is_sha256 (JStr zeros)" "queue_name_ok ''translated''"
  "validate_title (JStr ''vary'') = Inr ''vary''" "validate_title (JStr ''rice'') = Inr ''rice''"
  "validate_replacement (JStr ''new'') = Inr ''new''" "validate_summary (JStr ''fix'') = Inr ''fix''"
  by (simp_all add: is_sha256_def zeros_def list_all_iff is_digit_def code_def queue_name_ok_def
      queue_name_char_def strip_def py_space_def no_nul_def utf8_len_def Let_def char_of_def)

lemma demo_validates:
  "p = demo_proposal\<lparr>fp_state := st, fp_started := b, fp_claim := c, fp_queued_at := q\<rparr> \<Longrightarrow>
    validate_stored_proposal demo_code demo_pid p = Inr ()"
  using demo_facts demo_digest
  by (simp add: validate_stored_proposal_def demo_proposal_def validate_sha256_def opt_json_def demo_pid_def
      fix_validity_seconds_def del: validate_title.simps validate_replacement.simps validate_summary.simps)

lemma demo_snapshots:
  "get_snapshot demo_code (si_target demo_input) ''mg'' (JStr ''vary'') = Inr (demo_snapshot ''mg'' ''vary'')"
  "get_snapshot demo_code (si_english demo_input) ''en'' (JStr ''rice'') = Inr (demo_snapshot ''en'' ''rice'')"
  using demo_facts
  by (simp_all add: get_snapshot_def demo_input_def demo_snapshot_def snapshot_ok_def snapshot_fields_def
      dhas_def dget_def del: validate_title.simps)

lemma demo_diff: "build_review_diff demo_code t a b = Inr (''+new'' @ newline)"
  by (simp add: build_review_diff_def demo_code_def ends_line_def newline_def)

lemma demo_checks:
  assumes "p = demo_proposal\<lparr>fp_state := st, fp_started := b, fp_claim := c, fp_queued_at := q\<rparr>"
  shows "live_checks demo_code demo_input demo_pid zeros p = Inr ()"
    and "st \<in> {''prepared'', ''queueing''} \<Longrightarrow> first_checks demo_code demo_service demo_pid zeros p = Inr ()"
proof -
  have p: "fp_digest p = zeros" "fp_target_title p = ''vary''" "fp_english_title p = ''rice''"
    "fp_target_sha p = zeros" "fp_english_sha p = zeros" "fp_diff p = ''+new'' @ newline"
    "fp_expires p = Some 3700" "fp_queue p = Some ''translated''" "fp_environment p = Some zeros" "fp_state p = st"
    by (simp_all add: assms demo_proposal_def)
  have i: "si_now demo_input = 200" by (simp add: demo_input_def)
  show "live_checks demo_code demo_input demo_pid zeros p = Inr ()"
    unfolding live_checks_def demo_validates [OF assms] p i demo_snapshots demo_diff
    by (simp add: require_unexpired_def p i demo_snapshots demo_diff require_main_namespace_def
        demo_snapshot_def dget_def)
  show "st \<in> {''prepared'', ''queueing''} \<Longrightarrow> first_checks demo_code demo_service demo_pid zeros p = Inr ()"
    unfolding first_checks_def demo_validates [OF assms] p by (simp add: demo_service_def)
qed

definition held_proposal :: fix_proposal where
  "held_proposal = demo_proposal\<lparr>fp_state := ''queueing'', fp_started := Some 200, fp_claim := Some ''c1''\<rparr>"

definition held_db :: review_db where
  "held_db = demo_db\<lparr>db_tasks := [(''page-check:j1'', demo_task\<lparr>rt_state := ''queueing''\<rparr>)],
     db_proposals := [(demo_pid, held_proposal)]\<rparr>"

definition queued_proposal :: fix_proposal where
  "queued_proposal = held_proposal\<lparr>fp_state := ''queued'', fp_queued_at := Some 200, fp_claim := None\<rparr>"

definition sent_world :: review_world where
  "sent_world = \<lparr>rw_db = held_db\<lparr>db_tasks := [(''page-check:j1'',
       demo_task\<lparr>rt_state := ''queued'', rt_completed := Some 200\<rparr>)],
       db_proposals := [(demo_pid, queued_proposal)]\<rparr>,
     rw_edits = \<lparr>connected = True, queue = [reviewed_message demo_proposal]\<rparr>,
     rw_sent = [(''page-check:j1'', zeros, reviewed_message demo_proposal)]\<rparr>"

lemma demo_claimed:
  "claim_for_queue Acked queue_attempt_lease 200 ''c1'' demo_pid demo_db = (held_db, Inr held_proposal)"
  by (simp add: claim_for_queue_def transaction_def claim_rows_def demo_db_def demo_task_def demo_proposal_def
      Let_def task_is_def rowcount_def move_task_def move_proposal_def update_where_def stored_proposal_def
      held_db_def held_proposal_def)

lemma demo_mark:
  "mark_queued Acked 200 demo_pid ''c1'' held_db = (rw_db sent_world, Inr queued_proposal)"
  by (simp add: mark_queued_def transaction_def queued_rows_def claimed_row_def demo_db_def demo_task_def
      demo_proposal_def Let_def task_is_def rowcount_def move_task_def move_proposal_def update_where_def
      stored_proposal_def held_db_def held_proposal_def queued_proposal_def sent_world_def)

lemma demo_message: "reviewed_message held_proposal = reviewed_message demo_proposal"
  by (simp add: reviewed_message_def held_proposal_def)

lemma demo_unguarded:
  "\<not> dhas ''reviewed_fix'' (reviewed_message demo_proposal)" "fp_event held_proposal = ''page-check:j1''"
  by (simp_all add: reviewed_message_def publish_wikipage_message_def demo_proposal_def held_proposal_def dhas_def dset_def)

lemma demo_publish:
  "publish_edit demo_input zeros held_proposal (demo_world\<lparr>rw_db := held_db\<rparr>) =
    (sent_world\<lparr>rw_db := held_db\<rparr>, Inr ())"
  using demo_message demo_unguarded
  by (simp add: publish_edit_def publish_wikipage_def run_guard_def reviewed_message_def Let_def
      rabbit_push_def demo_world_def demo_input_def redis_call_def sent_world_def)

lemma demo_publish_unacked:
  "publish_edit (demo_input\<lparr>si_io := Unacked\<rparr>) zeros held_proposal (demo_world\<lparr>rw_db := held_db\<rparr>) =
    (sent_world\<lparr>rw_db := held_db\<rparr>, Inl push_outcome_unknown)"
  using demo_message demo_unguarded
  by (simp add: publish_edit_def publish_wikipage_def run_guard_def reviewed_message_def Let_def
      rabbit_push_def demo_world_def demo_input_def redis_call_def sent_world_def)

lemma demo_steps:
  "advance demo_code demo_service demo_input (Asked demo_pid zeros) demo_world = (demo_world, Found demo_pid zeros)"
  "advance demo_code demo_service demo_input (Found demo_pid zeros) demo_world =
      (demo_world\<lparr>rw_db := held_db\<rparr>, Held demo_pid zeros ''c1'' held_proposal)"
  "advance demo_code demo_service demo_input (Held demo_pid zeros ''c1'' held_proposal) w =
      (w, Ready demo_pid zeros ''c1'' held_proposal)"
  "advance demo_code demo_service demo_input (Ready demo_pid zeros ''c1'' held_proposal)
      (demo_world\<lparr>rw_db := held_db\<rparr>) = (sent_world\<lparr>rw_db := held_db\<rparr>, Sent demo_pid ''c1'' held_proposal)"
  "advance demo_code demo_service demo_input (Sent demo_pid ''c1'' held_proposal)
      (sent_world\<lparr>rw_db := held_db\<rparr>) = (sent_world, Ended (Inr queued_proposal))"
proof -
  have i: "si_io demo_input = Acked" "si_now demo_input = 200" "si_token demo_input = ''c1''"
    by (simp_all add: demo_input_def)
  have d: "rw_db demo_world = demo_db" by (simp add: demo_world_def)
  have h: "held_proposal = demo_proposal\<lparr>fp_state := ''queueing'', fp_started := Some 200, fp_claim := Some ''c1'',
      fp_queued_at := None\<rparr>" by (simp add: held_proposal_def demo_proposal_def)
  have "demo_proposal = demo_proposal\<lparr>fp_state := ''prepared'', fp_started := None, fp_claim := None,
      fp_queued_at := None\<rparr>" by (simp add: demo_proposal_def)
  then show "advance demo_code demo_service demo_input (Asked demo_pid zeros) demo_world = (demo_world, Found demo_pid zeros)"
    using demo_checks(2) [where p = demo_proposal and st = "''prepared''" and b = None and c = None and q = None]
    by (simp add: i d get_proposal_def demo_db_def)
  show "advance demo_code demo_service demo_input (Found demo_pid zeros) demo_world =
      (demo_world\<lparr>rw_db := held_db\<rparr>, Held demo_pid zeros ''c1'' held_proposal)"
    using demo_claimed by (simp add: i d on_db_def held_proposal_def)
  show "advance demo_code demo_service demo_input (Held demo_pid zeros ''c1'' held_proposal) w =
      (w, Ready demo_pid zeros ''c1'' held_proposal)"
    using demo_checks(1) [OF h] by simp
  show "advance demo_code demo_service demo_input (Ready demo_pid zeros ''c1'' held_proposal)
      (demo_world\<lparr>rw_db := held_db\<rparr>) = (sent_world\<lparr>rw_db := held_db\<rparr>, Sent demo_pid ''c1'' held_proposal)"
    using demo_publish by simp
  show "advance demo_code demo_service demo_input (Sent demo_pid ''c1'' held_proposal)
      (sent_world\<lparr>rw_db := held_db\<rparr>) = (sent_world, Ended (Inr queued_proposal))"
    using demo_mark by (simp add: i on_db_def)
qed

lemma demo_end_is: "demo_end = (sent_world, Ended (Inr queued_proposal))"
  using demo_steps unfolding demo_end_def by (simp del: advance.simps)

text \<open>The system after that run.\<close>

definition asked_system :: review_system where
  "asked_system = \<lparr>rs_world = demo_world, rs_attempts = [Asked demo_pid zeros], rs_calls = [(demo_pid, zeros)]\<rparr>"

definition demo_system :: review_system where
  "demo_system = asked_system\<lparr>rs_world := sent_world, rs_attempts := [Ended (Inr queued_proposal)]\<rparr>"

lemma demo_reachable: "review_reachable demo_code demo_db demo_system"
proof -
  have "review_reachable demo_code demo_db asked_system"
    using review_reachable.steps [OF review_reachable.starts [of demo_code demo_db]
      review_step.begins [of demo_code _ demo_pid zeros]]
    by (simp add: asked_system_def demo_world_def)
  from run_reachable [OF this, of 0 demo_service
      "[demo_input, demo_input, demo_input, demo_input, demo_input]" sent_world "Ended (Inr queued_proposal)"]
  show ?thesis
    using demo_end_is by (simp add: demo_system_def asked_system_def demo_end_def del: run_attempt.simps)
qed

subsection \<open>The database\<close>

text \<open>
  C24: The review database stays consistent whatever the processes do, in any order and
  whichever calls fail: every proposal that is not superseded is the current proposal of
  its task and in the state that matches the task's, a claim token is held only while
  queueing, and an event never has two proposals that are not superseded.
\<close>

theorem review_database_stays_consistent:
  assumes "review_reachable C db s" and "review_db_ok db"
  shows "review_db_ok (rw_db (rs_world s)) \<and>
    (\<forall>pid1 p1 pid2 p2.
      map_of (db_proposals (rw_db (rs_world s))) pid1 = Some p1 \<and> fp_state p1 \<noteq> ''superseded'' \<and>
      map_of (db_proposals (rw_db (rs_world s))) pid2 = Some p2 \<and> fp_state p2 \<noteq> ''superseded'' \<and>
      fp_event p1 = fp_event p2 \<longrightarrow> pid1 = pid2 \<and> p1 = p2)"
proof -
  have ok: "review_db_ok (rw_db (rs_world s))"
    using review_invD(1) [OF review_reachable_inv [OF assms]] .
  have "pid1 = pid2"
    if 1: "map_of (db_proposals (rw_db (rs_world s))) pid1 = Some p1" "fp_state p1 \<noteq> ''superseded''"
      and 2: "map_of (db_proposals (rw_db (rs_world s))) pid2 = Some p2" "fp_state p2 \<noteq> ''superseded''"
      and e: "fp_event p1 = fp_event p2" for pid1 p1 pid2 p2
    using proposal_ok(3) [OF ok 1] proposal_ok(3) [OF ok 2] e by (auto simp: current_for_def)
  with ok show ?thesis by fastforce
qed

lemma review_database_stays_consistent_witness: "review_db_ok (rw_db (rs_world demo_system))"
  using review_database_stays_consistent [OF demo_reachable demo_db_ok] by blast

subsection \<open>Sent once, and only what was approved\<close>

text \<open>
  C25: The reviewed edit of an event is sent at most once.  In every reachable state the
  messages in the edit queue belong to different events, each of them to an event whose
  task is queueing, queued or of unknown outcome (so that it can never be proposed again),
  and a task that has become queued has its message in the queue.
\<close>

theorem reviewed_edit_is_sent_once:
  assumes "review_reachable C db s" and "review_db_ok db"
  shows "distinct (map fst (rw_sent (rs_world s))) \<and>
    map (\<lambda>x. snd (snd x)) (rw_sent (rs_world s)) = queue (rw_edits (rs_world s)) \<and>
    (\<forall>e \<in> fst ` set (rw_sent (rs_world s)). locked (rw_db (rs_world s)) e) \<and>
    (\<forall>e. task_queued (rw_db (rs_world s)) e \<and> \<not> task_queued db e \<longrightarrow> e \<in> fst ` set (rw_sent (rs_world s)))"
proof -
  note inv = review_reachable_inv [OF assms]
  have once: "length (filter (\<lambda>x. fst x = e) (rw_sent (rs_world s))) \<le> 1" for e
    using review_invD(2) [OF inv, of e] by (simp add: in_flight_def)
  have d: "distinct (map fst xs)" if "\<And>e. length (filter (\<lambda>x. fst x = e) xs) \<le> 1"
    for xs :: "(string \<times> string \<times> dict) list"
    using that
  proof (induction xs)
    case (Cons x xs)
    have "length (filter (\<lambda>y. fst y = e) xs) \<le> 1" for e
      using Cons.prems [of e] by (auto split: if_splits)
    moreover have "filter (\<lambda>y. fst y = fst x) xs = []" using Cons.prems [of "fst x"] by simp
    then have "fst x \<notin> fst ` set xs" by (auto simp: filter_empty_conv)
    ultimately show ?case using Cons.IH by simp
  qed simp
  have "locked (rw_db (rs_world s)) e" if "e \<in> fst ` set (rw_sent (rs_world s))" for e
  proof -
    have "filter (\<lambda>x. fst x = e) (rw_sent (rs_world s)) \<noteq> []" using that by (auto simp: filter_empty_conv)
    then have "0 < in_flight e s" by (simp add: in_flight_def)
    then show ?thesis by (rule review_invD(3) [OF inv])
  qed
  with d [OF once] review_invD(6) [OF inv] review_reachable_queued [OF assms] show ?thesis
    unfolding queued_inv_def by blast
qed

lemma reviewed_edit_is_sent_once_witness:
  "map fst (rw_sent (rs_world demo_system)) = [''page-check:j1''] \<and>
    distinct (map fst (rw_sent (rs_world demo_system))) \<and>
    locked (rw_db (rs_world demo_system)) ''page-check:j1''"
  using reviewed_edit_is_sent_once [OF demo_reachable demo_db_ok]
  by (simp add: demo_system_def sent_world_def)

text \<open>What a validated proposal satisfies.\<close>

lemma validated_fields:
  "validate_title (JStr x) = Inr y \<Longrightarrow> y = strip x"
  "validate_summary (JStr x) = Inr y \<Longrightarrow> y = strip x"
  "validate_replacement (JStr x) = Inr y \<Longrightarrow> y = x"
  by (auto split: if_splits)

lemma validated_sha: "validate_sha256 v f = Inr y \<Longrightarrow> v = JStr y"
  by (cases v) (auto simp: validate_sha256_def is_sha256_def split: if_splits)

lemma opt_json_JStr: "opt_json x = JStr y \<longleftrightarrow> x = Some y"
  by (cases x) (simp_all add: opt_json_def)

lemma validated_proposal:
  assumes "validate_stored_proposal C pid p = Inr ()"
  obtains diff_hash queue_name environment expires where "fp_expires p = Some expires"
    and "fp_diff_sha p = Some diff_hash" and "sha C (fp_diff p) = diff_hash"
    and "fp_queue p = Some queue_name" and "fp_environment p = Some environment"
    and "sha C (fp_replacement p) = fp_replacement_sha p"
    and "approval_digest C (approval_contract (fp_event p) (strip (fp_target_title p)) (fp_target_sha p)
        (strip (fp_english_title p)) (fp_english_sha p) (fp_replacement_sha p) diff_hash
        (strip (fp_summary p)) queue_name environment (fp_created p) expires) = Inr (fp_digest p)"
    and "pid = ''wiktionary-fix:'' @ fp_digest p"
proof -
  obtain tt et th eh rp rh sm dh where v: "validate_title (JStr (fp_target_title p)) = Inr tt"
    "validate_title (JStr (fp_english_title p)) = Inr et"
    "validate_sha256 (JStr (fp_target_sha p)) ''target_content_sha256'' = Inr th"
    "validate_sha256 (JStr (fp_english_sha p)) ''english_content_sha256'' = Inr eh"
    "validate_replacement (JStr (fp_replacement p)) = Inr rp"
    "validate_sha256 (JStr (fp_replacement_sha p)) ''replacement_content_sha256'' = Inr rh"
    "validate_summary (JStr (fp_summary p)) = Inr sm"
    "validate_sha256 (opt_json (fp_diff_sha p)) ''diff_sha256'' = Inr dh"
    and rest: "(case fp_queue p of
        None \<Rightarrow> Inl (review_error ''The stored publication queue is invalid.'')
      | Some publication_queue \<Rightarrow>
        if \<not> queue_name_ok publication_queue
        then Inl (review_error ''The stored publication queue is invalid.'')
        else if fp_event p = [] then Inl (review_error ''The stored proposal event ID is invalid.'')
        else case fp_expires p of
          None \<Rightarrow> Inl (review_error ''The stored proposal validity window is invalid.'')
        | Some expires_at \<Rightarrow>
          if expires_at \<le> fp_created p \<or> fix_validity_seconds < expires_at - fp_created p
          then Inl (review_error ''The stored proposal validity window is invalid.'')
          else if sha C rp \<noteq> rh
          then Inl (review_error ''The stored replacement content is invalid.'')
          else if sha C (fp_diff p) \<noteq> dh
          then Inl (review_error ''The stored proposal diff hash is invalid.'')
          else
            bnd (validate_sha256 (opt_json (fp_environment p)) ''environment_fingerprint'') (\<lambda>environment.
            bnd (approval_digest C (approval_contract (fp_event p) tt th et eh rh dh sm publication_queue environment
              (fp_created p) expires_at)) (\<lambda>digest.
              if fp_digest p \<noteq> digest \<or> pid \<noteq> ''wiktionary-fix:'' @ digest
              then Inl (review_error ''The stored proposal no longer matches its approval contract.'')
              else Inr ()))) = Inr ()"
    using assms unfolding validate_stored_proposal_def bnd_Inr_iff by blast
  obtain queue_name where q: "fp_queue p = Some queue_name" using rest by (cases "fp_queue p") simp_all
  have rest1: "queue_name_ok queue_name" "fp_event p \<noteq> []"
    using rest unfolding q by (simp_all split: if_splits)
  obtain expires where x: "fp_expires p = Some expires"
    using rest rest1 unfolding q by (cases "fp_expires p") simp_all
  have rest2: "\<not> (expires \<le> fp_created p \<or> fix_validity_seconds < expires - fp_created p)" "sha C rp = rh"
    "sha C (fp_diff p) = dh"
    using rest rest1 unfolding q x by (simp_all split: if_splits)
  obtain environment digest where e: "validate_sha256 (opt_json (fp_environment p)) ''environment_fingerprint'' = Inr environment"
    "approval_digest C (approval_contract (fp_event p) tt th et eh rh dh sm queue_name environment
      (fp_created p) expires) = Inr digest" "fp_digest p = digest" "pid = ''wiktionary-fix:'' @ digest"
    using rest rest1 rest2 unfolding q x by (auto simp: bnd_Inr_iff split: if_splits)
  note f = validated_fields(1) [OF v(1)] validated_fields(1) [OF v(2)] validated_sha [OF v(3)] validated_sha [OF v(4)]
    validated_fields(3) [OF v(5)] validated_sha [OF v(6)] validated_fields(2) [OF v(7)] validated_sha [OF v(8)]
    validated_sha [OF e(1)]
  show thesis
    by (rule that [of expires dh queue_name environment]) (use q x rest2 e f in \<open>simp_all add: opt_json_JStr\<close>)
qed

text \<open>
  C26: Only what a caller approved is sent.  Every message in the edit queue is the full edit
  of a stored proposal, which a call of \<open>queue_reviewed_fix\<close> named together with its
  approval digest; the proposal's identifier is that digest, the digest is the hash of its
  contract, the hash of the new text is the one in the contract, and the edit asks for the
  page content that was reviewed (\<open>expected_content_sha256\<close>).
\<close>

theorem only_approved_edits_are_sent:
  assumes "review_reachable C db s" and "review_db_ok db"
    and "message \<in> set (queue (rw_edits (rs_world s)))"
  shows "\<exists>pid digest p. (pid, digest) \<in> set (rs_calls s) \<and>
    map_of (db_proposals (rw_db (rs_world s))) pid = Some p \<and> message = reviewed_message p \<and>
    pid = ''wiktionary-fix:'' @ digest \<and> digest = fp_digest p \<and>
    (\<exists>diff_hash queue_name environment expires.
      fp_expires p = Some expires \<and> fp_diff_sha p = Some diff_hash \<and> sha C (fp_diff p) = diff_hash \<and>
      approval_digest C (approval_contract (fp_event p) (strip (fp_target_title p)) (fp_target_sha p)
        (strip (fp_english_title p)) (fp_english_sha p) (fp_replacement_sha p) diff_hash
        (strip (fp_summary p)) queue_name environment (fp_created p) expires) = Inr digest \<and>
      fp_queue p = Some queue_name \<and> fp_environment p = Some environment) \<and>
    sha C (fp_replacement p) = fp_replacement_sha p \<and>
    dget ''content'' message = JStr (fp_replacement p) \<and>
    dget ''expected_content_sha256'' message = JStr (fp_target_sha p)"
proof -
  note inv = review_reachable_inv [OF assms(1,2)]
  obtain e digest where "(e, digest, message) \<in> set (rw_sent (rs_world s))"
    using assms(3) review_invD(6) [OF inv] by (metis (mono_tags, lifting) imageE list.set_map prod.collapse)
  then obtain pid p where p: "map_of (db_proposals (rw_db (rs_world s))) pid = Some p"
    "message = reviewed_message p" "valid_for C pid digest p" "(pid, digest) \<in> set (rs_calls s)"
    using review_invD(5) [OF inv] by (fastforce simp: sent_ok_def)
  have fields: "dget ''content'' message = JStr (fp_replacement p)"
    "dget ''expected_content_sha256'' message = JStr (fp_target_sha p)"
    by (simp_all add: p(2) reviewed_message_def publish_wikipage_message_def Let_def, simp add: dget_def)
  have v: "validate_stored_proposal C pid p = Inr ()" "digest = fp_digest p"
    using p(3) by (simp_all add: valid_for_def)
  obtain diff_hash queue_name environment expires where "fp_expires p = Some expires"
    "fp_diff_sha p = Some diff_hash" "sha C (fp_diff p) = diff_hash"
    "fp_queue p = Some queue_name" "fp_environment p = Some environment"
    "sha C (fp_replacement p) = fp_replacement_sha p"
    "approval_digest C (approval_contract (fp_event p) (strip (fp_target_title p)) (fp_target_sha p)
        (strip (fp_english_title p)) (fp_english_sha p) (fp_replacement_sha p) diff_hash
        (strip (fp_summary p)) queue_name environment (fp_created p) expires) = Inr (fp_digest p)"
    "pid = ''wiktionary-fix:'' @ fp_digest p"
    by (rule validated_proposal [OF v(1)])
  with p fields v(2) show ?thesis by blast
qed

lemma only_approved_edits_are_sent_witness:
  "\<exists>pid digest. (pid, digest) \<in> set (rs_calls demo_system) \<and> pid = ''wiktionary-fix:'' @ digest"
proof -
  have "reviewed_message demo_proposal \<in> set (queue (rw_edits (rs_world demo_system)))"
    by (simp add: demo_system_def sent_world_def)
  from only_approved_edits_are_sent [OF demo_reachable demo_db_ok this] show ?thesis by blast
qed

end
