(* ===== verification/ReviewAnswer.thy ===== *)
theory ReviewAnswer
  imports ReviewWorkflowProps
begin

text \<open>
  The answer of \<open>queue_reviewed_fix\<close>: the method returns after at most six calls, and its
  answer says what became of the message.
\<close>

subsection \<open>Every attempt ends\<close>

fun calls_left :: "attempt \<Rightarrow> nat" where
  "calls_left (Asked pid digest) = 6"
| "calls_left (Found pid digest) = 5"
| "calls_left (Held pid digest token p) = 4"
| "calls_left (Ready pid digest token p) = 3"
| "calls_left (Sent pid token p) = 2"
| "calls_left (Ended r) = 0"
| "calls_left a = 1"

lemma failing_calls_left: "calls_left (failing_attempt attempted pid token p e) = 1"
  by (simp add: failing_attempt_def)

lemma advance_calls_left:
  assumes "advance C sv i a w = (w', a')" and "0 < calls_left a"
  shows "calls_left a' < calls_left a"
  using assms by (cases a) (auto simp: failing_calls_left split: sum.splits prod.splits)

lemma run_attempt_ends:
  assumes "calls_left a \<le> length is"
  obtains w' r where "run_attempt C sv is a w = (w', Ended r)"
  using assms
proof (induction "is" arbitrary: a w thesis)
  case Nil
  then obtain r where "a = Ended r" by (cases a) auto
  with Nil(1) show ?case by simp
next
  case (Cons i "is")
  obtain w1 a1 where adv: "advance C sv i a w = (w1, a1)" by (cases "advance C sv i a w")
  have "calls_left a1 \<le> length is"
  proof (cases "calls_left a")
    case 0
    then obtain r where "a = Ended r" by (cases a) auto
    with adv have "a1 = Ended r" by simp
    then show ?thesis by simp
  next
    case (Suc k)
    with advance_calls_left [OF adv] Cons.prems(2) show ?thesis by simp
  qed
  from Cons.IH [OF _ this, of w1] obtain w' r where "run_attempt C sv is a1 w1 = (w', Ended r)" by blast
  with adv Cons.prems(1) show ?case by simp
qed

subsection \<open>What an attempt has done so far\<close>

definition owned :: "string \<Rightarrow> string \<Rightarrow> fix_proposal \<Rightarrow> review_db \<Rightarrow> bool" where
  "owned pid token p db \<longleftrightarrow> review_db_ok db \<and> map_of (db_proposals db) pid = Some p \<and>
    fp_claim p = Some token \<and> fp_state p = ''queueing''"

definition unsent :: "review_world \<Rightarrow> review_world \<Rightarrow> bool" where
  "unsent w0 w \<longleftrightarrow> queue (rw_edits w) = queue (rw_edits w0)"

definition sent_edit :: "review_world \<Rightarrow> fix_proposal \<Rightarrow> review_world \<Rightarrow> bool" where
  "sent_edit w0 p w \<longleftrightarrow> queue (rw_edits w) = queue (rw_edits w0) @ [reviewed_message p]"

definition failed_answer :: "review_world \<Rightarrow> string \<Rightarrow> exn \<Rightarrow> review_world \<Rightarrow> bool" where
  "failed_answer w0 pid e w \<longleftrightarrow> unsent w0 w \<or>
    (\<exists>q. sent_edit w0 q w \<and> map_of (db_proposals (rw_db w)) pid = Some q \<and>
      (e = SqliteError \<or> e = unpersisted_outcome \<or>
       e = unknown_outcome \<and> fp_state q \<in> {''queue_unknown'', ''queued''}))"

fun so_far :: "review_world \<Rightarrow> string \<Rightarrow> attempt \<Rightarrow> review_world \<Rightarrow> bool" where
  "so_far w0 pid (Asked k digest) w \<longleftrightarrow> k = pid \<and> w = w0 \<and> review_db_ok (rw_db w)"
| "so_far w0 pid (Found k digest) w \<longleftrightarrow> k = pid \<and> w = w0 \<and> review_db_ok (rw_db w)"
| "so_far w0 pid (Held k digest token p) w \<longleftrightarrow> k = pid \<and> unsent w0 w \<and> owned pid token p (rw_db w)"
| "so_far w0 pid (Ready k digest token p) w \<longleftrightarrow> k = pid \<and> unsent w0 w \<and> owned pid token p (rw_db w)"
| "so_far w0 pid (Undo k token p e) w \<longleftrightarrow> k = pid \<and> unsent w0 w \<and> owned pid token p (rw_db w)"
| "so_far w0 pid (Doubt k token p e) w \<longleftrightarrow> k = pid \<and> e = unknown_outcome \<and>
    (unsent w0 w \<or> sent_edit w0 p w) \<and> owned pid token p (rw_db w)"
| "so_far w0 pid (Sent k token p) w \<longleftrightarrow> k = pid \<and> sent_edit w0 p w \<and> owned pid token p (rw_db w)"
| "so_far w0 pid (Unmarked k token p) w \<longleftrightarrow> k = pid \<and> sent_edit w0 p w \<and>
    (owned pid token p (rw_db w) \<or>
     (\<exists>q. map_of (db_proposals (rw_db w)) pid = Some q \<and> signed_fields q = signed_fields p \<and>
       fp_state q = ''queued'' \<and> fp_claim q = None))"
| "so_far w0 pid (Ended (Inr row)) w \<longleftrightarrow> sent_edit w0 row w \<and>
    map_of (db_proposals (rw_db w)) pid = Some row \<and> fp_state row = ''queued''"
| "so_far w0 pid (Ended (Inl e)) w \<longleftrightarrow> failed_answer w0 pid e w"

lemma owned_task:
  assumes "owned pid token p db"
  shows "task_is (fp_event p) pid ''queueing'' db"
  using assms proposal_ok(3) [of db pid p]
  by (auto simp: owned_def task_is_current current_for_def task_state_for_def)

lemma owned_moves:
  assumes "owned pid token p db"
  shows "unknown_rows pid token db = (db', r) \<Longrightarrow> r = Inr () \<and>
      map_of (db_proposals db') pid = Some (p\<lparr>fp_state := ''queue_unknown'', fp_claim := None\<rparr>)"
    and "queued_rows now pid token db = (db', row) \<Longrightarrow>
      row = Inr (p\<lparr>fp_state := ''queued'', fp_queued_at := Some now, fp_claim := None\<rparr>) \<and>
      map_of (db_proposals db') pid = Some (p\<lparr>fp_state := ''queued'', fp_queued_at := Some now, fp_claim := None\<rparr>)"
proof -
  have p: "map_of (db_proposals db) pid = Some p" "fp_claim p = Some token" "fp_state p = ''queueing''"
    using assms by (simp_all add: owned_def)
  have c: "claimed_row pid token db = Some p" using p by (simp add: claimed_row_def)
  have m: "map_of (db_proposals (move_task e pid s g (move_proposal pid (Some token) ''queueing'' f db))) pid = Some (f p)"
    for e s g f using p by (simp add: move_task_def move_proposal_def map_of_update_where)
  show "r = Inr () \<and> map_of (db_proposals db') pid = Some (p\<lparr>fp_state := ''queue_unknown'', fp_claim := None\<rparr>)"
    if "unknown_rows pid token db = (db', r)"
  proof -
    from that have "(move_task (fp_event p) pid ''queueing'' (\<lambda>r. r\<lparr>rt_state := ''queue_unknown''\<rparr>)
        (move_proposal pid (Some token) ''queueing''
          (\<lambda>r. r\<lparr>fp_state := ''queue_unknown'', fp_claim := None\<rparr>) db), Inr ()) = (db', r)"
      using c p(3) owned_task [OF assms] by (simp add: unknown_rows_def)
    with m show ?thesis by (metis prod.inject)
  qed
  show "row = Inr (p\<lparr>fp_state := ''queued'', fp_queued_at := Some now, fp_claim := None\<rparr>) \<and>
      map_of (db_proposals db') pid = Some (p\<lparr>fp_state := ''queued'', fp_queued_at := Some now, fp_claim := None\<rparr>)"
    if "queued_rows now pid token db = (db', row)"
  proof -
    let ?db = "move_task (fp_event p) pid ''queueing'' (\<lambda>r. r\<lparr>rt_state := ''queued'', rt_completed := Some now\<rparr>)
      (move_proposal pid (Some token) ''queueing''
        (\<lambda>r. r\<lparr>fp_state := ''queued'', fp_queued_at := Some now, fp_claim := None\<rparr>) db)"
    have "queued_rows now pid token db = (?db, stored_proposal pid ?db)"
      using c p(3) owned_task [OF assms] by (simp add: queued_rows_def Let_def)
    then have "db' = ?db" and row: "row = stored_proposal pid db'" using that by auto
    then have "map_of (db_proposals db') pid =
        Some (p\<lparr>fp_state := ''queued'', fp_queued_at := Some now, fp_claim := None\<rparr>)" by (simp only: m)
    with row show ?thesis by (simp add: stored_proposal_def)
  qed
qed

lemma sent_signed: "signed_fields p = signed_fields q \<Longrightarrow> sent_edit w0 p w = sent_edit w0 q w"
  unfolding sent_edit_def by (drule valid_for_signed(2)) simp

lemma doubt_so_far:
  assumes "so_far w0 pid (Doubt pid token p e) w" and "on_db (mark_queue_unknown i pid token) w = (w', r)"
  shows "so_far w0 pid (Ended (Inl (case r of Inl e' \<Rightarrow> e' | Inr u \<Rightarrow> e))) w'"
proof -
  have o: "owned pid token p (rw_db w)" and e: "e = unknown_outcome"
    and s: "unsent w0 w \<or> sent_edit w0 p w" using assms(1) by auto
  obtain db1 r1 where f: "unknown_rows pid token (rw_db w) = (db1, r1)" by (cases "unknown_rows pid token (rw_db w)")
  note m = owned_moves(1) [OF o f]
  have w': "w' = w\<lparr>rw_db := rw_db w\<rparr> \<and> r = Inl SqliteError \<or> w' = w\<lparr>rw_db := db1\<rparr> \<and> r \<in> {Inl SqliteError, Inr ()}"
    using assms(2) f m by (cases i) (simp_all add: on_db_def mark_queue_unknown_def transaction_def)
  have edits: "unsent w0 w' = unsent w0 w" "sent_edit w0 q w' = sent_edit w0 q w" for q
    using w' by (auto simp: unsent_def sent_edit_def)
  show ?thesis
  proof (cases "unsent w0 w")
    case True
    then show ?thesis by (simp add: failed_answer_def edits)
  next
    case False
    then have "sent_edit w0 p w" using s by blast
    moreover have "signed_fields (p\<lparr>fp_state := ''queue_unknown'', fp_claim := None\<rparr>) = signed_fields p"
      by (simp add: signed_fields_def immutable_fields_def)
    ultimately have q: "sent_edit w0 p w'" "sent_edit w0 (p\<lparr>fp_state := ''queue_unknown'', fp_claim := None\<rparr>) w'"
      unfolding edits using sent_signed by blast+
    from w' show ?thesis
    proof
      assume "w' = w\<lparr>rw_db := rw_db w\<rparr> \<and> r = Inl SqliteError"
      with q(1) o show ?thesis by (auto simp: failed_answer_def owned_def)
    next
      assume "w' = w\<lparr>rw_db := db1\<rparr> \<and> r \<in> {Inl SqliteError, Inr ()}"
      with q(2) m e show ?thesis by (auto simp: failed_answer_def)
    qed
  qed
qed

lemma sent_so_far:
  assumes "so_far w0 pid (Sent pid token p) w" and "on_db (mark_queued i now pid token) w = (w', r)"
  shows "so_far w0 pid (case r of Inl e \<Rightarrow> Unmarked pid token p | Inr row \<Rightarrow> Ended (Inr row)) w'"
proof -
  have o: "owned pid token p (rw_db w)" and s: "sent_edit w0 p w" using assms(1) by auto
  define q where "q = p\<lparr>fp_state := ''queued'', fp_queued_at := Some now, fp_claim := None\<rparr>"
  obtain db1 r1 where f: "queued_rows now pid token (rw_db w) = (db1, r1)"
    by (cases "queued_rows now pid token (rw_db w)")
  have m: "r1 = Inr q" "map_of (db_proposals db1) pid = Some q"
    using owned_moves(2) [OF o f] by (simp_all add: q_def)
  have qp: "signed_fields q = signed_fields p" "fp_state q = ''queued''" "fp_claim q = None"
    by (simp_all add: q_def signed_fields_def immutable_fields_def)
  have w': "w' = w\<lparr>rw_db := rw_db w\<rparr> \<and> r = Inl SqliteError \<or> w' = w\<lparr>rw_db := db1\<rparr> \<and> (r = Inl SqliteError \<or> r = Inr q)"
    using assms(2) f m by (cases i) (simp_all add: on_db_def mark_queued_def transaction_def)
  have s': "sent_edit w0 x w' = sent_edit w0 x w" for x using w' by (auto simp: sent_edit_def)
  have sq: "sent_edit w0 q w" using s sent_signed [OF qp(1)] by blast
  from w' show ?thesis
  proof
    assume "w' = w\<lparr>rw_db := rw_db w\<rparr> \<and> r = Inl SqliteError"
    with o s s' show ?thesis by simp
  next
    assume "w' = w\<lparr>rw_db := db1\<rparr> \<and> (r = Inl SqliteError \<or> r = Inr q)"
    with m(2) qp s sq s' show ?thesis by auto
  qed
qed

lemma unmarked_so_far:
  assumes "so_far w0 pid (Unmarked pid token p) w" and c: "on_db (mark_queue_unknown i pid token) w = (w', r)"
  shows "so_far w0 pid (Ended (Inl (case r of Inl e \<Rightarrow> unpersisted_outcome | Inr u \<Rightarrow> unknown_outcome))) w'"
proof -
  have s: "sent_edit w0 p w" using assms(1) by auto
  from assms(1) consider (mine) "owned pid token p (rw_db w)"
    | (gone) q where "map_of (db_proposals (rw_db w)) pid = Some q" "signed_fields q = signed_fields p"
        "fp_state q = ''queued''" "fp_claim q = None" by auto
  then show ?thesis
  proof cases
    case mine
    with s have "so_far w0 pid (Doubt pid token p unknown_outcome) w" by simp
    from doubt_so_far [OF this c] have f: "failed_answer w0 pid (case r of Inl e' \<Rightarrow> e' | Inr u \<Rightarrow> unknown_outcome) w'"
      by simp
    show ?thesis using f by (cases r) (auto simp: failed_answer_def)
  next
    case gone
    then have "claimed_row pid token (rw_db w) = None" by (simp add: claimed_row_def)
    then have "unknown_rows pid token (rw_db w) = (rw_db w, Inr ())" by (simp add: unknown_rows_def)
    then have "w' = w" using c by (cases i) (simp_all add: on_db_def mark_queue_unknown_def transaction_def)
    moreover have "sent_edit w0 q w" using s sent_signed [OF gone(2)] by blast
    ultimately show ?thesis using gone by (cases r) (auto simp: failed_answer_def)
  qed
qed

lemma failing_so_far:
  assumes "unsent w0 w" and "owned pid token p (rw_db w)"
  shows "so_far w0 pid (failing_attempt False pid token p e) w"
  using assms by (auto simp: failing_attempt_def unknown_outcome_def)

lemma advance_so_far:
  assumes ok: "so_far w0 pid a w" and step: "advance C sv i a w = (w', a')"
  shows "so_far w0 pid a' w'"
proof (cases a)
  case (Asked k digest)
  with ok step show ?thesis by (auto simp: failed_answer_def unsent_def split: sum.splits)
next
  case (Found k digest)
  with ok have k: "k = pid" "w = w0" "review_db_ok (rw_db w)" by auto
  obtain db r where c: "claim_for_queue (si_io i) queue_attempt_lease (si_now i) (si_token i) pid (rw_db w) = (db, r)"
    by (cases "claim_for_queue (si_io i) queue_attempt_lease (si_now i) (si_token i) pid (rw_db w)")
  show ?thesis
  proof (cases r)
    case (Inl e)
    then have "w' = w\<lparr>rw_db := db\<rparr>" "a' = Ended (Inl e)" using step c Found k(1) by (auto simp: on_db_def)
    with k(2) show ?thesis by (simp add: failed_answer_def unsent_def)
  next
    case (Inr p)
    note claim = claim_Inr [OF k(3) c [unfolded Inr]]
    have "w' = w\<lparr>rw_db := db\<rparr>" "a' = Held pid digest (si_token i) p"
      using step c Found k(1) Inr claim(5) by (auto simp: on_db_def)
    with k(2) claim store_calls_keep(4) [OF k(3) c] show ?thesis by (simp add: unsent_def owned_def)
  qed
next
  case (Held k digest token p)
  with ok step failing_so_far [of w0 w pid token p] show ?thesis by (auto split: sum.splits)
next
  case (Ready k digest token p)
  with ok have k: "k = pid" "unsent w0 w" "owned pid token p (rw_db w)" by auto
  obtain r where pub: "publish_edit i digest p w = (w', r)"
    and a': "a' = (case r of Inl e \<Rightarrow> failing_attempt True pid token p e | Inr u \<Rightarrow> Sent pid token p)"
    using step Ready k(1) by (auto split: sum.splits prod.splits)
  from pub show ?thesis
  proof (cases rule: publish_edit_cases)
    case (kept b)
    then have "unsent w0 w'" "rw_db w' = rw_db w" using k(2) by (simp_all add: unsent_def)
    moreover have "a' = Undo pid token p (review_error ''The reviewed edit was rejected before RabbitMQ accepted it.'') \<or>
        a' = Doubt pid token p unknown_outcome"
      using kept(4) unfolding a'
      by (auto simp: failing_attempt_def push_rejected_def push_outcome_unknown_def unknown_outcome_def)
    ultimately show ?thesis using k(3) by auto
  next
    case (added b)
    then have "sent_edit w0 p w'" "rw_db w' = rw_db w" using k(2) by (simp_all add: unsent_def sent_edit_def)
    moreover have "a' = Sent pid token p \<or> a' = Doubt pid token p unknown_outcome"
      using added(3) unfolding a'
      by (auto simp: failing_attempt_def push_rejected_def push_outcome_unknown_def unknown_outcome_def)
    ultimately show ?thesis using k(3) by auto
  qed
next
  case (Undo k token p e)
  then have "unsent w0 w" "queue (rw_edits w') = queue (rw_edits w)" "\<exists>e'. a' = Ended (Inl e')"
    using ok step by (auto simp: on_db_def split: sum.splits prod.splits)
  then show ?thesis by (auto simp: failed_answer_def unsent_def)
next
  case (Doubt k token p e)
  then obtain r where c: "on_db (mark_queue_unknown (si_io i) pid token) w = (w', r)"
    and a': "a' = Ended (Inl (case r of Inl e' \<Rightarrow> e' | Inr u \<Rightarrow> e))"
    using step ok by (auto split: sum.splits prod.splits)
  have "so_far w0 pid (Doubt pid token p e) w" using ok Doubt by simp
  from doubt_so_far [OF this c] show ?thesis by (simp only: a')
next
  case (Sent k token p)
  then obtain r where c: "on_db (mark_queued (si_io i) (si_now i) pid token) w = (w', r)"
    and a': "a' = (case r of Inl e \<Rightarrow> Unmarked pid token p | Inr row \<Rightarrow> Ended (Inr row))"
    using step ok by (auto split: sum.splits prod.splits)
  have "so_far w0 pid (Sent pid token p) w" using ok Sent by simp
  from sent_so_far [OF this c] show ?thesis by (simp only: a')
next
  case (Unmarked k token p)
  then obtain r where c: "on_db (mark_queue_unknown (si_io i) pid token) w = (w', r)"
    and a': "a' = Ended (Inl (case r of Inl e \<Rightarrow> unpersisted_outcome | Inr u \<Rightarrow> unknown_outcome))"
    using step ok by (auto split: sum.splits prod.splits)
  have "so_far w0 pid (Unmarked pid token p) w" using ok Unmarked by simp
  from unmarked_so_far [OF this c] show ?thesis by (simp only: a')
next
  case (Ended r)
  with ok step show ?thesis by simp
qed

lemma run_so_far:
  "run_attempt C sv is a w = (w', a') \<Longrightarrow> so_far w0 pid a w \<Longrightarrow> so_far w0 pid a' w'"
proof (induction "is" arbitrary: a w)
  case (Cons i "is")
  then show ?case using advance_so_far by (cases "advance C sv i a w") auto
qed simp

subsection \<open>The answer\<close>

text \<open>
  C27: \<open>queue_reviewed_fix\<close> on a consistent database always returns (six calls are enough),
  and its answer is true.  On success exactly one message was added to the edit queue, that
  of the named proposal, which is stored as queued.  On an error nothing was sent, or the
  error is the one that reports an unknown outcome (stored as unknown or queued), the one that
  says that this could not be stored, or an error of SQLite itself.
\<close>

theorem queue_reviewed_fix_answers:
  assumes "review_db_ok (rw_db w)" and "6 \<le> length is"
  shows "\<exists>w' r. queue_reviewed_fix C sv is pid digest w = (w', Some r) \<and>
    (case r of
       Inr answer \<Rightarrow> \<exists>row. answer = queued_answer sv pid row \<and>
         map_of (db_proposals (rw_db w')) pid = Some row \<and> fp_state row = ''queued'' \<and>
         queue (rw_edits w') = queue (rw_edits w) @ [reviewed_message row]
     | Inl e \<Rightarrow> queue (rw_edits w') = queue (rw_edits w) \<or>
         (\<exists>q. map_of (db_proposals (rw_db w')) pid = Some q \<and>
           queue (rw_edits w') = queue (rw_edits w) @ [reviewed_message q] \<and>
           (e = SqliteError \<or> e = unpersisted_outcome \<or>
            e = unknown_outcome \<and> fp_state q \<in> {''queue_unknown'', ''queued''})))"
proof -
  have "calls_left (Asked pid digest) \<le> length is" using assms(2) by simp
  then obtain w' r where run: "run_attempt C sv is (Asked pid digest) w = (w', Ended r)"
    by (rule run_attempt_ends)
  have "so_far w pid (Ended r) w'" by (rule run_so_far [OF run]) (use assms(1) in simp)
  then show ?thesis
    using run by (cases r) (auto simp: queue_reviewed_fix_def failed_answer_def sent_edit_def unsent_def)
qed

lemma demo_queue:
  "queue_reviewed_fix demo_code demo_service (replicate 6 demo_input) demo_pid zeros demo_world =
    (sent_world, Some (Inr (queued_answer demo_service demo_pid queued_proposal)))"
proof -
  have six: "replicate 6 demo_input = [demo_input, demo_input, demo_input, demo_input, demo_input, demo_input]"
    by (simp add: numeral_eq_Suc)
  have "run_attempt demo_code demo_service (replicate 6 demo_input) (Asked demo_pid zeros) demo_world =
      (sent_world, Ended (Inr queued_proposal))"
    by (simp only: six run_attempt.simps demo_steps advance.simps(9) prod.case)
  then show ?thesis by (simp add: queue_reviewed_fix_def del: run_attempt.simps)
qed

lemma queue_reviewed_fix_answers_witness:
  "\<exists>row. queue (rw_edits sent_world) = queue (rw_edits demo_world) @ [reviewed_message row] \<and>
    fp_state row = ''queued''"
proof -
  have "review_db_ok (rw_db demo_world)" "6 \<le> length (replicate 6 demo_input)"
    using demo_db_ok by (simp_all add: demo_world_def)
  from queue_reviewed_fix_answers [OF this, of demo_code demo_service demo_pid zeros]
  show ?thesis unfolding demo_queue by auto
qed

text \<open>
  An error of SQLite leaves the method as it is when the outcome of the publication is unknown
  and cannot be stored: the message is in the queue, and the caller sees only the raw error.
\<close>

lemma raw_store_error_after_sending:
  "queue_reviewed_fix demo_code demo_service
      [demo_input, demo_input, demo_input, demo_input\<lparr>si_io := Unacked\<rparr>, demo_input\<lparr>si_io := Refused\<rparr>]
      demo_pid zeros demo_world =
    (sent_world\<lparr>rw_db := held_db\<rparr>, Some (Inl SqliteError))"
proof -
  let ?w = "sent_world\<lparr>rw_db := held_db\<rparr>"
  have "advance demo_code demo_service (demo_input\<lparr>si_io := Unacked\<rparr>)
      (Ready demo_pid zeros ''c1'' held_proposal) (demo_world\<lparr>rw_db := held_db\<rparr>) =
      (?w, Doubt demo_pid ''c1'' held_proposal unknown_outcome)"
    using demo_publish_unacked
    by (simp add: failing_attempt_def push_outcome_unknown_def push_rejected_def unknown_outcome_def)
  moreover have "advance demo_code demo_service (demo_input\<lparr>si_io := Refused\<rparr>)
      (Doubt demo_pid ''c1'' held_proposal unknown_outcome) ?w = (?w, Ended (Inl SqliteError))"
    by (simp add: on_db_def mark_queue_unknown_def transaction_def)
  ultimately have "run_attempt demo_code demo_service
      [demo_input, demo_input, demo_input, demo_input\<lparr>si_io := Unacked\<rparr>, demo_input\<lparr>si_io := Refused\<rparr>]
      (Asked demo_pid zeros) demo_world = (?w, Ended (Inl SqliteError))"
    by (simp only: run_attempt.simps demo_steps prod.case)
  then show ?thesis by (simp add: queue_reviewed_fix_def del: run_attempt.simps)
qed

end
