(* ===== verification/ReviewPreparation.thy ===== *)
theory ReviewPreparation
  imports ReviewAnswer
begin

text \<open>
  What \<open>prepare_fix\<close> stores can be read, approved and queued: its proposal passes every check
  that does not look at the wiki, until it expires.
\<close>

subsection \<open>Valid rows\<close>

definition tasks_valid :: "review_db \<Rightarrow> bool" where
  "tasks_valid db \<longleftrightarrow> (\<forall>e row. map_of (db_tasks db) e = Some row \<longrightarrow>
    e \<noteq> [] \<and> (\<exists>d. rt_payload row = Text (JDict d) \<and> valid_page_title (dget ''title'' d)))"

definition proposals_valid :: "review_code \<Rightarrow> review_db \<Rightarrow> bool" where
  "proposals_valid C db \<longleftrightarrow> (\<forall>pid p. map_of (db_proposals db) pid = Some p \<and>
    fp_state p \<in> {''prepared'', ''queueing''} \<longrightarrow> validate_stored_proposal C pid p = Inr ())"

lemma strip_sub: "set (strip s) \<subseteq> set s" "length (strip s) \<le> length s"
proof -
  show "set (strip s) \<subseteq> set s"
    unfolding strip_def set_rev by (metis set_dropWhileD set_rev subsetI)
  show "length (strip s) \<le> length s"
    unfolding strip_def using length_dropWhile_le le_trans by (metis length_rev)
qed

lemma validated_again:
  "validate_title (JStr s) = Inr t \<Longrightarrow> validate_title (JStr t) = Inr t"
  "validate_summary (JStr s) = Inr t \<Longrightarrow> validate_summary (JStr t) = Inr t"
  "validate_replacement (JStr s) = Inr t \<Longrightarrow> validate_replacement (JStr t) = Inr t"
  using strip_sub [of s] by (auto simp: strip_strip no_nul_def split: if_splits)


lemma validated_first:
  "validate_title v = Inr t \<Longrightarrow> \<exists>s. v = JStr s \<and> t = strip s"
  "validate_replacement v = Inr r \<Longrightarrow> v = JStr r"
  "validate_summary v = Inr m \<Longrightarrow> \<exists>s. v = JStr s \<and> m = strip s"
  by (cases v; auto split: if_splits)+

lemma signed_validates:
  assumes sha: "\<forall>s. is_sha256 (JStr (sha C s))"
    and draft: "propose C sv E task event_id th eh_title eh repl sm = Inr draft"
    and title: "valid_page_title (JStr (fp_target_title draft))"
    and sv: "queue_name_ok (sv_queue sv)" "is_sha256 (JStr (sv_environment sv))" and e: "event_id \<noteq> []"
    and sign: "sign_proposal C t draft = Inr (pid, p)"
  shows "validate_stored_proposal C pid p = Inr ()"
    and "fp_queue p = Some (sv_queue sv) \<and> fp_environment p = Some (sv_environment sv) \<and> fp_event p = event_id"
    and "pid = ''wiktionary-fix:'' @ fp_digest p \<and> fp_expires p = Some (t + fix_validity_seconds)"
proof -
  obtain h1 h2 et rp s title target english diff where v:
    "validate_sha256 th ''target_content_sha256'' = Inr h1"
    "validate_sha256 eh ''english_content_sha256'' = Inr h2"
    "validate_title eh_title = Inr et" "validate_replacement repl = Inr rp" "validate_summary sm = Inr s"
    "get_snapshot C (pe_target E) ''mg'' title = Inr target"
    and d: "draft = proposal_fields C sv event_id (py_str title) h1 et h2 rp diff s" "dindex ''title'' task = Inr title"
    using draft unfolding propose_def bnd_Inr_iff by (auto simp: bnd_Inr_iff split: if_splits)
  obtain digest where g: "approval_digest C (approval_contract (fp_event draft) (fp_target_title draft)
      (fp_target_sha draft) (fp_english_title draft) (fp_english_sha draft) (fp_replacement_sha draft)
      (sha C diff) (fp_summary draft) (sv_queue sv) (sv_environment sv) t (t + fix_validity_seconds)) = Inr digest"
    and p: "pid = ''wiktionary-fix:'' @ digest"
      "p = draft\<lparr>fp_digest := digest, fp_created := t, fp_expires := Some (t + fix_validity_seconds)\<rparr>"
    using sign d(1) by (auto simp: sign_proposal_def bnd_Inr_iff proposal_fields_def Let_def)
  show "fp_queue p = Some (sv_queue sv) \<and> fp_environment p = Some (sv_environment sv) \<and> fp_event p = event_id"
    "pid = ''wiktionary-fix:'' @ fp_digest p \<and> fp_expires p = Some (t + fix_validity_seconds)"
    using d(1) by (simp_all add: p proposal_fields_def)
  have f: "fp_target_title p = fp_target_title draft" "fp_english_title p = et" "fp_target_sha p = h1" "fp_english_sha p = h2"
    "fp_replacement p = rp" "fp_replacement_sha p = sha C rp" "fp_summary p = s" "fp_diff p = diff"
    "fp_diff_sha p = Some (sha C diff)" "fp_queue p = Some (sv_queue sv)" "fp_environment p = Some (sv_environment sv)"
    "fp_event p = event_id" "fp_created p = t" "fp_expires p = Some (t + fix_validity_seconds)" "fp_digest p = digest"
    using d(1) by (simp_all add: p proposal_fields_def)
  have fd: "fp_target_sha draft = h1" "fp_english_title draft = et" "fp_english_sha draft = h2"
    "fp_replacement_sha draft = sha C rp" "fp_summary draft = s" "fp_event draft = event_id"
    using d(1) by (simp_all add: proposal_fields_def)
  have title_ok: "validate_title (JStr (fp_target_title draft)) = Inr (fp_target_title draft)"
  proof -
    have "code (char_of (0::nat)) < 32" by (simp add: code_def)
    then have "no_nul (fp_target_title draft)" using title by (auto simp: no_nul_def list_ex_iff)
    moreover have "strip (fp_target_title draft) = fp_target_title draft" using title by simp
    ultimately show ?thesis using title by simp
  qed
  have again: "validate_title (JStr et) = Inr et" "validate_summary (JStr s) = Inr s" "validate_replacement (JStr rp) = Inr rp"
    using validated_first(1) [OF v(3)] validated_first(3) [OF v(5)] validated_first(2) [OF v(4)] v(3-5)
      validated_again by blast+
  have shas: "validate_sha256 (JStr h1) f = Inr h1" "validate_sha256 (JStr h2) f = Inr h2" for f
    using v(1,2) validated_sha [OF v(1)] validated_sha [OF v(2)] by (auto simp: validate_sha256_def split: if_splits)
  have hs: "validate_sha256 (JStr (sha C x)) f = Inr (sha C x)" "validate_sha256 (JStr (sv_environment sv)) f = Inr (sv_environment sv)"
    for x f using sha sv(2) by (simp_all add: validate_sha256_def)
  show "validate_stored_proposal C pid p = Inr ()"
    unfolding validate_stored_proposal_def f title_ok again shas hs opt_json_def bnd_simps option.case
    using g sv(1) e p(1) by (simp add: fd hs fix_validity_seconds_def f)
qed

lemma get_task_title:
  assumes "get_task ok e db = Inr task" and "tasks_valid db"
  shows "valid_page_title (dget ''title'' task)" and "e \<noteq> []"
proof -
  obtain row where row: "map_of (db_tasks db) e = Some row" "task_from_row row = Inr task"
    using assms(1) by (auto simp: get_task_def split: if_splits option.splits)
  then obtain d where d: "rt_payload row = Text (JDict d)" "valid_page_title (dget ''title'' d)"
    using assms(2) by (auto simp: tasks_valid_def)
  have "dget ''title'' task = dget ''title'' d" using row(2) d(1) by (auto split: option.splits)
  with d(2) show "valid_page_title (dget ''title'' task)" by simp
  show "e \<noteq> []" using row(1) assms(2) by (auto simp: tasks_valid_def)
qed

lemma draft_title:
  assumes "propose C sv E task event_id th et eh repl sm = Inr draft" and "valid_page_title (dget ''title'' task)"
  shows "valid_page_title (JStr (fp_target_title draft))"
proof -
  obtain title where "dindex ''title'' task = Inr title" "fp_target_title draft = py_str title"
    using assms(1) unfolding propose_def bnd_Inr_iff by (auto simp: bnd_Inr_iff proposal_fields_def split: if_splits)
  moreover from this(1) have "title = dget ''title'' task"
    by (auto simp: dindex_def dget_def split: option.splits)
  ultimately show ?thesis using assms(2) by (cases "dget ''title'' task") simp_all
qed

lemma draft_fields:
  assumes "propose C sv E task event_id th et eh repl sm = Inr draft"
  shows "fp_queue draft = Some (sv_queue sv) \<and> fp_environment draft = Some (sv_environment sv) \<and>
    fp_event draft = event_id \<and> JStr (fp_replacement draft) = repl"
proof -
  obtain r where "validate_replacement repl = Inr r" "fp_replacement draft = r"
    "fp_queue draft = Some (sv_queue sv)" "fp_environment draft = Some (sv_environment sv)" "fp_event draft = event_id"
    using assms unfolding propose_def bnd_Inr_iff by (auto simp: bnd_Inr_iff proposal_fields_def split: if_splits)
  with validated_first(2) show ?thesis by blast
qed

text \<open>Tasks arrive valid.\<close>

lemma accept_task_valid:
  assumes "tasks_valid db" and "accept_task i now db message = (db', r)"
  shows "tasks_valid db'"
proof (cases "validate_review_message (JDict message)")
  case (Inl e)
  with assms show ?thesis by (simp add: accept_task_def)
next
  case (Inr m)
  let ?e = "py_str (dget ''event_id'' m)" and ?d = "sorted_dict m"
  have m: "valid_page_title (dget ''title'' m)" "dget ''event_id'' m = JStr (event_prefix @ str_or_empty (dget ''job_id'' m))"
    using Inr by (simp_all add: validate_Inr head_fields_ok_def)
  obtain db1 r1 where f: "insert_task ?e (Text (JDict ?d)) now db = (db1, r1)"
    by (cases "insert_task ?e (Text (JDict ?d)) now db")
  have "db' = db \<or> db' = db1"
    using assms(2) Inr f
    by (cases i) (auto simp: accept_task_def Let_def transaction_def sort_json_JDict simp del: sort_json.simps
        split: sum.splits if_splits)
  moreover have "tasks_valid db1"
    unfolding tasks_valid_def
  proof (intro allI impI)
    fix e row assume row: "map_of (db_tasks db1) e = Some row"
    show "e \<noteq> [] \<and> (\<exists>d. rt_payload row = Text (JDict d) \<and> valid_page_title (dget ''title'' d))"
    proof (cases "map_of (db_tasks db) e = Some row")
      case True
      with assms(1) show ?thesis by (simp add: tasks_valid_def)
    next
      case False
      then have "e = ?e" "rt_payload row = Text (JDict ?d)"
        using f row by (auto simp: insert_task_def Let_def map_of_snoc simp del: map_of_append
            split: option.splits if_splits)
      with m show ?thesis by (simp add: event_prefix_def)
    qed
  qed
  ultimately show ?thesis using assms(1) by auto
qed

text \<open>What saving answers: the stored row has the fields of the proposal.\<close>

lemma saved_row:
  assumes "save_proposal i pid p db = (db', Inr row)"
  shows "map_of (db_proposals db') pid = Some row" and "immutable_fields row = immutable_fields p"
    and "fp_state row = ''prepared''"
    and "map_of (db_proposals db) pid = Some row \<or> fp_created row = fp_created p"
    and "map_of (db_proposals db') k = Some q \<Longrightarrow> k \<noteq> pid \<Longrightarrow> fp_state q \<noteq> ''superseded'' \<Longrightarrow>
      map_of (db_proposals db) k = Some q"
proof -
  let ?sup = "update_where (\<lambda>k r. fp_event r = fp_event p \<and> k \<noteq> pid \<and> fp_state r = ''prepared'')
    (\<lambda>r. r\<lparr>fp_state := ''superseded''\<rparr>) (db_proposals db)"
  have s: "save_proposal_rows pid p db = (db', Inr row)"
    using assms by (auto simp: save_proposal_def transaction_def split: io.splits)
  have ok: "(case map_of (db_proposals db) pid of None \<Rightarrow> True
      | Some q \<Rightarrow> immutable_fields q = immutable_fields p \<and> fp_state q = ''prepared'')"
    and rows: "db_proposals db' = (if map_of (db_proposals db) pid = None then insert_proposal pid p ?sup else ?sup)"
    and row: "map_of (db_proposals db') pid = Some row"
    using s by (auto simp: save_proposal_rows_def Let_def split: option.splits if_splits)
  show "map_of (db_proposals db') pid = Some row" by (rule row)
  have m: "map_of ?sup pid = map_of (db_proposals db) pid"
    by (cases "map_of (db_proposals db) pid") (simp_all add: map_of_update_where)
  define new where "new = p\<lparr>fp_state := ''prepared'', fp_started := None, fp_claim := None, fp_queued_at := None\<rparr>"
  have both: "(map_of (db_proposals db) pid = None \<and> row = new) \<or> map_of (db_proposals db) pid = Some row"
    using row unfolding rows insert_proposal_def new_def [symmetric]
    by (cases "map_of (db_proposals db) pid") (simp_all add: m map_of_snoc del: map_of_append)
  show "immutable_fields row = immutable_fields p" "fp_state row = ''prepared''"
    "map_of (db_proposals db) pid = Some row \<or> fp_created row = fp_created p"
    using both ok by (auto simp: immutable_fields_def new_def)
  show "map_of (db_proposals db) k = Some q"
    if "map_of (db_proposals db') k = Some q" "k \<noteq> pid" "fp_state q \<noteq> ''superseded''"
  proof -
    have "map_of ?sup k = Some q"
      using that(1,2) unfolding rows insert_proposal_def
      by (auto simp: map_of_snoc simp del: map_of_append split: if_splits option.splits)
    with that(3) show ?thesis by (auto simp: map_of_update_where split: if_splits)
  qed
qed

subsection \<open>The property\<close>

lemma approvable_row:
  assumes "map_of (db_proposals db) pid = Some p" and "validate_stored_proposal C pid p = Inr ()"
    and "fp_state p = ''prepared''" and "fp_queue p = Some (sv_queue sv)"
    and "fp_environment p = Some (sv_environment sv)"
  shows "first_checks C sv pid (fp_digest p) p = Inr ()"
    and "fp_expires p = Some t \<Longrightarrow> now < t \<Longrightarrow> get_fix_proposal C sv True now pid db = Inr (public_proposal pid p)"
  using assms by (simp_all add: first_checks_def get_fix_proposal_def get_proposal_def require_unexpired_def)

lemma saved_is_approvable:
  assumes sha: "\<forall>s. is_sha256 (JStr (sha C s))"
    and sv: "queue_name_ok (sv_queue sv)" "is_sha256 (JStr (sv_environment sv))"
    and draft: "propose C sv E task event_id th et eh repl sm = Inr draft"
    and task: "valid_page_title (dget ''title'' task)" "event_id \<noteq> []"
    and valid: "proposals_valid C db" and sign: "sign_proposal C t draft = Inr (pid, p)"
    and save: "save_proposal i pid p db = (db', Inr row)"
  shows "validate_stored_proposal C pid row = Inr ()" and "proposals_valid C db'"
    and "fp_queue row = Some (sv_queue sv) \<and> fp_environment row = Some (sv_environment sv) \<and>
      fp_event row = event_id \<and> JStr (fp_replacement row) = repl"
proof -
  note signed = signed_validates [OF sha draft draft_title [OF draft task(1)] sv task(2) sign]
  note row = saved_row [OF save]
  have "fp_replacement p = fp_replacement draft"
    using sign by (auto simp: sign_proposal_def bnd_Inr_iff Let_def)
  then show "fp_queue row = Some (sv_queue sv) \<and> fp_environment row = Some (sv_environment sv) \<and>
      fp_event row = event_id \<and> JStr (fp_replacement row) = repl"
    using signed(2) row(2) draft_fields [OF draft] by (simp add: immutable_fields_def)
  from row(4) show ok: "validate_stored_proposal C pid row = Inr ()"
  proof
    assume "map_of (db_proposals db) pid = Some row"
    then show ?thesis using valid row(3) by (auto simp: proposals_valid_def)
  next
    assume "fp_created row = fp_created p"
    with row(2) have s: "signed_fields row = signed_fields p" by (simp add: signed_fields_def)
    have "fp_digest row = fp_digest p" using row(2) by (simp add: immutable_fields_def)
    then show ?thesis
      using valid_for_signed(1) [OF s, of C pid "fp_digest p"] signed(1) by (simp add: valid_for_def)
  qed
  show "proposals_valid C db'"
    unfolding proposals_valid_def
  proof (intro allI impI, elim conjE)
    fix k q assume q: "map_of (db_proposals db') k = Some q" "fp_state q \<in> {''prepared'', ''queueing''}"
    show "validate_stored_proposal C k q = Inr ()"
    proof (cases "k = pid")
      case True
      with q row(1) ok show ?thesis by simp
    next
      case False
      have "fp_state q \<noteq> ''superseded''" using q(2) by auto
      with row(5) [OF q(1) False] q(2) valid show ?thesis by (auto simp: proposals_valid_def)
    qed
  qed
qed

lemma reused_row:
  assumes "reusable C E v draft db = Inr (Some (pid, p))"
  shows "map_of (db_proposals db) pid = Some p" and "validate_stored_proposal C pid p = Inr ()"
    and "fp_state p = ''prepared''" and "same_fields p draft"
proof -
  have r: "get_proposal (pe_reads E 1) pid db = Inr p \<and> validate_stored_proposal C pid p = Inr () \<and>
      fp_state p = ''prepared'' \<and> same_fields p draft"
    using assms by (cases v) (auto simp: reusable_def bnd_Inr_iff split: option.splits if_splits)
  then show "map_of (db_proposals db) pid = Some p" "validate_stored_proposal C pid p = Inr ()"
    "fp_state p = ''prepared''" "same_fields p draft"
    by (auto simp: get_proposal_def split: if_splits option.splits)
qed

text \<open>
  C28: What \<open>prepare_fix\<close> answers can be approved.  With a hash function whose values look
  like SHA-256, a service that was built, tasks as \<open>accept_task\<close> stores them and a database whose
  open proposals are valid, a successful preparation answers the public form of a proposal
  that is stored as prepared, for the event and the new text that were asked for.  That
  proposal passes the checks of \<open>queue_reviewed_fix\<close> under its digest, \<open>get_fix_proposal\<close> gives
  the same answer until it expires, and the open proposals are valid again.
\<close>

theorem prepared_fix_is_approvable:
  assumes "\<forall>s. is_sha256 (JStr (sha C s))"
    and "make_service publication_queue review_queue store_environment environment = Inr sv"
    and "db0 = pe_others E 0 db" and "db1 = pe_others E 1 db0" and "db2 = pe_others E 2 db1"
    and "tasks_valid db0" and "proposals_valid C db1" and "proposals_valid C db2"
    and "prepare_fix C sv E event_id th et eh repl sm db = (db', Inr answer)"
  shows "proposals_valid C db' \<and>
    (\<exists>pid p. map_of (db_proposals db') pid = Some p \<and> answer = public_proposal pid p \<and>
      fp_state p = ''prepared'' \<and> fp_event p = event_id \<and> JStr (fp_replacement p) = repl \<and>
      first_checks C sv pid (fp_digest p) p = Inr () \<and>
      (\<forall>t now. fp_expires p = Some t \<and> now < t \<longrightarrow> get_fix_proposal C sv True now pid db' = Inr answer))"
proof -
  have sv: "queue_name_ok (sv_queue sv)" "is_sha256 (JStr (sv_environment sv))"
    using assms(2) by (auto simp: make_service_def bnd_Inr_iff validate_sha256_def Let_def split: if_splits)
  obtain task draft found where task: "get_task (pe_reads E 0) event_id db0 = Inr task"
    and draft: "propose C sv E task event_id th et eh repl sm = Inr draft"
    and found: "reusable C E (dget ''proposal_id'' task) draft db1 = Inr found"
    and rest: "found = None \<longrightarrow> (\<exists>pid p row. sign_proposal C (pe_times E 1) draft = Inr (pid, p) \<and>
        save_proposal (pe_save E) pid p db2 = (db', Inr row) \<and> answer = public_proposal pid row)"
      "\<forall>pid p. found = Some (pid, p) \<longrightarrow> db' = db1 \<and> answer = public_proposal pid p"
    using assms(9) unfolding prepare_fix_def Let_def assms(3-5) [symmetric]
    by (auto split: sum.splits if_splits option.splits prod.splits)
  note title = get_task_title [OF task assms(6)]
  show ?thesis
  proof (cases found)
    case None
    then obtain pid p row where sign: "sign_proposal C (pe_times E 1) draft = Inr (pid, p)"
      and save: "save_proposal (pe_save E) pid p db2 = (db', Inr row)" and a: "answer = public_proposal pid row"
      using rest(1) by blast
    note ok = saved_is_approvable [OF assms(1) sv draft title assms(8) sign save]
    note row = saved_row [OF save]
    show ?thesis
      using a ok row(1,3) approvable_row [OF row(1) ok(1) row(3), of sv] by blast
  next
    case (Some found')
    obtain pid p where f: "found = Some (pid, p)" using Some by (cases found') auto
    then have db': "db' = db1" and a: "answer = public_proposal pid p" using rest(2) by blast+
    note row = reused_row [OF found [unfolded f]]
    have "fp_queue p = Some (sv_queue sv)" "fp_environment p = Some (sv_environment sv)" "fp_event p = event_id"
      "JStr (fp_replacement p) = repl"
      using row(4) draft_fields [OF draft] by (simp_all add: same_fields_def immutable_fields_def)
    with a db' row approvable_row [OF row(1,2,3), of sv] assms(7) show ?thesis by blast
  qed
qed

subsection \<open>A preparation\<close>

definition new_db :: review_db where
  "new_db = \<lparr>db_tasks = [(''page-check:j1'', \<lparr>rt_payload =
       Text (JDict [(''title'', JStr ''vary''), (''language'', JStr ''mg'')]), rt_state = ''pending'',
       rt_proposal = None, rt_received = 50, rt_completed = None\<rparr>)], db_proposals = [],
     db_metadata = Some (2, zeros)\<rparr>"

definition calm_env :: prepare_env where
  "calm_env = \<lparr>pe_others = (\<lambda>n db. db), pe_reads = (\<lambda>n. True), pe_save = Acked,
     pe_target = si_target demo_input, pe_english = si_english demo_input, pe_times = (\<lambda>n. 100)\<rparr>"

lemma demo_valid:
  "tasks_valid new_db" "proposals_valid C new_db" "make_service ''translated'' None zeros None = Inr demo_service"
  using demo_facts
  by (auto simp: tasks_valid_def proposals_valid_def new_db_def dget_def strip_def py_space_def code_def Let_def
      make_service_def validate_sha256_def demo_service_def)

lemma demo_propose:
  assumes "dget ''title'' task = JStr ''vary''"
  shows "propose demo_code demo_service calm_env task e (JStr zeros) (JStr ''rice'') (JStr zeros) (JStr ''new'') (JStr ''fix'') =
    Inr (proposal_fields demo_code demo_service e ''vary'' zeros ''rice'' zeros ''new'' (''+new'' @ newline) ''fix'')"
proof -
  have "dindex ''title'' task = Inr (JStr ''vary'')"
    using assms by (auto simp: dindex_def dget_def split: option.splits)
  moreover have "require_main_namespace (demo_snapshot l t) x = Inr ()" for l t x
    by (simp add: require_main_namespace_def demo_snapshot_def dget_def)
  moreover have "dget ''content_sha256'' (demo_snapshot l t) = JStr zeros" "dget ''content'' (demo_snapshot l t) = JStr ''old''"
    for l t by (simp_all add: demo_snapshot_def dget_def)
  moreover have "get_snapshot demo_code (pe_target calm_env) ''mg'' (JStr ''vary'') = Inr (demo_snapshot ''mg'' ''vary'')"
    "get_snapshot demo_code (pe_english calm_env) ''en'' (JStr ''rice'') = Inr (demo_snapshot ''en'' ''rice'')"
    using demo_snapshots by (simp_all add: calm_env_def)
  ultimately show ?thesis
    using demo_facts by (simp add: propose_def validate_sha256_def demo_diff
        del: validate_title.simps validate_replacement.simps validate_summary.simps)
qed

lemma demo_prepare:
  "\<exists>db' answer. prepare_fix demo_code demo_service calm_env ''page-check:j1'' (JStr zeros) (JStr ''rice'') (JStr zeros)
      (JStr ''new'') (JStr ''fix'') new_db = (db', Inr answer)"
proof -
  obtain task where task: "get_task True ''page-check:j1'' new_db = Inr task"
    and t: "dget ''title'' task = JStr ''vary''" "dget ''state'' task = JStr ''pending''"
      "dget ''language'' task = JStr ''mg''" "dget ''proposal_id'' task = JNull"
    by (simp add: get_task_def new_db_def dget_def dset_def)
  let ?draft = "proposal_fields demo_code demo_service ''page-check:j1'' ''vary'' zeros ''rice'' zeros ''new'' (''+new'' @ newline) ''fix''"
  have "\<exists>p. sign_proposal demo_code 100 ?draft = Inr (demo_pid, p) \<and> fp_event p = ''page-check:j1''"
    by (simp add: sign_proposal_def demo_digest demo_pid_def proposal_fields_def demo_service_def Let_def)
  then obtain p where sign: "sign_proposal demo_code 100 ?draft = Inr (demo_pid, p)" "fp_event p = ''page-check:j1''" by blast
  have "\<exists>db' row. save_proposal Acked demo_pid p new_db = (db', Inr row)"
    using sign(2) by (simp add: save_proposal_def transaction_def save_proposal_rows_def new_db_def Let_def
        rowcount_def insert_proposal_def update_where_def)
  then obtain db' row where save: "save_proposal Acked demo_pid p new_db = (db', Inr row)" by blast
  show ?thesis
    using task demo_propose [OF t(1)] sign(1) save
    by (simp add: prepare_fix_def calm_env_def t reusable_def)
qed

lemma prepared_fix_is_approvable_witness:
  "\<exists>(db' :: review_db) pid p. map_of (db_proposals db') pid = Some p \<and> fp_replacement p = ''new'' \<and>
    first_checks demo_code demo_service pid (fp_digest p) p = Inr ()"
proof -
  obtain db' answer where prep: "prepare_fix demo_code demo_service calm_env ''page-check:j1'' (JStr zeros)
      (JStr ''rice'') (JStr zeros) (JStr ''new'') (JStr ''fix'') new_db = (db', Inr answer)"
    using demo_prepare by blast
  have s: "\<forall>s. is_sha256 (JStr (sha demo_code s))" using demo_facts(1) by simp
  have e: "new_db = pe_others calm_env n new_db" for n by (simp add: calm_env_def)
  obtain pid p where "map_of (db_proposals db') pid = Some p" "JStr (fp_replacement p) = JStr ''new''"
    "first_checks demo_code demo_service pid (fp_digest p) p = Inr ()"
    using prepared_fix_is_approvable [OF s demo_valid(3) e e e demo_valid(1) demo_valid(2) demo_valid(2) prep] by blast
  then show ?thesis by auto
qed

end
