(* ===== verification/WikiPages.thy ===== *)
theory WikiPages
  imports RateLimiter
begin

text \<open>
  \<open>RedisSite\<close> and \<open>RedisPage\<close> of \<open>redis_wikicache.py\<close>: wiki pages through the Redis cache,
  with every live call behind the shared rate limiter.  The Pywikibot page is a parameter:
  a record of functions on a state \<open>'w\<close> that other editors may change at any call.  The
  world counts its Redis calls; the environment says of each its outcome, the Redis time
  and what the other processes did to the cache before it.
\<close>

subsection \<open>The world\<close>

record page_env =
  wx_limiter :: limiter
  wx_io :: "nat \<Rightarrow> io"
  wx_redis_time :: "nat \<Rightarrow> int"
  wx_clock :: "nat \<Rightarrow> rat"
  wx_http_date :: "string \<Rightarrow> rat option"
  wx_others :: "nat \<Rightarrow> (string \<times> string) list \<Rightarrow> (string \<times> string) list"

text \<open>A live error is what is raised, with the chain of exceptions the limiter looks at.\<close>

record live_error =
  le_exn :: exn
  le_chain :: "exc_node list"

record 'w live_wiki =
  lv_get :: "string option \<Rightarrow> bool \<Rightarrow> 'w \<Rightarrow> 'w \<times> (live_error + string)"
  lv_put :: "string option \<Rightarrow> string \<Rightarrow> string \<Rightarrow> dict \<Rightarrow> 'w \<Rightarrow> 'w \<times> (live_error + unit)"
  lv_delete :: "string option \<Rightarrow> string \<Rightarrow> 'w \<Rightarrow> 'w \<times> (live_error + unit)"
  lv_exists :: "string option \<Rightarrow> 'w \<Rightarrow> 'w \<times> (live_error + bool)"
  lv_is_redirect :: "string option \<Rightarrow> 'w \<Rightarrow> 'w \<times> (live_error + bool)"
  lv_redirect_target :: "string option \<Rightarrow> 'w \<Rightarrow> 'w \<times> (live_error + string option)"
  lv_namespace :: "string option \<Rightarrow> 'w \<Rightarrow> 'w \<times> (live_error + int)"

text \<open>\<open>ww_writes\<close> is a ghost: the writes that reached the wiki's API, in order.\<close>

datatype wiki_write = PutPage "string option" string dict | DeletePage "string option"

record 'w wiki_world =
  ww_cache :: "(string \<times> string) list"
  ww_limiter :: limiter_store
  ww_live :: 'w
  ww_calls :: nat
  ww_writes :: "wiki_write list"

record redis_page =
  rp_language :: string
  rp_wiki :: string
  rp_offline :: bool
  rp_title :: "string option"

definition rate_limit_error :: exn where "rate_limit_error = OtherError ''WikimediaRateLimitError''"
definition unsafe_write :: exn where "unsafe_write = OtherError ''UnsafeWikiWriteError''"
definition no_page :: exn where "no_page = OtherError ''NoPage''"
definition live_no_page :: exn where "live_no_page = OtherError ''NoPageError''"
definition invalid_title :: exn where "invalid_title = OtherError ''InvalidTitleError''"
definition connection_error :: exn where "connection_error = OtherError ''redis.ConnectionError''"

subsection \<open>The cache\<close>

definition page_key :: "redis_page \<Rightarrow> string" where
  "page_key p = rp_wiki p @ ''.'' @ rp_language p @ ''/'' @
    (case rp_title p of None \<Rightarrow> ''None'' | Some t \<Rightarrow> t)"

text \<open>One Redis command; a failed one answers nothing but may have been executed.\<close>

definition cache_call ::
  "page_env \<Rightarrow> ((string \<times> string) list \<Rightarrow> (string \<times> string) list \<times> 'a) \<Rightarrow> 'w wiki_world \<Rightarrow> 'w wiki_world \<times> 'a option" where
  "cache_call E f w =
    (let n = ww_calls w; c = wx_others E n (ww_cache w) in
     case wx_io E n of
       Acked \<Rightarrow> (w\<lparr>ww_cache := fst (f c), ww_calls := Suc n\<rparr>, Some (snd (f c)))
     | Refused \<Rightarrow> (w\<lparr>ww_cache := c, ww_calls := Suc n\<rparr>, None)
     | Unacked \<Rightarrow> (w\<lparr>ww_cache := fst (f c), ww_calls := Suc n\<rparr>, None))"

definition get_cache_contents :: "page_env \<Rightarrow> redis_page \<Rightarrow> 'w wiki_world \<Rightarrow> 'w wiki_world \<times> string option" where
  "get_cache_contents E p w =
    (case cache_call E (\<lambda>c. (c, map_of c (page_key p))) w of
       (w', None) \<Rightarrow> (w', None) | (w', Some r) \<Rightarrow> (w', r))"

definition push_page :: "page_env \<Rightarrow> redis_page \<Rightarrow> string \<Rightarrow> 'w wiki_world \<Rightarrow> 'w wiki_world" where
  "push_page E p content w =
    (case rp_title p of
       None \<Rightarrow> w
     | Some t \<Rightarrow> fst (cache_call E (\<lambda>c. (AList.update (page_key p) content c, ())) w))"

subsection \<open>Live calls\<close>

definition reserve_start :: "page_env \<Rightarrow> 'w wiki_world \<Rightarrow> 'w wiki_world \<times> unit res" where
  "reserve_start E w =
    (let n = ww_calls w in
     case acquire (wx_limiter E) (wx_io E n) (wx_redis_time E n) (ww_limiter w) of
       (st, r) \<Rightarrow> (w\<lparr>ww_limiter := st, ww_calls := Suc n\<rparr>,
         case r of Inl e \<Rightarrow> Inl rate_limit_error | Inr seconds \<Rightarrow> Inr ()))"

definition observe :: "page_env \<Rightarrow> live_error \<Rightarrow> 'w wiki_world \<Rightarrow> 'w wiki_world \<times> unit res" where
  "observe E err w =
    (let n = ww_calls w in
     case observe_exception (wx_http_date E) (wx_clock E n) (le_chain err) 0 of
       Inl e \<Rightarrow> (w, Inl e)
     | Inr None \<Rightarrow> (w, Inr ())
     | Inr (Some retry) \<Rightarrow>
       (case extend_embargo (Finite retry) (wx_io E n) (wx_redis_time E n) (ww_limiter w) of
          (st, r) \<Rightarrow> (w\<lparr>ww_limiter := st, ww_calls := Suc n\<rparr>,
            case r of Inl e \<Rightarrow> Inl e | Inr (Inl e) \<Rightarrow> Inl rate_limit_error | Inr (Inr s) \<Rightarrow> Inr ())))"

definition call_live ::
  "page_env \<Rightarrow> ('w wiki_world \<Rightarrow> 'w wiki_world \<times> (live_error + 'a)) \<Rightarrow> 'w wiki_world \<Rightarrow> 'w wiki_world \<times> 'a res" where
  "call_live E operation w =
    (case reserve_start E w of
       (w1, Inl e) \<Rightarrow> (w1, Inl e)
     | (w1, Inr u) \<Rightarrow>
       (case operation w1 of
          (w2, Inr a) \<Rightarrow> (w2, Inr a)
        | (w2, Inl err) \<Rightarrow>
          (case observe E err w2 of
             (w3, Inl e) \<Rightarrow> (w3, Inl e)
           | (w3, Inr v) \<Rightarrow> (w3, Inl (le_exn err)))))"

definition on_wiki :: "('w \<Rightarrow> 'w \<times> 'a) \<Rightarrow> 'w wiki_world \<Rightarrow> 'w wiki_world \<times> 'a" where
  "on_wiki f w = (case f (ww_live w) of (v, r) \<Rightarrow> (w\<lparr>ww_live := v\<rparr>, r))"

subsection \<open>Reading a page\<close>

text \<open>The decorator \<open>retry_on_fail\<close>: \<open>retries + 1\<close> handled failures are tried again.\<close>

fun retry_on_fail :: "(exn \<Rightarrow> bool) \<Rightarrow> nat \<Rightarrow> ('s \<Rightarrow> 's \<times> 'a res) \<Rightarrow> 's \<Rightarrow> 's \<times> 'a res" where
  "retry_on_fail handled 0 f s = f s"
| "retry_on_fail handled (Suc n) f s =
    (case f s of
       (s', Inl e) \<Rightarrow> if handled e then retry_on_fail handled n f s' else (s', Inl e)
     | (s', Inr a) \<Rightarrow> (s', Inr a))"

definition get_once :: "page_env \<Rightarrow> 'w live_wiki \<Rightarrow> redis_page \<Rightarrow> bool \<Rightarrow> 'w wiki_world \<Rightarrow> 'w wiki_world \<times> string res" where
  "get_once E L p force_refresh w =
    (case rp_title p of
       None \<Rightarrow> (w, Inr [])
     | Some t \<Rightarrow>
       (case (if \<not> force_refresh \<or> rp_offline p then get_cache_contents E p w else (w, None)) of
          (w1, Some c) \<Rightarrow> (w1, Inr c)
        | (w1, None) \<Rightarrow>
          if rp_offline p then (w1, Inl no_page)
          else
            (case call_live E (on_wiki (lv_get L (Some t) force_refresh)) w1 of
               (w2, Inl e) \<Rightarrow> (w2, Inl (if e = live_no_page then no_page else e))
             | (w2, Inr content) \<Rightarrow> (push_page E p content w2, Inr content))))"

definition page_get :: "page_env \<Rightarrow> 'w live_wiki \<Rightarrow> redis_page \<Rightarrow> bool \<Rightarrow> 'w wiki_world \<Rightarrow> 'w wiki_world \<times> string res" where
  "page_get E L p force_refresh = retry_on_fail (\<lambda>e. e = connection_error) (5 + 1) (get_once E L p force_refresh)"

subsection \<open>Writing a page\<close>

definition assert_write_destination :: "redis_page \<Rightarrow> unit res" where
  "assert_write_destination p =
    (if rp_offline p then Inl unsafe_write
     else if rp_language p \<noteq> ''mg'' \<or> rp_wiki p \<noteq> ''wiktionary'' then Inl unsafe_write
     else Inr ())"

definition put_live ::
  "'w live_wiki \<Rightarrow> ('w wiki_world \<Rightarrow> 'w wiki_world \<times> (live_error + unit)) option \<Rightarrow> redis_page \<Rightarrow> string \<Rightarrow> string \<Rightarrow> dict
    \<Rightarrow> 'w wiki_world \<Rightarrow> 'w wiki_world \<times> (live_error + unit)" where
  "put_live L before p content summary options w =
    (case (case before of None \<Rightarrow> (w, Inr ()) | Some guard \<Rightarrow> guard w) of
       (w1, Inl e) \<Rightarrow> (w1, Inl e)
     | (w1, Inr u) \<Rightarrow>
       on_wiki (lv_put L (rp_title p) content summary options)
         (w1\<lparr>ww_writes := ww_writes w1 @ [PutPage (rp_title p) content options]\<rparr>))"

definition page_put ::
  "page_env \<Rightarrow> 'w live_wiki \<Rightarrow> ('w wiki_world \<Rightarrow> 'w wiki_world \<times> (live_error + unit)) option \<Rightarrow> redis_page \<Rightarrow> string \<Rightarrow> string
    \<Rightarrow> dict \<Rightarrow> 'w wiki_world \<Rightarrow> 'w wiki_world \<times> unit res" where
  "page_put E L before p content summary options w =
    (case assert_write_destination p of
       Inl e \<Rightarrow> (w, Inl e)
     | Inr u \<Rightarrow>
       (case call_live E (put_live L before p content summary options) w of
          (w1, Inl e) \<Rightarrow> (w1, Inl e)
        | (w1, Inr r) \<Rightarrow> (push_page E p content w1, Inr r)))"

definition delete_live :: "'w live_wiki \<Rightarrow> redis_page \<Rightarrow> string \<Rightarrow> 'w wiki_world \<Rightarrow> 'w wiki_world \<times> (live_error + unit)" where
  "delete_live L p reason w =
    on_wiki (lv_delete L (rp_title p) reason) (w\<lparr>ww_writes := ww_writes w @ [DeletePage (rp_title p)]\<rparr>)"

definition page_delete :: "page_env \<Rightarrow> 'w live_wiki \<Rightarrow> redis_page \<Rightarrow> string \<Rightarrow> 'w wiki_world \<Rightarrow> 'w wiki_world \<times> unit res" where
  "page_delete E L p reason w =
    (case assert_write_destination p of
       Inl e \<Rightarrow> (w, Inl e)
     | Inr u \<Rightarrow>
       (case call_live E (delete_live L p reason) w of
          (w1, Inl e) \<Rightarrow> (w1, Inl e)
        | (w1, Inr r) \<Rightarrow> (fst (cache_call E (\<lambda>c. (AList.delete (page_key p) c, ())) w1), Inr r)))"

subsection \<open>Asking about a page\<close>

definition max_redirection_depth :: nat where
  "max_redirection_depth = 10"

text \<open>The redirect loop with \<open>n\<close> links left before the page counts as missing.\<close>

fun follow_redirects ::
  "page_env \<Rightarrow> 'w live_wiki \<Rightarrow> nat \<Rightarrow> bool \<Rightarrow> string option \<Rightarrow> 'w wiki_world \<Rightarrow> 'w wiki_world \<times> bool res" where
  "follow_redirects E L n followed title w =
    (case call_live E (on_wiki (lv_is_redirect L title)) w of
       (w1, Inl e) \<Rightarrow> (w1, Inl e)
     | (w1, Inr False) \<Rightarrow>
         if followed then call_live E (on_wiki (lv_exists L title)) w1 else (w1, Inr True)
     | (w1, Inr True) \<Rightarrow>
         (case n of
            0 \<Rightarrow> (w1, Inr False)
          | Suc k \<Rightarrow>
            (case call_live E (on_wiki (lv_redirect_target L title)) w1 of
               (w2, Inl e) \<Rightarrow> (w2, Inl e)
             | (w2, Inr target) \<Rightarrow> follow_redirects E L k True target w2)))"

declare follow_redirects.simps [simp del]

definition page_exists_call :: "page_env \<Rightarrow> 'w live_wiki \<Rightarrow> redis_page \<Rightarrow> 'w wiki_world \<Rightarrow> 'w wiki_world \<times> bool res" where
  "page_exists_call E L p w =
    (case get_cache_contents E p w of
       (w1, Some c) \<Rightarrow> (w1, Inr True)
     | (w1, None) \<Rightarrow>
       if rp_offline p then (w1, Inr False)
       else
         (case call_live E (on_wiki (lv_exists L (rp_title p))) w1 of
            (w2, Inl e) \<Rightarrow> (w2, Inl e)
          | (w2, Inr False) \<Rightarrow> (w2, Inr False)
          | (w2, Inr True) \<Rightarrow> follow_redirects E L (max_redirection_depth - 1) False (rp_title p) w2))"

datatype page_space = SpaceId int | SpaceContent string

definition content_space :: "'w wiki_world \<times> string res \<Rightarrow> 'w wiki_world \<times> page_space res" where
  "content_space x = (case x of (w, r) \<Rightarrow> (w, bnd r (\<lambda>c. Inr (SpaceContent c))))"

definition page_space_call :: "page_env \<Rightarrow> 'w live_wiki \<Rightarrow> redis_page \<Rightarrow> 'w wiki_world \<Rightarrow> 'w wiki_world \<times> page_space res" where
  "page_space_call E L p w =
    (if rp_offline p then content_space (page_get E L p False w)
     else
       (case call_live E (on_wiki (lv_namespace L (rp_title p))) w of
          (w1, Inl e) \<Rightarrow>
            if e = invalid_title then content_space (page_get E L p False w1) else (w1, Inl e)
        | (w1, Inr n) \<Rightarrow> (w1, Inr (SpaceId n))))"

definition is_redirect_page :: "page_env \<Rightarrow> 'w live_wiki \<Rightarrow> redis_page \<Rightarrow> 'w wiki_world \<Rightarrow> 'w wiki_world \<times> bool res" where
  "is_redirect_page E L p w =
    (case get_cache_contents E p w of
       (w1, Some c) \<Rightarrow> (w1, Inr (contains c ''#REDIRECT [[''))
     | (w1, None) \<Rightarrow>
       if rp_offline p then (w1, Inr False)
       else call_live E (on_wiki (lv_is_redirect L (rp_title p))) w1)"

definition get_redirect_target ::
  "page_env \<Rightarrow> 'w live_wiki \<Rightarrow> redis_page \<Rightarrow> 'w wiki_world \<Rightarrow> 'w wiki_world \<times> string option res" where
  "get_redirect_target E L p w =
    (if rp_offline p then (w, Inl no_page)
     else call_live E (on_wiki (lv_redirect_target L (rp_title p))) w)"

end
