(* ===== verification/WikiWorker.thy ===== *)
theory WikiWorker
  imports WikiPages ReviewService
begin

text \<open>
  The worker of the edit queue, \<open>rabbitmq_pywikibot.py\<close>: reading a message, saving it to the
  wiki, and what happens to the delivery.  Sleeping, printing and the connection to
  RabbitMQ are left out.
\<close>

subsection \<open>A message\<close>

definition max_queued_bytes :: nat where
  "max_queued_bytes = 16 * 1024 * 1024"

record edit =
  ed_page :: string
  ed_content :: string
  ed_summary :: string
  ed_minor :: bool
  ed_action :: string
  ed_expected :: "string option"

fun valid_queued_title :: "json \<Rightarrow> bool" where
  "valid_queued_title (JStr s) \<longleftrightarrow>
    s \<noteq> [] \<and> s = strip s \<and> length s \<le> 512 \<and> \<not> list_ex (\<lambda>c. code c < 32) s"
| "valid_queued_title v \<longleftrightarrow> False"

text \<open>
  The first \<open>try\<close> of \<open>callback\<close>, up to its exception: every one of them has the same fate.  An
  action that is a list or an object raises in the membership test.
\<close>

definition edit_fields_ok :: "dict \<Rightarrow> json \<Rightarrow> bool" where
  "edit_fields_ok d action \<longleftrightarrow>
    dget ''language'' d = JStr ''mg'' \<and> dget ''site'' d = JStr ''wiktionary'' \<and>
    valid_queued_title (dget ''page'' d) \<and> is_str (dget ''content'' d) \<and> is_str (dget ''summary'' d) \<and>
    is_bool (dget ''minor'' d) \<and> action \<in> {JStr ''edit'', JStr ''delete''} \<and>
    (dhas ''expected_content_sha256'' d \<longrightarrow> is_sha256 (dget ''expected_content_sha256'' d))"

definition read_edit :: "body \<Rightarrow> edit option" where
  "read_edit body =
    (if max_queued_bytes < body_bytes body then None
     else case loads (body_text body) of
       Inr (JDict d) \<Rightarrow>
         let action = dget_or ''action'' (JStr ''edit'') d in
         if \<not> list_all (\<lambda>k. dhas k d) [''page'', ''content'', ''summary'', ''minor''] then None
         else if \<not> edit_fields_ok d action then None
         else Some \<lparr>ed_page = py_str (dget ''page'' d), ed_content = py_str (dget ''content'' d),
           ed_summary = py_str (dget ''summary'' d), ed_minor = truthy (dget ''minor'' d),
           ed_action = py_str action,
           ed_expected = (if dhas ''expected_content_sha256'' d
             then Some (py_str (dget ''expected_content_sha256'' d)) else None)\<rparr>
     | _ \<Rightarrow> None)"

subsection \<open>Saving\<close>

definition worker_page :: "bool \<Rightarrow> string \<Rightarrow> redis_page" where
  "worker_page test_mode title =
    \<lparr>rp_language = ''mg'', rp_wiki = ''wiktionary'', rp_offline = test_mode, rp_title = Some title\<rparr>"

definition default_summary :: "string \<Rightarrow> string" where
  "default_summary content =
    ''Pejy noforonina amin'' @ [CHR 0x27] @ ''ny '' @ [char_of (171::nat)] @ '' '' @ content @ '' '' @ [char_of (187::nat)]"

definition edit_summary ::
  "page_env \<Rightarrow> 'w live_wiki \<Rightarrow> redis_page \<Rightarrow> string \<Rightarrow> string \<Rightarrow> 'w wiki_world \<Rightarrow> 'w wiki_world \<times> string res" where
  "edit_summary E L p content summary w =
    (if strip summary \<noteq> [] then (w, Inr summary)
     else case page_exists_call E L p w of
       (w1, r) \<Rightarrow> (w1, bnd r (\<lambda>found. Inr (if found then ''fanitsiana'' else default_summary content))))"

definition write_options :: "bool \<Rightarrow> string option \<Rightarrow> dict" where
  "write_options minor expected =
    (let options = [(''force'', JBool True), (''minor'', JBool minor)] in
     case expected of
       None \<Rightarrow> options
     | Some s \<Rightarrow> dset ''recreate'' (JBool False) (dset ''nocreate'' (JBool True) options))"

text \<open>Whether the page still has the content that was reviewed; a missing page has not.\<close>

definition content_matches ::
  "review_code \<Rightarrow> page_env \<Rightarrow> 'w live_wiki \<Rightarrow> redis_page \<Rightarrow> string option \<Rightarrow> 'w wiki_world \<Rightarrow> 'w wiki_world \<times> bool res" where
  "content_matches C E L p expected w =
    (case expected of
       None \<Rightarrow> (w, Inr True)
     | Some expected_sha \<Rightarrow>
       (case page_get E L p True w of
          (w1, Inl e) \<Rightarrow> (w1, if e = no_page then Inr False else Inl e)
        | (w1, Inr current) \<Rightarrow> (w1, Inr (sha C current = expected_sha))))"

definition save_to_wiki ::
  "review_code \<Rightarrow> page_env \<Rightarrow> 'w live_wiki \<Rightarrow> bool \<Rightarrow> edit \<Rightarrow> 'w wiki_world \<Rightarrow> 'w wiki_world \<times> bool res" where
  "save_to_wiki C E L test_mode ed w =
    (let p = worker_page test_mode (ed_page ed) in
     case edit_summary E L p (ed_content ed) (ed_summary ed) w of
       (w1, Inl e) \<Rightarrow> (w1, Inl e)
     | (w1, Inr summary) \<Rightarrow>
       if ed_action ed = ''edit''
       then
         (case content_matches C E L p (ed_expected ed) w1 of
            (w2, Inl e) \<Rightarrow> (w2, Inl e)
          | (w2, Inr False) \<Rightarrow> (w2, Inr False)
          | (w2, Inr True) \<Rightarrow>
            (case page_put E L None p (ed_content ed) summary (write_options (ed_minor ed) (ed_expected ed)) w2 of
               (w3, Inl e) \<Rightarrow> (w3, Inl e)
             | (w3, Inr u) \<Rightarrow> (w3, Inr True)))
       else if ed_action ed = ''delete''
       then
         (case page_delete E L p ''Hadisoana teo amim-pamoronana ilay pejy'' w1 of
            (w2, Inl e) \<Rightarrow> (w2, Inl e)
          | (w2, Inr u) \<Rightarrow> (w2, Inr True))
       else (w1, Inl ValueError))"

subsection \<open>The delivery\<close>

datatype fate = Ack | Nack bool

definition worker_callback ::
  "review_code \<Rightarrow> page_env \<Rightarrow> 'w live_wiki \<Rightarrow> bool \<Rightarrow> body \<Rightarrow> bool \<Rightarrow> 'w wiki_world \<Rightarrow> 'w wiki_world \<times> fate" where
  "worker_callback C E L test_mode body redelivered w =
    (case read_edit body of
       None \<Rightarrow> (w, Nack False)
     | Some ed \<Rightarrow>
       (case save_to_wiki C E L test_mode ed w of
          (w1, Inl e) \<Rightarrow> (w1, Nack (e = rate_limit_error \<or> \<not> redelivered))
        | (w1, Inr saved) \<Rightarrow> (w1, Ack)))"

text \<open>
  The consumer with one unacknowledged message: RabbitMQ puts a message that is to be
  requeued back in its place, marked as redelivered.
\<close>

definition consume_next ::
  "review_code \<Rightarrow> page_env \<Rightarrow> 'w live_wiki \<Rightarrow> bool \<Rightarrow> 'w wiki_world \<times> (body \<times> bool) list \<Rightarrow> 'w wiki_world \<times> (body \<times> bool) list" where
  "consume_next C E L test_mode s =
    (case s of
       (w, []) \<Rightarrow> (w, [])
     | (w, (body, redelivered) # rest) \<Rightarrow>
       (case worker_callback C E L test_mode body redelivered w of
          (w1, Nack True) \<Rightarrow> (w1, (body, True) # rest)
        | (w1, r) \<Rightarrow> (w1, rest)))"

end
