(* ===== verification/WikiWorkerProps.thy ===== *)
theory WikiWorkerProps
  imports WikiWorker
begin

text \<open>
  What the worker and the cached pages promise: an edit that names the content it was made
  for is only saved on top of that content, deliveries are settled, and what was written is
  what is read.
\<close>

subsection \<open>Calls leave the rest alone\<close>

text \<open>What a call may change: not the ghost of writes, and not the wiki's own state.\<close>

definition same_wiki :: "'w wiki_world \<Rightarrow> 'w wiki_world \<Rightarrow> bool" where
  "same_wiki w w' \<longleftrightarrow> ww_live w' = ww_live w \<and> ww_writes w' = ww_writes w"

definition no_writes :: "'w wiki_world \<Rightarrow> 'w wiki_world \<Rightarrow> bool" where
  "no_writes w w' \<longleftrightarrow> ww_writes w' = ww_writes w"

lemma same_wiki_refl [simp]: "same_wiki w w" and no_writes_refl [simp]: "no_writes w w"
  by (simp_all add: same_wiki_def no_writes_def)

lemma same_wiki_trans: "same_wiki w w1 \<Longrightarrow> same_wiki w1 w2 \<Longrightarrow> same_wiki w w2"
  by (simp add: same_wiki_def)

lemma no_writes_trans: "no_writes w w1 \<Longrightarrow> no_writes w1 w2 \<Longrightarrow> no_writes w w2"
  by (simp add: no_writes_def)

lemma same_no_writes: "same_wiki w w' \<Longrightarrow> no_writes w w'"
  by (simp add: same_wiki_def no_writes_def)

lemma cache_call_same: "cache_call E f w = (w', r) \<Longrightarrow> same_wiki w w'"
  by (auto simp: cache_call_def Let_def same_wiki_def split: io.splits)

lemma get_cache_same: "get_cache_contents E p w = (w', r) \<Longrightarrow> same_wiki w w'"
  by (auto simp: get_cache_contents_def split: prod.splits option.splits dest: cache_call_same)

lemma push_page_same: "same_wiki w (push_page E p content w)"
  by (cases "rp_title p") (simp_all add: push_page_def cache_call_same [OF prod.collapse [symmetric]])

lemma reserve_same: "reserve_start E w = (w', r) \<Longrightarrow> same_wiki w w'"
  by (auto simp: reserve_start_def Let_def same_wiki_def split: prod.splits)

lemma observe_same: "observe E err w = (w', r) \<Longrightarrow> same_wiki w w'"
  by (auto simp: observe_def Let_def same_wiki_def split: sum.splits option.splits prod.splits)

text \<open>The live call: the operation runs on the same wiki, and its outcome passes through.\<close>

lemma call_live_cases:
  assumes "call_live E operation w = (w', r)"
  obtains (refused) e where "same_wiki w w'" "r = Inl e"
    | (ran) w1 a where "same_wiki w w1" "operation w1 = (w', Inr a)" "r = Inr a"
    | (failed) w1 w2 err e where "same_wiki w w1" "operation w1 = (w2, Inl err)" "same_wiki w2 w'" "r = Inl e"
proof (cases "reserve_start E w")
  case (Pair w1 r1)
  note same = reserve_same [OF Pair]
  show thesis
  proof (cases r1)
    case (Inl e)
    with Pair assms same show thesis by (intro refused [of e]) (simp_all add: call_live_def)
  next
    case (Inr u)
    obtain w2 r2 where o: "operation w1 = (w2, r2)" by (cases "operation w1")
    show thesis
    proof (cases r2)
      case (Inl err)
      obtain w3 r3 where b: "observe E err w2 = (w3, r3)" by (cases "observe E err w2")
      have "w' = w3" "\<exists>e. r = Inl e"
        using assms Pair Inr o Inl b by (auto simp: call_live_def split: sum.splits)
      with failed [OF same _ _ ] o Inl observe_same [OF b] show thesis by blast
    next
      case (Inr a)
      with \<open>r1 = Inr u\<close> assms Pair o same show thesis by (intro ran [of w1 a]) (simp_all add: call_live_def)
    qed
  qed
qed

lemma on_wiki_no_writes: "on_wiki f w = (w', r) \<Longrightarrow> no_writes w w'"
  by (auto simp: on_wiki_def no_writes_def split: prod.splits)

lemma live_read_no_writes: "call_live E (on_wiki f) w = (w', r) \<Longrightarrow> no_writes w w'"
  by (erule call_live_cases)
    (auto dest!: on_wiki_no_writes same_no_writes intro: no_writes_trans)

lemma get_once_no_writes:
  assumes "get_once E L p force w = (w', r)"
  shows "no_writes w w'"
proof (cases "rp_title p")
  case None
  with assms show ?thesis by (simp add: get_once_def)
next
  case (Some t)
  obtain w1 c where c: "(if \<not> force \<or> rp_offline p then get_cache_contents E p w else (w, None)) = (w1, c)"
    by (cases "if \<not> force \<or> rp_offline p then get_cache_contents E p w else (w, None)")
  have 1: "no_writes w w1" using c by (auto split: if_splits dest: get_cache_same same_no_writes)
  obtain w2 r2 where l: "call_live E (on_wiki (lv_get L (Some t) force)) w1 = (w2, r2)"
    by (cases "call_live E (on_wiki (lv_get L (Some t) force)) w1")
  have "w' = w1 \<or> w' = w2 \<or> (\<exists>x. w' = push_page E p x w2)"
    using assms Some c l by (auto simp: get_once_def split: option.splits if_splits sum.splits)
  with 1 live_read_no_writes [OF l] same_no_writes [OF push_page_same [of w2 E p]] show ?thesis
    using no_writes_trans by blast
qed

lemma retry_keeps:
  assumes "\<And>s s' r. f s = (s', r) \<Longrightarrow> R s s'" and "\<And>a b c. R a b \<Longrightarrow> R b c \<Longrightarrow> R a c"
  shows "retry_on_fail handled n f s = (s', r) \<Longrightarrow> R s s'"
proof (induction n arbitrary: s)
  case 0
  then show ?case using assms(1) by simp
next
  case (Suc n)
  obtain s1 r1 where f: "f s = (s1, r1)" by (cases "f s")
  from assms(1) [OF f] have "R s s1" .
  with Suc f show ?case by (auto split: sum.splits if_splits intro: assms(2))
qed

lemma page_get_no_writes: "page_get E L p force w = (w', r) \<Longrightarrow> no_writes w w'"
  unfolding page_get_def by (rule retry_keeps [OF get_once_no_writes no_writes_trans])

lemma follow_no_writes: "follow_redirects E L n b title w = (w', r) \<Longrightarrow> no_writes w w'"
proof (induction n arbitrary: b title w)
  case 0
  obtain w1 r1 where a: "call_live E (on_wiki (lv_is_redirect L title)) w = (w1, r1)"
    by (cases "call_live E (on_wiki (lv_is_redirect L title)) w")
  have "w' = w1 \<or> call_live E (on_wiki (lv_exists L title)) w1 = (w', r)"
    using 0 a by (subst (asm) follow_redirects.simps) (auto split: sum.splits bool.splits if_splits)
  with live_read_no_writes [OF a] show ?case using live_read_no_writes no_writes_trans by blast
next
  case (Suc n)
  obtain w1 r1 where a: "call_live E (on_wiki (lv_is_redirect L title)) w = (w1, r1)"
    by (cases "call_live E (on_wiki (lv_is_redirect L title)) w")
  obtain w2 r2 where t: "call_live E (on_wiki (lv_redirect_target L title)) w1 = (w2, r2)"
    by (cases "call_live E (on_wiki (lv_redirect_target L title)) w1")
  have "w' = w1 \<or> call_live E (on_wiki (lv_exists L title)) w1 = (w', r) \<or> w' = w2 \<or>
      (\<exists>target. follow_redirects E L n True target w2 = (w', r))"
    using Suc.prems a t by (subst (asm) follow_redirects.simps)
      (auto split: sum.splits bool.splits if_splits)
  with live_read_no_writes [OF a] live_read_no_writes [OF t] show ?case
    by (auto simp: no_writes_def dest: live_read_no_writes [unfolded no_writes_def] Suc.IH [unfolded no_writes_def])
qed

lemma page_exists_no_writes:
  assumes "page_exists_call E L p w = (w', r)"
  shows "no_writes w w'"
proof -
  obtain w1 c where c: "get_cache_contents E p w = (w1, c)" by (cases "get_cache_contents E p w")
  obtain w2 r2 where x: "call_live E (on_wiki (lv_exists L (rp_title p))) w1 = (w2, r2)"
    by (cases "call_live E (on_wiki (lv_exists L (rp_title p))) w1")
  have "w' = w1 \<or> w' = w2 \<or> follow_redirects E L (max_redirection_depth - 1) False (rp_title p) w2 = (w', r)"
    using assms c x by (auto simp: page_exists_call_def 
        split: option.splits if_splits sum.splits bool.splits)
  with same_no_writes [OF get_cache_same [OF c]] live_read_no_writes [OF x] show ?thesis
    by (auto simp: no_writes_def dest: follow_no_writes [unfolded no_writes_def])
qed

lemma edit_summary_no_writes: "edit_summary E L p content summary w = (w', r) \<Longrightarrow> no_writes w w'"
  by (auto simp: edit_summary_def split: if_splits prod.splits dest: page_exists_no_writes)

subsection \<open>Guarded writes\<close>

text \<open>
  What Pywikibot and the MediaWiki API document: a forced read loads the latest revision into
  the page object, and a save through that object is refused as an edit conflict unless the
  page's latest revision is still the one it loaded.  \<open>history\<close> is the list of a page's texts,
  newest first, and \<open>based\<close> the history the page object has loaded.
\<close>

definition guarded_writes ::
  "'w live_wiki \<Rightarrow> ('w \<Rightarrow> string option \<Rightarrow> string list) \<Rightarrow> ('w \<Rightarrow> string option \<Rightarrow> string list option) \<Rightarrow> bool" where
  "guarded_writes L history based \<longleftrightarrow>
    (\<forall>t v v' text. lv_get L t True v = (v', Inr text) \<longrightarrow> (\<exists>h. based v' t = Some (text # h))) \<and>
    (\<forall>t text summary options v v' h. based v t = Some h \<and> lv_put L t text summary options v = (v', Inr ()) \<longrightarrow>
      (\<exists>later. history v' t = later @ text # h))"

lemma retry_result:
  "retry_on_fail handled n f s = (s', Inr a) \<Longrightarrow> \<exists>s1. f s1 = (s', Inr a)"
  by (induction n arbitrary: s) (auto split: prod.splits sum.splits if_splits)

lemma page_get_based:
  assumes "guarded_writes L history based" and "page_get E L p True w = (w', Inr text)"
    and "\<not> rp_offline p" and "rp_title p = Some t"
  shows "\<exists>h. based (ww_live w') (Some t) = Some (text # h)"
proof -
  obtain w0 where g: "get_once E L p True w0 = (w', Inr text)"
    using retry_result [OF assms(2) [unfolded page_get_def]] by blast
  obtain w2 r2 where l: "call_live E (on_wiki (lv_get L (Some t) True)) w0 = (w2, r2)"
    by (cases "call_live E (on_wiki (lv_get L (Some t) True)) w0")
  have r2: "r2 = Inr text" and w': "w' = push_page E p text w2"
    using g assms(3,4) l by (auto simp: get_once_def split: sum.splits)
  from l obtain w1 where "on_wiki (lv_get L (Some t) True) w1 = (w2, Inr text)"
    by (rule call_live_cases) (use r2 in auto)
  then have "lv_get L (Some t) True (ww_live w1) = (ww_live w2, Inr text)"
    by (auto simp: on_wiki_def split: prod.splits)
  moreover have "ww_live w' = ww_live w2" using push_page_same [of w2 E p "text"] by (simp add: w' same_wiki_def)
  ultimately show ?thesis using assms(1) unfolding guarded_writes_def by metis
qed

lemma page_put_cases:
  assumes "page_put E L None p content summary options w = (w', r)"
  obtains (unwritten) e where "no_writes w w'" "r = Inl e"
    | (written) "\<not> rp_offline p" "lv_put L (rp_title p) content summary options (ww_live w) = (ww_live w', Inr ())"
        "ww_writes w' = ww_writes w @ [PutPage (rp_title p) content options]" "r = Inr ()"
    | (tried) e where "\<not> rp_offline p" "ww_writes w' = ww_writes w @ [PutPage (rp_title p) content options]" "r = Inl e"
proof (cases "assert_write_destination p")
  case (Inl e)
  with assms show thesis by (intro unwritten [of e]) (simp_all add: page_put_def)
next
  case (Inr u)
  then have off: "\<not> rp_offline p" by (auto simp: assert_write_destination_def split: if_splits)
  obtain w1 r1 where l: "call_live E (put_live L None p content summary options) w = (w1, r1)"
    by (cases "call_live E (put_live L None p content summary options) w")
  have push: "ww_live (push_page E p content w1) = ww_live w1" "ww_writes (push_page E p content w1) = ww_writes w1"
    using push_page_same [of w1 E p content] by (simp_all add: same_wiki_def)
  have r: "w' = (case r1 of Inl e \<Rightarrow> w1 | Inr a \<Rightarrow> push_page E p content w1)" "r = r1"
    using assms Inr l by (auto simp: page_put_def split: sum.splits)
  from l show thesis
  proof (cases rule: call_live_cases)
    case (refused e)
    with r same_no_writes show thesis by (intro unwritten [of e]) auto
  next
    case (ran w2 a)
    then have "lv_put L (rp_title p) content summary options (ww_live w) = (ww_live w1, Inr ())"
      "ww_writes w1 = ww_writes w @ [PutPage (rp_title p) content options]"
      by (auto simp: put_live_def on_wiki_def same_wiki_def split: prod.splits)
    with r ran off push show thesis by (intro written) auto
  next
    case (failed w2 w3 err e)
    then have "ww_writes w1 = ww_writes w @ [PutPage (rp_title p) content options]"
      by (auto simp: put_live_def on_wiki_def same_wiki_def split: prod.splits)
    with r failed off show thesis by (intro tried [of e]) auto
  qed
qed

lemma content_matches_no_writes: "content_matches C E L p expected w = (w', r) \<Longrightarrow> no_writes w w'"
  by (auto simp: content_matches_def split: option.splits prod.splits sum.splits dest: page_get_no_writes)

text \<open>An edit with an expected hash: skipped, tried, or saved on the text with that hash.\<close>

lemma guarded_save:
  assumes guard: "guarded_writes L history based" and ed: "ed_action ed = ''edit''" "ed_expected ed = Some expected"
    and save: "save_to_wiki C E L test_mode ed w = (w', r)"
  obtains (skipped) "no_writes w w'"
    | (tried) options e where "ww_writes w' = ww_writes w @ [PutPage (Some (ed_page ed)) (ed_content ed) options]"
        "dget ''nocreate'' options = JBool True" "r = Inl e"
    | (saved) options current h later where
        "ww_writes w' = ww_writes w @ [PutPage (Some (ed_page ed)) (ed_content ed) options]"
        "dget ''nocreate'' options = JBool True" "sha C current = expected"
        "history (ww_live w') (Some (ed_page ed)) = later @ ed_content ed # current # h" "r = Inr True"
proof -
  let ?p = "worker_page test_mode (ed_page ed)"
  have t: "rp_title ?p = Some (ed_page ed)" by (simp add: worker_page_def)
  obtain w1 r1 where s: "edit_summary E L ?p (ed_content ed) (ed_summary ed) w = (w1, r1)"
    by (cases "edit_summary E L ?p (ed_content ed) (ed_summary ed) w")
  note w1 = edit_summary_no_writes [OF s]
  show thesis
  proof (cases r1)
    case (Inl e)
    with save s w1 show thesis by (intro skipped) (simp add: save_to_wiki_def)
  next
    case (Inr summary)
    obtain w2 r2 where m: "content_matches C E L ?p (ed_expected ed) w1 = (w2, r2)"
      by (cases "content_matches C E L ?p (ed_expected ed) w1")
    note w2 = no_writes_trans [OF w1 content_matches_no_writes [OF m]]
    show thesis
    proof (cases "r2 = Inr True")
      case False
      then have "w' = w2" using save s Inr ed(1) m by (auto simp: save_to_wiki_def split: sum.splits bool.splits)
      with w2 show thesis by (intro skipped) simp
    next
      case True
      let ?options = "write_options (ed_minor ed) (ed_expected ed)"
      obtain w3 r3 where p: "page_put E L None ?p (ed_content ed) summary ?options w2 = (w3, r3)"
        by (cases "page_put E L None ?p (ed_content ed) summary ?options w2")
      have r: "w' = w3" "r = (case r3 of Inl e \<Rightarrow> Inl e | Inr u \<Rightarrow> Inr True)"
        using save s Inr ed(1) m True p by (auto simp: save_to_wiki_def split: sum.splits)
      have o: "dget ''nocreate'' ?options = JBool True" by (simp add: write_options_def ed(2) Let_def)
      obtain current where g: "page_get E L ?p True w1 = (w2, Inr current)" "sha C current = expected"
        using m True ed(2) by (auto simp: content_matches_def split: prod.splits sum.splits if_splits)
      have w: "ww_writes w2 = ww_writes w" using w2 by (simp add: no_writes_def)
      from p show thesis
      proof (cases rule: page_put_cases)
        case (unwritten e)
        with w2 r show thesis using no_writes_trans by (intro skipped) blast
      next
        case written
        obtain h where "based (ww_live w2) (Some (ed_page ed)) = Some (current # h)"
          using page_get_based [OF guard g(1) written(1) t] by blast
        then obtain later where "history (ww_live w3) (Some (ed_page ed)) = later @ ed_content ed # current # h"
          using guard written(2) unfolding guarded_writes_def t by blast
        with written r o g(2) w t show thesis by (intro saved) auto
      next
        case (tried e)
        with r o w t that(2) show thesis by auto
      qed
    qed
  qed
qed

subsection \<open>A wiki\<close>

type_synonym small_wiki = "(string option \<Rightarrow> string list) \<times> (string option \<Rightarrow> string list option)"

definition plain_error :: "exn \<Rightarrow> live_error" where
  "plain_error e = \<lparr>le_exn = e, le_chain = [\<lparr>attrs = [], hdrs = None, response = None, cause = None, ctxt = None,
     type_name = ''Error''\<rparr>]\<rparr>"

definition small_get :: "string option \<Rightarrow> bool \<Rightarrow> small_wiki \<Rightarrow> small_wiki \<times> (live_error + string)" where
  "small_get t force s = (case s of (h, b) \<Rightarrow> (case h t of
     [] \<Rightarrow> (s, Inl (plain_error live_no_page))
   | c # r \<Rightarrow> ((h, b(t := Some (c # r))), Inr c)))"

definition small_put :: "string option \<Rightarrow> string \<Rightarrow> string \<Rightarrow> dict \<Rightarrow> small_wiki \<Rightarrow> small_wiki \<times> (live_error + unit)" where
  "small_put t content summary options s = (case s of (h, b) \<Rightarrow>
     if b t = None \<or> b t = Some (h t)
     then ((h(t := content # h t), b(t := Some (content # h t))), Inr ())
     else (s, Inl (plain_error (OtherError ''EditConflictError''))))"

definition small_live :: "small_wiki live_wiki" where
  "small_live = \<lparr>lv_get = small_get, lv_put = small_put, lv_delete = (\<lambda>t r s. (s, Inr ())),
     lv_exists = (\<lambda>t s. (s, Inr (fst s t \<noteq> []))), lv_is_redirect = (\<lambda>t s. (s, Inr False)),
     lv_redirect_target = (\<lambda>t s. (s, Inr t)), lv_namespace = (\<lambda>t s. (s, Inr 0))\<rparr>"

lemma small_guarded: "guarded_writes small_live fst snd"
  by (auto simp: guarded_writes_def small_live_def small_get_def small_put_def split: list.splits if_splits)

definition small_env :: page_env where
  "small_env = \<lparr>wx_limiter = \<lparr>interval_us = 0, max_wait_seconds = 30, max_wait_us = 30000000\<rparr>,
     wx_io = (\<lambda>n. Acked), wx_redis_time = (\<lambda>n. 0), wx_clock = (\<lambda>n. 0), wx_http_date = (\<lambda>s. None),
     wx_others = (\<lambda>n c. c)\<rparr>"

definition small_world :: "small_wiki wiki_world" where
  "small_world = \<lparr>ww_cache = [], ww_limiter = idle_limiter,
     ww_live = ((\<lambda>t. if t = Some ''vary'' then [''old''] else []), (\<lambda>t. None)), ww_calls = 0, ww_writes = []\<rparr>"

subsection \<open>What is written is read\<close>

text \<open>
  C29: A page that was put is read back: after a successful \<open>put\<close> whose update of the cache
  reached Redis, \<open>get\<close> answers the written text and \<open>exists\<close> answers \<open>True\<close>, both from the
  cache, without a live call and without changing the wiki, as long as no other process
  touched the cache in between.
\<close>

theorem written_page_is_read_back:
  assumes "page_put E L before p content summary options w = (w', Inr ())" and "rp_title p = Some t"
    and "wx_io E (ww_calls w' - 1) = Acked" and "wx_io E (ww_calls w') = Acked"
    and "wx_others E (ww_calls w') (ww_cache w') = ww_cache w'"
  shows "page_get E L p False w' = (w'\<lparr>ww_calls := Suc (ww_calls w')\<rparr>, Inr content) \<and>
    page_exists_call E L p w' = (w'\<lparr>ww_calls := Suc (ww_calls w')\<rparr>, Inr True)"
proof -
  obtain w1 where w': "w' = push_page E p content w1"
    using assms(1) by (auto simp: page_put_def split: sum.splits prod.splits)
  have n: "ww_calls w' = Suc (ww_calls w1)"
    using assms(2) by (simp add: w' push_page_def cache_call_def Let_def split: io.splits)
  then have "ww_cache w' = AList.update (page_key p) content (wx_others E (ww_calls w1) (ww_cache w1))"
    using assms(2,3) by (simp add: w' push_page_def cache_call_def Let_def)
  then have m: "map_of (ww_cache w') (page_key p) = Some content" by (simp add: update_conv)
  have "get_cache_contents E p w' = (w'\<lparr>ww_calls := Suc (ww_calls w')\<rparr>, Some content)"
    using assms(4,5) m by (simp add: get_cache_contents_def cache_call_def Let_def)
  then show ?thesis
    using assms(2) by (simp add: page_get_def get_once_def page_exists_call_def numeral_eq_Suc)
qed

lemma small_put_runs:
  "\<exists>w'. page_put small_env small_live None (worker_page False ''vary'') ''new'' ''s'' [] small_world = (w', Inr ()) \<and>
    ww_calls w' = 2"
  by (simp add: page_put_def assert_write_destination_def worker_page_def call_live_def reserve_start_def Let_def
      acquire_def small_env_def reserve_script_def small_world_def idle_limiter_def read_key_def put_live_def
      on_wiki_def small_live_def small_put_def push_page_def cache_call_def)

lemma written_page_is_read_back_witness:
  "\<exists>w' w''. page_put small_env small_live None (worker_page False ''vary'') ''new'' ''s'' [] small_world = (w', Inr ()) \<and>
    page_get small_env small_live (worker_page False ''vary'') False w' = (w'', Inr ''new'')"
proof -
  obtain w' where w': "page_put small_env small_live None (worker_page False ''vary'') ''new'' ''s'' [] small_world = (w', Inr ())"
    using small_put_runs by blast
  have "rp_title (worker_page False ''vary'') = Some ''vary''" by (simp add: worker_page_def)
  moreover have "wx_io small_env n = Acked" "wx_others small_env n c = c" for n c by (simp_all add: small_env_def)
  ultimately show ?thesis using written_page_is_read_back [OF w'] w' by blast
qed

subsection \<open>Deliveries\<close>

text \<open>The head of the queue failed again because the limiter refused.\<close>

definition limited ::
  "review_code \<Rightarrow> page_env \<Rightarrow> 'w live_wiki \<Rightarrow> bool \<Rightarrow> 'w wiki_world \<times> (body \<times> bool) list \<Rightarrow> bool" where
  "limited C E L test_mode s \<longleftrightarrow> (case s of (w, (body, True) # rest) \<Rightarrow>
     snd (worker_callback C E L test_mode body True w) = Nack True | _ \<Rightarrow> False)"

definition tries_left :: "(body \<times> bool) list \<Rightarrow> nat" where
  "tries_left q = sum_list (map (\<lambda>x. if snd x then 1 else 2) q)"

lemma consume_cases:
  assumes "consume_next C E L test_mode (w, (body, again) # rest) = (w', q)"
  obtains (settled) fate where "worker_callback C E L test_mode body again w = (w', fate)" "fate \<noteq> Nack True" "q = rest"
    | (requeued) "worker_callback C E L test_mode body again w = (w', Nack True)" "q = (body, True) # rest"
  using assms
  by (cases "worker_callback C E L test_mode body again w"; cases "snd (worker_callback C E L test_mode body again w)")
    (auto simp: consume_next_def split: bool.splits)

lemma consume_decreases:
  assumes "\<not> limited C E L test_mode s" and "snd s \<noteq> []"
  shows "tries_left (snd (consume_next C E L test_mode s)) < tries_left (snd s)"
proof -
  obtain w body again rest where s: "s = (w, (body, again) # rest)"
    using assms(2) by (cases s) (auto simp: neq_Nil_conv)
  obtain w' q where c: "consume_next C E L test_mode s = (w', q)" by (cases "consume_next C E L test_mode s")
  from c [unfolded s] show ?thesis
  proof (cases rule: consume_cases)
    case settled
    with c show ?thesis by (simp add: s tries_left_def)
  next
    case requeued
    then have "\<not> again" using assms(1) by (cases again) (simp_all add: limited_def s)
    with requeued c show ?thesis by (simp add: s tries_left_def)
  qed
qed

lemma consume_run:
  assumes "\<forall>k < n. \<not> limited C E L test_mode ((consume_next C E L test_mode ^^ k) s)"
  shows "tries_left (snd ((consume_next C E L test_mode ^^ n) s)) \<le> tries_left (snd s) - n"
  using assms
proof (induction n)
  case (Suc n)
  let ?s = "(consume_next C E L test_mode ^^ n) s"
  have "tries_left (snd ?s) \<le> tries_left (snd s) - n" using Suc by simp
  moreover have "tries_left (snd (consume_next C E L test_mode ?s)) \<le> tries_left (snd ?s) - 1"
  proof (cases "snd ?s = []")
    case True
    then obtain w where "?s = (w, [])" by (metis prod.collapse)
    then show ?thesis by (simp add: consume_next_def tries_left_def)
  next
    case False
    with consume_decreases [of C E L test_mode ?s] Suc.prems show ?thesis by fastforce
  qed
  ultimately show ?case by simp
qed simp

lemma tries_left_0: "tries_left q = 0 \<longleftrightarrow> q = []"
  by (cases q) (auto simp: tries_left_def)

lemma tries_left_le: "tries_left q \<le> 2 * length q"
  by (induction q) (auto simp: tries_left_def)

text \<open>
  C30: The edit queue is settled in order.  One step either removes the first message,
  because it was saved or skipped, or is not a valid edit, or failed a second time for
  another reason than the limiter; or it keeps it in its place, marked as redelivered.
  So \<open>2 n\<close> deliveries empty a queue of \<open>n\<close> messages unless the rate limiter refuses a redelivery.
\<close>

theorem edit_queue_is_settled:
  assumes "consume_next C E L test_mode (w, (body, again) # rest) = (w', q)"
    and "\<forall>k < n. \<not> limited C E L test_mode ((consume_next C E L test_mode ^^ k) s)"
    and "2 * length (snd s) \<le> n"
  shows "(q = rest \<and> (read_edit body = None \<and> w' = w \<or>
      (\<exists>ed r. read_edit body = Some ed \<and> save_to_wiki C E L test_mode ed w = (w', r) \<and>
        (again \<and> r \<noteq> Inl rate_limit_error \<or> is_ok r))) \<or>
    q = (body, True) # rest \<and> (\<exists>ed e. read_edit body = Some ed \<and>
      save_to_wiki C E L test_mode ed w = (w', Inl e) \<and> (e = rate_limit_error \<or> \<not> again))) \<and>
    snd ((consume_next C E L test_mode ^^ n) s) = []"
proof
  from assms(1) show "q = rest \<and> (read_edit body = None \<and> w' = w \<or>
      (\<exists>ed r. read_edit body = Some ed \<and> save_to_wiki C E L test_mode ed w = (w', r) \<and>
        (again \<and> r \<noteq> Inl rate_limit_error \<or> is_ok r))) \<or>
    q = (body, True) # rest \<and> (\<exists>ed e. read_edit body = Some ed \<and>
      save_to_wiki C E L test_mode ed w = (w', Inl e) \<and> (e = rate_limit_error \<or> \<not> again))"
    by (cases rule: consume_cases)
      (auto simp: worker_callback_def split: option.splits prod.splits sum.splits)
  have "tries_left (snd ((consume_next C E L test_mode ^^ n) s)) \<le> tries_left (snd s) - n"
    by (rule consume_run [OF assms(2)])
  with tries_left_le [of "snd s"] assms(3) show "snd ((consume_next C E L test_mode ^^ n) s) = []"
    using tries_left_0 by (metis diff_is_0_eq le_trans le_zero_eq)
qed

text \<open>An edit that no attempt can save: the worker is in its test mode.\<close>

definition doomed_body :: body where
  "doomed_body = \<lparr>body_bytes = 100, body_text = Text (JDict
     (publish_wikipage_message ''new'' ''vary'' ''fix'' False None))\<rparr>"

lemma doomed_save:
  "\<exists>ed. read_edit doomed_body = Some ed \<and> save_to_wiki C E small_live True ed w = (w, Inl unsafe_write)"
  by (simp add: read_edit_def doomed_body_def publish_wikipage_message_def max_queued_bytes_def dget_or_def
      edit_fields_ok_def dget_def dhas_def strip_def py_space_def code_def Let_def save_to_wiki_def edit_summary_def
      content_matches_def page_put_def assert_write_destination_def worker_page_def)

lemma doomed_callback:
  "worker_callback C E small_live True doomed_body again w = (w, Nack (\<not> again))"
  using doomed_save [of C E w]
  by (auto simp: worker_callback_def unsafe_write_def rate_limit_error_def)

definition small_code :: review_code where
  "small_code = \<lparr>sha = (\<lambda>s. s), unified_diff = (\<lambda>a b f t. [])\<rparr>"

lemma edit_queue_is_settled_witness:
  "consume_next small_code small_env small_live True (small_world, [(doomed_body, False)]) = (small_world, [(doomed_body, True)]) \<and>
    snd ((consume_next small_code small_env small_live True ^^ 2) (small_world, [(doomed_body, False)])) = []"
proof -
  have c: "consume_next small_code small_env small_live True (small_world, [(doomed_body, False)]) = (small_world, [(doomed_body, True)])"
    by (simp add: consume_next_def doomed_callback)
  have "\<forall>k < 2. \<not> limited small_code small_env small_live True
      ((consume_next small_code small_env small_live True ^^ k) (small_world, [(doomed_body, False)]))"
    by (auto simp: less_2_cases_iff c limited_def doomed_callback)
  from edit_queue_is_settled [OF c this] c show ?thesis by simp
qed

end
