(* ===== verification/MalagasyEntries.thy ===== *)
theory MalagasyEntries
  imports PyRegex
begin

text \<open>
  Dictionary entries (\<open>api/model/word.py\<close>) and their reading from the wikitext of a Malagasy page:
  \<open>api/entryprocessor/wiki/mg.py\<close> and \<open>stripwikitext\<close> of \<open>api/entryprocessor/wiki/base.py\<close>.
\<close>

subsection \<open>Entries\<close>

record word_entry =
  we_entry :: string
  we_pos :: string
  we_definitions :: "string list"
  we_language :: string
  we_data :: "dict option"

subsection \<open>Text between the matches of an expression\<close>

text \<open>Each match with the text up to the next match.\<close>

fun blocks :: "(string \<times> rx_match) list \<Rightarrow> string \<Rightarrow> (rx_match \<times> string) list" where
  "blocks [] tail = []"
| "blocks [(gap, m)] tail = [(m, tail)]"
| "blocks ((gap, m) # (gap', m') # parts) tail = (m, gap') # blocks ((gap', m') # parts) tail"

definition blocks_of :: "rx \<Rightarrow> string \<Rightarrow> (rx_match \<times> string) list" where
  "blocks_of r s = (case find_all r [] s of (parts, tail) \<Rightarrow> blocks parts tail)"

lemma length_blocks [simp]: "length (blocks parts tail) = length parts"
  by (induction parts tail rule: blocks.induct) auto

lemma blocks_concat:
  "parts \<noteq> [] \<Longrightarrow> concat (map (\<lambda>(gap, m). gap @ m_text m) parts) @ tail =
    fst (hd parts) @ concat (map (\<lambda>(m, block). m_text m @ block) (blocks parts tail))"
  by (induction parts tail rule: blocks.induct) auto

subsection \<open>Definitions of a block\<close>

text \<open>The patterns \<open>[[(.*)#(.*)|?]?]?\<close>, \<open>[ ]?[[(.*)|(.*)]][ ]?\<close> and \<open>[ ]?{{(.*)}}[ ]?\<close>, with their escapes left out.\<close>

definition section_link_re :: rx where
  "section_link_re = cats [lit ''[['', Grp 1 (many dot), lit ''#'', Grp 2 (many dot),
     maybe (lit ''|''), maybe (lit '']''), maybe (lit '']'')]"

definition piped_link_re :: rx where
  "piped_link_re = cats [maybe (lit '' ''), lit ''[['', Grp 1 (many dot), lit ''|'', Grp 2 (many dot), lit '']]'', maybe (lit '' '')]"

definition template_re :: rx where
  "template_re = cats [maybe (lit '' ''), lit ''{{'', Grp 1 (many dot), lit ''}}'', maybe (lit '' '')]"

definition stripwikitext :: "string \<Rightarrow> string" where
  "stripwikitext w =
    (let w1 = sub_all piped_link_re (m_group 1) w;
         w2 = filter (\<lambda>c. c \<noteq> CHR ''.'') w1;
         w3 = sub_all template_re (\<lambda>m. []) w2
     in strip (filter (\<lambda>c. c \<noteq> CHR ''['' \<and> c \<noteq> CHR '']'') w3))"

definition block_definitions :: "string \<Rightarrow> string list" where
  "block_definitions block =
    (let lines = map (\<lambda>d. hd (split_on newline d)) (tl (split_on (newline @ ''# '') block));
         stripped = map (\<lambda>line. stripwikitext (sub_all section_link_re (m_group 1) line)) lines
     in filter (\<lambda>d. 1 < length d) (filter (\<lambda>d. d \<noteq> []) stripped))"

subsection \<open>MGWiktionaryProcessor\<close>

definition mg_language_re :: rx where
  "mg_language_re = Cat (Sym letter) (many (Sym (\<lambda>c. letter_or_digit c \<or> c = CHR ''-'')))"

definition form_of_re :: rx where
  "form_of_re = cats [lit ''{{-'', Grp 1 (Cat (some (Sym letter)) (some (Cat (lit ''-'') (some (Sym letter))))),
     lit ''-|'', Grp 2 mg_language_re, lit ''}}'']"

definition lemma_re :: rx where
  "lemma_re = cats [lit ''{{-'', Grp 3 (some (Sym letter)), lit ''-|'', Grp 4 mg_language_re, lit ''}}'']"

definition entry_re :: rx where "entry_re = Or form_of_re lemma_re"

definition entry_marker :: "rx_match \<Rightarrow> string \<times> string" where
  "entry_marker m =
    (if map_of (m_groups m) 1 \<noteq> None then (m_group 1 m, m_group 2 m) else (m_group 3 m, m_group 4 m))"

definition mg_entry :: "string \<Rightarrow> rx_match \<times> string \<Rightarrow> word_entry list" where
  "mg_entry title part =
    (case (entry_marker (fst part), block_definitions (snd part)) of
       ((pos, lang), definitions) \<Rightarrow>
         if pos = ''etim'' \<or> definitions = [] then []
         else [\<lparr>we_entry = title, we_pos = pos, we_definitions = definitions, we_language = lang, we_data = Some []\<rparr>])"

definition mg_all_entries :: "string \<Rightarrow> string option \<Rightarrow> word_entry list" where
  "mg_all_entries title content =
    (case content of None \<Rightarrow> [] | Some text \<Rightarrow> concat (map (mg_entry title) (blocks_of entry_re text)))"

end
