(* ===== verification/MalagasyLinks.thy ===== *)
theory MalagasyLinks
  imports MalagasyEntries "HOL-Library.List_Lexorder" "HOL-Library.Char_ord"
begin

text \<open>
  The automatic links of \<open>api/page_renderer/mg.py\<close>: a definition is cut into words and white
  space, and the longest phrase at a word that is the title of a linkable page becomes a link.
  The set of linkable pages is a list without an order of its own.
\<close>

subsection \<open>Links\<close>

definition strip_chars :: "string \<Rightarrow> string \<Rightarrow> string" where
  "strip_chars cs s = rev (dropWhile (\<lambda>c. c \<in> set cs) (rev (dropWhile (\<lambda>c. c \<in> set cs) s)))"

definition link_marks :: string where "link_marks = '',.;:''"

text \<open>The candidates of a first word: the longer phrase first, then by name.\<close>

definition link_candidates :: "string list \<Rightarrow> string \<Rightarrow> (string \<times> string list) list" where
  "link_candidates pages first_word =
    (let entries = map (\<lambda>target. (target, split_ws (lower target))) (remdups pages);
         candidates = filter (\<lambda>c. snd c \<noteq> [] \<and> hd (snd c) = first_word) entries
     in sort_key (\<lambda>c. - int (length (snd c))) (sort_key fst candidates))"

text \<open>\<open>re.split(r"(\s+)", s)\<close>: words and white space in turn.\<close>

function split_spaces :: "string \<Rightarrow> string list" where
  "split_spaces s =
    (let word = takeWhile (\<lambda>c. \<not> py_space c) s; rest = dropWhile (\<lambda>c. \<not> py_space c) s in
     if rest = [] then [word]
     else word # takeWhile py_space rest # split_spaces (dropWhile py_space rest))"
  by pat_completeness auto
termination
proof (relation "measure length", goal_cases)
  case (2 s word rest)
  then obtain c cs where r: "rest = c # cs" by (meson neq_Nil_conv)
  have "py_space c" using 2(2) r hd_dropWhile [of "\<lambda>c. \<not> py_space c" s] by (metis list.distinct(1) list.sel(1))
  with r have "length (dropWhile py_space rest) < length rest"
    using length_dropWhile_le [of py_space cs] by (simp add: le_less_trans)
  also have "length rest \<le> length s" using 2(2) length_dropWhile_le by metis
  finally show ?case by simp
qed simp

declare split_spaces.simps [simp del]

definition is_token :: "string \<Rightarrow> bool" where
  "is_token part \<longleftrightarrow> part \<noteq> [] \<and> \<not> list_all py_space part"

text \<open>The parts up to and including the n-th token, and the others.\<close>

fun cut_tokens :: "nat \<Rightarrow> string list \<Rightarrow> string list \<times> string list" where
  "cut_tokens 0 ps = ([], ps)"
| "cut_tokens (Suc n) [] = ([], [])"
| "cut_tokens (Suc n) (p # ps) =
    (case cut_tokens (if is_token p then n else Suc n) ps of (a, b) \<Rightarrow> (p # a, b))"

definition candidate_matches :: "string \<Rightarrow> string list \<Rightarrow> string list \<Rightarrow> string \<times> string list \<Rightarrow> bool" where
  "candidate_matches current linked tokens c \<longleftrightarrow>
    lower (fst c) \<noteq> current \<and> lower (fst c) \<notin> set linked \<and> length (snd c) \<le> length tokens \<and>
    map (\<lambda>t. lower (strip_chars link_marks t)) (take (length (snd c)) tokens) = snd c"

type_synonym segment = "string \<times> string option"

definition append_segment :: "string \<Rightarrow> string option \<Rightarrow> segment list \<Rightarrow> segment list" where
  "append_segment t target segments =
    (if t = [] then segments
     else if target = None \<and> segments \<noteq> [] \<and> snd (last segments) = None
     then butlast segments @ [(fst (last segments) @ t, None)]
     else segments @ [(t, target)])"

text \<open>\<open>s.find(sub)\<close>, and \<open>s.rfind(sub) + len(sub)\<close>, for a word that occurs in \<open>s\<close>.\<close>

definition find_word :: "string \<Rightarrow> string \<Rightarrow> nat" where
  "find_word s w = (case cut_at w s of None \<Rightarrow> 0 | Some (a, b) \<Rightarrow> length a)"

definition find_word_end :: "string \<Rightarrow> string \<Rightarrow> nat" where
  "find_word_end s w = (case cut_at (rev w) (rev s) of None \<Rightarrow> 0 | Some (a, b) \<Rightarrow> length s - length a)"

lemma cut_tokens_append: "cut_tokens n ps = (a, b) \<Longrightarrow> ps = a @ b"
  by (induction n ps arbitrary: a rule: cut_tokens.induct) (auto split: prod.splits)

lemma cut_tokens_shorter: "cut_tokens n ps = (a, b) \<Longrightarrow> 0 < n \<Longrightarrow> ps \<noteq> [] \<Longrightarrow> length b < length ps"
  by (cases n; cases ps) (auto split: prod.splits dest!: cut_tokens_append)

lemma link_candidates_nonempty: "(target, ws) \<in> set (link_candidates pages w) \<Longrightarrow> ws \<noteq> []"
  by (auto simp: link_candidates_def Let_def)

function link_parts :: "string list \<Rightarrow> string \<Rightarrow> string list \<Rightarrow> string list \<Rightarrow> segment list \<Rightarrow> segment list" where
  "link_parts pages current [] linked segments = segments"
| "link_parts pages current (part # ps) linked segments =
    (if \<not> is_token part then link_parts pages current ps linked (append_segment part None segments)
     else
       let first_word = strip_chars link_marks part; tokens = filter is_token (part # ps) in
       case find (candidate_matches current linked tokens) (link_candidates pages (lower first_word)) of
         None \<Rightarrow> link_parts pages current ps linked (append_segment part None segments)
       | Some (target, ws) \<Rightarrow>
         (case cut_tokens (length ws) (part # ps) of
            (taken, rest) \<Rightarrow>
            let last_part = last taken; last_word = strip_chars link_marks last_part;
                first_offset = find_word part first_word; last_end = find_word_end last_part last_word;
                matched = concat taken; link_end = length (concat (butlast taken)) + last_end
            in link_parts pages current rest (lower target # linked)
                 (append_segment (drop last_end last_part) None
                    (append_segment (drop first_offset (take link_end matched)) (Some target)
                       (append_segment (take first_offset part) None segments)))))"
  by pat_completeness auto
termination
proof (relation "measure (\<lambda>(pages, current, ps, linked, segments). length ps)", goal_cases)
  case (4 pages current part ps linked segments first_word tokens x target ws taken rest)
  have "ws \<noteq> []" using 4(4,5) link_candidates_nonempty by (metis find_Some_iff nth_mem)
  with 4(6) show ?case using cut_tokens_shorter [of "length ws" "part # ps" taken rest] by simp
qed auto

declare link_parts.simps(2) [simp del]

definition link_definition_segments :: "string \<Rightarrow> string list \<Rightarrow> string \<Rightarrow> segment list" where
  "link_definition_segments definition_text pages current_word =
    (if contains definition_text ''[['' \<or> contains definition_text '']]'' then [(definition_text, None)]
     else link_parts pages (lower current_word) (split_spaces definition_text) [] [])"

definition link_if_exists :: "string list \<Rightarrow> string \<Rightarrow> string \<Rightarrow> string" where
  "link_if_exists pages definition_text current_word =
    concat (map (\<lambda>(t, target). case target of None \<Rightarrow> t
        | Some page \<Rightarrow> if t = page then ''[['' @ page @ '']]'' else ''[['' @ page @ ''|'' @ t @ '']]'')
      (link_definition_segments definition_text pages current_word))"

subsection \<open>Links keep the text\<close>

lemma split_spaces_concat: "concat (split_spaces s) = s"
proof (induction s rule: split_spaces.induct)
  case (1 s)
  let ?word = "takeWhile (\<lambda>c. \<not> py_space c) s" and ?rest = "dropWhile (\<lambda>c. \<not> py_space c) s"
  show ?case
  proof (cases "?rest = []")
    case True
    then have "split_spaces s = [?word]" by (subst split_spaces.simps) (simp only: Let_def simp_thms if_True)
    with True show ?thesis by (metis append_Nil2 concat.simps takeWhile_dropWhile_id)
  next
    case False
    then have "split_spaces s = ?word # takeWhile py_space ?rest # split_spaces (dropWhile py_space ?rest)"
      by (subst split_spaces.simps) (simp only: Let_def if_False)
    with 1 [OF refl refl False] show ?thesis by (simp only: concat.simps takeWhile_dropWhile_id)
  qed
qed

lemma append_segment_concat [simp]:
  "concat (map fst (append_segment t target segments)) = concat (map fst segments) @ t"
  by (cases segments rule: rev_cases) (auto simp: append_segment_def)

lemma strip_chars_split: "\<exists>u v. s = u @ strip_chars cs s @ v"
proof -
  let ?P = "\<lambda>c. c \<in> set cs"
  let ?t = "dropWhile ?P s"
  have "rev ?t = takeWhile ?P (rev ?t) @ dropWhile ?P (rev ?t)" by simp
  then have "?t = strip_chars cs s @ rev (takeWhile ?P (rev ?t))"
    unfolding strip_chars_def by (metis rev_append rev_rev_ident)
  then show ?thesis by (metis takeWhile_dropWhile_id)
qed

lemma cut_at_least: "cut_at w s = Some (a, b) \<Longrightarrow> s = u @ w @ v \<Longrightarrow> length a \<le> length u"
proof (induction s arbitrary: a u)
  case Nil
  then show ?case by (auto simp: cut_at.simps startswith_def)
next
  case (Cons c cs)
  show ?case
  proof (cases u)
    case Nil
    with Cons.prems(2) have "startswith (c # cs) w" by (simp add: startswith_def)
    with Cons.prems(1) show ?thesis by (simp add: cut_at.simps [of w "c # cs"])
  next
    case (Cons d u')
    show ?thesis
      using Cons.prems(1) [unfolded cut_at.simps [of w "c # cs"]] Cons.prems(2) Cons.IH [of _ u'] Cons
      by (auto split: if_splits)
  qed
qed

lemma cut_at_finds: "\<exists>a b. cut_at w (u @ w @ v) = Some (a, b)"
  by (induction u) (subst cut_at.simps, force simp: startswith_def split: if_splits)+

lemma find_word_bounds:
  assumes "s = u @ w @ v"
  shows "find_word s w \<le> find_word_end s w" and "find_word_end s w \<le> length s" and "find_word s w \<le> length s"
proof -
  obtain a b where 1: "cut_at w s = Some (a, b)" using cut_at_finds assms by blast
  have "rev s = rev v @ rev w @ rev u" using assms by simp
  then obtain c d where 2: "cut_at (rev w) (rev s) = Some (c, d)" using cut_at_finds by metis
  have s: "s = rev d @ w @ rev c" using arg_cong [OF cut_at_append [OF 2], of rev] by simp
  have "length a \<le> length d" using cut_at_least [OF 1 s] by simp
  then show "find_word s w \<le> find_word_end s w" and "find_word_end s w \<le> length s"
    using 1 2 s by (simp_all add: find_word_def find_word_end_def)
  then show "find_word s w \<le> length s" by simp
qed

text \<open>The text that becomes a link, with what stays in front of it and behind it.\<close>

lemma link_cut:
  assumes "cut_tokens n (part # ps) = (taken, rest)" and "0 < n"
  defines "first_offset \<equiv> find_word part (strip_chars link_marks part)"
    and "last_end \<equiv> find_word_end (last taken) (strip_chars link_marks (last taken))"
  shows "take first_offset part @
      drop first_offset (take (length (concat (butlast taken)) + last_end) (concat taken)) @
      drop last_end (last taken) @ concat rest = part @ concat ps"
proof -
  obtain taken' where taken: "taken = part # taken'" using assms(1,2) by (cases n) (auto split: prod.splits)
  have whole: "concat taken = concat (butlast taken) @ last taken"
    using taken by (metis append_butlast_last_id concat.simps concat_append append_Nil2 list.distinct(1))
  have part: "\<exists>u v. s = u @ strip_chars link_marks s @ v" for s by (rule strip_chars_split)
  have fo: "first_offset \<le> length part"
    unfolding first_offset_def using part [of part] find_word_bounds(3) by blast
  have le: "last_end \<le> length (last taken)"
    unfolding last_end_def using part [of "last taken"] find_word_bounds(2) by blast
  have "first_offset \<le> length (concat (butlast taken)) + last_end"
  proof (cases "taken' = []")
    case True
    with taken show ?thesis unfolding first_offset_def last_end_def
      using part [of part] find_word_bounds(1) by force
  next
    case False
    with taken fo show ?thesis by simp
  qed
  then have "take first_offset part = take first_offset (take (length (concat (butlast taken)) + last_end) (concat taken))"
    using fo taken by (simp add: min_absorb1 del: append_assoc)
  then have "take first_offset part @ drop first_offset (take (length (concat (butlast taken)) + last_end) (concat taken))
      = take (length (concat (butlast taken)) + last_end) (concat taken)"
    by (simp only: append_take_drop_id)
  also have "\<dots> @ drop last_end (last taken) = concat taken"
    using whole le by simp
  finally show ?thesis using cut_tokens_append [OF assms(1)] by (metis append.assoc concat.simps(2) concat_append)
qed

text \<open>The three ways a part is handled.\<close>

lemma link_parts_cases:
  obtains (plain) "link_parts pages current (part # ps) linked segments =
      link_parts pages current ps linked (append_segment part None segments)"
  | (link) target ws taken rest where "is_token part"
      "candidate_matches current linked (filter is_token (part # ps)) (target, ws)"
      "(target, ws) \<in> set (link_candidates pages (lower (strip_chars link_marks part)))"
      "cut_tokens (length ws) (part # ps) = (taken, rest)" "length rest < length (part # ps)"
      "link_parts pages current (part # ps) linked segments =
        link_parts pages current rest (lower target # linked)
          (append_segment (drop (find_word_end (last taken) (strip_chars link_marks (last taken))) (last taken)) None
            (append_segment
              (drop (find_word part (strip_chars link_marks part))
                (take (length (concat (butlast taken)) + find_word_end (last taken) (strip_chars link_marks (last taken)))
                  (concat taken))) (Some target)
              (append_segment (take (find_word part (strip_chars link_marks part)) part) None segments)))"
proof (cases "find (candidate_matches current linked (filter is_token (part # ps)))
    (link_candidates pages (lower (strip_chars link_marks part)))")
  case None
  then show ?thesis by (intro plain) (simp add: link_parts.simps(2) Let_def del: filter.simps)
next
  case (Some c)
  obtain target ws where c: "c = (target, ws)" by (cases c)
  obtain taken rest where cut: "cut_tokens (length ws) (part # ps) = (taken, rest)" by force
  have found: "candidate_matches current linked (filter is_token (part # ps)) (target, ws)"
    "(target, ws) \<in> set (link_candidates pages (lower (strip_chars link_marks part)))"
    using Some c by (auto simp: find_Some_iff simp del: filter.simps)
  show ?thesis
  proof (cases "is_token part")
    case False
    then show ?thesis by (intro plain) (simp add: link_parts.simps(2))
  next
    case True
    have "0 < length ws" using link_candidates_nonempty [OF found(2)] by simp
    then have "length rest < length (part # ps)" using cut_tokens_shorter [OF cut] by simp
    with True found cut Some c show ?thesis
      by (intro link) (simp_all add: link_parts.simps(2) [of pages current part ps] Let_def del: filter.simps)
  qed
qed

lemma link_parts_concat:
  "concat (map fst (link_parts pages current ps linked segments)) = concat (map fst segments) @ concat ps"
proof (induction "length ps" arbitrary: ps linked segments rule: less_induct)
  case less
  show ?case
  proof (cases ps)
    case Nil
    then show ?thesis by simp
  next
    case (Cons part ps')
    show ?thesis
    proof (cases rule: link_parts_cases [of pages current part ps' linked segments])
      case plain
      with less Cons show ?thesis by simp
    next
      case (link target ws taken rest)
      have "0 < length ws" using link_candidates_nonempty [OF link(3)] by simp
      with less(1) [of rest] link(4-6) link_cut [OF link(4)] Cons show ?thesis by simp
    qed
  qed
qed

definition targets :: "segment list \<Rightarrow> string list" where
  "targets segments = concat (map (\<lambda>(t, target). case target of None \<Rightarrow> [] | Some page \<Rightarrow> [page]) segments)"

lemma targets_append_segment:
  "targets (append_segment t target segments) =
    targets segments @ (case target of None \<Rightarrow> [] | Some page \<Rightarrow> if t = [] then [] else [page])"
  by (cases segments rule: rev_cases) (auto simp: append_segment_def targets_def split: option.splits)

lemma link_parts_targets:
  assumes "set (map lower (targets segments)) \<subseteq> set linked" and "distinct (map lower (targets segments))"
    and "set (targets segments) \<subseteq> set pages" and "current \<notin> set (map lower (targets segments))"
  shows "set (targets (link_parts pages current ps linked segments)) \<subseteq> set pages"
    and "distinct (map lower (targets (link_parts pages current ps linked segments)))"
    and "current \<notin> set (map lower (targets (link_parts pages current ps linked segments)))"
proof -
  have "set (targets (link_parts pages current ps linked segments)) \<subseteq> set pages \<and>
    distinct (map lower (targets (link_parts pages current ps linked segments))) \<and>
    current \<notin> set (map lower (targets (link_parts pages current ps linked segments)))"
    using assms
  proof (induction "length ps" arbitrary: ps linked segments rule: less_induct)
    case less
    show ?case
    proof (cases ps)
      case Nil
      with less show ?thesis by simp
    next
      case (Cons part ps')
      show ?thesis
      proof (cases rule: link_parts_cases [of pages current part ps' linked segments])
        case plain
        with less Cons show ?thesis by (simp add: targets_append_segment)
      next
        case (link target ws taken rest)
        have "target \<in> set pages" using link(3) by (auto simp: link_candidates_def Let_def)
        with less(2-) link(2,5,6) show ?thesis unfolding Cons link(6)
          by (intro less(1)) (auto simp: Cons targets_append_segment candidate_matches_def)
      qed
    qed
  qed
  then show "set (targets (link_parts pages current ps linked segments)) \<subseteq> set pages"
    and "distinct (map lower (targets (link_parts pages current ps linked segments)))"
    and "current \<notin> set (map lower (targets (link_parts pages current ps linked segments)))" by blast+
qed

subsection \<open>Properties\<close>

text \<open>
  C37: Links never change what a definition says.  The texts of the segments are the definition,
  character by character; every target is a linkable page; and no page is linked twice or is
  the word itself, whatever the case of its letters.
\<close>

theorem links_keep_the_text:
  "concat (map fst (link_definition_segments d pages w)) = d \<and>
    set (targets (link_definition_segments d pages w)) \<subseteq> set pages \<and>
    distinct (map lower (targets (link_definition_segments d pages w))) \<and>
    lower w \<notin> set (map lower (targets (link_definition_segments d pages w)))"
proof (cases "contains d ''[['' \<or> contains d '']]''")
  case True
  then show ?thesis by (auto simp: link_definition_segments_def targets_def)
next
  case False
  have "concat (map fst (link_parts pages (lower w) (split_spaces d) [] [])) = d"
    by (simp add: link_parts_concat split_spaces_concat)
  with False link_parts_targets [of "[]" "[]" pages "lower w" "split_spaces d"] show ?thesis
    by (simp add: link_definition_segments_def targets_def)
qed

end
