(* ===== verification/MalagasyRenderer.thy ===== *)
theory MalagasyRenderer
  imports MalagasyLinks
begin

text \<open>
  \<open>MGWikiPageRenderer\<close> of \<open>api/page_renderer/mg.py\<close>: the wikitext of an entry, and the removal
  of a language section from a page.  Parameters (\<open>renderer_code\<close>): the linkable pages, the
  table of language names, the en dash (which lies beyond the characters of the model), and
  the two parts of an entry that need \<open>mwparserfromhell\<close> or \<open>unicodedata\<close>.
\<close>

record renderer_code =
  rc_pages :: "string list"
  rc_language_name :: "string \<Rightarrow> string option"
  rc_dash :: string
  rc_pronunciation :: "word_entry \<Rightarrow> string res"
  rc_related :: "word_entry \<Rightarrow> string res"

subsection \<open>Additional data\<close>

text \<open>What \<open>join\<close> and a loop that concatenates take from a value.\<close>

fun str_of :: "json \<Rightarrow> string res" where
  "str_of (JStr s) = Inr s"
| "str_of v = Inl TypeError"

fun items_of :: "json \<Rightarrow> json list res" where
  "items_of (JList xs) = Inr xs"
| "items_of (JStr s) = Inr (map (\<lambda>c. JStr [c]) s)"
| "items_of (JDict d) = Inr (map (\<lambda>p. JStr (fst p)) d)"
| "items_of v = Inl TypeError"

definition str_items :: "json \<Rightarrow> string list res" where
  "str_items v = bnd (items_of v) (map_res str_of)"

text \<open>\<open>info.additional_data or {}\<close>, and a method call on \<open>info.additional_data\<close>.\<close>

definition data_or_empty :: "word_entry \<Rightarrow> dict" where
  "data_or_empty info = (case we_data info of None \<Rightarrow> [] | Some d \<Rightarrow> d)"

definition data_of :: "word_entry \<Rightarrow> dict res" where
  "data_of info = (case we_data info of None \<Rightarrow> Inl AttributeError | Some d \<Rightarrow> Inr d)"

text \<open>\<open>key in info.additional_data\<close>.\<close>

definition data_in :: "word_entry \<Rightarrow> dict res" where
  "data_in info = (case we_data info of None \<Rightarrow> Inl TypeError | Some d \<Rightarrow> Inr d)"

subsection \<open>Head section\<close>

definition quotes :: "nat \<Rightarrow> string" where
  "quotes n = replicate n (char_of (39::nat))"

definition render_etymology :: "word_entry \<Rightarrow> string res" where
  "render_etymology info =
    (let data = data_or_empty info; etymology = dget ''etymology'' data;
         head = newline @ ''{{-etim-}}'' @ newline in
     if \<not> dhas ''etymology'' data then Inr []
     else if \<not> truthy etymology then Inr (head @ '': {{vang-etim|'' @ we_language info @ ''}}'' @ newline)
     else bnd (if is_list etymology then bnd (str_items etymology) (\<lambda>ss. Inr (join '' '' ss)) else Inr (py_str etymology))
       (\<lambda>t. Inr (head @ '':'' @ t)))"

definition render_head_section :: "word_entry \<Rightarrow> string res" where
  "render_head_section info =
    bnd (render_etymology info) (\<lambda>etymology.
    let head = newline @ ''=={{='' @ we_language info @ ''=}}=='' @ newline @ etymology @
      newline @ ''{{-'' @ we_pos info @ ''-|'' @ we_language info @ ''}}'' @ newline @
      quotes 3 @ ''{{subst:BASEPAGENAME}}'' @ quotes 3 @ '' '' in
    case we_data info of
      None \<Rightarrow> Inr head
    | Some d \<Rightarrow>
      if dhas ''transcription'' d
      then bnd (str_items (dget ''transcription'' d)) (\<lambda>ts. Inr (head @ ''('' @ join '', '' ts @ '')''))
      else Inr head)"

subsection \<open>Definitions\<close>

text \<open>The pattern \<open>^-\s*ny\s+is\s+a(?:n|[n])?(?:\s+|$)\<close>, its brackets escaped, ignoring case.\<close>

definition text_begin :: rx where "text_begin = Here (\<lambda>p q. p = [])"
definition text_end :: rx where "text_end = Here (\<lambda>p q. q = [] \<or> q = newline)"

definition noun_prefix_re :: rx where
  "noun_prefix_re = cats [text_begin, lit ''-'', many white, any_case ''ny'', some white, any_case ''is'', some white,
     any_case ''a'', maybe (Or (any_case ''n'') (any_case ''[n]'')), Or (some white) text_end]"

definition strip_noun_prefix :: "string \<Rightarrow> string" where
  "strip_noun_prefix definition_text = strip (sub_all noun_prefix_re (\<lambda>m. []) definition_text)"

text \<open>Each distinct definition with the examples of all its occurrences.\<close>

fun gather :: "(string \<times> json list) list \<Rightarrow> (string \<times> json list) list \<Rightarrow> (string \<times> json list) list" where
  "gather [] known = known"
| "gather ((definition_text, examples) # ds) known =
    (let d = strip_noun_prefix definition_text in
     if d = [] then gather ds known
     else gather ds (AList.update d ((case map_of known d of None \<Rightarrow> [] | Some old \<Rightarrow> old) @ examples) known))"

definition aligned_examples :: "word_entry \<Rightarrow> json list list" where
  "aligned_examples info =
    (let none = map (\<lambda>d. []) (we_definitions info) in
     case dget_or ''examples'' (JList []) (data_or_empty info) of
       JList raw \<Rightarrow>
         if length raw = length (we_definitions info)
         then map (\<lambda>v. case v of JList xs \<Rightarrow> xs | _ \<Rightarrow> []) raw else none
     | _ \<Rightarrow> none)"

definition gathered :: "word_entry \<Rightarrow> (string \<times> json list) list" where
  "gathered info = gather (zip (we_definitions info) (aligned_examples info)) []"

definition link_definition :: "string list \<Rightarrow> string \<Rightarrow> string \<Rightarrow> string" where
  "link_definition pages current_word d =
    (if contains d ''[['' \<or> contains d '']]'' then d
     else if length (split_ws d) = 1
     then if last d \<in> set link_marks
       then let t = strip_chars ''.'' d in ''[['' @ lower t @ ''|'' @ t @ '']].''
       else ''[['' @ d @ '']]''
     else replace_all '' - '' ''-'' (link_if_exists pages d current_word))"

text \<open>The source of each cited text; only the texts an example can equal are kept.\<close>

fun citation_sources :: "json list \<Rightarrow> (string \<times> json) list \<Rightarrow> (string \<times> json) list res" where
  "citation_sources [] known = Inr known"
| "citation_sources (JDict c # cs) known =
    (if truthy (dget ''text'' c) \<and> truthy (dget ''source'' c)
     then if \<not> hashable (dget ''text'' c) then Inl TypeError
       else citation_sources cs
         (case dget ''text'' c of
            JStr t \<Rightarrow> (if map_of known t = None then AList.update t (dget ''source'' c) known else known)
          | _ \<Rightarrow> known)
     else citation_sources cs known)"
| "citation_sources (v # cs) known = citation_sources cs known"

definition render_example :: "string \<Rightarrow> (string \<times> json) list \<Rightarrow> json \<Rightarrow> string res" where
  "render_example dash sources example =
    bnd (str_of example) (\<lambda>e.
    case map_of sources e of
      None \<Rightarrow> Inr (newline @ ''#* '' @ quotes 2 @ e @ quotes 2)
    | Some source \<Rightarrow>
      bnd (str_of source) (\<lambda>t. Inr (newline @ ''#* '' @ quotes 2 @ e @ '' '' @ dash @ '' '' @ t @ quotes 2)))"

text \<open>\<open>dict.fromkeys\<close> on strings; any other example makes the rendering raise a \<open>TypeError\<close>.\<close>

definition in_order_once :: "'a list \<Rightarrow> 'a list" where
  "in_order_once xs = rev (remdups (rev xs))"

definition render_definition_line ::
  "renderer_code \<Rightarrow> bool \<Rightarrow> string \<Rightarrow> (string \<times> json) list \<Rightarrow> string \<times> json list \<Rightarrow> string res" where
  "render_definition_line R link current_word sources g =
    bnd (map_res (render_example (rc_dash R) sources) (in_order_once (snd g))) (\<lambda>examples.
    Inr (newline @ ''# '' @ (if link then link_definition (rc_pages R) current_word (fst g) else fst g) @ concat examples))"

definition render_definitions :: "renderer_code \<Rightarrow> word_entry \<Rightarrow> bool \<Rightarrow> string res" where
  "render_definitions R info link =
    bnd (items_of (py_or (dget_or ''citations'' (JList []) (data_or_empty info)) (JList []))) (\<lambda>citations.
    bnd (citation_sources citations []) (\<lambda>sources.
    bnd (map_res (render_definition_line R link (we_entry info) sources) (gathered info)) (\<lambda>lines.
    Inr (concat lines))))"

subsection \<open>The other sections\<close>

definition render_inflection :: "word_entry \<Rightarrow> string res" where
  "render_inflection info =
    bnd (data_in info) (\<lambda>d.
    if dhas ''inflection'' d
    then bnd (str_items (dget ''inflection'' d)) (\<lambda>ls. Inr (newline @ ''{{-bikan-teny-}}'' @ newline @ join newline ls @ newline))
    else Inr [])"

text \<open>The pages listed under two keys, each once.\<close>

definition listed_once :: "string \<Rightarrow> string \<Rightarrow> word_entry \<Rightarrow> string list res" where
  "listed_once plural singular info =
    bnd (data_of info) (\<lambda>d.
    bnd (items_of (dget_or plural (JList []) d)) (\<lambda>xs.
    bnd (items_of (dget_or singular (JList []) d)) (\<lambda>ys.
    map_res str_of (in_order_once (xs @ ys)))))"

definition render_links :: "string \<Rightarrow> string list \<Rightarrow> string" where
  "render_links header pages =
    (if pages = [] then []
     else newline @ newline @ header @ concat (map (\<lambda>page. newline @ ''* [['' @ page @ '']]'') pages))"

definition render_synonyms :: "word_entry \<Rightarrow> string res" where
  "render_synonyms info =
    bnd (listed_once ''synonyms'' ''synonym'' info) (\<lambda>pages. Inr (render_links ''{{-dika-mitovy-}}'' pages))"

definition render_antonyms :: "word_entry \<Rightarrow> string res" where
  "render_antonyms info =
    bnd (listed_once ''antonyms'' ''antonym'' info) (\<lambda>pages. Inr (render_links ''{{-dika-mifanohitra-}}'' pages))"

definition render_section :: "word_entry \<Rightarrow> string \<Rightarrow> string \<Rightarrow> string res" where
  "render_section info section_header attr_name =
    bnd (data_in info) (\<lambda>d.
    if \<not> dhas attr_name d then Inr []
    else
      let head = newline @ newline @ section_header in
      case dget attr_name d of
        JList [x] \<Rightarrow> bnd (str_of x) (\<lambda>t. Inr (head @ newline @ t))
      | JList xs \<Rightarrow> bnd (map_res str_of xs) (\<lambda>ts. Inr (head @ concat (map (\<lambda>t. newline @ ''* '' @ t) ts)))
      | v \<Rightarrow> Inr head)"

definition render_further_reading :: "word_entry \<Rightarrow> string res" where
  "render_further_reading info = render_section info ''{{-famakiana fanampiny-}}'' ''further_reading''"

definition render_references :: "word_entry \<Rightarrow> string res" where
  "render_references info =
    bnd (render_section info ''{{-tsiahy-}}'' ''references'') (\<lambda>a.
    bnd (render_section info ''{{-tsiahy-}}'' ''reference'') (\<lambda>b. Inr (a @ b)))"

text \<open>
  \<open>"origin_wiktionary_edition" in info\<close> asks a dataclass that is no container, and raises; it
  is asked when the additional data have an \<open>origin_wiktionary_page_name\<close>.
\<close>

definition additional_note :: "word_entry \<Rightarrow> string res" where
  "additional_note info =
    (case we_data info of
       None \<Rightarrow> Inr []
     | Some d \<Rightarrow> if dhas ''origin_wiktionary_page_name'' d then Inl TypeError else Inr [])"

definition render :: "renderer_code \<Rightarrow> bool \<Rightarrow> word_entry \<Rightarrow> string res" where
  "render R link info =
    bnd (additional_note info) (\<lambda>note.
    bnd (render_head_section info) (\<lambda>head.
    bnd (render_definitions R info link) (\<lambda>definitions.
    bnd (rc_pronunciation R info) (\<lambda>pronunciation.
    bnd (render_synonyms info) (\<lambda>synonyms.
    bnd (render_antonyms info) (\<lambda>antonyms.
    bnd (rc_related R info) (\<lambda>related.
    bnd (render_further_reading info) (\<lambda>reading.
    bnd (render_references info) (\<lambda>references.
    Inr (head @ definitions @ note @ pronunciation @ synonyms @ antonyms @ related @ reading @ references @ newline))))))))))"

subsection \<open>Removing a language section\<close>

text \<open>The title is any text without a newline that starts with no equals sign and has no two in a row.\<close>

definition title_char :: rx where "title_char = Sym (\<lambda>c. c \<noteq> CHR ''='' \<and> \<not> is_newline c)"

definition lazy_some :: "rx \<Rightarrow> rx" where "lazy_some r = Cat r (Rep False r)"

definition level_2_section_re :: rx where
  "level_2_section_re = cats [text_begin, lit ''=='',
     Grp 1 (Cat (lazy_some title_char) (many (Cat (lit ''='') (lazy_some title_char)))), lit ''=='',
     Here (\<lambda>p q. startswith (dropWhile (\<lambda>c. c = CHR '' '') q) ''=='' \<or> q = [] \<or> q = newline)]"

definition legacy_section_re :: rx where
  "legacy_section_re = cats [text_begin, lit ''{{='', Grp 1 (lazy_some (Sym (\<lambda>c. c \<noteq> CHR ''=''))), lit ''=}}'', text_end]"

function section_titles :: "string \<Rightarrow> string list" where
  "section_titles stripped_line =
    (case match_at level_2_section_re [] stripped_line of
       None \<Rightarrow> []
     | Some (m, rest) \<Rightarrow> if m_text m = [] then [] else strip (m_group 1 m) # section_titles (strip rest))"
  by pat_completeness auto
termination
proof (relation "measure length", goal_cases)
  case (2 line x m rest)
  have "length (strip rest) \<le> length rest"
    unfolding strip_def by (metis length_dropWhile_le length_rev le_trans)
  with 2 show ?case using match_at_splits [of level_2_section_re "[]" line m rest]
    by (cases "m_text m") auto
qed simp

declare section_titles.simps [simp del]

definition level_2_section_titles :: "string \<Rightarrow> string list" where
  "level_2_section_titles line = section_titles (strip line)"

definition language_names_of :: "renderer_code \<Rightarrow> string \<Rightarrow> string list" where
  "language_names_of R language_code =
    (case rc_language_name R language_code of
       None \<Rightarrow> []
     | Some name \<Rightarrow> [lower name, replace_all '' '' ''_'' (lower name), replace_all '' '' ''-'' (lower name)])"

definition is_language_section :: "renderer_code \<Rightarrow> string \<Rightarrow> string \<Rightarrow> string list \<Rightarrow> bool" where
  "is_language_section R section_title language_section language_names =
    (case match_at legacy_section_re [] section_title of
       Some (m, rest) \<Rightarrow> strip (m_group 1 m) = language_section
     | None \<Rightarrow> lower section_title \<in> set language_names \<or>
         list_ex (\<lambda>n. n \<in> set language_names) (language_names_of R section_title))"

definition section_begins :: "renderer_code \<Rightarrow> string \<Rightarrow> string \<Rightarrow> bool" where
  "section_begins R language_section line =
    list_ex (\<lambda>title. is_language_section R title language_section (language_names_of R language_section))
      (level_2_section_titles line)"

text \<open>The lines before the section, the section, and the lines from the next header on.\<close>

definition cut_section :: "renderer_code \<Rightarrow> string \<Rightarrow> string list \<Rightarrow> (string list \<times> string list \<times> string list) option" where
  "cut_section R language_section lines =
    (case dropWhile (\<lambda>line. \<not> section_begins R language_section line) lines of
       [] \<Rightarrow> None
     | header # rest \<Rightarrow>
       Some (takeWhile (\<lambda>line. \<not> section_begins R language_section line) lines,
         header # takeWhile (\<lambda>line. level_2_section_titles line = []) rest,
         dropWhile (\<lambda>line. level_2_section_titles line = []) rest))"

definition delete_language_section :: "renderer_code \<Rightarrow> string \<Rightarrow> string \<Rightarrow> string" where
  "delete_language_section R language_section wiki_page =
    (case cut_section R language_section (split_on newline wiki_page) of
       None \<Rightarrow> wiki_page
     | Some (before, section_lines, after) \<Rightarrow> replace_all (join newline section_lines) [] wiki_page)"

end
