(* ===== verification/PageCheckText.thy ===== *)
theory PageCheckText
  imports MalagasyRenderer ReviewQueue
begin

text \<open>
  The wikitext side of \<open>api/services/page_check_service.py\<close>: language sections, the entries
  found in them, the comparison of definitions, and the replacement of the definition blocks
  of a section by a fixed entry.
\<close>

subsection \<open>Sections\<close>

definition language_code_re :: rx where
  "language_code_re = cats [Sym letter, Sym letter, maybe (Sym letter)]"

text \<open>The pattern \<open>^==\s*{{=([a-z]{2,3})=}}\s*==\s*$\<close> of a page with many lines, ignoring case.\<close>

definition language_section_re :: rx where
  "language_section_re = cats [line_begin, lit ''=='', many white, lit ''{{='', Grp 1 language_code_re, lit ''=}}'',
     many white, lit ''=='', many white, line_end]"

definition wikibolana_re :: rx where
  "wikibolana_re = cats [any_case ''{{wikibolana|'', Grp 1 (some (Sym letter)), lit ''|'',
     Grp 2 (some (Sym (\<lambda>c. c \<noteq> CHR ''|'' \<and> c \<noteq> CHR ''}''))), lit ''}}'']"

definition parse_mg_wiktionary :: "string \<Rightarrow> (string \<times> string) option" where
  "parse_mg_wiktionary content =
    map_option (\<lambda>(gap, m, rest). (lower (m_group 1 m), strip (m_group 2 m))) (first_match wikibolana_re [] content)"

definition split_language_sections :: "string \<Rightarrow> (string \<times> string) list" where
  "split_language_sections content =
    map (\<lambda>(m, section_text). (lower (m_group 1 m), section_text)) (blocks_of language_section_re content)"

definition extract_language_section :: "string \<Rightarrow> string \<Rightarrow> string option" where
  "extract_language_section language content =
    (if split_language_sections content = [] then Some content
     else map_of (split_language_sections content) language)"

subsection \<open>Entries\<close>

text \<open>An entry as \<open>_serialise_entry\<close> writes it, and as a fix: its examples stand definition by definition.\<close>

record page_entry =
  pe_entry :: string
  pe_pos :: string
  pe_language :: string
  pe_definitions :: "string list"
  pe_examples :: "string list list"

definition checked_parts_of_speech :: "string list" where
  "checked_parts_of_speech = [''ana'', ''mat'', ''mpam'', ''tamb'', ''ana-pr'']"

text \<open>The processors give definitions as strings, so the other branches of \<open>_safe_definition\<close> are not taken.\<close>

definition safe_definition :: "string \<Rightarrow> string" where
  "safe_definition = strip"

definition strs_of :: "json list \<Rightarrow> string list" where
  "strs_of vs = concat (map (\<lambda>v. case v of JStr s \<Rightarrow> [s] | _ \<Rightarrow> []) vs)"

fun flatten_examples :: "json \<Rightarrow> string list" where
  "flatten_examples (JStr s) = [s]"
| "flatten_examples (JList items) =
    concat (map (\<lambda>item. case item of JStr s \<Rightarrow> [s] | JList xs \<Rightarrow> strs_of xs | _ \<Rightarrow> []) items)"
| "flatten_examples v = []"

definition examples_by_definition :: "json \<Rightarrow> nat \<Rightarrow> string list list" where
  "examples_by_definition examples definition_count =
    (if definition_count = 0 then []
     else case examples of
       JList items \<Rightarrow>
         if length items = definition_count \<and> list_all is_list items
         then map (\<lambda>item. case item of JList xs \<Rightarrow> strs_of xs | _ \<Rightarrow> []) items
         else flatten_examples examples # replicate (definition_count - 1) []
     | _ \<Rightarrow> flatten_examples examples # replicate (definition_count - 1) [])"

definition entry_examples :: "word_entry \<Rightarrow> string list list" where
  "entry_examples e =
    (let examples = examples_by_definition (dget_or ''examples'' (JList []) (data_or_empty e)) (length (we_definitions e)) in
     if list_ex (\<lambda>xs. xs \<noteq> []) examples then examples else [])"

text \<open>The pattern \<open>^(?:===\s*)?{{-([a-z0-9]+(?:-[a-z0-9]+)?)-|([a-z]{2,3})}}\s*(?:===)?\<close>.\<close>

definition definition_marker_re :: rx where
  "definition_marker_re =
    (let chars = some (Sym letter_or_digit) in
     cats [line_begin, maybe (Cat (lit ''==='') (many white)), lit ''{{-'', Grp 1 (Cat chars (maybe (Cat (lit ''-'') chars))),
       lit ''-|'', Grp 2 language_code_re, lit ''}}'', many white, maybe (lit ''==='')])"

definition extract_entries_generic :: "string \<Rightarrow> string \<Rightarrow> string \<Rightarrow> word_entry list" where
  "extract_entries_generic language section_text title =
    concat (map (\<lambda>(m, block).
        let pos = lower (m_group 1 m); lang = lower (m_group 2 m); definitions = block_definitions block in
        if lang \<noteq> language \<or> definitions = [] then []
        else [\<lparr>we_entry = title, we_pos = pos, we_definitions = definitions, we_language = language, we_data = Some []\<rparr>])
      (blocks_of definition_marker_re section_text))"

definition compact_entry :: "page_entry list \<Rightarrow> json" where
  "compact_entry entries =
    (case entries of
       [] \<Rightarrow> JNull
     | e # es \<Rightarrow> JDict [(''entry'', JStr (pe_entry e)), (''section_language'', JStr (pe_language e)),
         (''sections'', JList (map (\<lambda>x. JDict [(''part_of_speech'', JStr (pe_pos x)),
            (''definitions'', JList (map JStr (pe_definitions x)))]) entries))])"

definition in_scope :: "page_entry \<Rightarrow> bool" where
  "in_scope e \<longleftrightarrow> lower (pe_pos e) \<in> set checked_parts_of_speech"

definition source_entries_for_section ::
  "page_entry list \<Rightarrow> string \<Rightarrow> page_entry list \<Rightarrow> string \<Rightarrow> string \<Rightarrow> page_entry list" where
  "source_entries_for_section source_entries section_language target_entries target_wiki_language source_wiki_language =
    (let matching0 = filter (\<lambda>e. pe_language e = section_language \<and> in_scope e) source_entries;
         matching = (if matching0 = [] \<and> section_language = target_wiki_language
           then filter (\<lambda>e. pe_language e = source_wiki_language \<and> in_scope e) source_entries else matching0);
         same_pos = filter (\<lambda>e. pe_pos e \<in> pe_pos ` set target_entries) matching
     in if same_pos \<noteq> [] then same_pos else matching)"

subsection \<open>Comparing definitions\<close>

definition punctuation :: "char \<Rightarrow> bool" where
  "punctuation c \<longleftrightarrow> c \<in> set ''.,;:()!?-'' \<or> code c = 39 \<or> code c = 34"

definition normalised_text :: "string \<Rightarrow> string" where
  "normalised_text t =
    lower (strip (sub_all (some white) (\<lambda>m. '' '') (map (\<lambda>c. if punctuation c then CHR '' '' else c) t)))"

definition entries_match :: "page_entry list \<Rightarrow> page_entry \<Rightarrow> bool" where
  "entries_match entries fixed_entry \<longleftrightarrow>
    (let definitions = set (map normalised_text (concat (map pe_definitions entries))) in
     definitions \<noteq> {} \<and> definitions = set (map normalised_text (pe_definitions fixed_entry)))"

subsection \<open>Replacing definition blocks\<close>

definition section_boundary_re :: rx where
  "section_boundary_re = Or (cats [line_begin, lit ''{{-'', Rep False dot, lit ''-}}'']) (Cat line_begin (lit ''===''))"

text \<open>The matches of an expression with the positions where they start and end.\<close>

fun spans_from :: "nat \<Rightarrow> (string \<times> rx_match) list \<Rightarrow> (nat \<times> nat \<times> rx_match) list" where
  "spans_from n [] = []"
| "spans_from n ((gap, m) # parts) =
    (let start = n + length gap; stop = start + length (m_text m) in (start, stop, m) # spans_from stop parts)"

definition spans_of :: "rx \<Rightarrow> string \<Rightarrow> (nat \<times> nat \<times> rx_match) list" where
  "spans_of r s = spans_from 0 (fst (find_all r [] s))"

definition block_stop :: "string \<Rightarrow> nat \<Rightarrow> nat" where
  "block_stop section_text marker_stop =
    (case first_match section_boundary_re (rev (take marker_stop section_text)) (drop marker_stop section_text) of
       None \<Rightarrow> length section_text
     | Some (gap, m, rest) \<Rightarrow> marker_stop + length gap)"

definition definition_blocks :: "string \<Rightarrow> string \<Rightarrow> string \<Rightarrow> (nat \<times> nat) list" where
  "definition_blocks language part_of_speech section_text =
    map (\<lambda>(start, stop, m). (start, block_stop section_text stop))
      (filter (\<lambda>(start, stop, m). lower (m_group 2 m) = language \<and> lower (m_group 1 m) \<noteq> ''etim'' \<and>
          lower (m_group 1 m) = lower part_of_speech)
        (spans_of definition_marker_re section_text))"

definition drop_leading_newlines :: "string \<Rightarrow> string" where
  "drop_leading_newlines = dropWhile is_newline"

definition fixed_word_entry :: "page_entry \<Rightarrow> word_entry" where
  "fixed_word_entry e =
    \<lparr>we_entry = pe_entry e, we_pos = pe_pos e, we_definitions = pe_definitions e, we_language = pe_language e,
     we_data = Some [(''examples'', JList (map (\<lambda>xs. JList (map JStr xs)) (pe_examples e)))]\<rparr>"

definition render_definition_block :: "renderer_code \<Rightarrow> page_entry \<Rightarrow> string res" where
  "render_definition_block R e =
    (let info = fixed_word_entry e in
     bnd (render_head_section info) (\<lambda>head0.
     let head1 = drop_leading_newlines head0;
         head2 = (if startswith head1 ''=={{='' then drop 1 (dropWhile (\<lambda>c. \<not> is_newline c) head1) else head1)
     in bnd (render_definitions R info True) (\<lambda>definitions. Inr (drop_leading_newlines head2 @ definitions))))"

definition remove_spans :: "(nat \<times> nat) list \<Rightarrow> string \<Rightarrow> string" where
  "remove_spans spans s = fold (\<lambda>(start, stop) t. take start t @ drop stop t) (rev spans) s"

definition replace_definition_blocks :: "renderer_code \<Rightarrow> string \<Rightarrow> string \<times> page_entry \<Rightarrow> string res" where
  "replace_definition_blocks R content fix_of =
    (case fix_of of (language, e) \<Rightarrow>
     case extract_language_section language content of
       None \<Rightarrow> Inr content
     | Some section_text \<Rightarrow>
       bnd (render_definition_block R e) (\<lambda>rendered.
       case definition_blocks language (pe_pos e) section_text of
         [] \<Rightarrow> Inr (replace_once section_text (rendered @ newline @ section_text) content)
       | (insert_at, stop) # more_blocks \<Rightarrow>
         let cut = remove_spans ((insert_at, stop) # more_blocks) section_text;
             new_section = take insert_at cut @ rendered @ newline @ drop insert_at cut
         in Inr (replace_once section_text new_section content)))"

end
