(* ===== verification/PageCheck.thy ===== *)
theory PageCheck
  imports PageCheckText Publishers
begin

text \<open>
  \<open>PageCheckService\<close> of \<open>api/services/page_check_service.py\<close>.  The state type \<open>'s\<close> is whatever
  the callbacks, the wiki and the models act on.  A \<open>checker\<close> holds what the service is given
  or imports: the pages, the two chat models with the wording of their prompts, the
  translator, the Tenymalagasy mirror, the publisher, and the entry processors of the other
  wikis.  A page is a \<open>RedisPage\<close>, as \<open>_default_get_page\<close> returns.  Sleeping and logging are
  left out.
\<close>

subsection \<open>What the service calls\<close>

record 's checker =
  pc_read :: "string \<Rightarrow> string \<Rightarrow> 's \<Rightarrow> 's \<times> string res"
  pc_namespace :: "string \<Rightarrow> 's \<Rightarrow> 's \<times> int option res"
  pc_put :: "('s \<Rightarrow> 's \<times> unit res) option \<Rightarrow> string \<Rightarrow> string \<Rightarrow> string \<Rightarrow> 's \<Rightarrow> 's \<times> unit res"
  pc_push :: "dict \<Rightarrow> 's \<Rightarrow> 's \<times> unit res"
  pc_verifier :: "string \<Rightarrow> 's \<Rightarrow> 's \<times> dict res"
  pc_rewriter :: "string \<Rightarrow> 's \<Rightarrow> 's \<times> dict res"
  pc_translator :: "string \<Rightarrow> string \<Rightarrow> 's \<Rightarrow> 's \<times> string option res"
  pc_mirror :: "string \<Rightarrow> 's \<Rightarrow> 's \<times> string res"
  pc_processor :: "string \<Rightarrow> string \<Rightarrow> string \<Rightarrow> word_entry list res"
  pc_definition :: "string \<Rightarrow> string \<Rightarrow> string \<Rightarrow> string res"
  pc_renderer :: renderer_code
  pc_verify_template :: string
  pc_fix_template :: string
  pc_sha :: "string \<Rightarrow> string"
  pc_message :: "exn \<Rightarrow> string"
  pc_queued :: bool
  pc_publish :: bool

definition rescue :: "('s \<Rightarrow> 's \<times> 'a res) \<Rightarrow> (exn \<Rightarrow> 's \<Rightarrow> 's \<times> 'a res) \<Rightarrow> 's \<Rightarrow> 's \<times> 'a res" where
  "rescue f handler s = (case f s of (s', Inl e) \<Rightarrow> handler e s' | (s', Inr a) \<Rightarrow> (s', Inr a))"

type_synonym 's progress = "(rat \<Rightarrow> 's \<Rightarrow> 's \<times> unit res) option"

definition tell :: "'s progress \<Rightarrow> rat \<Rightarrow> 's \<Rightarrow> 's \<times> unit res" where
  "tell on_progress ratio = (case on_progress of None \<Rightarrow> sreturn (Inr ()) | Some f \<Rightarrow> f ratio)"

subsection \<open>Extracting entries\<close>

definition not_implemented :: exn where "not_implemented = OtherError ''NotImplementedError''"

definition serialise_entry :: "(string \<Rightarrow> string \<Rightarrow> string res) \<Rightarrow> word_entry \<Rightarrow> page_entry res" where
  "serialise_entry advanced e =
    bnd (map_res (advanced (we_pos e)) (we_definitions e)) (\<lambda>definitions.
    Inr \<lparr>pe_entry = we_entry e, pe_pos = we_pos e, pe_language = we_language e,
      pe_definitions = map safe_definition definitions, pe_examples = entry_examples e\<rparr>)"

text \<open>The Malagasy processor returns a definition line as it is, and so does the base class.\<close>

definition extract_entries :: "'s checker \<Rightarrow> string \<Rightarrow> string \<Rightarrow> string \<Rightarrow> string option \<Rightarrow> page_entry list res" where
  "extract_entries K language content title processor_language =
    (case extract_language_section language content of
       None \<Rightarrow> Inr []
     | Some section_text \<Rightarrow>
       let code = (case processor_language of None \<Rightarrow> language | Some l \<Rightarrow> l) in
       if lower code = ''mg''
       then map_res (serialise_entry (\<lambda>pos d. Inr d)) (mg_all_entries title (Some section_text))
       else
         (case pc_processor K code section_text title of
            Inr entries \<Rightarrow> map_res (serialise_entry (pc_definition K code)) entries
          | Inl e \<Rightarrow>
            if e = not_implemented \<or> e = TypeError
            then map_res (serialise_entry (\<lambda>pos d. Inr d)) (extract_entries_generic language section_text title)
            else Inl e))"

subsection \<open>Prompts and verdicts\<close>

text \<open>\<open>json.dumps(data, ensure_ascii=False, indent=2)\<close>.\<close>

definition line_of :: "nat \<Rightarrow> string" where
  "line_of n = newline @ replicate (2 * n) (CHR '' '')"

fun json_pretty :: "nat \<Rightarrow> json \<Rightarrow> string" where
  "json_pretty n (JList []) = ''[]''"
| "json_pretty n (JList (x # xs)) =
    ''['' @ line_of (Suc n) @ join ('','' @ line_of (Suc n)) (map (json_pretty (Suc n)) (x # xs)) @ line_of n @ '']''"
| "json_pretty n (JDict []) = ''{}''"
| "json_pretty n (JDict (p # ps)) =
    ''{'' @ line_of (Suc n) @
      join ('','' @ line_of (Suc n)) (map (\<lambda>q. json_str (fst q) @ '': '' @ json_pretty (Suc n) (snd q)) (p # ps)) @
      line_of n @ ''}''"
| "json_pretty n v = json_text [] [] v"

definition json_dump :: "json \<Rightarrow> string" where "json_dump = json_pretty 0"

definition entry_json :: "page_entry \<Rightarrow> json" where
  "entry_json e = JDict [(''entry'', JStr (pe_entry e)), (''part_of_speech'', JStr (pe_pos e)),
     (''language'', JStr (pe_language e)), (''definitions'', JList (map JStr (pe_definitions e))),
     (''examples'', JList (map (\<lambda>xs. JList (map JStr xs)) (pe_examples e)))]"

definition fill :: "string \<Rightarrow> (string \<times> string) list \<Rightarrow> string" where
  "fill template values = fold (\<lambda>(name, v) t. replace_all (''{{'' @ name @ ''}}'') v t) values template"

definition verify_prompt ::
  "'s checker \<Rightarrow> string \<Rightarrow> json \<Rightarrow> string \<Rightarrow> string \<times> string \<Rightarrow> page_entry list \<Rightarrow> string \<Rightarrow> string" where
  "verify_prompt K word shown checked_language source_ref source_entries markdown =
    fill (pc_verify_template K)
      [(''word'', word), (''mg_entry'', if truthy shown then json_dump shown else ''(none)''),
       (''checked_language'', checked_language), (''source_language'', fst source_ref),
       (''source_title'', snd source_ref), (''source_entries'', json_dump (JList (map entry_json source_entries))),
       (''tenymalagasy'', if markdown \<noteq> [] then take 12000 markdown else ''(none)'')]"

text \<open>The verdict: whether the entry is good, and the issues.\<close>

definition verdict_of :: "dict \<Rightarrow> (bool \<times> json list) res" where
  "verdict_of response =
    (let status = dget ''status'' response in
     if status \<noteq> JStr ''good'' \<and> status \<noteq> JStr ''bad'' then Inl ValueError
     else Inr (status = JStr ''good'',
       case dget_or ''issues'' (JList []) response of JList xs \<Rightarrow> xs | _ \<Rightarrow> []))"

definition verify ::
  "'s checker \<Rightarrow> string \<Rightarrow> json \<Rightarrow> string \<Rightarrow> string \<times> string \<Rightarrow> page_entry list \<Rightarrow> string \<Rightarrow> 's \<Rightarrow> 's \<times> (bool \<times> json list) res" where
  "verify K word shown checked_language source_ref source_entries markdown =
    sbind (pc_verifier K (verify_prompt K word shown checked_language source_ref source_entries markdown))
      (\<lambda>response. sreturn (verdict_of response))"

subsection \<open>Generating a fix\<close>

text \<open>The senses of the chosen part of speech: each definition with its examples.\<close>

definition senses_of :: "page_entry \<Rightarrow> (string \<times> string list) list" where
  "senses_of e =
    filter (\<lambda>sense. fst sense \<noteq> [])
      (zip (map safe_definition (pe_definitions e))
        (examples_by_definition (JList (map (\<lambda>xs. JList (map JStr xs)) (pe_examples e))) (length (pe_definitions e))))"

fun nonblank :: "json \<Rightarrow> bool" where
  "nonblank (JStr s) = (strip s \<noteq> [])"
| "nonblank v = False"

text \<open>The simple definitions of a response, when it answers for this word, these entries and every sense.\<close>

definition accepted_rewrite :: "string \<Rightarrow> page_entry list \<Rightarrow> dict \<Rightarrow> (string \<times> (string \<times> string list) list) option" where
  "accepted_rewrite word source_entries response =
    (if dget ''entry'' response \<noteq> JStr word then None
     else case dget ''part_of_speech'' response of
       JStr p \<Rightarrow>
         if strip p \<notin> pe_pos ` set source_entries then None
         else
           let senses = concat (map senses_of (filter (\<lambda>e. pe_pos e = strip p) source_entries)) in
           (case dget ''definitions'' response of
              JList simple \<Rightarrow>
                if length simple \<noteq> length senses \<or> list_ex (\<lambda>d. \<not> nonblank d) simple then None
                else Some (strip p, zip (map strip (strs_of simple)) (map snd senses))
            | _ \<Rightarrow> None)
     | _ \<Rightarrow> None)"

text \<open>
  \<open>_translate_definition_with_nllb\<close>, the translator the service uses: the pipeline answers with
  a translated or an untranslated definition.
\<close>

datatype nllb_answer = Translated string | Untranslated string

definition request_error :: exn where "request_error = OtherError ''requests.RequestException''"

definition translate_definition_with_nllb ::
  "(string \<Rightarrow> string \<Rightarrow> 's \<Rightarrow> 's \<times> nllb_answer res) \<Rightarrow> string \<Rightarrow> string \<Rightarrow> 's \<Rightarrow> 's \<times> string option res" where
  "translate_definition_with_nllb nllb definition_text part_of_speech =
    rescue
      (sbind (nllb part_of_speech definition_text) (\<lambda>answer.
       sreturn (Inr (case answer of
         Untranslated t \<Rightarrow> None
       | Translated t \<Rightarrow>
         let cleaned = strip t in
         if cleaned = [] \<or> normalised_text cleaned = normalised_text definition_text then None else Some cleaned))))
      (\<lambda>e. sreturn (if e = request_error \<or> e = ValueError \<or> e = TypeError then Inr None else Inl e))"

text \<open>The translations that are new, each with its examples; none when a translation is missing or a copy.\<close>

fun translate_senses ::
  "'s checker \<Rightarrow> string \<Rightarrow> (string \<times> string list) list \<Rightarrow> (string \<times> string list) list
    \<Rightarrow> 's \<Rightarrow> 's \<times> (string \<times> string list) list option res" where
  "translate_senses K pos [] known = sreturn (Inr (Some known))"
| "translate_senses K pos ((simple, examples) # senses) known =
    sbind (pc_translator K simple pos) (\<lambda>answer.
    case answer of
      None \<Rightarrow> sreturn (Inr None)
    | Some translated \<Rightarrow>
      if normalised_text translated = normalised_text simple then sreturn (Inr None)
      else if normalised_text translated \<in> normalised_text ` fst ` set known
      then translate_senses K pos senses known
      else translate_senses K pos senses (known @ [(translated, examples)]))"

definition fix_entry ::
  "'s checker \<Rightarrow> 's progress \<Rightarrow> string \<Rightarrow> string \<times> string \<Rightarrow> page_entry list \<Rightarrow> string
    \<Rightarrow> 's \<Rightarrow> 's \<times> page_entry option res" where
  "fix_entry K on_progress word source_ref source_entries language =
    (if source_entries = [] then sreturn (Inr None)
     else
       let prompt = fill (pc_fix_template K) [(''word'', word), (''source_language'', fst source_ref),
             (''source_title'', snd source_ref), (''source_entries'', json_dump (JList (map entry_json source_entries)))]
       in sbind (rescue (sbind (pc_rewriter K prompt) (\<lambda>response. sreturn (Inr (Some response))))
            (\<lambda>e. sreturn (if e = RuntimeError \<or> e = ValueError then Inr None else Inl e))) (\<lambda>answer.
         case answer of
           None \<Rightarrow> sreturn (Inr None)
         | Some response \<Rightarrow>
           sbind (tell on_progress (1 / 2)) (\<lambda>_.
           case accepted_rewrite word source_entries response of
             None \<Rightarrow> sreturn (Inr None)
           | Some (pos, senses) \<Rightarrow>
             sbind (translate_senses K pos senses []) (\<lambda>translations.
             case translations of
               None \<Rightarrow> sreturn (Inr None)
             | Some [] \<Rightarrow> sreturn (Inr None)
             | Some (t # ts) \<Rightarrow>
               sbind (tell on_progress 1) (\<lambda>_.
               sreturn (Inr (Some \<lparr>pe_entry = word, pe_pos = pos, pe_language = language,
                 pe_definitions = map fst (t # ts), pe_examples = map snd (t # ts)\<rparr>)))))))"

subsection \<open>Checking the sections of a page\<close>

record page_source =
  ps_title :: string
  ps_wiki :: string
  ps_content :: string
  ps_ref :: "string \<times> string"
  ps_entries :: "page_entry list"
  ps_markdown :: string
  ps_repair :: bool
  ps_primary :: string
  ps_count :: nat

record tally =
  ty_fixes :: "(string \<times> page_entry) list"
  ty_issues :: "json list"
  ty_primary :: json
  ty_good :: bool
  ty_unfixable :: bool

definition tell_section :: "'s progress \<Rightarrow> page_source \<Rightarrow> nat \<Rightarrow> 's \<Rightarrow> 's \<times> unit res" where
  "tell_section on_progress P index = tell on_progress (55 / 100 + 2 / 10 * of_nat (index + 1) / of_nat (ps_count P))"

text \<open>A bad section is repaired when the source allows it and the repaired entry is found good.\<close>

definition repair_section ::
  "'s checker \<Rightarrow> 's progress \<Rightarrow> page_source \<Rightarrow> string \<Rightarrow> page_entry list \<Rightarrow> tally \<Rightarrow> 's \<Rightarrow> 's \<times> tally res" where
  "repair_section K on_progress P checked_language section_source ty =
    (if \<not> ps_repair P \<or> section_source = [] then sreturn (Inr (ty\<lparr>ty_unfixable := True\<rparr>))
     else
       sbind (fix_entry K (map_option (\<lambda>f ratio. f (75 / 100 + 19 / 100 * ratio)) on_progress)
           (ps_title P) (ps_ref P) section_source checked_language) (\<lambda>fixed.
       case fixed of
         None \<Rightarrow> sreturn (Inr (ty\<lparr>ty_unfixable := True\<rparr>))
       | Some e \<Rightarrow>
         sbind (verify K (ps_title P) (compact_entry [e]) checked_language (ps_ref P) section_source (ps_markdown P)) (\<lambda>verdict.
         sreturn (Inr (if fst verdict then ty\<lparr>ty_fixes := ty_fixes ty @ [(checked_language, e)]\<rparr>
           else ty\<lparr>ty_issues := ty_issues ty @ snd verdict, ty_unfixable := True\<rparr>)))))"

text \<open>The primary section is the one the result shows.\<close>

definition note_primary :: "page_source \<Rightarrow> string \<Rightarrow> page_entry list \<Rightarrow> tally \<Rightarrow> tally" where
  "note_primary P checked_language extracted ty =
    (if checked_language = ps_primary P then ty\<lparr>ty_primary := compact_entry extracted\<rparr> else ty)"

definition note_good :: "page_source \<Rightarrow> string \<Rightarrow> tally \<Rightarrow> tally" where
  "note_good P checked_language ty = (if checked_language = ps_primary P then ty\<lparr>ty_good := True\<rparr> else ty)"

definition check_section ::
  "'s checker \<Rightarrow> 's progress \<Rightarrow> page_source \<Rightarrow> nat \<Rightarrow> string \<Rightarrow> tally \<Rightarrow> 's \<Rightarrow> 's \<times> tally res" where
  "check_section K on_progress P index checked_language ty =
    (case extract_language_section checked_language (ps_content P) of
       None \<Rightarrow> sreturn (Inl (OtherError ''AssertionError''))
     | Some section_text \<Rightarrow>
       sbind (sreturn (extract_entries K checked_language section_text (ps_title P) (Some (ps_wiki P)))) (\<lambda>extracted.
       let ty1 = note_primary P checked_language extracted ty; good = note_good P checked_language ty1;
           entries = filter in_scope extracted
       in if extracted \<noteq> [] \<and> entries = []
         then sbind (tell_section on_progress P index) (\<lambda>_. sreturn (Inr good))
         else
           let section_source =
                 source_entries_for_section (ps_entries P) checked_language entries (ps_wiki P) (fst (ps_ref P))
           in sbind (verify K (ps_title P) (compact_entry entries) checked_language (ps_ref P) section_source (ps_markdown P))
             (\<lambda>verdict.
             sbind (tell_section on_progress P index) (\<lambda>_.
             if fst verdict then sreturn (Inr good)
             else repair_section K on_progress P checked_language section_source
               (ty1\<lparr>ty_issues := ty_issues ty1 @ snd verdict\<rparr>)))))"

fun check_sections ::
  "'s checker \<Rightarrow> 's progress \<Rightarrow> page_source \<Rightarrow> nat \<Rightarrow> string list \<Rightarrow> tally \<Rightarrow> 's \<Rightarrow> 's \<times> tally res" where
  "check_sections K on_progress P index [] ty = sreturn (Inr ty)"
| "check_sections K on_progress P index (l # ls) ty =
    sbind (check_section K on_progress P index l ty) (check_sections K on_progress P (index + 1) ls)"

subsection \<open>Publishing the fixes\<close>

definition duplicate_mg_section :: "'s checker \<Rightarrow> string \<Rightarrow> page_entry \<Rightarrow> string \<Rightarrow> bool res" where
  "duplicate_mg_section K title fixed_entry content =
    (case extract_language_section ''mg'' content of
       None \<Rightarrow> Inr False
     | Some section_text \<Rightarrow>
       bnd (extract_entries K ''mg'' section_text title None) (\<lambda>entries. Inr (entries_match entries fixed_entry)))"

fun replace_all_fixes :: "renderer_code \<Rightarrow> string \<Rightarrow> (string \<times> page_entry) list \<Rightarrow> string res" where
  "replace_all_fixes R content [] = Inr content"
| "replace_all_fixes R content (x # xs) = bnd (replace_definition_blocks R content x) (\<lambda>c. replace_all_fixes R c xs)"

definition fixed_content :: "'s checker \<Rightarrow> string \<Rightarrow> (string \<times> page_entry) list \<Rightarrow> bool \<Rightarrow> string \<Rightarrow> string res" where
  "fixed_content K title fixes drop_duplicate_mg content =
    bnd (if drop_duplicate_mg then duplicate_mg_section K title (snd (hd fixes)) content else Inr False) (\<lambda>duplicate.
    replace_all_fixes (pc_renderer K)
      (if duplicate then delete_language_section (pc_renderer K) ''mg'' content else content) fixes)"

definition publish_fixes ::
  "'s checker \<Rightarrow> ('s \<Rightarrow> 's \<times> unit res) option \<Rightarrow> string \<Rightarrow> (string \<times> page_entry) list \<Rightarrow> string \<Rightarrow> bool
    \<Rightarrow> 's \<Rightarrow> 's \<times> bool res" where
  "publish_fixes K guard title fixes expected_content drop_duplicate_mg =
    sbind (pc_read K title ''mg'') (\<lambda>page_content.
    if page_content \<noteq> expected_content then sreturn (Inr False)
    else
      sbind (pc_namespace K title) (\<lambda>namespace.
      if namespace \<noteq> Some 0 then sreturn (Inr False)
      else
        sbind (sreturn (fixed_content K title fixes drop_duplicate_mg page_content)) (\<lambda>new_content.
        sbind
          (if pc_queued K
           then publish_wikipage guard (pc_push K) new_content title ''fanitsiana famaritana'' False
             (Some (pc_sha K expected_content))
           else pc_put K guard title new_content ''fanitsiana famaritana'')
          (\<lambda>_. sreturn (Inr True)))))"

subsection \<open>Checking pages\<close>

record check_result =
  ck_word :: string
  ck_status :: string
  ck_message :: string
  ck_language :: json
  ck_title :: json
  ck_issues :: "json list"
  ck_mg_entry :: json
  ck_fixed :: json

definition serialise_result :: "check_result \<Rightarrow> dict" where
  "serialise_result r =
    [(''word'', JStr (ck_word r)), (''status'', JStr (ck_status r)), (''message'', JStr (ck_message r)),
     (''source_language'', ck_language r), (''source_title'', ck_title r), (''issues'', JList (ck_issues r)),
     (''mg_entry'', ck_mg_entry r), (''fixed_entry'', ck_fixed r)]"

definition plain_result :: "string \<Rightarrow> string \<Rightarrow> string \<Rightarrow> check_result" where
  "plain_result word status message =
    \<lparr>ck_word = word, ck_status = status, ck_message = message, ck_language = JNull, ck_title = JNull,
     ck_issues = [], ck_mg_entry = JNull, ck_fixed = JNull\<rparr>"

definition sourced_result :: "page_source \<Rightarrow> tally \<Rightarrow> string \<Rightarrow> string \<Rightarrow> check_result" where
  "sourced_result P ty status message =
    (plain_result (ps_title P) status message)\<lparr>ck_language := JStr (fst (ps_ref P)), ck_title := JStr (snd (ps_ref P)),
      ck_issues := ty_issues ty, ck_mg_entry := ty_primary ty\<rparr>"

definition fixed_json :: "page_entry \<Rightarrow> json" where
  "fixed_json e =
    (let per_definition = JList (map (\<lambda>xs. JList (map JStr xs)) (pe_examples e)) in
     JDict [(''entry'', JStr (pe_entry e)), (''part_of_speech'', JStr (pe_pos e)), (''language'', JStr (pe_language e)),
       (''definitions'', JList (map JStr (pe_definitions e))), (''additional_data'', JDict [(''examples'', per_definition)]),
       (''examples'', JList (map JStr (concat (pe_examples e))))])"

definition no_template_message :: string where
  "no_template_message = ''No {{wikibolana|xx|YYY}} template found on the page; the source wiktionary cannot be determined.''"

definition no_source_message :: string where
  "no_source_message = ''The source page could not be fetched; the fix cannot be produced without the source entries.''"

definition no_fix_message :: string where
  "no_fix_message = ''The fix could not be produced from the source entries.''"

definition source_changed_message :: string where
  "source_changed_message = ''The source page changed or could not be revalidated; the generated fix was not published.''"

definition page_changed_message :: string where
  "page_changed_message = ''The page changed or is no longer a main-namespace entry; the generated fix was not published.''"

definition fixed_message :: "'s checker \<Rightarrow> string \<Rightarrow> string list \<Rightarrow> string" where
  "fixed_message K language fixed_languages =
    (let publication_state = (if \<not> pc_publish K then ''not published''
           else if pc_queued K then ''queued for publication'' else ''published'')
     in if fixed_languages = [language] then ''The Malagasy definition was fixed and '' @ publication_state @ ''.''
        else ''The entries in the '' @ join '', '' (sort (remdups fixed_languages)) @
          '' section(s) were fixed and '' @ publication_state @ ''.'')"

text \<open>The source page: its entries, and its text when it could be read.\<close>

definition read_source :: "'s checker \<Rightarrow> string \<times> string \<Rightarrow> 's \<Rightarrow> 's \<times> (page_entry list \<times> string option) res" where
  "read_source K source_ref =
    rescue
      (sbind (pc_read K (snd source_ref) (fst source_ref)) (\<lambda>content.
       sreturn (Inr (case extract_entries K (fst source_ref) content (snd source_ref) None of
         Inl e \<Rightarrow> ([], Some content) | Inr entries \<Rightarrow> (entries, Some content)))))
      (\<lambda>e. sreturn (Inr ([], None)))"

definition read_mirror :: "'s checker \<Rightarrow> string \<Rightarrow> string \<Rightarrow> 's \<Rightarrow> 's \<times> string res" where
  "read_mirror K title content =
    (if contains content ''=en='' \<or> contains content ''=fr=''
     then rescue (pc_mirror K title) (\<lambda>e. sreturn (if e = ValueError then Inr [] else Inl e))
     else sreturn (Inr []))"

text \<open>What follows the sections: the verdict on the page, with the publication of its fixes.\<close>

definition publish_result ::
  "'s checker \<Rightarrow> 's progress \<Rightarrow> ('s \<Rightarrow> 's \<times> unit res) option \<Rightarrow> page_source \<Rightarrow> string option \<Rightarrow> tally
    \<Rightarrow> 's \<Rightarrow> 's \<times> check_result option res" where
  "publish_result K on_progress guard P source_content ty =
    (if \<not> pc_publish K then sreturn (Inr None)
     else
       sbind (rescue (sbind (pc_read K (snd (ps_ref P)) (fst (ps_ref P))) (\<lambda>c. sreturn (Inr (Some c))))
           (\<lambda>e. sreturn (Inr None))) (\<lambda>current.
       if current \<noteq> source_content then sreturn (Inr (Some (sourced_result P ty ''unverifiable'' source_changed_message)))
       else
         sbind (publish_fixes K guard (ps_title P) (ty_fixes ty) (ps_content P)
             (ps_primary P = ps_wiki P \<and> ty_good ty \<and> ps_wiki P \<notin> fst ` set (ty_fixes ty))) (\<lambda>published.
         sreturn (Inr (if published then None
           else Some (sourced_result P ty ''unverifiable'' page_changed_message))))))"

definition conclude ::
  "'s checker \<Rightarrow> 's progress \<Rightarrow> ('s \<Rightarrow> 's \<times> unit res) option \<Rightarrow> page_source \<Rightarrow> string option \<Rightarrow> tally
    \<Rightarrow> 's \<Rightarrow> 's \<times> check_result res" where
  "conclude K on_progress guard P source_content ty =
    sbind (tell on_progress (95 / 100)) (\<lambda>_.
    case ty_fixes ty of
      [] \<Rightarrow>
        if ty_good ty \<and> \<not> ty_unfixable ty
        then sbind (tell on_progress 1) (\<lambda>_. sreturn (Inr
          ((sourced_result P ty ''good'' ''The Malagasy definition matches the source.'')\<lparr>ck_issues := []\<rparr>)))
        else sreturn (Inr (sourced_result P ty ''unverifiable''
          (if ps_entries P = [] then no_source_message else no_fix_message)))
    | fix0 # more_fixes \<Rightarrow>
        sbind (publish_result K on_progress guard P source_content ty) (\<lambda>refusal.
        case refusal of
          Some r \<Rightarrow> sreturn (Inr r)
        | None \<Rightarrow>
          sbind (tell on_progress 1) (\<lambda>_. sreturn (Inr
            ((sourced_result P ty ''fixed'' (fixed_message K (ps_wiki P) (map fst (fix0 # more_fixes))))
               \<lparr>ck_fixed := fixed_json (snd fix0)\<rparr>)))))"

definition languages_of :: "string \<Rightarrow> string \<Rightarrow> string list" where
  "languages_of language content =
    (let sections = map fst (split_language_sections content) in if sections = [] then [language] else sections)"

definition source_of_page ::
  "string \<Rightarrow> string \<Rightarrow> string \<Rightarrow> bool \<Rightarrow> string \<times> string \<Rightarrow> page_entry list \<Rightarrow> string \<Rightarrow> page_source" where
  "source_of_page language title content repair source_ref source_entries markdown =
    \<lparr>ps_title = title, ps_wiki = language, ps_content = content, ps_ref = source_ref, ps_entries = source_entries,
     ps_markdown = markdown, ps_repair = repair,
     ps_primary = (if language \<in> set (languages_of language content) then language else hd (languages_of language content)),
     ps_count = length (languages_of language content)\<rparr>"

definition no_tally :: tally where
  "no_tally = \<lparr>ty_fixes = [], ty_issues = [], ty_primary = JNull, ty_good = False, ty_unfixable = False\<rparr>"

text \<open>The check of a page whose source is known.\<close>

definition check_against ::
  "'s checker \<Rightarrow> 's progress \<Rightarrow> ('s \<Rightarrow> 's \<times> unit res) option \<Rightarrow> string \<Rightarrow> string \<Rightarrow> string \<Rightarrow> bool \<Rightarrow> string \<times> string
    \<Rightarrow> 's \<Rightarrow> 's \<times> check_result res" where
  "check_against K on_progress guard language title content repair source_ref =
    sbind (tell on_progress (3 / 10)) (\<lambda>_.
    sbind (read_source K source_ref) (\<lambda>source.
    sbind (tell on_progress (1 / 2)) (\<lambda>_.
    sbind (read_mirror K title content) (\<lambda>markdown.
    sbind (tell on_progress (55 / 100)) (\<lambda>_.
    sbind (check_sections K on_progress (source_of_page language title content repair source_ref (fst source) markdown)
        0 (languages_of language content) no_tally)
      (conclude K on_progress guard (source_of_page language title content repair source_ref (fst source) markdown)
        (snd source)))))))"

definition check_page ::
  "'s checker \<Rightarrow> 's progress \<Rightarrow> ('s \<Rightarrow> 's \<times> unit res) option \<Rightarrow> string \<Rightarrow> string \<Rightarrow> string option \<Rightarrow> bool
    \<Rightarrow> 's \<Rightarrow> 's \<times> check_result res" where
  "check_page K on_progress guard language title candidate_content repair =
    sbind (case candidate_content of Some c \<Rightarrow> sreturn (Inr c) | None \<Rightarrow> pc_read K title language) (\<lambda>content.
    sbind (tell on_progress (15 / 100)) (\<lambda>_.
    case parse_mg_wiktionary content of
      None \<Rightarrow> sreturn (Inr (plain_result title ''unverifiable'' no_template_message))
    | Some source_ref \<Rightarrow> check_against K on_progress guard language title content repair source_ref))"

definition publication_superseded :: exn where
  "publication_superseded = OtherError ''PageCheckPublicationSuperseded''"

definition is_superseded :: "exn \<Rightarrow> bool" where
  "is_superseded e \<longleftrightarrow> e = CheckJobExecutionSuperseded \<or> e = publication_superseded"

definition page_progress :: "'s progress \<Rightarrow> nat \<Rightarrow> nat \<Rightarrow> 's progress" where
  "page_progress on_progress index count =
    Some (\<lambda>ratio. tell on_progress ((of_nat index + ratio) / of_nat count))"

fun check_titles ::
  "'s checker \<Rightarrow> 's progress \<Rightarrow> ('s \<Rightarrow> 's \<times> unit res) option \<Rightarrow> string \<Rightarrow> nat \<Rightarrow> nat \<Rightarrow> string list
    \<Rightarrow> 's \<Rightarrow> 's \<times> dict list res" where
  "check_titles K on_progress guard language count index [] = sreturn (Inr [])"
| "check_titles K on_progress guard language count index (title # titles) =
    sbind (rescue (check_page K (page_progress on_progress index count) guard language title None True)
        (\<lambda>e. sreturn (if is_superseded e then Inl e else Inr (plain_result title ''error'' (pc_message K e))))) (\<lambda>result.
    sbind (check_titles K on_progress guard language count (index + 1) titles) (\<lambda>results.
    sreturn (Inr (serialise_result result # results))))"

definition check_pages ::
  "'s checker \<Rightarrow> 's progress \<Rightarrow> ('s \<Rightarrow> 's \<times> unit res) option \<Rightarrow> string \<Rightarrow> string list \<Rightarrow> 's \<Rightarrow> 's \<times> dict list res" where
  "check_pages K on_progress guard language titles =
    check_titles K on_progress guard language (length titles) 0 titles"

end
