(* ===== verification/PageCheckSafety.thy ===== *)
theory PageCheckSafety
  imports PageCheck
begin

text \<open>
  What a page check may publish: only fixes that the verifier found good, of a page that still
  has the text that was checked, after the publication guard.  The proofs say of every other
  call of the service that it keeps a relation of states (\<open>quiet\<close>), for instance that no
  message was added to the queue.
\<close>

subsection \<open>Calls that publish nothing\<close>

definition quiet :: "('s \<Rightarrow> 's \<Rightarrow> bool) \<Rightarrow> 's checker \<Rightarrow> bool" where
  "quiet R K \<longleftrightarrow> reflp R \<and> transp R \<and> (\<forall>t l. stays R (pc_read K t l)) \<and> (\<forall>t. stays R (pc_namespace K t)) \<and>
    (\<forall>p. stays R (pc_verifier K p)) \<and> (\<forall>p. stays R (pc_rewriter K p)) \<and>
    (\<forall>d p. stays R (pc_translator K d p)) \<and> (\<forall>t. stays R (pc_mirror K t))"

definition quiet_progress :: "('s \<Rightarrow> 's \<Rightarrow> bool) \<Rightarrow> 's progress \<Rightarrow> bool" where
  "quiet_progress R on_progress \<longleftrightarrow> (\<forall>f ratio. on_progress = Some f \<longrightarrow> stays R (f ratio))"

named_theorems quiet_intros "calls that keep the relation"

lemma quietD:
  assumes "quiet R K"
  shows "reflp R" "transp R" "stays R (pc_read K t l)" "stays R (pc_namespace K t)" "stays R (pc_verifier K p)"
    "stays R (pc_rewriter K p)" "stays R (pc_translator K d p)" "stays R (pc_mirror K t)"
  using assms by (simp_all add: quiet_def)

lemma stays_rescue:
  assumes "transp R" and "stays R f" and "\<And>e. stays R (h e)"
  shows "stays R (rescue f h)"
  unfolding stays_def
proof
  fix s
  obtain s1 r where f: "f s = (s1, r)" by (cases "f s")
  have 1: "R s s1" using staysD [OF assms(2) f] .
  have 2: "R s1 (fst (h e s1))" for e using assms(3) by (simp add: stays_def)
  show "R s (fst (rescue f h s))"
    using f 1 transpD [OF assms(1) 1 2] by (cases r) (simp_all add: rescue_def)
qed

lemma sbind_step_error:
  assumes "sbind f h s = (s', r)" and "stays R f" and "transp R" and "R s0 s"
    and "\<And>e. R s0 s' \<Longrightarrow> r = Inl e \<Longrightarrow> thesis"
    and "\<And>a s1. f s = (s1, Inr a) \<Longrightarrow> R s0 s1 \<Longrightarrow> h a s1 = (s', r) \<Longrightarrow> thesis"
  shows thesis
  using assms(1)
proof (cases rule: sbind_cases)
  case (raised e)
  then show ?thesis using assms(5) transpD [OF assms(3,4)] staysD [OF assms(2)] by blast
next
  case (ran s1 a)
  then show ?thesis using assms(6) transpD [OF assms(3,4)] staysD [OF assms(2)] by blast
qed

lemma sbind_step:
  assumes "sbind f h s = (s', r)" and "stays R f" and "transp R" and "R s0 s"
    and "R s0 s' \<Longrightarrow> thesis" and "\<And>a s1. f s = (s1, Inr a) \<Longrightarrow> R s0 s1 \<Longrightarrow> h a s1 = (s', r) \<Longrightarrow> thesis"
  shows thesis
  by (rule sbind_step_error [OF assms(1-4)]) (use assms(5,6) in blast)+

text \<open>What holds of every result of a computation.\<close>

definition yields :: "('a \<Rightarrow> bool) \<Rightarrow> ('s \<Rightarrow> 's \<times> 'a res) \<Rightarrow> bool" where
  "yields Q f \<longleftrightarrow> (\<forall>s s' a. f s = (s', Inr a) \<longrightarrow> Q a)"

lemma yields_sbind:
  assumes "yields P f" and "\<And>a. P a \<Longrightarrow> yields Q (h a)"
  shows "yields Q (sbind f h)"
  unfolding yields_def
proof (intro allI impI)
  fix s s' a
  assume "sbind f h s = (s', Inr a)"
  then show "Q a"
  proof (cases rule: sbind_cases)
    case (ran s1 b)
    have "P b" using assms(1) ran(1) unfolding yields_def by blast
    from assms(2) [OF this] ran(2) show ?thesis unfolding yields_def by blast
  qed simp
qed

lemma yields_any: "yields (\<lambda>a. True) f"
  by (simp add: yields_def)

lemma yields_skip: "(\<And>a. yields Q (h a)) \<Longrightarrow> yields Q (sbind f h)"
  by (rule yields_sbind [OF yields_any])

lemma yields_sreturn: "yields Q (sreturn r) \<longleftrightarrow> (\<forall>a. r = Inr a \<longrightarrow> Q a)"
  by (simp add: yields_def sreturn_def)

lemma tell_quiet [quiet_intros]: "reflp R \<Longrightarrow> quiet_progress R g \<Longrightarrow> stays R (tell g ratio)"
  by (cases g) (auto simp: tell_def quiet_progress_def intro: stays_sreturn)

lemma quiet_progress_map:
  "quiet_progress R g \<Longrightarrow> quiet_progress R (map_option (\<lambda>f ratio. f (c ratio)) g)"
  by (auto simp: quiet_progress_def)

lemma verify_quiet:
  assumes "quiet R K"
  shows "stays R (verify K word shown lang ref sources markdown)"
  unfolding verify_def using assms by (intro stays_sbind stays_sreturn) (auto dest: quietD)

lemma translate_senses_quiet:
  assumes "quiet R K"
  shows "stays R (translate_senses K pos senses known)"
proof (induction senses arbitrary: known)
  case Nil
  then show ?case using assms by (auto intro: stays_sreturn quietD)
next
  case (Cons x senses)
  obtain simple ex where x: "x = (simple, ex)" by (cases x)
  have k: "stays R (case answer of None \<Rightarrow> sreturn (Inr None)
      | Some t \<Rightarrow> if normalised_text t = normalised_text simple then sreturn (Inr None)
        else if normalised_text t \<in> normalised_text ` fst ` set known
        then translate_senses K pos senses known
        else translate_senses K pos senses (known @ [(t, ex)]))" for answer
    using Cons assms by (auto split: option.split intro: stays_sreturn quietD)
  show ?case unfolding x translate_senses.simps
    by (rule stays_sbind [OF quietD(2) [OF assms] quietD(7) [OF assms] k])
qed

lemma fix_entry_quiet:
  assumes "quiet R K" and "quiet_progress R g"
  shows "stays R (fix_entry K g word ref sources lang)"
  unfolding fix_entry_def Let_def using assms quietD(1,2) [OF assms(1)]
  by (auto intro!: stays_sbind stays_sreturn stays_rescue tell_quiet translate_senses_quiet
      intro: quietD split: option.split list.split prod.split)

lemma repair_section_quiet:
  assumes "quiet R K" and "quiet_progress R g"
  shows "stays R (repair_section K g P l sources ty)"
  unfolding repair_section_def using assms quietD(1,2) [OF assms(1)]
  by (auto intro!: stays_sbind stays_sreturn fix_entry_quiet verify_quiet quiet_progress_map
      intro: quietD split: option.split)

lemma check_section_quiet:
  assumes "quiet R K" and "quiet_progress R g"
  shows "stays R (check_section K g P n l ty)"
  unfolding check_section_def tell_section_def Let_def using assms quietD(1,2) [OF assms(1)]
  by (auto intro!: stays_sbind stays_sreturn tell_quiet verify_quiet repair_section_quiet
      intro: quietD split: option.split)

lemma check_sections_quiet:
  assumes "quiet R K" and "quiet_progress R g"
  shows "stays R (check_sections K g P n ls ty)"
proof (induction ls arbitrary: n ty)
  case Nil
  then show ?case using assms by (auto intro: stays_sreturn quietD)
next
  case (Cons l ls)
  then show ?case using assms by (auto intro!: stays_sbind check_section_quiet intro: quietD)
qed

lemma read_source_quiet: "quiet R K \<Longrightarrow> stays R (read_source K ref)"
  unfolding read_source_def by (auto intro!: stays_rescue stays_sbind stays_sreturn intro: quietD)

lemma read_mirror_quiet: "quiet R K \<Longrightarrow> stays R (read_mirror K title content)"
  unfolding read_mirror_def by (auto intro!: stays_rescue stays_sreturn intro: quietD)

subsection \<open>Generated fixes\<close>

text \<open>A translation of one simple definition, which comes from a sense with these examples.\<close>

definition translated :: "'s checker \<Rightarrow> string \<Rightarrow> (string \<times> string list) list \<Rightarrow> string \<times> string list \<Rightarrow> bool" where
  "translated K pos senses out \<longleftrightarrow>
    (\<exists>simple s s'. (simple, snd out) \<in> set senses \<and> pc_translator K simple pos s = (s', Inr (Some (fst out))) \<and>
      normalised_text (fst out) \<noteq> normalised_text simple)"

lemma translated_Cons: "translated K pos senses out \<Longrightarrow> translated K pos (x # senses) out"
  by (auto simp: translated_def)

lemma all_translated_Cons:
  "list_all (translated K pos senses) new \<Longrightarrow> list_all (translated K pos (x # senses)) new"
  by (erule list.pred_mono_strong) (rule translated_Cons)

lemma translate_senses_result:
  assumes "translate_senses K pos senses known s = (s', Inr (Some out))"
    and "distinct (map (\<lambda>x. normalised_text (fst x)) known)"
  shows "distinct (map (\<lambda>x. normalised_text (fst x)) out) \<and>
    (\<exists>new. out = known @ new \<and> length new \<le> length senses \<and> list_all (translated K pos senses) new)"
  using assms
proof (induction senses arbitrary: known s)
  case Nil
  then show ?case by (auto simp: sreturn_def)
next
  case (Cons x senses)
  obtain simple ex where x: "x = (simple, ex)" by (cases x)
  obtain t s1 where t: "pc_translator K simple pos s = (s1, Inr (Some t))" "normalised_text t \<noteq> normalised_text simple"
    and rest: "(if normalised_text t \<in> normalised_text ` fst ` set known then translate_senses K pos senses known
        else translate_senses K pos senses (known @ [(t, ex)])) s1 = (s', Inr (Some out))"
    using Cons.prems(1) unfolding x
    by (auto simp: sbind_def sreturn_def split: prod.splits sum.splits option.splits if_splits)
  show ?case
  proof (cases "normalised_text t \<in> normalised_text ` fst ` set known")
    case True
    with rest have "translate_senses K pos senses known s1 = (s', Inr (Some out))" by simp
    from Cons.IH [OF this Cons.prems(2)] show ?thesis
      by (auto dest: all_translated_Cons [where x = x])
  next
    case False
    with rest have t': "translate_senses K pos senses (known @ [(t, ex)]) s1 = (s', Inr (Some out))" by simp
    have "distinct (map (\<lambda>x. normalised_text (fst x)) (known @ [(t, ex)]))" using False Cons.prems(2) by auto
    from Cons.IH [OF t' this] obtain new where
      new: "distinct (map (\<lambda>x. normalised_text (fst x)) out)" "out = known @ (t, ex) # new" "length new \<le> length senses"
      "list_all (translated K pos senses) new" by auto
    have "translated K pos (x # senses) (t, ex)" using t x by (auto simp: translated_def)
    with new show ?thesis by (auto dest: all_translated_Cons [where x = x])
  qed
qed

lemma accepted_rewrite_senses:
  assumes "accepted_rewrite word sources response = Some (pos, senses)"
  shows "pos \<in> pe_pos ` set sources"
    and "map snd senses = map snd (concat (map senses_of (filter (\<lambda>e. pe_pos e = pos) sources)))"
proof -
  have strs: "length (strs_of vs) = length vs" if "\<not> list_ex (\<lambda>d. \<not> nonblank d) vs" for vs
    using that
  proof (induction vs)
    case (Cons v vs)
    then show ?case by (cases v) (auto simp: strs_of_def)
  qed (simp add: strs_of_def)
  show "pos \<in> pe_pos ` set sources"
    using assms by (auto simp: accepted_rewrite_def Let_def split: if_splits json.splits)
  show "map snd senses = map snd (concat (map senses_of (filter (\<lambda>e. pe_pos e = pos) sources)))"
    using assms by (auto simp: accepted_rewrite_def Let_def strs split: if_splits json.splits)
qed

lemma fix_entry_result:
  assumes "fix_entry K g word ref sources lang s = (s', Inr (Some e))"
  obtains senses out where "pe_entry e = word" "pe_language e = lang" "pe_pos e \<in> pe_pos ` set sources"
    "map snd senses = map snd (concat (map senses_of (filter (\<lambda>x. pe_pos x = pe_pos e) sources)))"
    "pe_definitions e = map fst out" "pe_examples e = map snd out" "out \<noteq> []"
    "distinct (map (\<lambda>x. normalised_text (fst x)) out)" "list_all (translated K (pe_pos e) senses) out"
    "length out \<le> length senses"
proof -
  obtain response pos senses t ts s1 s2 where
    a: "accepted_rewrite word sources response = Some (pos, senses)"
    and t: "translate_senses K pos senses [] s1 = (s2, Inr (Some (t # ts)))"
    and e: "e = \<lparr>pe_entry = word, pe_pos = pos, pe_language = lang, pe_definitions = map fst (t # ts),
      pe_examples = map snd (t # ts)\<rparr>"
    using assms
    by (auto simp: fix_entry_def Let_def sbind_def sreturn_def rescue_def
        split: prod.splits sum.splits option.splits list.splits if_splits)
  note out = translate_senses_result [OF t]
  show ?thesis
    using that [of senses "t # ts"] accepted_rewrite_senses [OF a] out e by auto
qed

subsection \<open>Verified fixes\<close>

text \<open>A fix is for the title and its section, its part of speech is one of the source, and the verifier found it good.\<close>

definition good_fix :: "'s checker \<Rightarrow> page_source \<Rightarrow> string \<times> page_entry \<Rightarrow> bool" where
  "good_fix K P f \<longleftrightarrow> pe_entry (snd f) = ps_title P \<and> pe_language (snd f) = fst f \<and>
    (\<exists>sources s s' issues. set sources \<subseteq> set (ps_entries P) \<and> pe_pos (snd f) \<in> pe_pos ` set sources \<and>
      verify K (ps_title P) (compact_entry [snd f]) (fst f) (ps_ref P) sources (ps_markdown P) s = (s', Inr (True, issues)))"

lemma repair_section_fixes:
  assumes "repair_section K g P l sources ty s = (s', Inr ty')" and "set sources \<subseteq> set (ps_entries P)"
    and "list_all (good_fix K P) (ty_fixes ty)"
  shows "list_all (good_fix K P) (ty_fixes ty')"
proof -
  let ?fix = "fix_entry K (map_option (\<lambda>f ratio. f (75 / 100 + 19 / 100 * ratio)) g) (ps_title P) (ps_ref P) sources l s"
  consider "ty_fixes ty' = ty_fixes ty"
    | e s1 s2 issues where "ty_fixes ty' = ty_fixes ty @ [(l, e)]" "?fix = (s1, Inr (Some e))"
      "verify K (ps_title P) (compact_entry [e]) l (ps_ref P) sources (ps_markdown P) s1 = (s2, Inr (True, issues))"
  proof (cases "\<not> ps_repair P \<or> sources = []")
    case True
    with assms(1) that(1) show ?thesis by (auto simp: repair_section_def sreturn_def)
  next
    case False
    with assms(1) obtain s1 fixed where f: "?fix = (s1, Inr fixed)"
      by (auto simp: repair_section_def sbind_def split: prod.splits sum.splits)
    show ?thesis
    proof (cases fixed)
      case None
      with False f assms(1) that(1) show ?thesis by (auto simp: repair_section_def sbind_def sreturn_def)
    next
      case (Some e)
      with False f assms(1) obtain s2 good issues where v:
        "verify K (ps_title P) (compact_entry [e]) l (ps_ref P) sources (ps_markdown P) s1 = (s2, Inr (good, issues))"
        by (auto simp: repair_section_def sbind_def split: prod.splits sum.splits)
      with False f Some assms(1) that show ?thesis
        by (cases good) (auto simp: repair_section_def sbind_def sreturn_def)
    qed
  qed
  then show ?thesis
  proof cases
    case 1
    with assms(3) show ?thesis by simp
  next
    case 2
    obtain "pe_entry e = ps_title P" "pe_language e = l" "pe_pos e \<in> pe_pos ` set sources"
      using fix_entry_result [OF 2(2)] by blast
    then have "good_fix K P (l, e)"
      unfolding good_fix_def fst_conv snd_conv using assms(2) 2(3) by blast
    with 2(1) assms(3) show ?thesis by simp
  qed
qed

lemma source_entries_subset:
  "set (source_entries_for_section entries l found wiki source_wiki) \<subseteq> set entries"
  by (auto simp: source_entries_for_section_def Let_def)

lemma note_fixes [simp]:
  "ty_fixes (note_primary P l extracted ty) = ty_fixes ty" "ty_fixes (note_good P l ty) = ty_fixes ty"
  by (simp_all add: note_primary_def note_good_def)

lemma check_section_fixes:
  assumes "check_section K g P n l ty s = (s', Inr ty')" and "list_all (good_fix K P) (ty_fixes ty)"
  shows "list_all (good_fix K P) (ty_fixes ty')"
proof -
  have "ty_fixes ty' = ty_fixes ty \<or>
    (\<exists>found extracted issues s1. repair_section K g P l
       (source_entries_for_section (ps_entries P) l found (ps_wiki P) (fst (ps_ref P)))
       ((note_primary P l extracted ty)\<lparr>ty_issues := issues\<rparr>) s1 = (s', Inr ty'))"
    using assms(1)
    by (auto simp: check_section_def sbind_def sreturn_def Let_def split: prod.splits sum.splits option.splits if_splits)
  then show ?thesis
  proof (elim disjE exE)
    fix found extracted issues s1
    assume r: "repair_section K g P l
       (source_entries_for_section (ps_entries P) l found (ps_wiki P) (fst (ps_ref P)))
       ((note_primary P l extracted ty)\<lparr>ty_issues := issues\<rparr>) s1 = (s', Inr ty')"
    show ?thesis by (rule repair_section_fixes [OF r source_entries_subset]) (use assms(2) in simp)
  qed (use assms(2) in simp)
qed

lemma check_sections_fixes:
  assumes "check_sections K g P n ls ty s = (s', Inr ty')" and "list_all (good_fix K P) (ty_fixes ty)"
  shows "list_all (good_fix K P) (ty_fixes ty')"
  using assms
proof (induction ls arbitrary: n ty s)
  case (Cons l ls)
  from Cons.prems(1) obtain s1 t where "check_section K g P n l ty s = (s1, Inr t)"
    "check_sections K g P (n + 1) ls t s1 = (s', Inr ty')"
    by (auto simp: sbind_def split: prod.splits sum.splits)
  with Cons check_section_fixes show ?case by metis
qed (simp add: sreturn_def)

end
