(* ===== verification/PageReplacement.thy ===== *)
theory PageReplacement
  imports PageCheckText "HOL-Library.Sublist"
begin

text \<open>
  What the replacement of definition blocks does to a page: it never fails, it leaves the text
  outside the section alone, and what it does inside.
\<close>

subsection \<open>Rendering a fix never fails\<close>

lemma map_res_Inr: "list_all (\<lambda>x. \<exists>y. f x = Inr y) xs \<Longrightarrow> \<exists>ys. map_res f xs = Inr ys"
  by (induction xs) auto

abbreviation all_strs :: "(string \<times> json list) list \<Rightarrow> bool" where
  "all_strs ds \<equiv> list_all (\<lambda>p. list_all is_str (snd p)) ds"

lemma gather_strs: "all_strs ds \<Longrightarrow> all_strs known \<Longrightarrow> all_strs (gather ds known)"
proof (induction ds known rule: gather.induct)
  case (2 d ex ds known)
  let ?d = "strip_noun_prefix d"
  let ?new = "(case map_of known ?d of None \<Rightarrow> [] | Some old \<Rightarrow> old) @ ex"
  have "list_all is_str old" if "map_of known ?d = Some old" for old
    using map_of_SomeD [OF that] 2(4) by (auto simp: list_all_iff)
  then have "list_all is_str ?new" using 2(3) by (auto split: option.split)
  then have "all_strs (AList.update ?d ?new known)" using 2(4) by (intro list_all_AList_update)
  with 2 show ?case by (simp add: Let_def)
qed simp

lemma rendered_line:
  assumes "list_all is_str (snd g)"
  shows "\<exists>l. render_definition_line R link w [] g = Inr l"
proof -
  have "list_all (\<lambda>x. \<exists>y. render_example (rc_dash R) [] x = Inr y) (in_order_once (snd g))"
    using assms by (auto simp: list_all_iff is_str_iff render_example_def in_order_once_def)
  from map_res_Inr [OF this] show ?thesis by (auto simp: render_definition_line_def)
qed

lemma rendered_fix: "\<exists>t. render_definition_block R e = Inr t"
proof -
  let ?info = "fixed_word_entry e"
  have h: "\<exists>h. render_head_section ?info = Inr h"
    by (simp add: render_head_section_def fixed_word_entry_def render_etymology_def data_or_empty_def dhas_def Let_def)
  have "all_strs (zip (we_definitions ?info) (aligned_examples ?info))"
    by (auto simp: list_all_iff aligned_examples_def fixed_word_entry_def data_or_empty_def dget_or_def Let_def
        dest!: set_zip_rightD split: if_splits)
  then have "all_strs (gathered ?info)" unfolding gathered_def by (rule gather_strs) simp
  then have "list_all (\<lambda>g. \<exists>l. render_definition_line R True (we_entry ?info) [] g = Inr l) (gathered ?info)"
    by (rule list.pred_mono_strong) (rule rendered_line)
  from map_res_Inr [OF this] have "\<exists>d. render_definitions R ?info True = Inr d"
    by (auto simp: render_definitions_def fixed_word_entry_def data_or_empty_def dget_or_def py_or_def)
  with h show ?thesis by (auto simp: render_definition_block_def Let_def)
qed

lemma replacement_succeeds: "\<exists>c. replace_definition_blocks R content f = Inr c"
proof -
  obtain t where "render_definition_block R (snd f) = Inr t" using rendered_fix by blast
  then show ?thesis
    by (auto simp: replace_definition_blocks_def Let_def split: prod.split option.split list.split)
qed

subsection \<open>Sections are parts of the page\<close>

lemma extract_language_section_part:
  assumes "extract_language_section l content = Some section_text"
  shows "\<exists>a b. content = a @ section_text @ b"
proof (cases "split_language_sections content = []")
  case True
  with assms have "section_text = content" by (simp add: extract_language_section_def)
  then show ?thesis by (metis append_Nil append_Nil2)
next
  case False
  with assms have "(l, section_text) \<in> set (split_language_sections content)"
    by (simp add: extract_language_section_def map_of_SomeD)
  then obtain m where m: "(m, section_text) \<in> set (blocks_of language_section_re content)"
    by (auto simp: split_language_sections_def)
  obtain parts tail where f: "find_all language_section_re [] content = (parts, tail)" by force
  with m have b: "(m, section_text) \<in> set (blocks parts tail)" by (simp add: blocks_of_def)
  then have "parts \<noteq> []" by (cases parts) auto
  obtain xs ys where split: "blocks parts tail = xs @ (m, section_text) # ys" using split_list [OF b] by blast
  have "content = concat (map (\<lambda>(gap, m). gap @ m_text m) parts) @ tail" by (rule find_all_concat [OF f])
  also have "\<dots> = fst (hd parts) @ concat (map (\<lambda>(m, block). m_text m @ block) (xs @ (m, section_text) # ys))"
    using blocks_concat [OF \<open>parts \<noteq> []\<close>, of tail] split by simp
  finally have "content = (fst (hd parts) @ concat (map (\<lambda>(m, block). m_text m @ block) xs) @ m_text m) @ section_text @
      concat (map (\<lambda>(m, block). m_text m @ block) ys)" by simp
  then show ?thesis by blast
qed

text \<open>The first place where a text occurs.\<close>

definition first_at :: "string \<Rightarrow> string \<Rightarrow> string \<Rightarrow> string \<Rightarrow> bool" where
  "first_at sub s a b \<longleftrightarrow> s = a @ sub @ b \<and> (\<forall>u v. s = u @ sub @ v \<longrightarrow> length a \<le> length u)"

lemma replace_once_at:
  assumes "s = u @ sub @ v"
  shows "\<exists>a b. first_at sub s a b \<and> replace_once sub new s = a @ new @ b"
proof -
  obtain a b where cut: "cut_at sub s = Some (a, b)" using cut_at_finds assms by blast
  have "first_at sub s a b" unfolding first_at_def using cut_at_append [OF cut] cut_at_least [OF cut] by blast
  with cut show ?thesis by (auto simp: replace_once_def)
qed

subsection \<open>Definition blocks\<close>

lemma spans_from_ordered: "(start, stop, m) \<in> set (spans_from n parts) \<Longrightarrow> n \<le> start \<and> start \<le> stop"
proof (induction n parts rule: spans_from.induct)
  case (2 n gap m' parts)
  then show ?case by (fastforce simp: Let_def)
qed simp

lemma spans_from_sorted: "sorted_wrt (\<lambda>x y. fst x \<le> fst y) (spans_from n parts)"
proof (induction n parts rule: spans_from.induct)
  case (2 n gap m parts)
  then show ?case by (auto simp: Let_def dest: spans_from_ordered)
qed simp

lemma definition_blocks_sorted: "sorted_wrt (\<lambda>x y. fst x \<le> fst y) (definition_blocks l pos section_text)"
proof -
  let ?P = "\<lambda>(start, stop, m). lower (m_group 2 m) = l \<and> lower (m_group 1 m) \<noteq> ''etim'' \<and>
    lower (m_group 1 m) = lower pos"
  have "sorted_wrt (\<lambda>x y. fst x \<le> fst y) (filter ?P (spans_of definition_marker_re section_text))"
    unfolding spans_of_def by (rule sorted_wrt_filter [OF spans_from_sorted])
  then show ?thesis
    by (auto simp: definition_blocks_def sorted_wrt_map elim!: sorted_wrt_mono_rel [rotated])
qed

lemma remove_spans_Cons: "remove_spans ((i, j) # spans) s = take i (remove_spans spans s) @ drop j (remove_spans spans s)"
  by (simp add: remove_spans_def)

lemma remove_spans_subseq:
  assumes "\<forall>x \<in> set spans. fst x \<le> snd x"
  shows "subseq (remove_spans spans s) s"
  using assms
proof (induction spans)
  case (Cons x spans)
  obtain i j where x: "x = (i, j)" by (cases x)
  let ?t = "remove_spans spans s"
  have "drop j ?t = drop (j - i) (drop i ?t)" using Cons.prems x by simp
  then have "subseq (drop j ?t) (drop i ?t)" by (metis suffix_drop suffix_imp_subseq)
  then have "subseq (take i ?t @ drop j ?t) (take i ?t @ drop i ?t)" 
    by (rule list_emb_append_mono [OF subseq_order.order_refl])
  then show ?case using Cons x by (simp add: remove_spans_Cons subseq_order.trans)
qed (simp add: remove_spans_def)

lemma remove_spans_take:
  assumes "\<forall>x \<in> set spans. i \<le> fst x \<and> fst x \<le> snd x"
  shows "take i (remove_spans spans s) = take i s"
  using assms
proof (induction spans)
  case (Cons x spans)
  obtain a b where x: "x = (a, b)" by (cases x)
  let ?t = "remove_spans spans s"
  have "take i (take a ?t @ drop b ?t) = take i ?t"
    using Cons.prems x by (cases "a \<le> length ?t") (simp_all add: min_absorb1)
  with Cons x show ?case by (simp add: remove_spans_Cons)
qed (simp add: remove_spans_def)

lemma spans_from_bound:
  "(start, stop, m) \<in> set (spans_from n parts) \<Longrightarrow> stop \<le> n + length (concat (map (\<lambda>(gap, m). gap @ m_text m) parts))"
proof (induction n parts rule: spans_from.induct)
  case (2 n gap m' parts)
  then show ?case by (fastforce simp: Let_def)
qed simp

lemma spans_of_bounds:
  assumes "(start, stop, m) \<in> set (spans_of r s)"
  shows "start \<le> stop" and "stop \<le> length s"
proof -
  obtain parts tail where f: "find_all r [] s = (parts, tail)" by force
  with assms have m: "(start, stop, m) \<in> set (spans_from 0 parts)" by (simp add: spans_of_def)
  show "start \<le> stop" using spans_from_ordered [OF m] by simp
  show "stop \<le> length s" using spans_from_bound [OF m] find_all_concat [OF f] by simp
qed

lemma definition_blocks_bounds:
  assumes "x \<in> set (definition_blocks l pos section_text)"
  shows "fst x \<le> snd x"
proof -
  obtain start stop m where m: "(start, stop, m) \<in> set (spans_of definition_marker_re section_text)"
    and x: "x = (start, block_stop section_text stop)"
    using assms by (auto simp: definition_blocks_def)
  have "stop \<le> block_stop section_text stop"
    using spans_of_bounds(2) [OF m] by (auto simp: block_stop_def split: option.split)
  with spans_of_bounds(1) [OF m] x show ?thesis by simp
qed

text \<open>The section after the removal of its blocks: the text in front of the first one, and a part of what follows.\<close>

lemma blocks_removed:
  assumes "definition_blocks l pos section_text = (i, j) # bs"
  defines "left \<equiv> remove_spans ((i, j) # bs) section_text"
  shows "take i left = take i section_text" and "subseq (drop i left) (drop i section_text)"
proof -
  have all: "\<forall>x \<in> set ((i, j) # bs). i \<le> fst x \<and> fst x \<le> snd x"
    using definition_blocks_bounds [of _ l pos section_text] definition_blocks_sorted [of l pos section_text]
    unfolding assms(1) by auto
  show t: "take i left = take i section_text" unfolding left_def by (rule remove_spans_take [OF all])
  have "subseq left section_text" unfolding left_def using all by (intro remove_spans_subseq) auto
  then have "subseq (take i left @ drop i left) (take i section_text @ drop i section_text)"
    by (simp only: append_take_drop_id)
  then show "subseq (drop i left) (drop i section_text)" using t by (simp only: subseq_append')
qed

subsection \<open>Properties\<close>

text \<open>
  C35: Replacing a definition block changes its section only.  The replacement never fails and
  leaves a page without the section as it is.  Otherwise the new entry stands in front of the
  section, or at the place of its first block of this part of speech, of what follows only text
  is removed, and the text before and after the section stays.  The section is looked up by its
  text: the place is the first one in the page where the text occurs, the start of the page
  for an empty section.
\<close>

theorem replacement_stays_in_section:
  "\<exists>c. replace_definition_blocks R content (l, e) = Inr c \<and>
    (case extract_language_section l content of
       None \<Rightarrow> c = content
     | Some section_text \<Rightarrow>
       \<exists>a b rendered. first_at section_text content a b \<and> render_definition_block R e = Inr rendered \<and>
         (case definition_blocks l (pe_pos e) section_text of
            [] \<Rightarrow> c = a @ rendered @ newline @ section_text @ b
          | (i, j) # bs \<Rightarrow> \<exists>rest. c = a @ take i section_text @ rendered @ newline @ rest @ b \<and>
              subseq rest (drop i section_text)))"
proof (cases "extract_language_section l content")
  case None
  then show ?thesis by (simp add: replace_definition_blocks_def)
next
  case (Some sec)
  obtain rendered where r: "render_definition_block R e = Inr rendered" using rendered_fix by blast
  obtain u v where uv: "content = u @ sec @ v" using extract_language_section_part [OF Some] by blast
  note place = replace_once_at [OF uv]
  show ?thesis
  proof (cases "definition_blocks l (pe_pos e) sec")
    case Nil
    obtain a b where "first_at sec content a b"
      "replace_once sec (rendered @ newline @ sec) content = a @ (rendered @ newline @ sec) @ b" using place by blast
    with Some r Nil show ?thesis by (auto simp: replace_definition_blocks_def)
  next
    case (Cons x bs)
    obtain i j where x: "x = (i, j)" by (cases x)
    let ?cut = "remove_spans ((i, j) # bs) sec"
    obtain a b where "first_at sec content a b"
      "replace_once sec (take i ?cut @ rendered @ newline @ drop i ?cut) content =
        a @ (take i ?cut @ rendered @ newline @ drop i ?cut) @ b" using place by blast
    with Some r Cons x blocks_removed [of l "pe_pos e" sec i j bs] show ?thesis
      by (auto simp: replace_definition_blocks_def Let_def)
  qed
qed





end
