(* ===== verification/PageCheckExample.thy ===== *)
theory PageCheckExample
  imports PageCheckSafety PageReplacement
begin

text \<open>
  A check of one small page, followed to its publication: the verifier refuses the entry and
  accepts the fix.  The state counts the verifications and holds the queue.
\<close>

definition demo_page :: string where
  "demo_page = ''{{wikibolana|en|x}}''"

definition demo_entry :: page_entry where
  "demo_entry = \<lparr>pe_entry = ''x'', pe_pos = ''ana'', pe_language = ''en'', pe_definitions = [''rice''], pe_examples = []\<rparr>"

definition demo_fixed :: page_entry where
  "demo_fixed = \<lparr>pe_entry = ''x'', pe_pos = ''ana'', pe_language = ''mg'', pe_definitions = [''vary''], pe_examples = [[]]\<rparr>"

definition demo_checker :: "(nat \<times> dict list) checker" where
  "demo_checker = \<lparr>
    pc_read = (\<lambda>t l s. (s, Inr (if l = ''mg'' then demo_page else ''source''))),
    pc_namespace = (\<lambda>t s. (s, Inr (Some 0))),
    pc_put = (\<lambda>guard t c m s. (s, Inr ())),
    pc_push = (\<lambda>m s. ((fst s, snd s @ [m]), Inr ())),
    pc_verifier = (\<lambda>p s. ((Suc (fst s), snd s),
       Inr [(''status'', JStr (if fst s = 0 then ''bad'' else ''good''))])),
    pc_rewriter = (\<lambda>p s. (s, Inr [(''entry'', JStr ''x''), (''part_of_speech'', JStr ''ana''),
       (''definitions'', JList [JStr ''rice''])])),
    pc_translator = (\<lambda>d p s. (s, Inr (Some ''vary''))),
    pc_mirror = (\<lambda>t s. (s, Inr [])),
    pc_processor = (\<lambda>l c t. Inr [\<lparr>we_entry = t, we_pos = ''ana'', we_definitions = [''rice''],
       we_language = ''en'', we_data = Some []\<rparr>]),
    pc_definition = (\<lambda>l p d. Inr d),
    pc_renderer = \<lparr>rc_pages = [], rc_language_name = (\<lambda>l. None), rc_dash = ''-'',
     rc_pronunciation = (\<lambda>e. Inr []), rc_related = (\<lambda>e. Inr [])\<rparr>,
    pc_verify_template = [], pc_fix_template = [],
    pc_sha = (\<lambda>t. ''hash''), pc_message = (\<lambda>e. ''error''), pc_queued = True, pc_publish = True\<rparr>"

lemma demo_reference: "parse_mg_wiktionary demo_page = Some (''en'', ''x'')" by code_simp

lemma demo_page_sections: "split_language_sections demo_page = []"
  by code_simp

lemma source_sections: "split_language_sections ''source'' = []"
  by code_simp

lemma demo_no_mirror: "\<not> contains demo_page ''=en='' \<and> \<not> contains demo_page ''=fr=''" by code_simp

lemma demo_no_marker: "blocks_of entry_re demo_page = []"
proof -
  have "first_match (lit ''{{-'') [] demo_page = None" by code_simp
  then have "first_match entry_re [] demo_page = None"
    by (rule first_match_None [rotated]) (simp add: entry_re_def form_of_re_def lemma_re_def)
  then show ?thesis by (simp add: blocks_of_def find_all.simps)
qed

lemma demo_no_entries: "mg_all_entries ''x'' (Some demo_page) = []"
  by (simp add: mg_all_entries_def demo_no_marker)

lemma demo_source_entries: "extract_entries demo_checker ''en'' ''source'' ''x'' None = Inr [demo_entry]"
 by code_simp

lemma lower_mg: "lower ''mg'' = ''mg''" by code_simp

lemma demo_matching: "source_entries_for_section [demo_entry] ''mg'' [] ''mg'' ''en'' = [demo_entry]" by code_simp

lemma demo_rewrite: "accepted_rewrite ''x'' [demo_entry] [(''entry'', JStr ''x''), (''part_of_speech'', JStr ''ana''),
       (''definitions'', JList [JStr ''rice''])] = Some (''ana'', [(''rice'', [])])" by code_simp

lemma vary_is_not_rice: "normalised_text ''vary'' = normalised_text ''rice'' \<longleftrightarrow> False" by code_simp

lemma demo_verify: "verify demo_checker w shown l ref sources markdown (n, q) = ((Suc n, q), Inr (n \<noteq> 0, []))"
  by (simp add: verify_def demo_checker_def sbind_def sreturn_def verdict_of_def dget_def dget_or_def)

lemma demo_fix: "fix_entry demo_checker None ''x'' ref [demo_entry] ''mg'' (n, q) = ((n, q), Inr (Some demo_fixed))"
  by (simp add: fix_entry_def demo_checker_def sbind_def sreturn_def rescue_def tell_def demo_rewrite vary_is_not_rice Let_def demo_entry_def [symmetric])
     (simp add: demo_entry_def demo_fixed_def)

lemma demo_source: "read_source demo_checker (''en'', ''x'') s = (s, Inr ([demo_entry], Some ''source''))"
  using demo_source_entries by (simp add: read_source_def rescue_def sbind_def sreturn_def demo_checker_def)

definition demo_tally :: tally where
  "demo_tally = no_tally\<lparr>ty_fixes := [(''mg'', demo_fixed)]\<rparr>"

lemma demo_languages: "languages_of ''mg'' demo_page = [''mg'']"
  by (simp add: languages_of_def demo_page_sections)

definition demo_state :: page_source where
  "demo_state = source_of_page ''mg'' ''x'' demo_page True (''en'', ''x'') [demo_entry] []"

lemma demo_sections: "check_sections demo_checker None demo_state 0 [''mg''] no_tally (0, q) = ((2, q), Inr demo_tally)"
  by (simp add: check_section_def demo_state_def source_of_page_def extract_language_section_def extract_entries_def demo_page_sections demo_no_entries 
      lower_mg demo_languages sbind_def sreturn_def note_primary_def note_good_def demo_matching demo_verify tell_section_def tell_def Let_def
      repair_section_def demo_fix compact_entry_def no_tally_def demo_tally_def)

lemma demo_calls:
  "pc_read demo_checker t l s = (s, Inr (if l = ''mg'' then demo_page else ''source''))"
  "pc_namespace demo_checker t s = (s, Inr (Some 0))"
  "pc_push demo_checker msg s = ((fst s, snd s @ [msg]), Inr ())" "pc_queued demo_checker" "pc_publish demo_checker"
  by (simp_all add: demo_checker_def)

lemma demo_state_parts:
  "ps_title demo_state = ''x''" "ps_wiki demo_state = ''mg''" "ps_content demo_state = demo_page"
  "ps_ref demo_state = (''en'', ''x'')" "ty_fixes demo_tally = [(''mg'', demo_fixed)]" "\<not> ty_good demo_tally"
  by (simp_all add: demo_state_def source_of_page_def demo_tally_def no_tally_def)

lemma demo_conclude:
  "\<exists>m r. conclude demo_checker None None demo_state (Some ''source'') demo_tally (n, q) = ((n, q @ [m]), r)"
proof -
  obtain new where "replace_definition_blocks (pc_renderer demo_checker) demo_page (''mg'', demo_fixed) = Inr new"
    using replacement_succeeds by blast
  then have "fixed_content demo_checker ''x'' [(''mg'', demo_fixed)] False demo_page = Inr new"
    by (simp add: fixed_content_def)
  then show ?thesis
    by (simp add: conclude_def publish_result_def publish_fixes_def demo_calls demo_state_parts
        rescue_def tell_def sbind_def sreturn_def publish_wikipage_def Let_def run_guard_def)
qed

lemma demo_check: "\<exists>m r. check_page demo_checker None None ''mg'' ''x'' None True (0, []) = ((2, [m]), r)"
proof -
  have r: "pc_read demo_checker ''x'' ''mg'' s = (s, Inr demo_page)" for s by (simp add: demo_checker_def)
  have m: "read_mirror demo_checker ''x'' demo_page s = (s, Inr [])" for s
    using demo_no_mirror by (simp add: read_mirror_def sreturn_def)
  show ?thesis
    using demo_conclude [of 2 "[]"] demo_sections [of "[]"]
    by (simp del: check_sections.simps add: check_page_def check_against_def sbind_def sreturn_def tell_def demo_reference r m demo_source demo_languages demo_state_def)
qed

end
