(* ===== verification/PageCheckPublication.thy ===== *)
theory PageCheckPublication
  imports PageCheckExample
begin

text \<open>The publication of a page check, and the properties of \<open>PageCheckService\<close>.\<close>

subsection \<open>From the verdict to the queue\<close>

text \<open>
  The page still has the text that was checked and is in the main namespace; the guard is the
  last call before the message, which carries the hash of that text.
\<close>

definition guarded_publication ::
  "'s checker \<Rightarrow> ('s \<Rightarrow> 's \<times> unit res) option \<Rightarrow> page_source \<Rightarrow> (string \<times> page_entry) list \<Rightarrow> 's \<Rightarrow> 's \<Rightarrow> bool" where
  "guarded_publication K guard P fixes s s' \<longleftrightarrow>
    (\<exists>s0 s1 s2 dup new a. pc_read K (ps_title P) ''mg'' s = (s0, Inr (ps_content P)) \<and>
      pc_namespace K (ps_title P) s0 = (s1, Inr (Some 0)) \<and>
      fixed_content K (ps_title P) fixes dup (ps_content P) = Inr new \<and>
      run_guard guard s1 = (s2, Inr ()) \<and>
      pc_push K (publish_wikipage_message new (ps_title P) ''fanitsiana famaritana'' False
        (Some (pc_sha K (ps_content P)))) s2 = (s', a))"

text \<open>The source page was read again, with the text its entries come from.\<close>

definition source_confirmed :: "'s checker \<Rightarrow> page_source \<Rightarrow> string option \<Rightarrow> 's \<Rightarrow> 's \<Rightarrow> bool" where
  "source_confirmed K P source_content s s' \<longleftrightarrow>
    (\<exists>r. pc_read K (snd (ps_ref P)) (fst (ps_ref P)) s = (s', r) \<and>
      source_content = (case r of Inl e \<Rightarrow> None | Inr c \<Rightarrow> Some c))"

lemma publish_fixes_cases:
  assumes "publish_fixes K guard (ps_title P) fixes (ps_content P) dup s = (s', r)" and "quiet R K" and "pc_queued K"
    and "stays R (run_guard guard)"
  shows "R s s' \<or> guarded_publication K guard P fixes s s'"
proof -
  note R = quietD(1,2) [OF assms(2)]
  obtain s0 c where read: "pc_read K (ps_title P) ''mg'' s = (s0, c)" by force
  have 0: "R s s0" using staysD [OF quietD(3) [OF assms(2)] read] .
  show ?thesis
  proof (cases "c = Inr (ps_content P)")
    case False
    with assms(1) read 0 show ?thesis
      by (auto simp: publish_fixes_def sbind_def sreturn_def split: sum.splits)
  next
    case c: True
    obtain s1 n where space: "pc_namespace K (ps_title P) s0 = (s1, n)" by force
    have 1: "R s s1" using transpD [OF R(2) 0 staysD [OF quietD(4) [OF assms(2)] space]] .
    show ?thesis
    proof (cases "n = Inr (Some 0)")
      case False
      with assms(1) read c space 1 show ?thesis
        by (auto simp: publish_fixes_def sbind_def sreturn_def split: sum.splits if_splits)
    next
      case n: True
      obtain s2 v where guard: "run_guard guard s1 = (s2, v)" by force
      have 2: "R s s2" using transpD [OF R(2) 1 staysD [OF assms(4) guard]] .
      obtain new where new: "fixed_content K (ps_title P) fixes dup (ps_content P) = new" by simp
      have pub: "publish_fixes K guard (ps_title P) fixes (ps_content P) dup s =
          (case new of
             Inl e \<Rightarrow> (s1, Inl e)
           | Inr t \<Rightarrow> sbind (publish_wikipage guard (pc_push K) t (ps_title P) ''fanitsiana famaritana'' False
               (Some (pc_sha K (ps_content P)))) (\<lambda>_. sreturn (Inr True)) s1)"
        using read c space n assms(3) by (cases new) (simp_all add: publish_fixes_def sbind_def sreturn_def new split: prod.split sum.split)
      show ?thesis
      proof (cases "\<exists>t. new = Inr t \<and> v = Inr ()")
        case False
        with assms(1) pub 1 2 guard show ?thesis
          by (auto simp: publish_wikipage_def sbind_def sreturn_def Let_def split: sum.splits)
      next
        case True
        then obtain t where t: "new = Inr t" "v = Inr ()" by blast
        obtain s3 a where push: "pc_push K (publish_wikipage_message t (ps_title P) ''fanitsiana famaritana'' False
            (Some (pc_sha K (ps_content P)))) s2 = (s3, a)" by force
        then have "s' = s3" using assms(1) pub t guard
          by (auto simp: publish_wikipage_def sbind_def sreturn_def Let_def split: sum.splits)
        with read c space n guard t push new show ?thesis
          unfolding guarded_publication_def by blast
      qed
    qed
  qed
qed

text \<open>\<open>publish_result\<close> and \<open>conclude\<close> publish at most once, and only then.\<close>

definition publishes_once ::
  "('s \<Rightarrow> 's \<Rightarrow> bool) \<Rightarrow> 's checker \<Rightarrow> ('s \<Rightarrow> 's \<times> unit res) option \<Rightarrow> page_source \<Rightarrow> string option
    \<Rightarrow> (string \<times> page_entry) list \<Rightarrow> 's \<Rightarrow> 's \<Rightarrow> bool" where
  "publishes_once R K guard P source_content fixes s s' \<longleftrightarrow>
    (\<exists>s0 s1 s2. fixes \<noteq> [] \<and> R s s0 \<and> source_confirmed K P source_content s0 s1 \<and>
      guarded_publication K guard P fixes s1 s2 \<and> R s2 s')"

lemma publishes_once_before: "transp R \<Longrightarrow> R s t \<Longrightarrow> publishes_once R K guard P c fixes t t' \<Longrightarrow> publishes_once R K guard P c fixes s t'"
  unfolding publishes_once_def by (blast dest: transpD)

lemma publishes_once_after: "transp R \<Longrightarrow> R t t' \<Longrightarrow> publishes_once R K guard P c fixes s t \<Longrightarrow> publishes_once R K guard P c fixes s t'"
  unfolding publishes_once_def by (blast dest: transpD)

lemma publish_result_cases:
  assumes "publish_result K g guard P source_content ty s = (s', r)" and "quiet R K" and "pc_queued K"
    and "stays R (run_guard guard)" and "ty_fixes ty \<noteq> []"
  shows "R s s' \<or> publishes_once R K guard P source_content (ty_fixes ty) s s'"
proof -
  note R = quietD(1,2) [OF assms(2)]
  obtain s1 c where read: "pc_read K (snd (ps_ref P)) (fst (ps_ref P)) s = (s1, c)" by force
  have 1: "R s s1" using staysD [OF quietD(3) [OF assms(2)] read] .
  let ?drop = "ps_primary P = ps_wiki P \<and> ty_good ty \<and> ps_wiki P \<notin> fst ` set (ty_fixes ty)"
  obtain s2 b where pub: "publish_fixes K guard (ps_title P) (ty_fixes ty) (ps_content P) ?drop s1 = (s2, b)" by force
  consider "s' = s" | "s' = s1" | "s' = s2" "source_confirmed K P source_content s s1"
    using assms(1) read pub
    by (cases c) (auto simp: publish_result_def sbind_def sreturn_def rescue_def source_confirmed_def
        split: sum.splits if_splits)
  then show ?thesis
  proof cases
    case 3
    from publish_fixes_cases [OF pub assms(2-4)] show ?thesis
    proof
      assume "R s1 s2"
      then show ?thesis using 1 3(1) transpD [OF R(2)] by blast
    next
      assume "guarded_publication K guard P (ty_fixes ty) s1 s2"
      with 3 assms(5) reflpD [OF R(1)] show ?thesis unfolding publishes_once_def by blast
    qed
  qed (use 1 reflpD [OF R(1)] in auto)
qed

lemma conclude_cases:
  assumes "conclude K g guard P source_content ty s = (s', r)" and "quiet R K" and "pc_queued K"
    and "stays R (run_guard guard)" and "quiet_progress R g"
  shows "R s s' \<or> publishes_once R K guard P source_content (ty_fixes ty) s s'"
proof -
  note R = quietD(1,2) [OF assms(2)]
  note tell = tell_quiet [OF R(1) assms(5)]
  obtain s1 u where t1: "tell g (95 / 100) s = (s1, u)" by force
  have 1: "R s s1" using staysD [OF tell t1] .
  show ?thesis
  proof (cases "(\<exists>e. u = Inl e) \<or> ty_fixes ty = []")
    case True
    have "R s1 (fst (tell g 1 s1))" using tell by (simp add: stays_def)
    then have "R s1 s'" using assms(1) t1 True reflpD [OF R(1)]
      by (auto simp: conclude_def sbind_def sreturn_def split: sum.splits if_splits prod.splits)
    with 1 show ?thesis using transpD [OF R(2)] by blast
  next
    case False
    then obtain f fs where u: "u = Inr ()" and f: "ty_fixes ty = f # fs" by (cases u; cases "ty_fixes ty") auto
    obtain s2 a where pub: "publish_result K g guard P source_content ty s1 = (s2, a)" by force
    have tl: "R s2 (fst (tell g 1 s2))" using tell by (simp add: stays_def)
    have 2: "R s2 s'" using assms(1) t1 u f pub tl reflpD [OF R(1)]
      by (auto simp: conclude_def sbind_def sreturn_def split: sum.splits option.splits prod.splits)
    have "R s1 s2 \<or> publishes_once R K guard P source_content (ty_fixes ty) s1 s2"
      using publish_result_cases [OF pub assms(2-4)] f by simp
    then show ?thesis
    proof
      assume "R s1 s2"
      then show ?thesis using 1 2 transpD [OF R(2)] by blast
    next
      assume p: "publishes_once R K guard P source_content (ty_fixes ty) s1 s2"
      show ?thesis using publishes_once_after [OF R(2) 2 publishes_once_before [OF R(2) 1 p]] by blast
    qed
  qed
qed

subsection \<open>One page\<close>

lemma read_source_entries:
  "read_source K ref s = (s', Inr (entries, source_content)) \<Longrightarrow> entries = [] \<or>
    (\<exists>c. source_content = Some c \<and> extract_entries K (fst ref) c (snd ref) None = Inr entries)"
  by (auto simp: read_source_def rescue_def sbind_def sreturn_def split: prod.splits sum.splits)

text \<open>How far a check gets: it ends before the verdict, or with \<open>conclude\<close>.\<close>

lemma check_against_cases:
  assumes "check_against K g guard language title content repair ref s = (s', r)" and "quiet R K" and "quiet_progress R g"
  obtains (early) "R s s'"
  | (late) P source_content ty s1 entries markdown where
      "P = source_of_page language title content repair ref entries markdown"
      "entries = [] \<or> (\<exists>c. source_content = Some c \<and> extract_entries K (fst ref) c (snd ref) None = Inr entries)"
      "list_all (good_fix K P) (ty_fixes ty)" "R s s1" "conclude K g guard P source_content ty s1 = (s', r)"
proof -
  note R = quietD(1,2) [OF assms(2)]
  note tell = tell_quiet [OF R(1) assms(3)]
  have "R s s' \<or> (\<exists>P source_content ty s1 entries markdown.
      P = source_of_page language title content repair ref entries markdown \<and>
      (entries = [] \<or> (\<exists>c. source_content = Some c \<and> extract_entries K (fst ref) c (snd ref) None = Inr entries)) \<and>
      list_all (good_fix K P) (ty_fixes ty) \<and> R s s1 \<and> conclude K g guard P source_content ty s1 = (s', r))"
    (is "?early \<or> ?late")
    using assms(1) unfolding check_against_def
  proof (rule sbind_step [OF _ tell R(2) reflpD [OF R(1)]], goal_cases)
    case (2 u1 s1)
    from 2(3,2) show ?case
    proof (rule sbind_step [OF _ read_source_quiet [OF assms(2)] R(2)], goal_cases)
      case (2 source s2)
      note source = 2(1)
      from 2(3,2) show ?case
      proof (rule sbind_step [OF _ tell R(2)], goal_cases)
        case (2 u2 s3)
        from 2(3,2) show ?case
        proof (rule sbind_step [OF _ read_mirror_quiet [OF assms(2)] R(2)], goal_cases)
          case (2 markdown s4)
          from 2(3,2) show ?case
          proof (rule sbind_step [OF _ tell R(2)], goal_cases)
            case (2 u3 s5)
            from 2(3,2) show ?case
            proof (rule sbind_step [OF _ check_sections_quiet [OF assms(2,3)] R(2)], goal_cases)
              case (2 ty s6)
              have "list_all (good_fix K (source_of_page language title content repair ref (fst source) markdown)) (ty_fixes ty)"
                using check_sections_fixes [OF 2(1)] by (simp add: no_tally_def)
              moreover have "fst source = [] \<or> (\<exists>c. snd source = Some c \<and>
                  extract_entries K (fst ref) c (snd ref) None = Inr (fst source))"
                using read_source_entries [of K ref] source by (metis prod.collapse)
              ultimately show ?case using 2(2,3) by blast
            qed blast
          qed blast
        qed blast
      qed blast
    qed blast
  qed blast
  then show ?thesis using that by blast
qed

subsection \<open>What a check returns\<close>

definition result_for :: "string \<Rightarrow> check_result \<Rightarrow> bool" where
  "result_for title x \<longleftrightarrow> ck_word x = title \<and> ck_status x \<in> {''good'', ''fixed'', ''unverifiable''}"

lemma publish_result_yields:
  "yields (\<lambda>x. \<forall>y. x = Some y \<longrightarrow> result_for (ps_title P) y) (publish_result K g guard P source_content ty)"
  unfolding publish_result_def
  by (auto simp: yields_sreturn result_for_def sourced_result_def plain_result_def intro!: yields_skip)

lemma conclude_yields: "yields (result_for (ps_title P)) (conclude K g guard P source_content ty)"
proof -
  have "yields (result_for (ps_title P)) (sbind (publish_result K g guard P source_content ty) (\<lambda>refusal.
      case refusal of Some r \<Rightarrow> sreturn (Inr r) | None \<Rightarrow> sbind (tell g 1) (\<lambda>_. sreturn (Inr (f refusal)))))"
    if "\<And>r. result_for (ps_title P) (f r)" for f
    by (rule yields_sbind [OF publish_result_yields])
       (use that in \<open>auto simp: yields_sreturn split: option.split intro!: yields_skip\<close>)
  then show ?thesis unfolding conclude_def
    by (intro yields_skip) (auto simp: yields_sreturn result_for_def sourced_result_def plain_result_def
        split: list.split intro!: yields_skip)
qed

lemma check_page_yields: "yields (result_for title) (check_page K g guard language title candidate repair)"
proof -
  have "yields (result_for title) (conclude K g guard (source_of_page language title content repair ref entries markdown) c ty)"
    for content ref entries markdown c ty
    using conclude_yields [of "source_of_page language title content repair ref entries markdown" K g guard c ty]
    by (simp only: source_of_page_def page_source.simps)
  then show ?thesis unfolding check_page_def check_against_def
    by (auto simp: yields_sreturn result_for_def plain_result_def split: option.split intro!: yields_skip)
qed

subsection \<open>Properties\<close>

text \<open>
  C32: A page check publishes only verified fixes of an unchanged page.  Let \<open>R\<close> be kept by every
  call of the checker except a publication.  Then a check keeps \<open>R\<close>, or it queues one
  message: its fixes are not empty and each was found good by the verifier, with a part of
  speech of the source; the source page was read again with the text its entries come from;
  and then, with nothing in between, the page was read with the very text that was checked,
  was found in the main namespace, and the guard succeeded.  The message carries the hash of
  that text.
\<close>

theorem published_fix_is_verified:
  assumes "quiet R K" and "quiet_progress R g" and "stays R (run_guard guard)" and "pc_queued K"
    and "check_page K g guard language title candidate repair s = (s', r)"
  shows "R s s' \<or>
    (\<exists>P fixes s0 s1 s2 c. ps_title P = title \<and> parse_mg_wiktionary (ps_content P) = Some (ps_ref P) \<and>
      fixes \<noteq> [] \<and> list_all (good_fix K P) fixes \<and> R s s0 \<and>
      pc_read K (snd (ps_ref P)) (fst (ps_ref P)) s0 = (s1, Inr c) \<and>
      extract_entries K (fst (ps_ref P)) c (snd (ps_ref P)) None = Inr (ps_entries P) \<and>
      guarded_publication K guard P fixes s1 s2 \<and> R s2 s')"
proof -
  note R = quietD(1,2) [OF assms(1)]
  let ?first = "case candidate of Some c \<Rightarrow> sreturn (Inr c) | None \<Rightarrow> pc_read K title language"
  have first: "stays R ?first"
    using quietD(3) [OF assms(1)] stays_sreturn [OF R(1)] by (auto split: option.split)
  from assms(5) show ?thesis unfolding check_page_def
  proof (rule sbind_step [OF _ first R(2) reflpD [OF R(1)]], goal_cases)
    case (2 content s1)
    from 2(3,2) show ?case
    proof (rule sbind_step [OF _ tell_quiet [OF R(1) assms(2)] R(2)], goal_cases)
      case (2 u s2)
      show ?case
      proof (cases "parse_mg_wiktionary content")
        case None
        with 2 show ?thesis by (simp add: sreturn_def)
      next
        case (Some ref)
        with 2(3) have "check_against K g guard language title content repair ref s2 = (s', r)" by simp
        then show ?thesis
        proof (rule check_against_cases [OF _ assms(1,2)], goal_cases)
          case 1
          then show ?case using 2(2) transpD [OF R(2)] by blast
        next
          case (2 P source_content ty s3 entries markdown)
          note P = 2(1) and entries = 2(2) and good = 2(3)
          have s3: "R s s3" using 2(4) \<open>R s s2\<close> transpD [OF R(2)] by blast
          from conclude_cases [OF 2(5) assms(1,4,3,2)] show ?case
          proof
            assume "R s3 s'"
            then show ?thesis using s3 transpD [OF R(2)] by blast
          next
            assume "publishes_once R K guard P source_content (ty_fixes ty) s3 s'"
            then obtain s4 s5 s6 where p: "ty_fixes ty \<noteq> []" "R s s4" "source_confirmed K P source_content s4 s5"
              "guarded_publication K guard P (ty_fixes ty) s5 s6" "R s6 s'"
              unfolding publishes_once_def using s3 transpD [OF R(2)] by blast
            have "entries \<noteq> []" using good p(1) P by (cases "ty_fixes ty") (auto simp: good_fix_def source_of_page_def)
            then obtain c where c: "source_content = Some c" "extract_entries K (fst ref) c (snd ref) None = Inr entries"
              using entries by blast
            obtain x where x: "pc_read K (snd (ps_ref P)) (fst (ps_ref P)) s4 = (s5, x)"
              "source_content = (case x of Inl e \<Rightarrow> None | Inr c \<Rightarrow> Some c)"
              using p(3) by (auto simp: source_confirmed_def)
            with c have "pc_read K (snd (ps_ref P)) (fst (ps_ref P)) s4 = (s5, Inr c)" by (cases x) simp_all
            moreover have "extract_entries K (fst (ps_ref P)) c (snd (ps_ref P)) None = Inr (ps_entries P)"
              using c(2) P by (simp add: source_of_page_def)
            moreover have "ps_title P = title" "parse_mg_wiktionary (ps_content P) = Some (ps_ref P)"
              using P Some by (simp_all add: source_of_page_def)
            ultimately show ?thesis using p good by blast
          qed
        qed
      qed
    qed blast
  qed blast
qed

theorem published_fix_is_verified_witness:
  "\<exists>m r P fixes s0 s1 s2 c. check_page demo_checker None None ''mg'' ''x'' None True (0, []) = ((2, [m]), r) \<and>
    fixes \<noteq> [] \<and> list_all (good_fix demo_checker P) fixes \<and> snd s0 = [] \<and>
    pc_read demo_checker (snd (ps_ref P)) (fst (ps_ref P)) s0 = (s1, Inr c) \<and>
    guarded_publication demo_checker None P fixes s1 s2 \<and> snd s2 = [m]"
proof -
  obtain m r where check: "check_page demo_checker None None ''mg'' ''x'' None True (0, []) = ((2, [m]), r)"
    using demo_check by blast
  define R where "R = (\<lambda>s s'. snd (s :: nat \<times> dict list) = snd (s' :: nat \<times> dict list))"
  have q: "quiet R demo_checker"
    by (auto simp: R_def quiet_def demo_checker_def stays_def reflp_def transp_def)
  have g: "quiet_progress R None" "stays R (run_guard None)" "pc_queued demo_checker"
    by (simp_all add: R_def quiet_progress_def run_guard_def stays_def sreturn_def demo_checker_def)
  have "\<not> R (0, []) (2, [m])" by (simp add: R_def)
  then obtain P fs s0 s1 s2 c where "fs \<noteq> []" "list_all (good_fix demo_checker P) fs" "R (0, []) s0"
    "pc_read demo_checker (snd (ps_ref P)) (fst (ps_ref P)) s0 = (s1, Inr c)"
    "guarded_publication demo_checker None P fs s1 s2" "R s2 (2, [m])"
    using published_fix_is_verified [OF q g check] by blast
  moreover have "snd s0 = []" "snd s2 = [m]" using calculation(3,6) by (simp_all add: R_def)
  ultimately show ?thesis using check by blast
qed

text \<open>
  C33: Every title gets its result.  A check of a list of titles returns one result per title, in
  order, with one of the four statuses; whatever a page raises becomes its error result, except
  the loss of the execution, which ends the check.
\<close>

theorem every_title_gets_its_result:
  "case snd (check_pages K g guard language titles s) of
     Inl e \<Rightarrow> is_superseded e
   | Inr results \<Rightarrow> map (dget ''word'') results = map JStr titles \<and>
       list_all (\<lambda>r. in_strs (dget ''status'' r) [''good'', ''fixed'', ''unverifiable'', ''error'']) results"
proof -
  have "(\<exists>e. r = Inl e \<and> is_superseded e) \<or> (\<exists>results. r = Inr results \<and>
      map (dget ''word'') results = map JStr titles \<and>
      list_all (\<lambda>r. in_strs (dget ''status'' r) [''good'', ''fixed'', ''unverifiable'', ''error'']) results)"
    if "check_titles K g guard language count index titles s = (s', r)" for count index titles s s' r
    using that
  proof (induction titles arbitrary: index s s' r)
    case Nil
    then show ?case by (auto simp: sreturn_def)
  next
    case (Cons title titles)
    obtain s1 x where p: "check_page K (page_progress g index count) guard language title None True s = (s1, x)" by force
    obtain s2 y where rest: "check_titles K g guard language count (index + 1) titles s1 = (s2, y)" by force
    show ?case
    proof (cases "\<exists>e. x = Inl e \<and> is_superseded e")
      case True
      with p Cons.prems show ?thesis by (auto simp: sbind_def sreturn_def rescue_def)
    next
      case False
      define z where "z = (case x of Inl e \<Rightarrow> plain_result title ''error'' (pc_message K e) | Inr v \<Rightarrow> v)"
      have z: "ck_word z = title" "ck_status z \<in> {''good'', ''fixed'', ''unverifiable'', ''error''}"
        using p check_page_yields [of title K "page_progress g index count" guard language None True]
        by (auto simp: z_def yields_def result_for_def plain_result_def split: sum.split)
      have r: "r = bnd y (\<lambda>results. Inr (serialise_result z # results))"
        using p rest Cons.prems False by (cases x; cases y) (auto simp: z_def sbind_def sreturn_def rescue_def)
      with z Cons.IH [OF rest] show ?thesis
        by (auto simp: serialise_result_def dget_def)
    qed
  qed
  from this [of "length titles" 0 titles s] show ?thesis
    by (cases "check_pages K g guard language titles s") (auto simp: check_pages_def)
qed

text \<open>
  C34: A generated fix says what the source says.  It is for the word and the section that were
  asked for, with a part of speech of the source entries.  It has at least one definition and
  no two alike, and every one is the translator's answer to a simple wording and no copy of
  it, and stands beside the examples of a sense that a source entry of this part of speech has.
\<close>

theorem generated_fix_is_sourced:
  assumes "fix_entry K g word ref sources lang s = (s', Inr (Some e))"
  shows "pe_entry e = word \<and> pe_language e = lang \<and> pe_pos e \<in> pe_pos ` set sources \<and>
    pe_definitions e \<noteq> [] \<and> length (pe_examples e) = length (pe_definitions e) \<and>
    distinct (map normalised_text (pe_definitions e)) \<and>
    (\<forall>(d, examples) \<in> set (zip (pe_definitions e) (pe_examples e)).
       (\<exists>simple t t'. pc_translator K simple (pe_pos e) t = (t', Inr (Some d)) \<and> normalised_text d \<noteq> normalised_text simple) \<and>
       (\<exists>x \<in> set sources. pe_pos x = pe_pos e \<and> examples \<in> snd ` set (senses_of x)))"
proof -
  obtain senses out where e: "pe_entry e = word" "pe_language e = lang" "pe_pos e \<in> pe_pos ` set sources"
    and senses: "map snd senses = map snd (concat (map senses_of (filter (\<lambda>x. pe_pos x = pe_pos e) sources)))"
    and out: "pe_definitions e = map fst out" "pe_examples e = map snd out" "out \<noteq> []"
    "distinct (map (\<lambda>x. normalised_text (fst x)) out)" "list_all (translated K (pe_pos e) senses) out"
    using fix_entry_result [OF assms] by blast
  have zip: "zip (pe_definitions e) (pe_examples e) = out" using out by (simp add: zip_map_fst_snd)
  have known: "snd x \<in> snd ` set (concat (map senses_of (filter (\<lambda>x. pe_pos x = pe_pos e) sources)))" if "x \<in> set senses" for x
    using arg_cong [OF senses, of set] that by auto
  have "(\<exists>simple t t'. pc_translator K simple (pe_pos e) t = (t', Inr (Some d)) \<and> normalised_text d \<noteq> normalised_text simple) \<and>
       (\<exists>x \<in> set sources. pe_pos x = pe_pos e \<and> examples \<in> snd ` set (senses_of x))"
    if member: "(d, examples) \<in> set out" for d examples
  proof -
    obtain simple t t' where sense: "(simple, examples) \<in> set senses"
      and t: "pc_translator K simple (pe_pos e) t = (t', Inr (Some d))" "normalised_text d \<noteq> normalised_text simple"
      using out(5) member by (force simp: list_all_iff translated_def)
    obtain x y where "x \<in> set sources" "pe_pos x = pe_pos e" "y \<in> set (senses_of x)" "examples = snd y"
      using known [OF sense] by auto
    with t show ?thesis by blast
  qed
  then show ?thesis using e out zip by (auto simp: comp_def)
qed

theorem generated_fix_is_sourced_witness:
  "(\<exists>s'. fix_entry demo_checker None ''x'' (''en'', ''x'') [demo_entry] ''mg'' (0, []) = (s', Inr (Some demo_fixed))) \<and>
    distinct (map normalised_text (pe_definitions demo_fixed))"
  using generated_fix_is_sourced [OF demo_fix [of "(''en'', ''x'')" 0 "[]"]] demo_fix by blast

end
