(* ===== verification/TranslationProcessors.thy ===== *)
theory TranslationProcessors
  imports MalagasyRenderer RedisIO
begin

text \<open>
  The configured pre- and postprocessors of a translation:
  \<open>api/translation_v2/processor_config.py\<close> and \<open>api/translation_v2/functions/postprocessors.py\<close>.
  The sections of \<open>processors.ini\<close> are what \<open>configparser\<close> makes of the file.  The entries of a page
  do not share their additional data, so a processor that changes an entry in place is a
  function to the changed entry.
\<close>

subsection \<open>Entries in translation\<close>

text \<open>An entry with the attribute \<open>origin_wiktionary\<close>, which is set after the translation.\<close>

record translated_word = word_entry +
  tw_origin :: "string option"

definition word_data :: "translated_word \<Rightarrow> dict" where
  "word_data e = (case we_data e of None \<Rightarrow> [] | Some d \<Rightarrow> d)"

definition translation_error :: exn where "translation_error = OtherError ''TranslationError''"
definition index_error :: exn where "index_error = OtherError ''IndexError''"
definition configuration_error :: exn where "configuration_error = OtherError ''ProcessorConfigurationError''"

text \<open>A processor returns a list of entries, or something that \<open>_check_processor_output\<close> refuses.\<close>

datatype processed = Entries "translated_word list" | Malformed

type_synonym processor = "translated_word list \<Rightarrow> processed res"

definition check_processor_output :: "processed \<Rightarrow> translated_word list res" where
  "check_processor_output out = (case out of Entries es \<Rightarrow> Inr es | Malformed \<Rightarrow> Inl translation_error)"

subsection \<open>Postprocessors\<close>

text \<open>The configuration passes strings, so that \<open>in\<close> looks for a substring.\<close>

definition for_language :: "string \<Rightarrow> translated_word \<Rightarrow> bool" where
  "for_language languages e \<longleftrightarrow> languages = ''automatic'' \<or> contains languages (we_language e)"

definition add_language_ipa_if_not_exists :: "string \<Rightarrow> processor" where
  "add_language_ipa_if_not_exists languages entries =
    Inr (Entries (map (\<lambda>e. e\<lparr>we_data := Some
      (if for_language languages e \<and> \<not> dhas ''pronunciation'' (word_data e)
       then dset ''pronunciation'' (JList [JStr (''{{'' @ we_language e @ ''-IPA}}'')]) (word_data e)
       else word_data e)\<rparr>) entries))"

definition add_japanese_verb_form :: processor where
  "add_japanese_verb_form entries =
    Inr (Entries (map (\<lambda>e.
      if we_language e \<noteq> ''ja'' then e
      else e\<lparr>we_data := Some
        (if dhas ''inflection'' (word_data e) then word_data e
         else dset ''inflection'' (JList [JStr ''{{ja-ojad}}'']) (word_data e))\<rparr>) entries))"

definition add_transcription :: "string \<Rightarrow> translated_word \<Rightarrow> translated_word res" where
  "add_transcription languages e =
    (let d = word_data e;
         added = e\<lparr>we_data := Some (dset ''transcription''
           (JList [JStr (''{{xlit|'' @ we_language e @ ''|{{subst:BASEPAGENAME}}}}'')]) d)\<rparr> in
     if \<not> for_language languages e then Inr (e\<lparr>we_data := Some d\<rparr>)
     else if \<not> dhas ''transcription'' d then Inr added
     else bnd (str_items (dget ''transcription'' d)) (\<lambda>ts.
       Inr (if strip (concat ts) = [] then added else e\<lparr>we_data := Some d\<rparr>)))"

definition add_xlit_if_no_transcription :: "string \<Rightarrow> processor" where
  "add_xlit_if_no_transcription languages entries =
    bnd (map_res (add_transcription languages) entries) (\<lambda>es. Inr (Entries es))"

definition credit :: "string \<Rightarrow> string \<Rightarrow> string" where
  "credit wiki title = ''{{wikibolana|'' @ wiki @ ''|'' @ title @ ''}}''"

definition add_reference :: "string \<Rightarrow> dict \<Rightarrow> dict" where
  "add_reference reference d =
    dset ''reference''
      (case dget ''reference'' d of
         JList rs \<Rightarrow> if dhas ''reference'' d then JList (rs @ [JStr reference]) else JList [JStr reference]
       | _ \<Rightarrow> JList [JStr reference]) d"

definition add_wiktionary_credit :: "string \<Rightarrow> processor" where
  "add_wiktionary_credit wiki entries =
    Inr (Entries (map (\<lambda>e. e\<lparr>we_data := Some (add_reference (credit wiki (we_entry e)) (word_data e))\<rparr>) entries))"

definition filter_out_languages :: "string list \<Rightarrow> processor" where
  "filter_out_languages languages entries = Inr (Entries (filter (\<lambda>e. we_language e \<notin> set languages) entries))"

definition only_accept_from_source_wiki :: "string list \<Rightarrow> processor" where
  "only_accept_from_source_wiki args entries =
    (case args of
       [] \<Rightarrow> Inl index_error
     | source_wiki # _ \<Rightarrow>
       Inr (Entries (filter (\<lambda>e. case tw_origin e of None \<Rightarrow> True | Some w \<Rightarrow> w = source_wiki) entries)))"

text \<open>\<open>change_part_of_speech\<close> with a dictionary, as the code calls it.\<close>

definition change_part_of_speech :: "(string \<times> string) list \<Rightarrow> translated_word \<Rightarrow> translated_word" where
  "change_part_of_speech pos_map e =
    (case map_of pos_map (we_pos e) of None \<Rightarrow> e | Some p \<Rightarrow> e\<lparr>we_pos := p\<rparr>)"

text \<open>With a string, as the configuration would call it: a string has no item under a string.\<close>

definition change_part_of_speech_text :: "string \<Rightarrow> processor" where
  "change_part_of_speech_text pos_map entries =
    (if list_ex (\<lambda>e. contains pos_map (we_pos e)) entries then Inl TypeError else Inr (Entries entries))"

text \<open>The module as \<open>hasattr\<close> and \<open>getattr\<close> see it, with the arity of each factory; \<open>other\<close> has its imports.\<close>

definition postprocessors_module ::
  "(string \<Rightarrow> (string list \<Rightarrow> processor res) option) \<Rightarrow> string \<Rightarrow> (string list \<Rightarrow> processor res) option" where
  "postprocessors_module other name =
    (let at_most_one = (\<lambda>f args. case args of [] \<Rightarrow> Inr (f ''automatic'') | [a] \<Rightarrow> Inr (f a) | _ \<Rightarrow> Inl TypeError);
         exactly_one = (\<lambda>f args. case args of [a] \<Rightarrow> Inr (f a) | _ \<Rightarrow> Inl TypeError) in
     if name = ''add_language_ipa_if_not_exists'' then Some (at_most_one add_language_ipa_if_not_exists)
     else if name = ''add_japanese_verb_form'' then Some (at_most_one (\<lambda>languages. add_japanese_verb_form))
     else if name = ''add_xlit_if_no_transcription'' then Some (at_most_one add_xlit_if_no_transcription)
     else if name = ''add_wiktionary_credit'' then Some (exactly_one add_wiktionary_credit)
     else if name = ''filter_out_languages'' then Some (\<lambda>args. Inr (filter_out_languages args))
     else if name = ''only_accept_from_source_wiki'' then Some (\<lambda>args. Inr (only_accept_from_source_wiki args))
     else if name = ''change_part_of_speech'' then Some (exactly_one change_part_of_speech_text)
     else other name)"

subsection \<open>The configuration\<close>

record processor_definition =
  pd_language :: string
  pd_pos :: string
  pd_function :: string
  pd_type :: string
  pd_order :: int
  pd_exclude :: "string list option"
  pd_only :: "string list option"
  pd_arguments :: "string list"

definition before_translation :: string where "before_translation = ''before_translation''"
definition after_translation :: string where "after_translation = ''after_translation''"

definition parse_language_list :: "string option \<Rightarrow> string list option" where
  "parse_language_list v =
    (case v of
       None \<Rightarrow> None
     | Some s \<Rightarrow>
       let items = filter (\<lambda>item. item \<noteq> []) (map strip (split_on '','' s)) in
       if s = [] \<or> items = [] then None else Some items)"

text \<open>\<open>section_name.split(":", maxsplit=2)\<close>, which must give three parts.\<close>

definition section_parts :: "string \<Rightarrow> (string \<times> string \<times> string) res" where
  "section_parts section_name =
    (case cut_at '':'' section_name of
       None \<Rightarrow> Inl configuration_error
     | Some (language, rest) \<Rightarrow>
       (case cut_at '':'' rest of
          None \<Rightarrow> Inl configuration_error
        | Some (pos, name) \<Rightarrow> Inr (strip language, strip pos, strip name)))"

definition option_text :: "string \<Rightarrow> (string \<times> string) list \<Rightarrow> string option" where
  "option_text key options =
    (case map_of options key of None \<Rightarrow> None | Some v \<Rightarrow> if v = [] then None else Some v)"

definition parse_section :: "string \<times> (string \<times> string) list \<Rightarrow> processor_definition res" where
  "parse_section section =
    (case section of (section_name, options) \<Rightarrow>
     bnd (section_parts section_name) (\<lambda>(language, pos, name).
     let type = (case map_of options ''type'' of None \<Rightarrow> after_translation | Some t \<Rightarrow> t) in
     if type \<noteq> before_translation \<and> type \<noteq> after_translation then Inl configuration_error
     else
       bnd (parse_int (case map_of options ''order'' of None \<Rightarrow> ''0'' | Some n \<Rightarrow> n)) (\<lambda>order.
       let exclude = parse_language_list (map_of options ''exclude_languages'');
           only = parse_language_list
             (case option_text ''only_languages'' options of
                Some v \<Rightarrow> Some v | None \<Rightarrow> map_of options ''only_on_languages'')
       in if language \<noteq> ''*'' \<and> (exclude \<noteq> None \<or> only \<noteq> None) then Inl configuration_error
         else Inr \<lparr>pd_language = language, pd_pos = pos, pd_function = name, pd_type = type, pd_order = order,
           pd_exclude = exclude, pd_only = only,
           pd_arguments = map snd (filter (\<lambda>(key, v). startswith key ''arguments__'') options)\<rparr>)))"

definition load_config :: "(string \<times> (string \<times> string) list) list option \<Rightarrow> processor_definition list res" where
  "load_config file =
    (case file of
       None \<Rightarrow> Inr []
     | Some sections \<Rightarrow> bnd (map_res parse_section sections) (\<lambda>definitions. Inr (sort_key pd_order definitions)))"

definition matches_entry :: "processor_definition \<Rightarrow> string \<Rightarrow> string \<Rightarrow> bool" where
  "matches_entry d language pos \<longleftrightarrow>
    (pd_language d = ''*'' \<or> pd_language d = language) \<and> (pd_pos d = ''*'' \<or> pd_pos d = pos) \<and>
    (case pd_only d of None \<Rightarrow> True | Some ls \<Rightarrow> ls = [] \<or> language \<in> set ls) \<and>
    (case pd_exclude d of None \<Rightarrow> True | Some ls \<Rightarrow> language \<notin> set ls)"

definition get_definitions :: "processor_definition list \<Rightarrow> string \<Rightarrow> string \<Rightarrow> string \<Rightarrow> processor_definition list" where
  "get_definitions definitions language pos type =
    filter (\<lambda>d. pd_type d = type \<and> matches_entry d language pos) definitions"

subsection \<open>Running the configured processors\<close>

text \<open>\<open>str(getattr(entry, name))\<close>; \<open>other\<close> has the attributes that are not fields of an entry.\<close>

definition attribute_text :: "(string \<Rightarrow> string option) \<Rightarrow> translated_word \<Rightarrow> string \<Rightarrow> string option" where
  "attribute_text other e name =
    (if name = ''entry'' then Some (we_entry e)
     else if name = ''part_of_speech'' then Some (we_pos e)
     else if name = ''language'' then Some (we_language e)
     else if name = ''definitions'' then Some (py_str (JList (map JStr (we_definitions e))))
     else if name = ''additional_data''
     then Some (case we_data e of None \<Rightarrow> [] | Some d \<Rightarrow> py_str (JDict d))
     else if name = ''origin_wiktionary'' \<and> tw_origin e \<noteq> None then tw_origin e
     else other name)"

text \<open>The pattern \<open>{{([^}]+)}}\<close>, with its escapes left out.\<close>

definition placeholder_re :: rx where
  "placeholder_re = cats [lit ''{{'', Grp 1 (some (Sym (\<lambda>c. c \<noteq> CHR ''}''))), lit ''}}'']"

definition substitute_placeholders :: "(string \<Rightarrow> string option) \<Rightarrow> translated_word \<Rightarrow> string \<Rightarrow> string res" where
  "substitute_placeholders other e v =
    (case find_all placeholder_re [] v of
       (parts, tail) \<Rightarrow>
         bnd (map_res (\<lambda>(gap, m). case attribute_text other e (m_group 1 m) of
             None \<Rightarrow> Inl configuration_error | Some t \<Rightarrow> Inr (gap @ t)) parts)
           (\<lambda>ts. Inr (concat ts @ tail)))"

fun find_factory ::
  "(string \<Rightarrow> (string list \<Rightarrow> processor res) option) list \<Rightarrow> string \<Rightarrow> (string list \<Rightarrow> processor res) option" where
  "find_factory [] name = None"
| "find_factory (m # ms) name = (case m name of None \<Rightarrow> find_factory ms name | Some f \<Rightarrow> Some f)"

record processor_env =
  pv_definitions :: "processor_definition list"
  pv_modules :: "(string \<Rightarrow> (string list \<Rightarrow> processor res) option) list"
  pv_attribute :: "string \<Rightarrow> string option"

definition instantiate_processor :: "processor_env \<Rightarrow> processor_definition \<Rightarrow> translated_word \<Rightarrow> processor res" where
  "instantiate_processor V d e =
    bnd (map_res (substitute_placeholders (pv_attribute V) e) (pd_arguments d)) (\<lambda>args.
    case find_factory (pv_modules V) (pd_function d) of
      None \<Rightarrow> Inl configuration_error
    | Some factory \<Rightarrow> factory args)"

text \<open>
  Placeholders are filled from the entry the run began with.  A processor changes it in place or
  drops it, so it is the head of what the processors have returned, as long as there is one.
\<close>

fun run_definitions ::
  "processor_env \<Rightarrow> processor_definition list \<Rightarrow> translated_word \<Rightarrow> translated_word list \<Rightarrow> translated_word list res" where
  "run_definitions V [] e entries = Inr entries"
| "run_definitions V (d # ds) e entries =
    bnd (instantiate_processor V d e) (\<lambda>p.
    bnd (p entries) (\<lambda>out.
    bnd (check_processor_output out) (\<lambda>es.
    run_definitions V ds (case es of [] \<Rightarrow> e | x # _ \<Rightarrow> x) es)))"

definition run_dynamic_processors :: "processor_env \<Rightarrow> string \<Rightarrow> translated_word list \<Rightarrow> translated_word list res" where
  "run_dynamic_processors V type entries =
    bnd (map_res (\<lambda>e. run_definitions V (get_definitions (pv_definitions V) (we_language e) (we_pos e) type) e [e]) entries)
      (\<lambda>lists. Inr (concat lists))"

text \<open>Only the last result is checked; a processor cannot read a malformed one.\<close>

fun run_static_processors :: "processor list \<Rightarrow> translated_word list \<Rightarrow> processed res" where
  "run_static_processors [] entries = Inr (Entries entries)"
| "run_static_processors (p # ps) entries =
    bnd (p entries) (\<lambda>out. case out of
      Entries es \<Rightarrow> run_static_processors ps es
    | Malformed \<Rightarrow> if ps = [] then Inr Malformed else Inl TypeError)"

end
