(* ===== verification/TranslationOutput.thy ===== *)
theory TranslationOutput
  imports TranslationProcessors
begin

text \<open>
  The page that a translation writes: \<open>wikipages\<close> of \<open>api/output.py\<close>, which renders the entries
  of a page language by language, and the references of
  \<open>api/translation_v2/functions/references.py\<close>.
\<close>

subsection \<open>Entries by language\<close>

text \<open>The equality of the dataclass \<open>Entry\<close>, which does not look at \<open>origin_wiktionary\<close>.\<close>

definition data_json :: "translated_word \<Rightarrow> json" where
  "data_json e = (case we_data e of None \<Rightarrow> JNull | Some d \<Rightarrow> JDict d)"

definition same_entry :: "translated_word \<Rightarrow> translated_word \<Rightarrow> bool" where
  "same_entry a b \<longleftrightarrow> we_entry a = we_entry b \<and> we_pos a = we_pos b \<and> we_definitions a = we_definitions b \<and>
    we_language a = we_language b \<and> py_eq (data_json a) (data_json b)"

definition add_entry :: "translated_word \<Rightarrow> (string \<times> translated_word list) list \<Rightarrow> (string \<times> translated_word list) list" where
  "add_entry e groups =
    (case map_of groups (we_language e) of
       None \<Rightarrow> groups @ [(we_language e, [e])]
     | Some es \<Rightarrow> if list_ex (\<lambda>x. same_entry x e) es then groups else AList.update (we_language e) (es @ [e]) groups)"

definition entries_by_language :: "translated_word list \<Rightarrow> (string \<times> translated_word list) list" where
  "entries_by_language infos = fold add_entry infos []"

subsection \<open>Rendering\<close>

definition etymology_sections :: "translated_word \<Rightarrow> json list" where
  "etymology_sections e =
    (if \<not> dhas ''etymology'' (word_data e) then []
     else case dget ''etymology'' (word_data e) of
       JList vs \<Rightarrow> vs | v \<Rightarrow> if truthy v then [v] else [])"

definition etymologies_of :: "translated_word list \<Rightarrow> json list" where
  "etymologies_of entries =
    fold (\<lambda>v known. if list_ex (\<lambda>x. py_eq x v) known then known else known @ [v]) (concat (map etymology_sections entries)) []"

text \<open>The etymologies of a language go to its last entry.\<close>

definition rendered_entry :: "translated_word list \<Rightarrow> nat \<Rightarrow> translated_word \<Rightarrow> word_entry" where
  "rendered_entry entries index e =
    word_entry.truncate
      (if list_ex (\<lambda>x. dhas ''etymology'' (word_data x)) entries
       then let d = dpop ''etymology'' (word_data e) in
         e\<lparr>we_data := Some (if Suc index = length entries then dset ''etymology'' (JList (etymologies_of entries)) d else d)\<rparr>
       else e)"

definition add_rendered :: "string \<Rightarrow> string \<Rightarrow> string" where
  "add_rendered rendered ret_page =
    (let language_section = takeWhile (\<lambda>c. \<not> is_newline c) rendered in
     if \<not> contains ret_page language_section
     then if rendered \<noteq> [] then ret_page @ rendered @ newline else ret_page
     else replace_all language_section rendered ret_page @ newline)"

fun render_group :: "renderer_code \<Rightarrow> translated_word list \<Rightarrow> nat \<Rightarrow> translated_word list \<Rightarrow> string \<Rightarrow> string res" where
  "render_group R entries index [] ret_page = Inr ret_page"
| "render_group R entries index (e # es) ret_page =
    bnd (render R True (rendered_entry entries index e)) (\<lambda>rendered.
    render_group R entries (Suc index) es (add_rendered (strip rendered) ret_page))"

fun render_groups :: "renderer_code \<Rightarrow> translated_word list list \<Rightarrow> string \<Rightarrow> string res" where
  "render_groups R [] ret_page = Inr ret_page"
| "render_groups R (entries # groups) ret_page =
    bnd (render_group R entries 0 entries ret_page) (render_groups R groups)"

definition output_wikipages :: "renderer_code \<Rightarrow> translated_word list \<Rightarrow> string res" where
  "output_wikipages R infos =
    bnd (render_groups R (map snd (entries_by_language infos)) []) (\<lambda>ret_page.
    Inr (strip (replace_all (newline @ newline @ newline) (newline @ newline) ret_page)))"

subsection \<open>References\<close>

definition skipped_reference :: "string \<Rightarrow> bool" where
  "skipped_reference ref \<longleftrightarrow> \<not> startswith (strip ref) ''{{'' \<and>
    (startswith (strip ref) ''|'' \<or> contains (lower ref) ''<references'' \<or> contains (lower ref) ''[[category:'')"

text \<open>\<open>translate\<close> is \<open>translate_reference_templates\<close>, which parses the template.\<close>

fun translate_references ::
  "(string \<Rightarrow> 's \<Rightarrow> 's \<times> string res) \<Rightarrow> json list \<Rightarrow> 's \<Rightarrow> 's \<times> string list res" where
  "translate_references translate [] = sreturn (Inr [])"
| "translate_references translate (v # vs) =
    (case v of
       JStr ref \<Rightarrow>
         if startswith (strip ref) ''{{''
         then sbind (translate ref) (\<lambda>t. sbind (translate_references translate vs) (\<lambda>ts.
           sreturn (Inr ((if t \<noteq> [] then t else ref) # ts))))
         else if skipped_reference ref then translate_references translate vs
         else sbind (translate_references translate vs) (\<lambda>ts. sreturn (Inr (ref # ts)))
     | _ \<Rightarrow> sreturn (Inl AttributeError))"

definition add_pairs :: "(string \<times> string) list \<Rightarrow> (string \<times> string) list \<Rightarrow> (string \<times> string) list" where
  "add_pairs ps templates = fold (\<lambda>p known. if p \<in> set known then known else known @ [p]) ps templates"

text \<open>The name of a template from a name or a call.\<close>

definition extract_template_name :: "string \<Rightarrow> string" where
  "extract_template_name template_call =
    (let t = strip template_call;
         called = (if startswith t ''{{''
           then let u = drop 2 t in
             (case (cut_at ''|'' u, cut_at ''}}'' u) of
                (None, None) \<Rightarrow> u
              | (Some (a, b), None) \<Rightarrow> a
              | (None, Some (c, d)) \<Rightarrow> c
              | (Some (a, b), Some (c, d)) \<Rightarrow> if length a \<le> length c then a else c)
           else t);
         name = strip called
     in if startswith (lower name) ''template:'' then strip (drop 9 name)
        else if startswith (lower name) ''endrika:'' then strip (drop 8 name)
        else name)"

end
