(* ===== verification/PageTranslation.thy ===== *)
theory PageTranslation
  imports TranslationOutput PageCheck WikiPages
begin

text \<open>
  The translation of a Wiktionary page, \<open>api/translation_v2/core.py\<close>, and the publisher that writes
  to the wiki directly, of \<open>api/translation_v2/publishers.py\<close>.  The state type \<open>'s\<close> is whatever
  the wiki, the dictionary service and the translators act on.  A \<open>translator\<close> holds what the
  code imports: the pages, the entry processors of the source wikis, the two translation
  methods, the translators of etymologies, reference templates and pronunciations, the
  dictionary service.  Logging and the pause after a direct write are left out.
\<close>

subsection \<open>What a translation calls\<close>

text \<open>A page is named by the language of its wiki and its title.\<close>

type_synonym wiki_page = "string \<times> string"

text \<open>\<open>refine_definition\<close> is called with all templates, without them, and without templates and labels.\<close>

datatype refinement = Plain | WithoutTemplates | WithoutLabels

record 's translator =
  tr_space :: "wiki_page \<Rightarrow> 's \<Rightarrow> 's \<times> (int \<times> bool) res"
  tr_exists :: "wiki_page \<Rightarrow> 's \<Rightarrow> 's \<times> bool res"
  tr_is_redirect :: "wiki_page \<Rightarrow> 's \<Rightarrow> 's \<times> bool res"
  tr_redirect_target :: "wiki_page \<Rightarrow> 's \<Rightarrow> 's \<times> wiki_page res"
  tr_text :: "wiki_page \<Rightarrow> 's \<Rightarrow> 's \<times> string res"
  tr_put :: "('s \<Rightarrow> 's \<times> unit res) option \<Rightarrow> wiki_page \<Rightarrow> string \<Rightarrow> string \<Rightarrow> 's \<Rightarrow> 's \<times> unit res"
  tr_create :: "string \<Rightarrow> unit res"
  tr_load :: "wiki_page \<Rightarrow> string \<Rightarrow> unit res"
  tr_process :: "wiki_page \<Rightarrow> 's \<Rightarrow> 's \<times> string res"
  tr_entries :: "bool \<Rightarrow> wiki_page \<Rightarrow> string \<Rightarrow> 's \<Rightarrow> 's \<times> translated_word list res"
  tr_refine :: "refinement \<Rightarrow> string \<Rightarrow> string \<Rightarrow> string \<Rightarrow> string list res"
  tr_form_of :: "translated_word \<Rightarrow> string \<Rightarrow> string \<Rightarrow> 's \<Rightarrow> 's \<times> nllb_answer res"
  tr_nllb :: "translated_word \<Rightarrow> string \<Rightarrow> string \<Rightarrow> 's \<Rightarrow> 's \<times> nllb_answer res"
  tr_whitelists :: "(string \<times> string list) list"
  tr_etymologies :: "json list \<Rightarrow> 's \<Rightarrow> 's \<times> json list res"
  tr_reference :: "string \<Rightarrow> string \<Rightarrow> 's \<Rightarrow> 's \<times> string res"
  tr_pronunciation :: "json \<Rightarrow> json res"
  tr_order :: "(string \<times> string) list \<Rightarrow> (string \<times> string) list"
  tr_store_entry :: "translated_word \<Rightarrow> 's \<Rightarrow> 's \<times> unit res"
  tr_store_method :: "translated_word \<Rightarrow> 's \<Rightarrow> 's \<times> unit res"
  tr_renderer :: renderer_code
  tr_processors :: processor_env
  tr_static :: "processor list option"
  tr_ninja :: bool
  tr_message :: "exn \<Rightarrow> string"
  tr_name :: "exn \<Rightarrow> string"

definition processor_exception :: exn where
  "processor_exception = OtherError ''WiktionaryProcessorException''"

definition is_translation_error :: "exn \<Rightarrow> bool" where
  "is_translation_error e \<longleftrightarrow> e = translation_error \<or> e = page_push_error"

text \<open>The white lists of the constructor: the first 20000 words of each.\<close>

definition whitelist :: "'s translator \<Rightarrow> string \<Rightarrow> string list res" where
  "whitelist K language =
    (case map_of (tr_whitelists K) language of None \<Rightarrow> Inl KeyError | Some ws \<Rightarrow> Inr (take 20000 ws))"

subsection \<open>Configured processors\<close>

definition run_preprocessors :: "'s translator \<Rightarrow> translated_word \<Rightarrow> translated_word list res" where
  "run_preprocessors K e =
    (case tr_static K of
       Some ps \<Rightarrow> Inr [e] | None \<Rightarrow> run_dynamic_processors (tr_processors K) before_translation [e])"

definition run_postprocessors :: "'s translator \<Rightarrow> translated_word list \<Rightarrow> translated_word list res" where
  "run_postprocessors K entries =
    (case tr_static K of
       Some [] \<Rightarrow> Inr entries
     | Some ps \<Rightarrow> bnd (run_static_processors ps entries) check_processor_output
     | None \<Rightarrow> run_dynamic_processors (tr_processors K) after_translation entries)"

subsection \<open>Definitions\<close>

definition refine_definitions :: "'s translator \<Rightarrow> string \<Rightarrow> string \<Rightarrow> string \<Rightarrow> string list res" where
  "refine_definitions K language pos line =
    (case tr_refine K Plain language line pos of
       Inl e \<Rightarrow> if e = processor_exception then Inr [] else Inl e
     | Inr ds \<Rightarrow> Inr ds)"

definition remove_templates :: "'s translator \<Rightarrow> string \<Rightarrow> string \<Rightarrow> string \<Rightarrow> string res" where
  "remove_templates K language pos definition_text =
    bnd (tr_refine K WithoutTemplates language definition_text pos) (\<lambda>refined.
    Inr (case refined of [] \<Rightarrow> [] | d # _ \<Rightarrow> d))"

text \<open>The definitions of a word on its own page, for a definition of one word.\<close>

definition first_refinement :: "'s translator \<Rightarrow> string \<Rightarrow> string \<Rightarrow> string \<Rightarrow> string list res" where
  "first_refinement K language pos line =
    (case tr_refine K WithoutLabels language line pos of
       Inl e \<Rightarrow> if e = processor_exception then Inr [] else Inl e
     | Inr [] \<Rightarrow> Inr []
     | Inr (d # _) \<Rightarrow> Inr [d])"

definition get_single_word_definitions ::
  "'s translator \<Rightarrow> string \<Rightarrow> string \<Rightarrow> string \<Rightarrow> 's \<Rightarrow> 's \<times> string list res" where
  "get_single_word_definitions K definition_text language pos =
    (let page = (language, filter (\<lambda>c. c \<notin> set ''[]{}'') definition_text) in
     sbind (tr_exists K page) (\<lambda>exists.
     if \<not> exists then sreturn (Inr [])
     else
       sbind (sreturn (tr_create K language)) (\<lambda>_.
       sbind (rescue (sbind (tr_process K page) (\<lambda>t. sreturn (Inr (Some t))))
           (\<lambda>e. sreturn (if e = no_page then Inr None else Inl e))) (\<lambda>content.
       case content of
         None \<Rightarrow> sreturn (Inr [])
       | Some t \<Rightarrow>
         sbind (tr_entries K False page t) (\<lambda>entries.
         sreturn (bnd (map_res (first_refinement K language pos)
             (concat (map we_definitions (filter (\<lambda>e. we_pos e = pos \<and> we_language e = language) entries))))
           (\<lambda>ds. Inr (concat ds))))))))"

fun expand_definitions :: "'s translator \<Rightarrow> string \<Rightarrow> string \<Rightarrow> string list \<Rightarrow> 's \<Rightarrow> 's \<times> string list res" where
  "expand_definitions K language pos [] = sreturn (Inr [])"
| "expand_definitions K language pos (d # ds) =
    sbind
      (if length (split_ws d) < 2
       then sbind (sreturn (whitelist K language)) (\<lambda>ws.
         if d \<in> set ws then sreturn (Inr [d])
         else rescue (get_single_word_definitions K d language pos)
           (\<lambda>e. sreturn (if e = invalid_title then Inr [] else Inl e)))
       else sreturn (Inr [d])) (\<lambda>xs.
    sbind (expand_definitions K language pos ds) (\<lambda>ys. sreturn (Inr (xs @ ys))))"

subsection \<open>Translation methods\<close>

text \<open>The methods in their order: whether the definition is refined, and what happens to the entry on success.\<close>

definition form_of_parts :: "(string \<times> string) list" where
  "form_of_parts = [(''ana'', ''e-ana''), (''mpam'', ''e-mpam''), (''mat'', ''e-mat'')]"

type_synonym 's translation_method =
  "(translated_word \<Rightarrow> string \<Rightarrow> string \<Rightarrow> 's \<Rightarrow> 's \<times> nllb_answer res) \<times> bool \<times> (translated_word \<Rightarrow> translated_word)"

definition translation_methods :: "'s translator \<Rightarrow> 's translation_method list" where
  "translation_methods K = [(tr_form_of K, False, change_part_of_speech form_of_parts), (tr_nllb K, True, \<lambda>e. e)]"

fun apply_translation_methods ::
  "'s translator \<Rightarrow> 's translation_method list \<Rightarrow> string \<Rightarrow> translated_word \<Rightarrow> string
    \<Rightarrow> 's \<Rightarrow> 's \<times> (translated_word \<times> string option) res" where
  "apply_translation_methods K [] language e d = sreturn (Inr (e, None))"
| "apply_translation_methods K ((translate, refined, post) # methods) language e d =
    sbind (sreturn (if refined then remove_templates K language (we_pos e) d else Inr d)) (\<lambda>d'.
    if d' = [] then apply_translation_methods K methods language e d'
    else
      sbind (translate e d' language) (\<lambda>answer.
      case answer of
        Translated t \<Rightarrow> sreturn (Inr (post e, Some t))
      | Untranslated t \<Rightarrow> apply_translation_methods K methods language e d'))"

text \<open>A method may change the part of speech of the entry for the definitions that follow.\<close>

fun translate_all ::
  "'s translator \<Rightarrow> string \<Rightarrow> string list \<Rightarrow> translated_word \<times> string list \<Rightarrow> 's \<Rightarrow> 's \<times> (translated_word \<times> string list) res" where
  "translate_all K language [] x = sreturn (Inr x)"
| "translate_all K language (d # ds) x =
    sbind (apply_translation_methods K (translation_methods K) language (fst x) d) (\<lambda>(e, t).
    translate_all K language ds (e, case t of None \<Rightarrow> snd x | Some s \<Rightarrow> if s = [] then snd x else snd x @ [s]))"

fun translate_lines ::
  "'s translator \<Rightarrow> string \<Rightarrow> string list \<Rightarrow> translated_word \<times> string list \<Rightarrow> 's \<Rightarrow> 's \<times> (translated_word \<times> string list) res" where
  "translate_lines K language [] x = sreturn (Inr x)"
| "translate_lines K language (line # ls) x =
    sbind (sreturn (refine_definitions K language (we_pos (fst x)) line)) (\<lambda>refined.
    sbind (expand_definitions K language (we_pos (fst x)) refined) (\<lambda>cleaned.
    sbind (translate_all K language cleaned x) (translate_lines K language ls)))"

definition translate_entry_definitions ::
  "'s translator \<Rightarrow> string \<Rightarrow> translated_word \<Rightarrow> 's \<Rightarrow> 's \<times> (translated_word \<times> string list) res" where
  "translate_entry_definitions K language e =
    sbind (translate_lines K language (we_definitions e) (e, [])) (\<lambda>(e', ds).
    sreturn (Inr (e', in_order_once ds)))"

subsection \<open>Additional data\<close>

type_synonym templates = "(string \<times> string) list"

text \<open>One of the two lists of references, with the pairs of original and translated references.\<close>

definition translate_section ::
  "'s translator \<Rightarrow> string \<Rightarrow> string \<Rightarrow> dict \<times> templates \<Rightarrow> 's \<Rightarrow> 's \<times> (dict \<times> templates) res" where
  "translate_section K language name x =
    (case x of (d, T) \<Rightarrow>
     if \<not> dhas name d then sreturn (Inr (d, T))
     else
       sbind (sreturn (items_of (dget name d))) (\<lambda>original.
       sbind (translate_references (tr_reference K language) original) (\<lambda>translated.
       sreturn (Inr (dset name (JList (map JStr translated)) d, add_pairs (zip (strs_of original) translated) T)))))"

definition translate_etymology :: "'s translator \<Rightarrow> string \<Rightarrow> dict \<Rightarrow> 's \<Rightarrow> 's \<times> dict res" where
  "translate_etymology K language d =
    (case dget ''etym/en'' d of
       JList es \<Rightarrow>
         if dhas ''etymology'' d \<or> language \<noteq> ''en'' then sreturn (Inr d)
         else sbind (tr_etymologies K es) (\<lambda>ts. sreturn (Inr (if ts = [] then d else dset ''etymology'' (JList ts) d)))
     | _ \<Rightarrow> sreturn (Inr d))"

definition translate_additional_data ::
  "'s translator \<Rightarrow> string \<Rightarrow> translated_word \<Rightarrow> templates \<Rightarrow> 's \<Rightarrow> 's \<times> (dict \<times> templates) res" where
  "translate_additional_data K language e T =
    sbind (translate_etymology K language (word_data e)) (\<lambda>d.
    sbind (translate_section K language ''reference'' (d, T)) (\<lambda>x.
    sbind (translate_section K language ''further_reading'' x) (\<lambda>(d', T').
    sreturn (if dhas ''pronunciation'' d'
      then bnd (tr_pronunciation K (dget ''pronunciation'' d')) (\<lambda>p. Inr (dset ''pronunciation'' p d', T'))
      else Inr (d', T')))))"

definition prepare_translated_entry ::
  "'s translator \<Rightarrow> string \<Rightarrow> translated_word \<Rightarrow> string list \<Rightarrow> templates \<Rightarrow> 's \<Rightarrow> 's \<times> (translated_word \<times> templates) res" where
  "prepare_translated_entry K language e definitions T =
    sbind (translate_additional_data K language e T) (\<lambda>(d, T').
    sreturn (Inr (e\<lparr>we_definitions := definitions, we_data := Some d\<rparr>, T')))"

subsection \<open>A page\<close>

fun translate_preprocessed ::
  "'s translator \<Rightarrow> string \<Rightarrow> translated_word list \<Rightarrow> translated_word list \<times> templates
    \<Rightarrow> 's \<Rightarrow> 's \<times> (translated_word list \<times> templates) res" where
  "translate_preprocessed K language [] x = sreturn (Inr x)"
| "translate_preprocessed K language (e # es) x =
    sbind (translate_entry_definitions K language e) (\<lambda>(e', definitions).
    if definitions = [] then translate_preprocessed K language es x
    else
      sbind (prepare_translated_entry K language e' definitions (snd x)) (\<lambda>(te, T).
      translate_preprocessed K language es (fst x @ [te], T)))"

fun translate_entries ::
  "'s translator \<Rightarrow> string \<Rightarrow> translated_word list \<Rightarrow> translated_word list \<times> templates
    \<Rightarrow> 's \<Rightarrow> 's \<times> (translated_word list \<times> templates) res" where
  "translate_entries K language [] x = sreturn (Inr x)"
| "translate_entries K language (e # es) x =
    sbind (sreturn (run_preprocessors K e)) (\<lambda>preprocessed.
    sbind (translate_preprocessed K language preprocessed x) (translate_entries K language es))"

definition credited :: "wiki_page \<Rightarrow> translated_word \<Rightarrow> translated_word" where
  "credited page e =
    e\<lparr>tw_origin := Some (fst page), we_data := Some (add_reference (credit (fst page) (snd page)) (word_data e))\<rparr>"

definition translate_wiktionary_page ::
  "'s translator \<Rightarrow> wiki_page \<Rightarrow> string \<Rightarrow> 's \<Rightarrow> 's \<times> (translated_word list \<times> templates) res" where
  "translate_wiktionary_page K page content =
    sbind (tr_entries K True page content) (\<lambda>entries.
    sbind (translate_entries K (fst page) entries ([], [])) (\<lambda>(translated_entries, T).
    sreturn (bnd (run_postprocessors K (map (credited page) translated_entries)) (\<lambda>es. Inr (es, T)))))"

subsection \<open>Templates of the references\<close>

definition created_summary :: "nat \<Rightarrow> nat \<Rightarrow> string \<Rightarrow> string" where
  "created_summary most shown content =
    ''Pejy noforonina tamin'' @ [char_of (39::nat)] @ ''ny '' @ [char_of (171::nat)] @ '' '' @
      (if most < length content then take shown content @ ''...'' else content) @ '' '' @ [char_of (187::nat)]"

definition create_or_rename_template ::
  "'s translator \<Rightarrow> string \<Rightarrow> string \<Rightarrow> string \<Rightarrow> string \<Rightarrow> 's \<Rightarrow> 's \<times> unit res" where
  "create_or_rename_template K source_language source_call target_language target_call =
    (if target_language \<noteq> ''mg'' then sreturn (Inl page_push_error)
     else
       let source_name = extract_template_name source_call; target_name = extract_template_name target_call;
           source_page = (source_language, ''Template:'' @ source_name);
           target = (target_language, ''Endrika:'' @ target_name); redirect = (target_language, ''Endrika:'' @ source_name)
       in rescue
         (sbind (tr_exists K source_page) (\<lambda>exists.
          if \<not> exists then sreturn (Inr ())
          else
            sbind (tr_is_redirect K source_page) (\<lambda>is_redirect.
            if is_redirect then sreturn (Inr ())
            else
              sbind (tr_text K source_page) (\<lambda>content.
              sbind (tr_exists K target) (\<lambda>known.
              sbind (if known then sreturn (Inr ()) else tr_put K None target content (created_summary 149 147 content)) (\<lambda>_.
              if source_name = target_name then sreturn (Inr ())
              else
                sbind (tr_exists K redirect) (\<lambda>known_redirect.
                if known_redirect then sreturn (Inr ())
                else tr_put K None redirect (''#FIHODINANA [['' @ snd target @ '']]'') ''mametra-pihodinana'')))))))
         (\<lambda>e. sreturn (if e = invalid_title then Inr () else Inl e)))"

fun publish_references ::
  "'s translator \<Rightarrow> string \<Rightarrow> string \<Rightarrow> (string \<times> string) list \<Rightarrow> 's \<Rightarrow> 's \<times> unit res" where
  "publish_references K source_wiki target_wiki [] = sreturn (Inr ())"
| "publish_references K source_wiki target_wiki ((original, translated) # ps) =
    sbind (if startswith translated ''{{'' \<or> startswith original ''{{''
        then create_or_rename_template K source_wiki original target_wiki translated else sreturn (Inr ())) (\<lambda>_.
    publish_references K source_wiki target_wiki ps)"

subsection \<open>From a page to the wiki\<close>

record translated_page_result =
  tp_title :: string
  tp_language :: string
  tp_status :: string
  tp_message :: string
  tp_count :: nat
  tp_published :: bool
  tp_error :: "string option"

definition page_answer :: "wiki_page \<Rightarrow> string \<Rightarrow> string \<Rightarrow> translated_page_result" where
  "page_answer page status message =
    \<lparr>tp_title = snd page, tp_language = fst page, tp_status = status, tp_message = message, tp_count = 0,
     tp_published = False, tp_error = None\<rparr>"

definition page_error :: "'s translator \<Rightarrow> wiki_page \<Rightarrow> string \<Rightarrow> exn \<Rightarrow> translated_page_result" where
  "page_error K page message e = (page_answer page ''error'' message)\<lparr>tp_error := Some (tr_name K e)\<rparr>"

fun save_entries :: "'s translator \<Rightarrow> translated_word list \<Rightarrow> 's \<Rightarrow> 's \<times> unit res" where
  "save_entries K [] = sreturn (Inr ())"
| "save_entries K (e # es) =
    sbind (tr_store_entry K e) (\<lambda>_. sbind (tr_store_method K e) (\<lambda>_. save_entries K es))"

type_synonym 's publish = "string \<Rightarrow> translated_word list \<Rightarrow> 's \<Rightarrow> 's \<times> bool res"

text \<open>What follows an accepted publication: the dictionary and the templates of the references.\<close>

definition after_publication ::
  "'s translator \<Rightarrow> wiki_page \<Rightarrow> translated_word list \<Rightarrow> templates \<Rightarrow> 's \<Rightarrow> 's \<times> translated_page_result res" where
  "after_publication K page entries T =
    sbind (save_entries K entries) (\<lambda>_.
    sbind (publish_references K (fst page) ''mg'' (tr_order K T)) (\<lambda>_.
    sreturn (Inr ((page_answer page ''published'' ''Translated entries were published.'')
      \<lparr>tp_count := length entries, tp_published := True\<rparr>))))"

definition publish_entries ::
  "'s translator \<Rightarrow> 's publish \<Rightarrow> wiki_page \<Rightarrow> translated_word list \<Rightarrow> templates \<Rightarrow> 's \<Rightarrow> 's \<times> translated_page_result res" where
  "publish_entries K publish page entries T =
    (if entries = [] then sreturn (Inr (page_answer page ''no_entries'' ''No entries were translated.''))
     else
       sbind (sreturn (output_wikipages (tr_renderer K) entries)) (\<lambda>ret.
       if ret = [] then sreturn (Inr (page_answer page ''no_output'' ''Translated entries produced no page output.''))
       else
         sbind (publish (snd page) entries) (\<lambda>accepted.
         if \<not> accepted
         then sreturn (Inr ((page_answer page ''filtered'' ''Translated entries were discarded before publication.'')
           \<lparr>tp_count := length entries\<rparr>))
         else after_publication K page entries T)))"

definition translate_and_publish :: "'s translator \<Rightarrow> 's publish \<Rightarrow> wiki_page \<Rightarrow> string \<Rightarrow> 's \<Rightarrow> 's \<times> translated_page_result res" where
  "translate_and_publish K publish page content =
    rescue
      (sbind (translate_wiktionary_page K page content) (\<lambda>(entries, T). publish_entries K publish page entries T))
      (\<lambda>e. sreturn (Inr (page_error K page
        (if is_translation_error e then tr_message K e else ''Unexpected error while processing page.'') e)))"

definition read_page :: "'s translator \<Rightarrow> wiki_page \<Rightarrow> 's \<Rightarrow> 's \<times> string res" where
  "read_page K page = sbind (tr_text K page) (\<lambda>t. sreturn (bnd (tr_load K page t) (\<lambda>_. Inr t)))"

text \<open>The number is the depth of calls Python allows; a chain of redirects calls once for each page.\<close>

definition recursion_error :: exn where "recursion_error = OtherError ''RecursionError''"

fun process_page :: "'s translator \<Rightarrow> 's publish \<Rightarrow> nat \<Rightarrow> wiki_page \<Rightarrow> 's \<Rightarrow> 's \<times> translated_page_result res" where
  "process_page K publish 0 page = sreturn (Inl recursion_error)"
| "process_page K publish (Suc depth) page =
    sbind (tr_space K page) (\<lambda>space.
    if \<not> snd space then sreturn (Inr (page_answer page ''skipped'' ''Page is not in a content namespace.''))
    else case tr_create K (fst page) of
      Inl e \<Rightarrow> sreturn (Inr (page_error K page ''Failed to create Wiktionary processor.'' e))
    | Inr u \<Rightarrow>
      sbind (tr_is_redirect K page) (\<lambda>is_redirect.
      if is_redirect
      then rescue (sbind (tr_redirect_target K page) (process_page K publish depth))
        (\<lambda>e. sreturn (if e = invalid_title then Inr (page_error K page ''Invalid redirect target.'' e) else Inl e))
      else
        sbind (rescue (sbind (read_page K page) (\<lambda>t. sreturn (Inr (Inr t)))) (\<lambda>e. sreturn (Inr (Inl e)))) (\<lambda>loaded.
        case loaded of
          Inl e \<Rightarrow> sreturn (Inr (page_error K page ''Failed to load page text.'' e))
        | Inr t \<Rightarrow> translate_and_publish K publish page t)))"

subsection \<open>Writing to the wiki directly\<close>

text \<open>A publisher answers whether the page was accepted; only \<open>False\<close> counts as a refusal, and this one has no answer.\<close>

definition summary_of_languages :: "translated_word list \<Rightarrow> string" where
  "summary_of_languages entries =
    ''Dikanteny: '' @ join '', '' (sort (remdups (map (\<lambda>e. lower (we_language e)) entries)))"

definition edit_summary_of :: "'s translator \<Rightarrow> translated_word list \<Rightarrow> wiki_page \<Rightarrow> string \<Rightarrow> 's \<Rightarrow> 's \<times> string res" where
  "edit_summary_of K entries target content =
    (if \<not> tr_ninja K then sreturn (Inr (summary_of_languages entries))
     else
       sbind (tr_exists K target) (\<lambda>exists.
       if \<not> exists then sreturn (Inr (created_summary 200 200 content))
       else
         sbind (tr_is_redirect K target) (\<lambda>is_redirect.
         if is_redirect then sreturn (Inr ''nanitsy'')
         else sbind (tr_text K target) (\<lambda>old.
           sreturn (Inr (if 5 * length old < 4 * length content then ''nanitatra'' else ''nanitsy''))))))"

text \<open>The page with the languages of the entries removed.\<close>

definition kept_content :: "'s translator \<Rightarrow> wiki_page \<Rightarrow> translated_word list \<Rightarrow> 's \<Rightarrow> 's \<times> string res" where
  "kept_content K target entries =
    sbind (tr_exists K target) (\<lambda>exists.
    if \<not> exists then sreturn (Inr [])
    else sbind (sreturn (tr_create K (fst target))) (\<lambda>_.
      sbind (read_page K target) (\<lambda>t.
      sreturn (Inr (fold (\<lambda>e. delete_language_section (tr_renderer K) (we_language e)) entries t)))))"

definition publish_to_wiktionary :: "'s translator \<Rightarrow> ('s \<Rightarrow> 's \<times> unit res) option \<Rightarrow> 's publish" where
  "publish_to_wiktionary K guard page_title entries =
    (let target = (''mg'', page_title) in
     sbind (tr_space K target) (\<lambda>space.
     if fst space \<noteq> 0 then sreturn (Inl page_push_error)
     else
       sbind (kept_content K target entries) (\<lambda>kept.
       sbind (sreturn (output_wikipages (tr_renderer K) entries)) (\<lambda>rendered.
       let content = strip kept @ newline @ strip rendered in
       sbind (edit_summary_of K entries target content) (\<lambda>summary.
       sbind (tr_put K guard target content summary) (\<lambda>_. sreturn (Inr True)))))))"

end
