(* ===== verification/TranslationCredit.thy ===== *)
theory TranslationCredit
  imports PageTranslation PageReplacement
begin

text \<open>
  The credit \<open>{{wikibolana|...}}\<close> of a translation: every translated entry has it, the page that is
  written contains it, and the page checker finds its source by it.
\<close>

subsection \<open>Texts in texts\<close>

lemma contains_iff: "contains s c \<longleftrightarrow> (\<exists>a b. s = a @ c @ b)"
proof
  assume "contains s c"
  then obtain n where n: "startswith (drop n s) c" unfolding contains_def list_ex_iff by blast
  then have "drop n s = c @ drop (length c) (drop n s)"
    unfolding startswith_def by (metis append_take_drop_id)
  then show "\<exists>a b. s = a @ c @ b" by (metis append_take_drop_id)
next
  assume "\<exists>a b. s = a @ c @ b"
  then obtain a b where s: "s = a @ c @ b" by blast
  then have "startswith (drop (length a) s) c" "length a < length s + 1" by (simp_all add: startswith_def)
  then show "contains s c" unfolding contains_def list_ex_iff by force
qed

lemma contains_self [simp]: "contains c c" and contains_Nil [simp]: "contains s []"
  unfolding contains_iff by (metis append_Nil append_Nil2)+

lemma contains_append: "contains s c \<Longrightarrow> contains (u @ s @ v) c"
  unfolding contains_iff by (metis append.assoc)

lemma contains_left: "contains s c \<Longrightarrow> contains (s @ v) c"
  using contains_append [of s c "[]" v] by simp

lemma contains_right: "contains s c \<Longrightarrow> contains (u @ s) c"
  using contains_append [of s c u "[]"] by simp

lemma contains_concat: "x \<in> set xs \<Longrightarrow> contains x c \<Longrightarrow> contains (concat xs) c"
  by (induction xs) (auto intro: contains_left contains_right)

lemma contains_strip:
  assumes "contains s c" and "c \<noteq> []" and "\<not> py_space (hd c)" and "\<not> py_space (last c)"
  shows "contains (strip s) c"
proof -
  obtain a b where s: "s = a @ c @ b" using assms(1) contains_iff by blast
  have "dropWhile py_space s = dropWhile py_space a @ c @ b"
    using s assms(2,3) by (cases c) (auto simp: dropWhile_append)
  moreover have "dropWhile py_space (rev (u @ c @ b)) = dropWhile py_space (rev b) @ rev c @ rev u" for u
    using assms(2,4) by (cases c rule: rev_cases) (auto simp: dropWhile_append)
  ultimately have "strip s = dropWhile py_space a @ c @ rev (dropWhile py_space (rev b))"
    by (simp add: strip_def)
  then show ?thesis using contains_iff by blast
qed

lemma contains_between:
  assumes "a @ w @ b = u @ c @ v" and "set c \<inter> set w = {}" and "c \<noteq> []" and "w \<noteq> []"
  shows "contains a c \<or> contains b c"
proof -
  consider "length u + length c \<le> length a" | "length a + length w \<le> length u"
    | "length a < length u + length c" "length u < length a + length w" by linarith
  then show ?thesis
  proof cases
    case 1
    have "a = take (length a) (u @ c @ v)" using assms(1) by (metis append_eq_conv_conj)
    then have "a = u @ c @ take (length a - length u - length c) v" using 1 by simp
    then show ?thesis using contains_iff by blast
  next
    case 2
    have "b = drop (length a + length w) (u @ c @ v)" using assms(1) by (metis append.assoc append_eq_conv_conj length_append)
    then have "b = drop (length a + length w) u @ c @ v" using 2 by simp
    then show ?thesis using contains_iff by blast
  next
    case 3
    let ?n = "max (length a) (length u)"
    have n: "?n - length a < length w" "?n - length u < length c" "length a \<le> ?n" "length u \<le> ?n"
      using 3 assms(3,4) by (auto simp: max_def)
    then have "(a @ w @ b) ! ?n = w ! (?n - length a)" "(u @ c @ v) ! ?n = c ! (?n - length u)"
      by (simp_all add: nth_append del: max.bounded_iff)
    then have "w ! (?n - length a) \<in> set c \<inter> set w" using assms(1) n by (metis IntI nth_mem)
    with assms(2) show ?thesis by blast
  qed
qed

text \<open>A text without newlines survives the replacement of newlines.\<close>

lemma contains_replace_all:
  assumes "contains s c" and "set c \<inter> set w = {}" and "c \<noteq> []"
  shows "contains (replace_all w new s) c"
  using assms(1,2)
proof (induction w new s rule: replace_all.induct)
  case (1 w new s)
  show ?case
  proof (cases "cut_at w s")
    case None
    with 1(2) show ?thesis by (simp add: replace_all.simps)
  next
    case (Some x)
    obtain a b where x: "x = (a, b)" by (cases x)
    show ?thesis
    proof (cases "w = []")
      case True
      with 1(2) Some x show ?thesis by (simp add: replace_all.simps)
    next
      case False
      have "s = a @ w @ b" using cut_at_append Some x by blast
      then have "contains a c \<or> contains b c"
        using contains_between [of a w b _ c] 1(2,3) assms(3) False unfolding contains_iff by blast
      then have "contains (a @ new @ replace_all w new b) c"
        using 1(1) [OF Some _ False] 1(3) x contains_left contains_right by (metis (no_types))
      with Some x False show ?thesis by (simp add: replace_all.simps [of w new s])
    qed
  qed
qed

lemma replace_all_contains: "contains s w \<Longrightarrow> w \<noteq> [] \<Longrightarrow> contains (replace_all w new s) new"
proof -
  assume "contains s w" and w: "w \<noteq> []"
  then obtain a b where "cut_at w s = Some (a, b)" using cut_at_finds contains_iff by metis
  with w have "replace_all w new s = a @ new @ replace_all w new b" by (simp add: replace_all.simps [of w new s])
  then show ?thesis using contains_iff by blast
qed

subsection \<open>The reference of an entry\<close>

lemma map_res_mem: "map_res f xs = Inr ys \<Longrightarrow> x \<in> set xs \<Longrightarrow> \<exists>y \<in> set ys. f x = Inr y"
  by (induction xs arbitrary: ys) (auto simp: bnd_def split: sum.splits)

lemma render_section_last:
  assumes "we_data info = Some d" and "dget attr d = JList (rs @ [JStr c])"
    and "render_section info header attr = Inr t"
  shows "contains t c"
proof -
  have has: "dhas attr d" using assms(2) by (auto simp: dget_def dhas_def split: option.splits)
  show ?thesis
  proof (cases rs)
    case Nil
    then have "t = (newline @ newline @ header @ newline) @ c"
      using assms has by (simp add: render_section_def data_in_def Let_def)
    then show ?thesis by (metis append_Nil2 contains_iff)
  next
    case (Cons x xs)
    then obtain ts where ts: "map_res str_of (rs @ [JStr c]) = Inr ts"
      "t = (newline @ newline @ header) @ concat (map (\<lambda>t. newline @ ''* '' @ t) ts)"
      using assms has by (auto simp: render_section_def data_in_def Let_def bnd_def split: sum.splits list.splits)
    have "c \<in> set ts" using map_res_mem [OF ts(1), of "JStr c"] by auto
    moreover have "contains (newline @ ''* '' @ c) c"
      by (intro contains_right contains_self)
    ultimately have "contains (concat (map (\<lambda>t. newline @ ''* '' @ t) ts)) c"
      by (intro contains_concat [of "newline @ ''* '' @ c"]) auto
    then show ?thesis unfolding ts(2) by (rule contains_right)
  qed
qed

lemma render_reference:
  assumes "we_data info = Some d" and "dget ''reference'' d = JList (rs @ [JStr c])" and "render R link info = Inr t"
  shows "contains t c"
proof -
  obtain u r where r: "render_references info = Inr r" "t = u @ r @ newline"
    using assms(3) by (auto simp: render_def bnd_def split: sum.splits)
  obtain a b where b: "render_section info ''{{-tsiahy-}}'' ''reference'' = Inr b" "r = a @ b"
    using r(1) by (auto simp: render_references_def bnd_def split: sum.splits)
  have "contains b c" by (rule render_section_last [OF assms(1,2) b(1)])
  then show ?thesis unfolding r(2) b(2) by (intro contains_append contains_right)
qed

definition has_credit :: "string \<Rightarrow> translated_word \<Rightarrow> bool" where
  "has_credit c e \<longleftrightarrow> (\<exists>rs. dget ''reference'' (word_data e) = JList (rs @ [JStr c]))"

lemma has_credit_data: "has_credit c e \<Longrightarrow> \<exists>d. we_data e = Some d"
  by (cases "we_data e") (auto simp: has_credit_def word_data_def dget_def)

lemma rendered_entry_credit:
  assumes "has_credit c e" and "render R link (rendered_entry entries n e) = Inr t"
  shows "contains t c"
proof -
  obtain d where d: "we_data e = Some d" using has_credit_data [OF assms(1)] by blast
  obtain rs where rs: "dget ''reference'' d = JList (rs @ [JStr c])" using assms(1) d by (auto simp: has_credit_def word_data_def)
  obtain d' where d': "we_data (rendered_entry entries n e) = Some d'" "dget ''reference'' d' = dget ''reference'' d"
  proof (cases "list_ex (\<lambda>x. dhas ''etymology'' (word_data x)) entries")
    case True
    then show ?thesis using that d
      by (simp add: rendered_entry_def word_data_def Let_def word_entry.truncate_def dget_def dset_def dpop_def
          update_conv' delete_conv')
  next
    case False
    then show ?thesis using that d by (simp add: rendered_entry_def word_entry.truncate_def)
  qed
  show ?thesis using render_reference [OF d'(1) _ assms(2)] d'(2) rs by metis
qed

subsection \<open>The reference on the page\<close>

lemma strip_hd: "strip s \<noteq> [] \<Longrightarrow> \<not> py_space (hd (strip s))"
proof -
  assume ne: "strip s \<noteq> []"
  let ?t = "dropWhile py_space s"
  have "?t = strip s @ rev (takeWhile py_space (rev ?t))"
    unfolding strip_def by (metis rev_append rev_rev_ident takeWhile_dropWhile_id)
  then have "hd ?t = hd (strip s)" "?t \<noteq> []" using ne by (metis append_is_Nil_conv hd_append2)+
  then show ?thesis using hd_dropWhile by metis
qed

lemma add_rendered_contains: "contains (add_rendered (strip t) ret_page) (strip t)"
proof (cases "strip t = []")
  case True
  then show ?thesis by simp
next
  case False
  let ?h = "takeWhile (\<lambda>c. \<not> is_newline c) (strip t)"
  have "\<not> is_newline (hd (strip t))" using strip_hd [OF False] by (auto simp: is_newline_def py_space_def)
  with False have h: "?h \<noteq> []" by (cases "strip t") auto
  show ?thesis
  proof (cases "contains ret_page ?h")
    case False
    with \<open>strip t \<noteq> []\<close> show ?thesis by (simp add: add_rendered_def contains_append)
  next
    case True
    then show ?thesis using replace_all_contains [OF True h, of "strip t"]
      by (simp add: add_rendered_def contains_left)
  qed
qed

lemma render_group_last:
  assumes "render_group R entries n es ret_page = Inr out" and "es \<noteq> []"
  shows "\<exists>k t. render R True (rendered_entry entries k (last es)) = Inr t \<and> contains out (strip t)"
  using assms
proof (induction es arbitrary: n ret_page)
  case (Cons e es)
  obtain t where t: "render R True (rendered_entry entries n e) = Inr t"
    and rest: "render_group R entries (Suc n) es (add_rendered (strip t) ret_page) = Inr out"
    using Cons.prems(1) by (auto simp: bnd_def split: sum.splits)
  show ?case
  proof (cases "es = []")
    case True
    with t rest add_rendered_contains show ?thesis by auto
  next
    case False
    with Cons.IH [OF rest] show ?thesis by simp
  qed
qed simp

lemma render_groups_last:
  assumes "render_groups R groups ret_page = Inr out" and "groups \<noteq> []" and "\<forall>es \<in> set groups. es \<noteq> []"
  shows "\<exists>entries k t e. entries \<in> set groups \<and> e \<in> set entries \<and>
    render R True (rendered_entry entries k e) = Inr t \<and> contains out (strip t)"
  using assms
proof (induction groups arbitrary: ret_page)
  case (Cons es groups)
  obtain r where r: "render_group R es 0 es ret_page = Inr r" and rest: "render_groups R groups r = Inr out"
    using Cons.prems(1) by (auto simp: bnd_def split: sum.splits)
  show ?case
  proof (cases "groups = []")
    case True
    have ne: "es \<noteq> []" using Cons.prems(3) by simp
    obtain k t where "render R True (rendered_entry es k (last es)) = Inr t" "contains r (strip t)"
      using render_group_last [OF r ne] by blast
    moreover have "out = r" using True rest by simp
    ultimately show ?thesis using ne by (metis last_in_set list.set_intros(1))
  next
    case False
    with Cons.IH [OF rest] Cons.prems(3) show ?thesis by auto
  qed
qed simp

definition grouped :: "translated_word list \<Rightarrow> (string \<times> translated_word list) list \<Rightarrow> bool" where
  "grouped infos groups \<longleftrightarrow> (\<forall>g \<in> set groups. snd g \<noteq> [] \<and> set (snd g) \<subseteq> set infos)"

lemma add_entry_grouped: "grouped infos groups \<Longrightarrow> e \<in> set infos \<Longrightarrow> grouped infos (add_entry e groups) \<and> add_entry e groups \<noteq> []"
proof -
  assume g: "grouped infos groups" and e: "e \<in> set infos"
  show ?thesis
  proof (cases "map_of groups (we_language e)")
    case None
    with g e show ?thesis by (auto simp: add_entry_def grouped_def)
  next
    case (Some es)
    have m: "(we_language e, es) \<in> set groups" using map_of_SomeD [OF Some] .
    then have es: "set es \<subseteq> set infos" "groups \<noteq> []" using g unfolding grouped_def by (metis snd_conv, auto)
    have "\<forall>x \<in> set (AList.update (we_language e) (es @ [e]) groups). x \<in> set groups \<or> x = (we_language e, es @ [e])"
      by (induction groups) auto
    then have "grouped infos (AList.update (we_language e) (es @ [e]) groups)"
      using g e es unfolding grouped_def by fastforce
    moreover have "AList.update (we_language e) (es @ [e]) groups \<noteq> []" by (cases groups) auto
    ultimately show ?thesis using Some g es by (simp add: add_entry_def)
  qed
qed

lemma entries_by_language_grouped:
  "grouped infos (entries_by_language infos) \<and> (infos \<noteq> [] \<longrightarrow> entries_by_language infos \<noteq> [])"
proof -
  have "grouped infos (fold add_entry es groups) \<and> (es \<noteq> [] \<or> groups \<noteq> [] \<longrightarrow> fold add_entry es groups \<noteq> [])"
    if "set es \<subseteq> set infos" "grouped infos groups" for es groups
    using that
  proof (induction es arbitrary: groups)
    case (Cons e es)
    then have "grouped infos (add_entry e groups) \<and> add_entry e groups \<noteq> []" by (intro add_entry_grouped) auto
    with Cons show ?case by simp
  qed simp
  from this [of infos "[]"] show ?thesis by (simp add: entries_by_language_def grouped_def)
qed

lemma page_contains_credit:
  assumes "output_wikipages R infos = Inr content" and "infos \<noteq> []" and "\<forall>e \<in> set infos. has_credit c e"
    and "c \<noteq> []" and "\<not> py_space (hd c)" and "\<not> py_space (last c)" and "\<forall>x \<in> set c. \<not> is_newline x"
  shows "contains content c"
proof -
  obtain out where out: "render_groups R (map snd (entries_by_language infos)) [] = Inr out"
    and content: "content = strip (replace_all (newline @ newline @ newline) (newline @ newline) out)"
    using assms(1) by (auto simp: output_wikipages_def bnd_def split: sum.splits)
  note g = entries_by_language_grouped [of infos]
  have ne: "map snd (entries_by_language infos) \<noteq> []" "\<forall>es \<in> set (map snd (entries_by_language infos)). es \<noteq> []"
    using g assms(2) by (auto simp: grouped_def)
  obtain entries k t e where e: "entries \<in> set (map snd (entries_by_language infos))" "e \<in> set entries"
    "render R True (rendered_entry entries k e) = Inr t" "contains out (strip t)"
    using render_groups_last [OF out ne] by blast
  have "has_credit c e" using g e(1,2) assms(3) by (auto simp: grouped_def)
  then have "contains (strip t) c"
    using contains_strip [OF rendered_entry_credit [OF _ e(3)] assms(4-6)] by blast
  then have "contains out c" using e(4) unfolding contains_iff by (metis append.assoc)
  moreover have "set c \<inter> set (newline @ newline @ newline) = {}"
    using assms(7) by (auto simp: newline_def is_newline_def code_def)
  ultimately have "contains (replace_all (newline @ newline @ newline) (newline @ newline) out) c"
    by (intro contains_replace_all) (use assms(4) in auto)
  then show ?thesis unfolding content using assms(4-6) by (intro contains_strip)
qed

subsection \<open>Finding the credit\<close>

text \<open>What \<open>run\<close> lists for a sequence, a fixed text and a repeated class of characters.\<close>

lemma run_Cat_mem: "y \<in> set (run r x) \<Longrightarrow> z \<in> set (run s y) \<Longrightarrow> z \<in> set (run (Cat r s) x)"
  by auto

lemma run_any_case:
  "list_all (\<lambda>c. lower_char c = c) w \<Longrightarrow> (rev w @ p, q, g) \<in> set (run (any_case w) (p, w @ q, g))"
proof (induction w arbitrary: p)
  case Nil
  then show ?case by (simp add: any_case_def)
next
  case (Cons c w)
  then show ?case using Cons.IH [of "c # p"] by (cases w) (auto simp: any_case_def)
qed

lemma run_lit: "(rev w @ p, q, g) \<in> set (run (lit w) (p, w @ q, g))"
proof (induction w arbitrary: p)
  case Nil
  then show ?case by (simp add: lit_def)
next
  case (Cons c w)
  then show ?case using Cons [of "c # p"] by (cases w) (auto simp: lit_def)
qed

lemma iterate_class:
  assumes "\<And>p c q. ok c \<Longrightarrow> step (p, c # q, g) = [(c # p, q, g)]"
  shows "list_all ok w \<Longrightarrow> length w \<le> n \<Longrightarrow> (rev w @ p, q, g) \<in> set (iterate step True n (p, w @ q, g))"
proof (induction w arbitrary: p n)
  case Nil
  then show ?case by (cases n) (auto simp: Let_def)
next
  case (Cons c w)
  then obtain m where n: "n = Suc m" by (cases n) auto
  have "(rev w @ c # p, q, g) \<in> set (iterate step True m (c # p, w @ q, g))"
    using Cons.prems n by (intro Cons.IH) auto
  with Cons.prems n show ?case by (simp add: Let_def assms)
qed

lemma run_some_Sym:
  assumes "list_all ok w" and "w \<noteq> []"
  shows "(rev w @ p, q, g) \<in> set (run (some (Sym ok)) (p, w @ q, g))"
proof -
  obtain c u where w: "w = c # u" using assms(2) by (cases w) auto
  have "(rev u @ c # p, q, g) \<in> set (run (many (Sym ok)) (c # p, u @ q, g))"
    using iterate_class [of ok "run (Sym ok)" g u "length (u @ q)" "c # p" q] assms(1) w by (simp add: many_def)
  with assms(1) w show ?thesis by (simp add: some_def)
qed

lemma run_Grp_mem: "(p', q', g) \<in> set (run r x) \<Longrightarrow> \<exists>g'. (p', q', g') \<in> set (run (Grp n r) x)"
  by force

lemma first_match_found:
  assumes "run r (rev a @ p, b, []) \<noteq> []"
  shows "first_match r p (a @ b) \<noteq> None"
  using assms
proof (induction a arbitrary: p)
  case Nil
  then have "match_at r p b \<noteq> None" by (auto simp: match_at_def split: list.splits)
  then show ?case by (cases b) (auto split: option.split)
next
  case (Cons c a)
  then have "first_match r (c # p) (a @ b) \<noteq> None" by simp
  then show ?case by (auto split: option.split)
qed

definition creditable :: "wiki_page \<Rightarrow> bool" where
  "creditable page \<longleftrightarrow> fst page \<noteq> [] \<and> list_all letter (fst page) \<and> snd page \<noteq> [] \<and>
    list_all (\<lambda>c. c \<noteq> CHR ''|'' \<and> c \<noteq> CHR ''}'' \<and> \<not> is_newline c) (snd page)"

lemma credit_matches:
  assumes "creditable page"
  shows "run wikibolana_re (p, credit (fst page) (snd page) @ q, []) \<noteq> []"
proof -
  let ?l = "fst page" and ?t = "snd page"
  let ?ok = "\<lambda>c. c \<noteq> CHR ''|'' \<and> c \<noteq> CHR ''}''"
  have low: "list_all (\<lambda>c. lower_char c = c) ''{{wikibolana|''" by code_simp
  have l: "list_all letter ?l" "?l \<noteq> []" and t: "list_all ?ok ?t" "?t \<noteq> []"
    using assms by (auto simp: creditable_def list_all_iff)
  let ?p1 = "rev ''{{wikibolana|'' @ p"
  let ?p2 = "rev ?l @ ?p1" let ?p3 = "rev ''|'' @ ?p2" let ?p4 = "rev ?t @ ?p3"
  have 1: "(?p1, ?l @ ''|'' @ ?t @ ''}}'' @ q, []) \<in> set (run (any_case ''{{wikibolana|'') (p, credit ?l ?t @ q, []))"
    using run_any_case [OF low, of p "?l @ ''|'' @ ?t @ ''}}'' @ q" "[]"] by (simp add: credit_def)
  obtain g2 where 2: "(?p2, ''|'' @ ?t @ ''}}'' @ q, g2) \<in>
      set (run (Grp 1 (some (Sym letter))) (?p1, ?l @ ''|'' @ ?t @ ''}}'' @ q, []))"
    using run_Grp_mem [OF run_some_Sym [OF l]] by blast
  have 3: "(?p3, ?t @ ''}}'' @ q, g2) \<in> set (run (lit ''|'') (?p2, ''|'' @ ?t @ ''}}'' @ q, g2))" by (rule run_lit)
  obtain g4 where 4: "(?p4, ''}}'' @ q, g4) \<in> set (run (Grp 2 (some (Sym ?ok))) (?p3, ?t @ ''}}'' @ q, g2))"
    using run_Grp_mem [OF run_some_Sym [OF t]] by blast
  have 5: "(rev ''}}'' @ ?p4, q, g4) \<in> set (run (lit ''}}'') (?p4, ''}}'' @ q, g4))" by (rule run_lit)
  have "(rev ''}}'' @ ?p4, q, g4) \<in> set (run wikibolana_re (p, credit ?l ?t @ q, []))"
    unfolding wikibolana_re_def cats.simps
    by (rule run_Cat_mem [OF 1 run_Cat_mem [OF 2 run_Cat_mem [OF 3 run_Cat_mem [OF 4 5]]]])
  then show ?thesis by (metis list.set(1) empty_iff)
qed

lemma credit_is_found:
  assumes "creditable page" and "contains content (credit (fst page) (snd page))"
  shows "parse_mg_wiktionary content \<noteq> None"
proof -
  obtain a b where c: "content = a @ credit (fst page) (snd page) @ b" using assms(2) contains_iff by blast
  have "first_match wikibolana_re [] content \<noteq> None"
    unfolding c by (rule first_match_found) (use credit_matches [OF assms(1)] in simp)
  then show ?thesis by (auto simp: parse_mg_wiktionary_def)
qed

subsection \<open>Every translated entry has its credit\<close>

lemma credited_has_credit: "has_credit (credit (fst page) (snd page)) (credited page e)"
proof -
  have "\<exists>rs. dget ''reference'' (add_reference r d) = JList (rs @ [JStr r])" for r d
    by (auto simp: add_reference_def dget_def dset_def update_conv' split: json.split)
  then show ?thesis by (simp add: has_credit_def credited_def word_data_def)
qed

end
