(* ===== verification/PageTranslationProps.thy ===== *)
theory PageTranslationProps
  imports TranslationCredit PageCheckSafety
begin

text \<open>
  What the translation of a page does to the world: it is published at most once, and the
  dictionary and the templates are written only after the publication was accepted.  What it
  writes: entries with definitions and a credit, which the page checker finds again.  And what
  goes wrong with the references when one of them is left out.
\<close>

subsection \<open>Calls that write nothing\<close>

definition still :: "('s \<Rightarrow> 's \<Rightarrow> bool) \<Rightarrow> 's translator \<Rightarrow> bool" where
  "still R K \<longleftrightarrow> reflp R \<and> transp R \<and> (\<forall>p. stays R (tr_space K p)) \<and> (\<forall>p. stays R (tr_exists K p)) \<and>
    (\<forall>p. stays R (tr_is_redirect K p)) \<and> (\<forall>p. stays R (tr_redirect_target K p)) \<and> (\<forall>p. stays R (tr_text K p)) \<and>
    (\<forall>p. stays R (tr_process K p)) \<and> (\<forall>b p t. stays R (tr_entries K b p t)) \<and>
    (\<forall>e d l. stays R (tr_form_of K e d l)) \<and> (\<forall>e d l. stays R (tr_nllb K e d l)) \<and>
    (\<forall>es. stays R (tr_etymologies K es)) \<and> (\<forall>l r. stays R (tr_reference K l r))"

lemma stillD:
  assumes "still R K"
  shows "reflp R" "transp R" "stays R (tr_space K p)" "stays R (tr_exists K p)" "stays R (tr_is_redirect K p)"
    "stays R (tr_redirect_target K p)" "stays R (tr_text K p)" "stays R (tr_process K p)" "stays R (tr_entries K b p t)"
    "stays R (tr_form_of K e d l)" "stays R (tr_nllb K e d l)" "stays R (tr_etymologies K es)" "stays R (tr_reference K l r)"
  using assms unfolding still_def by blast+

lemmas keep = stays_sbind stays_rescue stays_sreturn

lemma get_single_word_definitions_still:
  assumes "still R K"
  shows "stays R (get_single_word_definitions K d l pos)"
  unfolding get_single_word_definitions_def Let_def using stillD [OF assms]
  by (auto intro!: keep split: option.split)

lemma expand_definitions_still: "still R K \<Longrightarrow> stays R (expand_definitions K l pos ds)"
proof (induction ds)
  case Nil
  then show ?case by (auto intro: stays_sreturn stillD)
next
  case (Cons d ds)
  have "stays R (expand_definitions K l pos ds)" using Cons by blast
  then show ?case unfolding expand_definitions.simps using stillD [OF Cons.prems] get_single_word_definitions_still [OF Cons.prems]
    by (auto intro!: keep)
qed

lemma apply_translation_methods_still:
  assumes "still R K" and "\<forall>(translate, refined, post) \<in> set methods. \<forall>e d l. stays R (translate e d l)"
  shows "stays R (apply_translation_methods K methods l e d)"
  using assms(2)
proof (induction methods arbitrary: d)
  case Nil
  then show ?case using assms(1) by (auto intro: stays_sreturn stillD)
next
  case (Cons m methods)
  obtain translate refined post where m: "m = (translate, refined, post)" by (cases m)
  have t: "stays R (translate e d l)" for e d l using Cons.prems m by auto
  have "stays R (apply_translation_methods K methods l e d)" for d using Cons by simp
  with t show ?case unfolding m apply_translation_methods.simps using stillD(1,2) [OF assms(1)]
    by (auto intro!: keep split: nllb_answer.split)
qed

lemma translate_all_still: "still R K \<Longrightarrow> stays R (translate_all K l ds x)"
proof (induction ds arbitrary: x)
  case Nil
  then show ?case by (auto intro: stays_sreturn stillD)
next
  case (Cons d ds)
  have rec: "stays R (translate_all K l ds y)" for y using Cons by blast
  have m: "stays R (apply_translation_methods K (translation_methods K) l e d)" for e
    by (rule apply_translation_methods_still [OF Cons.prems]) (simp add: translation_methods_def stillD [OF Cons.prems])
  show ?case unfolding translate_all.simps
    by (rule stays_sbind [OF stillD(2) [OF Cons.prems] m]) (use rec in \<open>simp split: prod.split\<close>)
qed

lemma translate_lines_still: "still R K \<Longrightarrow> stays R (translate_lines K l lines x)"
proof (induction lines arbitrary: x)
  case Nil
  then show ?case by (auto intro: stays_sreturn stillD)
next
  case (Cons line lines)
  have rec: "stays R (translate_lines K l lines y)" for y using Cons by blast
  show ?case unfolding translate_lines.simps
    using stillD(1,2) [OF Cons.prems] expand_definitions_still [OF Cons.prems] translate_all_still [OF Cons.prems] rec
    by (intro stays_sbind stays_sreturn)
qed

lemma translate_entry_definitions_still: "still R K \<Longrightarrow> stays R (translate_entry_definitions K l e)"
  unfolding translate_entry_definitions_def using stillD(1,2) [of R K] translate_lines_still [of R K]
  by (auto intro!: keep split: prod.split)

lemma translate_references_still:
  assumes "reflp R" and "transp R" and "\<And>r. stays R (f r)"
  shows "stays R (translate_references f vs)"
proof (induction vs)
  case Nil
  then show ?case using assms by (auto intro: stays_sreturn)
next
  case (Cons v vs)
  then show ?case using assms by (auto intro!: keep split: json.split)
qed

lemma translate_section_still: "still R K \<Longrightarrow> stays R (translate_section K l name x)"
  unfolding translate_section_def using stillD(1,2,13) [of R K] translate_references_still [of R "tr_reference K l"]
  by (auto intro!: keep split: prod.split)

lemma prepare_translated_entry_still: "still R K \<Longrightarrow> stays R (prepare_translated_entry K l e ds T)"
  unfolding prepare_translated_entry_def translate_additional_data_def translate_etymology_def
  using stillD(1,2,12) [of R K] translate_section_still [of R K]
  by (auto intro!: keep split: prod.split json.split)

lemma translate_preprocessed_still: "still R K \<Longrightarrow> stays R (translate_preprocessed K l es x)"
proof (induction es arbitrary: x)
  case Nil
  then show ?case by (auto intro: stays_sreturn stillD)
next
  case (Cons e es)
  have rec: "stays R (translate_preprocessed K l es y)" for y using Cons by blast
  show ?case unfolding translate_preprocessed.simps
    using stillD(1,2) [OF Cons.prems] translate_entry_definitions_still [OF Cons.prems]
      prepare_translated_entry_still [OF Cons.prems] rec
    by (cases x) (auto intro!: stays_sbind split: prod.split)
qed

lemma translate_entries_still: "still R K \<Longrightarrow> stays R (translate_entries K l es x)"
proof (induction es arbitrary: x)
  case Nil
  then show ?case by (auto intro: stays_sreturn stillD)
next
  case (Cons e es)
  have rec: "stays R (translate_entries K l es y)" for y using Cons by blast
  show ?case unfolding translate_entries.simps
    using stillD(1,2) [OF Cons.prems] translate_preprocessed_still [OF Cons.prems] rec
    by (intro stays_sbind stays_sreturn)
qed

lemma translate_wiktionary_page_still: "still R K \<Longrightarrow> stays R (translate_wiktionary_page K page content)"
  unfolding translate_wiktionary_page_def using stillD(1,2,9) [of R K] translate_entries_still [of R K]
  by (cases page) (auto intro!: keep split: prod.split)

lemma read_page_still: "still R K \<Longrightarrow> stays R (read_page K page)"
  unfolding read_page_def using stillD(1,2,7) [of R K] by (cases page) (auto intro!: keep)

subsection \<open>Publishing once\<close>

text \<open>
  The publisher was called with entries that are not empty and have a text; what it answered
  decides what follows: only after an acceptance the dictionary and the templates are
  written, and the result says \<open>published\<close> when all of that succeeded.
\<close>

definition publishes_page :: "('s \<Rightarrow> 's \<Rightarrow> bool) \<Rightarrow> 's translator \<Rightarrow> 's publish \<Rightarrow> translated_page_result \<Rightarrow> 's \<Rightarrow> 's \<Rightarrow> bool" where
  "publishes_page R K publish x s s' \<longleftrightarrow>
    (\<exists>page entries T written s1 s2 a. R s s1 \<and> entries \<noteq> [] \<and>
      output_wikipages (tr_renderer K) entries = Inr written \<and> written \<noteq> [] \<and>
      publish (snd page) entries s1 = (s2, a) \<and>
      (if a = Inr True
       then \<exists>r. after_publication K page entries T s2 = (s', r) \<and> (tp_published x \<longleftrightarrow> (\<exists>y. r = Inr y))
       else s' = s2 \<and> \<not> tp_published x \<and> (tp_status x = ''filtered'' \<longleftrightarrow> a = Inr False)))"

lemma publishes_page_accepted:
  "R s s1 \<Longrightarrow> entries \<noteq> [] \<Longrightarrow> output_wikipages (tr_renderer K) entries = Inr w \<Longrightarrow> w \<noteq> [] \<Longrightarrow>
    publish (snd page) entries s1 = (s2, Inr True) \<Longrightarrow> after_publication K page entries T s2 = (s', r) \<Longrightarrow>
    tp_published x \<longleftrightarrow> (\<exists>y. r = Inr y) \<Longrightarrow> publishes_page R K publish x s s'"
  unfolding publishes_page_def
  by (rule exI [of _ page], rule exI [of _ entries], rule exI [of _ T], rule exI [of _ w], rule exI [of _ s1],
      rule exI [of _ s2], rule exI [of _ "Inr True"]) auto

lemma publishes_page_refused:
  "R s s1 \<Longrightarrow> entries \<noteq> [] \<Longrightarrow> output_wikipages (tr_renderer K) entries = Inr w \<Longrightarrow> w \<noteq> [] \<Longrightarrow>
    publish (snd (page :: wiki_page)) entries s1 = (s', a) \<Longrightarrow> a \<noteq> Inr True \<Longrightarrow> \<not> tp_published x \<Longrightarrow>
    tp_status x = ''filtered'' \<longleftrightarrow> a = Inr False \<Longrightarrow> publishes_page R K publish x s s'"
  unfolding publishes_page_def
  by (rule exI [of _ page], rule exI [of _ entries], rule exI [of _ "[]"], rule exI [of _ w], rule exI [of _ s1],
      rule exI [of _ s'], rule exI [of _ a]) auto

lemma publishes_page_before:
  assumes "transp R" and "R s t" and "publishes_page R K publish x t t'"
  shows "publishes_page R K publish x s t'"
  using assms(3) transpD [OF assms(1,2)] unfolding publishes_page_def by blast

lemma answer_fields [simp]:
  "tp_published (page_answer page status message) = False" "tp_status (page_answer page status message) = status"
  "tp_published (page_error K page message e) = False" "tp_status (page_error K page message e) = ''error''"
  by (simp_all add: page_answer_def page_error_def)

lemma translate_and_publish_cases:
  assumes "still R K" and "translate_and_publish K publish page content s = (s', r)"
  shows "\<exists>x. r = Inr x \<and> (R s s' \<and> \<not> tp_published x \<and> tp_status x \<noteq> ''filtered'' \<or> publishes_page R K publish x s s')"
proof -
  obtain s1 t where t: "translate_wiktionary_page K page content s = (s1, t)" by force
  have 1: "R s s1" using staysD [OF translate_wiktionary_page_still [OF assms(1)] t] .
  show ?thesis
  proof (cases t)
    case (Inl e)
    with assms(2) t 1 show ?thesis by (auto simp: translate_and_publish_def rescue_def sbind_def sreturn_def)
  next
    case (Inr b)
    obtain entries T where b: "b = (entries, T)" by (cases b)
    obtain s2 y where p: "publish_entries K publish page entries T s1 = (s2, y)" by force
    define x where "x = (case y of Inl e \<Rightarrow> page_error K page
        (if is_translation_error e then tr_message K e else ''Unexpected error while processing page.'') e | Inr x \<Rightarrow> x)"
    have s': "s' = s2" "r = Inr x"
      using assms(2) t Inr b p
      by (auto simp: x_def translate_and_publish_def rescue_def sbind_def sreturn_def split: sum.splits)
    have x: "tp_published x \<longleftrightarrow> (\<exists>v. y = Inr v \<and> tp_published v)"
      "tp_status x = ''filtered'' \<longleftrightarrow> (\<exists>v. y = Inr v \<and> tp_status v = ''filtered'')"
      by (cases y; simp add: x_def)+
    show ?thesis
    proof (cases "entries \<noteq> [] \<and> (\<exists>w. output_wikipages (tr_renderer K) entries = Inr w \<and> w \<noteq> [])")
      case False
      then have "s2 = s1 \<and> (\<forall>v. y = Inr v \<longrightarrow> \<not> tp_published v \<and> tp_status v \<noteq> ''filtered'')"
        using p by (auto simp: publish_entries_def sbind_def sreturn_def split: if_splits sum.splits)
      with s' 1 x show ?thesis by blast
    next
      case True
      then obtain w where w: "entries \<noteq> []" "output_wikipages (tr_renderer K) entries = Inr w" "w \<noteq> []" by blast
      obtain s3 a where a: "publish (snd page) entries s1 = (s3, a)" by force
      show ?thesis
      proof (cases "a = Inr True")
        case True
        then have after: "after_publication K page entries T s3 = (s2, y)"
          using p w a by (simp add: publish_entries_def sbind_def sreturn_def)
        have "\<forall>v. y = Inr v \<longrightarrow> tp_published v"
          using after by (auto simp: after_publication_def sbind_def sreturn_def split: prod.splits sum.splits)
        then have "tp_published x \<longleftrightarrow> (\<exists>v. y = Inr v)" using x(1) by blast
        then have "publishes_page R K publish x s s2"
          by (rule publishes_page_accepted [where R = R and page = page and publish = publish, OF 1 w a [unfolded True] after])
        then show ?thesis using s' by blast
      next
        case False
        have y: "s2 = s3" "\<exists>v. y = v \<and> (\<forall>u. v = Inr u \<longrightarrow> \<not> tp_published u)"
          "(\<exists>v. y = Inr v \<and> tp_status v = ''filtered'') \<longleftrightarrow> a = Inr False"
          using p w a False by (cases a; auto simp: publish_entries_def sbind_def sreturn_def page_answer_def)+
        then have "\<not> tp_published x" "tp_status x = ''filtered'' \<longleftrightarrow> a = Inr False" using x by blast+
        then have "publishes_page R K publish x s s3"
          by (rule publishes_page_refused [where R = R and page = page and publish = publish, OF 1 w a False])
        then show ?thesis using s' y(1) by blast
      qed
    qed
  qed
qed

text \<open>Nothing was published, or the page was published once.\<close>

definition settled :: "('s \<Rightarrow> 's \<Rightarrow> bool) \<Rightarrow> 's translator \<Rightarrow> 's publish \<Rightarrow> 's \<Rightarrow> 's \<times> translated_page_result res \<Rightarrow> bool" where
  "settled R K publish s out \<longleftrightarrow>
    (R s (fst out) \<and> (\<forall>x. snd out = Inr x \<longrightarrow> \<not> tp_published x \<and> tp_status x \<noteq> ''filtered'')) \<or>
    (\<exists>x. snd out = Inr x \<and> publishes_page R K publish x s (fst out))"

lemma settled_before: "transp R \<Longrightarrow> R s t \<Longrightarrow> settled R K publish t out \<Longrightarrow> settled R K publish s out"
  unfolding settled_def using publishes_page_before [of R s t K publish] transpD [of R s t] by blast

lemma settled_error: "R s s' \<Longrightarrow> settled R K publish s (s', Inl e)"
  by (simp add: settled_def)

lemma settled_answer: "R s s' \<Longrightarrow> \<not> tp_published x \<Longrightarrow> tp_status x \<noteq> ''filtered'' \<Longrightarrow> settled R K publish s (s', Inr x)"
  by (simp add: settled_def)

lemma settled_rescue:
  assumes "settled R K publish s (f s)"
    and "\<And>e s1. \<exists>r. h e s1 = (s1, r) \<and> (\<forall>x. r = Inr x \<longrightarrow> \<not> tp_published x \<and> tp_status x \<noteq> ''filtered'')"
  shows "settled R K publish s (rescue f h s)"
proof (cases "f s")
  case (Pair s1 y)
  show ?thesis
  proof (cases y)
    case (Inl e)
    with Pair assms(1) have "R s s1" by (simp add: settled_def)
    moreover obtain r where "h e s1 = (s1, r)" "\<forall>x. r = Inr x \<longrightarrow> \<not> tp_published x \<and> tp_status x \<noteq> ''filtered''"
      using assms(2) by blast
    ultimately show ?thesis using Pair Inl by (simp add: rescue_def settled_def)
  next
    case (Inr x)
    with Pair assms(1) show ?thesis by (simp add: rescue_def)
  qed
qed

lemma settled_sbind:
  assumes "transp R" and "stays R f" and "\<And>a s1. f s = (s1, Inr a) \<Longrightarrow> settled R K publish s1 (h a s1)"
  shows "settled R K publish s (sbind f h s)"
proof (cases "f s")
  case (Pair s1 y)
  have 1: "R s s1" using staysD [OF assms(2) Pair] .
  show ?thesis
  proof (cases y)
    case (Inl e)
    with Pair 1 show ?thesis by (simp add: sbind_def settled_error)
  next
    case (Inr a)
    with Pair settled_before [OF assms(1) 1 assms(3)] show ?thesis by (simp add: sbind_def)
  qed
qed

lemma process_page_settled:
  assumes "still R K"
  shows "settled R K publish s (process_page K publish depth page s)"
proof (induction depth arbitrary: page s)
  case 0
  then show ?case using reflpD [OF stillD(1) [OF assms]] by (simp add: sreturn_def settled_error)
next
  case (Suc depth)
  note R = stillD(1,2) [OF assms] and refl = reflpD [OF stillD(1) [OF assms]]
  have redirect: "settled R K publish t (rescue (sbind (tr_redirect_target K page) (process_page K publish depth))
      (\<lambda>e. sreturn (if e = invalid_title then Inr (page_error K page m e) else Inl e)) t)" for t m
    by (rule settled_rescue) (use settled_sbind [OF R(2) stillD(6) [OF assms]] Suc.IH in \<open>auto simp: sreturn_def\<close>)
  have load: "stays R (rescue (sbind (read_page K page) (\<lambda>t. sreturn (Inr (Inr t)))) (\<lambda>e. sreturn (Inr (Inl e))))"
    using R read_page_still [OF assms] by (intro keep)
  have publish: "settled R K publish t (translate_and_publish K publish page content t)" for t content
    using translate_and_publish_cases [OF assms, of publish page content t] 
    by (cases "translate_and_publish K publish page content t") (auto simp: settled_def)
  have page: "settled R K publish t (sbind (tr_is_redirect K page) (\<lambda>is_redirect.
      if is_redirect
      then rescue (sbind (tr_redirect_target K page) (process_page K publish depth))
        (\<lambda>e. sreturn (if e = invalid_title then Inr (page_error K page m e) else Inl e))
      else
        sbind (rescue (sbind (read_page K page) (\<lambda>t. sreturn (Inr (Inr t)))) (\<lambda>e. sreturn (Inr (Inl e)))) (\<lambda>loaded.
        case loaded of
          Inl e \<Rightarrow> sreturn (Inr (page_error K page m' e))
        | Inr t \<Rightarrow> translate_and_publish K publish page t)) t)" for t m m'
  proof (rule settled_sbind [OF R(2) stillD(5) [OF assms]], goal_cases)
    case (1 is_redirect t1)
    have "settled R K publish t1 (sbind (rescue (sbind (read_page K page) (\<lambda>t. sreturn (Inr (Inr t)))) (\<lambda>e. sreturn (Inr (Inl e))))
        (\<lambda>loaded. case loaded of Inl e \<Rightarrow> sreturn (Inr (page_error K page m' e))
          | Inr t \<Rightarrow> translate_and_publish K publish page t) t1)"
      by (rule settled_sbind [OF R(2) load])
         (use publish refl in \<open>auto simp: sreturn_def intro: settled_answer split: sum.split\<close>)
    with redirect show ?case by simp
  qed
  show ?case unfolding process_page.simps
    by (rule settled_sbind [OF R(2) stillD(3) [OF assms]])
       (use page refl in \<open>auto simp: sreturn_def intro: settled_answer split: sum.split\<close>)
qed

subsection \<open>What is written\<close>

definition translated_well :: "translated_word \<Rightarrow> bool" where
  "translated_well e \<longleftrightarrow> we_definitions e \<noteq> [] \<and> distinct (we_definitions e)"

lemma translate_preprocessed_well:
  "list_all translated_well (fst x) \<Longrightarrow> yields (\<lambda>y. list_all translated_well (fst y)) (translate_preprocessed K l es x)"
proof (induction es arbitrary: x)
  case Nil
  then show ?case by (simp add: yields_sreturn)
next
  case (Cons e es)
  have defs: "yields (\<lambda>(e', ds). distinct ds) (translate_entry_definitions K l e)"
    unfolding translate_entry_definitions_def
    by (rule yields_skip) (auto simp: yields_sreturn in_order_once_def split: prod.split)
  have prepared: "yields (\<lambda>(te, T). we_definitions te = ds) (prepare_translated_entry K l e' ds T)" for e' ds T
    unfolding prepare_translated_entry_def by (rule yields_skip) (auto simp: yields_sreturn split: prod.split)
  show ?case unfolding translate_preprocessed.simps
  proof (rule yields_sbind [OF defs])
    fix a :: "translated_word \<times> string list"
    obtain e' ds where a: "a = (e', ds)" by (cases a)
    assume "case a of (e', ds) \<Rightarrow> distinct ds"
    then have d: "distinct ds" using a by simp
    have "yields (\<lambda>y. list_all translated_well (fst y))
        (sbind (prepare_translated_entry K l e' ds (snd x)) (\<lambda>(te, T). translate_preprocessed K l es (fst x @ [te], T)))"
      if "ds \<noteq> []"
    proof (rule yields_sbind [OF prepared])
      fix b :: "translated_word \<times> templates"
      assume "case b of (te, T) \<Rightarrow> we_definitions te = ds"
      then have "translated_well (fst b)" using that d by (cases b) (simp add: translated_well_def)
      then have "list_all translated_well (fst x @ [fst b])" using Cons.prems by simp
      then show "yields (\<lambda>y. list_all translated_well (fst y)) (case b of (te, T) \<Rightarrow> translate_preprocessed K l es (fst x @ [te], T))"
        using Cons.IH [of "(fst x @ [fst b], snd b)"] by (simp add: case_prod_beta)
    qed
    then show "yields (\<lambda>y. list_all translated_well (fst y)) (case a of (e', definitions) \<Rightarrow>
        if definitions = [] then translate_preprocessed K l es x
        else sbind (prepare_translated_entry K l e' definitions (snd x)) (\<lambda>(te, T).
          translate_preprocessed K l es (fst x @ [te], T)))"
      using Cons a by simp
  qed
qed

lemma translate_entries_well:
  "list_all translated_well (fst x) \<Longrightarrow> yields (\<lambda>y. list_all translated_well (fst y)) (translate_entries K l es x)"
proof (induction es arbitrary: x)
  case Nil
  then show ?case by (simp add: yields_sreturn)
next
  case (Cons e es)
  have "yields (\<lambda>y. list_all translated_well (fst y))
      (sbind (translate_preprocessed K l es' x) (translate_entries K l es))" for es'
    by (rule yields_sbind [OF translate_preprocessed_well [OF Cons.prems]]) (rule Cons.IH)
  then show ?case unfolding translate_entries.simps by (rule yields_skip)
qed

lemma translated_page_entries:
  assumes "tr_static K = Some []" and "translate_wiktionary_page K page content s = (s', Inr (entries, T))"
  shows "\<exists>es. entries = map (credited page) es \<and> list_all translated_well es"
proof -
  obtain words s1 es T' s2 where t: "translate_entries K (fst page) words ([], []) s1 = (s2, Inr (es, T'))"
    and e: "entries = map (credited page) es"
    using assms by (auto simp: translate_wiktionary_page_def run_postprocessors_def sbind_def sreturn_def
        split: prod.splits sum.splits)
  have "list_all translated_well es"
    using translate_entries_well [of "([], [])" K "fst page" words] t by (auto simp: yields_def)
  with e show ?thesis by blast
qed

subsection \<open>A small translator\<close>

text \<open>The state is the list of what was written.\<close>

definition small_entry :: translated_word where
  "small_entry = \<lparr>we_entry = ''x'', we_pos = ''ana'', we_definitions = [''rice''], we_language = ''en'',
     we_data = None, tw_origin = None\<rparr>"

definition small_renderer :: renderer_code where
  "small_renderer = \<lparr>rc_pages = [], rc_language_name = (\<lambda>l. None), rc_dash = ''-'',
     rc_pronunciation = (\<lambda>e. Inr []), rc_related = (\<lambda>e. Inr [])\<rparr>"

definition small_translator :: "string list translator" where
  "small_translator = \<lparr>
    tr_space = (\<lambda>p s. (s, Inr (0, True))), tr_exists = (\<lambda>p s. (s, Inr False)),
    tr_is_redirect = (\<lambda>p s. (s, Inr False)), tr_redirect_target = (\<lambda>p s. (s, Inl invalid_title)),
    tr_text = (\<lambda>p s. (s, Inr ''text'')), tr_put = (\<lambda>guard p c m s. (s @ [snd p], Inr ())),
    tr_create = (\<lambda>l. Inr ()), tr_load = (\<lambda>p t. Inr ()), tr_process = (\<lambda>p s. (s, Inl no_page)),
    tr_entries = (\<lambda>b p t s. (s, Inr [small_entry])), tr_refine = (\<lambda>m l d p. Inr [d]),
    tr_form_of = (\<lambda>e d l s. (s, Inr (Untranslated d))), tr_nllb = (\<lambda>e d l s. (s, Inr (Translated ''vary''))),
    tr_whitelists = [(''en'', [''rice''])], tr_etymologies = (\<lambda>es s. (s, Inr es)),
    tr_reference = (\<lambda>l r s. (s, Inr (''{{t'' @ drop 3 r))), tr_pronunciation = (\<lambda>p. Inr p), tr_order = (\<lambda>ps. ps),
    tr_store_entry = (\<lambda>e s. (s @ [''stored''], Inr ())), tr_store_method = (\<lambda>e s. (s, Inr ())),
    tr_renderer = small_renderer,
    tr_processors = \<lparr>pv_definitions = [], pv_modules = [], pv_attribute = (\<lambda>n. None)\<rparr>,
    tr_static = Some [], tr_ninja = False, tr_message = (\<lambda>e. []), tr_name = (\<lambda>e. [])\<rparr>"

definition small_publish :: "string list publish" where
  "small_publish title entries s = (s @ [title], Inr True)"

definition small_output :: translated_word where
  "small_output = credited (''en'', ''x'') (small_entry\<lparr>we_definitions := [''vary''], we_data := Some []\<rparr>)"

lemma small_still: "still (=) small_translator"
  by (auto simp: still_def small_translator_def stays_def reflp_def transp_def)

lemma small_page: "creditable (''en'', ''x'')"
  by code_simp

lemma small_words: "length (split_ws ''rice'') = 1"
  by code_simp

lemma small_translation: "translate_wiktionary_page small_translator (''en'', ''x'') t s = (s, Inr ([small_output], []))"
  using small_words
  by (simp add: translate_wiktionary_page_def small_translator_def small_entry_def run_preprocessors_def run_postprocessors_def
      translate_entry_definitions_def refine_definitions_def whitelist_def translation_methods_def remove_templates_def
      prepare_translated_entry_def translate_additional_data_def translate_etymology_def translate_section_def
      word_data_def dhas_def dget_def small_output_def in_order_once_def sbind_def sreturn_def)

lemma small_written: "\<exists>w. output_wikipages small_renderer [small_output] = Inr w \<and> w \<noteq> []"
proof -
  let ?e = "rendered_entry [small_output] 0 small_output"
  have e: "?e = \<lparr>we_entry = ''x'', we_pos = ''ana'', we_definitions = [''vary''], we_language = ''en'',
      we_data = Some [(''reference'', JList [JStr (credit ''en'' ''x'')])]\<rparr>"
    by (simp add: rendered_entry_def small_output_def small_entry_def credited_def word_data_def dhas_def
        add_reference_def dget_def dset_def word_entry.truncate_def)
  have "all_strs (zip (we_definitions ?e) (aligned_examples ?e))"
    by (simp add: e aligned_examples_def data_or_empty_def dget_or_def)
  then have "all_strs (gathered ?e)" unfolding gathered_def by (rule gather_strs) simp
  then have "list_all (\<lambda>g. \<exists>l. render_definition_line small_renderer True ''x'' [] g = Inr l) (gathered ?e)"
    by (rule list.pred_mono_strong) (rule rendered_line)
  from map_res_Inr [OF this] have "\<exists>d. render_definitions small_renderer ?e True = Inr d"
    by (auto simp: e render_definitions_def data_or_empty_def dget_or_def py_or_def)
  then obtain r where r: "render small_renderer True ?e = Inr r"
    by (auto simp: e render_def additional_note_def dhas_def render_head_section_def render_etymology_def data_or_empty_def
        small_renderer_def render_synonyms_def render_antonyms_def listed_once_def data_of_def dget_or_def in_order_once_def
        render_further_reading_def render_references_def render_section_def data_in_def dget_def Let_def)
  have "entries_by_language [small_output] = [(we_language small_output, [small_output])]"
    by (simp add: entries_by_language_def add_entry_def)
  with r have w: "\<exists>w. output_wikipages small_renderer [small_output] = Inr w" by (simp add: output_wikipages_def)
  then obtain w where w: "output_wikipages small_renderer [small_output] = Inr w" by blast
  have "\<exists>c cs. credit ''en'' ''x'' = c # cs" by (simp add: credit_def)
  moreover have "contains w (credit ''en'' ''x'')"
  proof (rule page_contains_credit [OF w])
    show "\<forall>e \<in> set [small_output]. has_credit (credit ''en'' ''x'') e"
      using credited_has_credit [of "(''en'', ''x'')"] by (simp add: small_output_def)
    show "\<forall>c \<in> set (credit ''en'' ''x''). \<not> is_newline c" by (simp add: credit_def is_newline_def code_def)
  qed (simp_all add: credit_def py_space_def code_def)
  ultimately show ?thesis using w by (auto simp: contains_iff)
qed

lemma small_process:
  "\<exists>x. process_page small_translator small_publish 1 (''en'', ''x'') [] = ([''x'', ''stored''], Inr x) \<and> tp_published x"
proof -
  obtain w where w: "output_wikipages small_renderer [small_output] = Inr w" "w \<noteq> []" using small_written by blast
  have K: "tr_space small_translator p s = (s, Inr (0, True))" "tr_create small_translator l = Inr ()"
    "tr_is_redirect small_translator p s = (s, Inr False)" "tr_text small_translator p s = (s, Inr ''text'')"
    "tr_load small_translator p t = Inr ()" "tr_renderer small_translator = small_renderer"
    "tr_store_entry small_translator e s = (s @ [''stored''], Inr ())" "tr_store_method small_translator e s = (s, Inr ())"
    "tr_order small_translator ps = ps" for p s l t e ps
    by (simp_all add: small_translator_def)
  show ?thesis using w
    by (simp add: K read_page_def sbind_def sreturn_def rescue_def translate_and_publish_def small_translation
        publish_entries_def small_publish_def after_publication_def)
qed

subsection \<open>Properties\<close>

text \<open>
  C38: A translated page is published at most once, and recorded only after that.  Let \<open>R\<close> be kept by
  every call that reads a page or translates something.  Then processing a page keeps \<open>R\<close> and
  reports no publication, or it returns a result after exactly one call of the publisher, with
  entries that are not empty and have a text.  When the publisher does not accept them, nothing
  follows; the result is \<open>filtered\<close> exactly for a refusal.  When it accepts them, the dictionary
  and the templates of the references are written next, and the result says that the page was
  published exactly when all of that succeeded.
\<close>

theorem page_is_published_once:
  assumes "still R K" and "process_page K publish depth page s = (s', r)"
  shows "(R s s' \<and> (\<forall>x. r = Inr x \<longrightarrow> \<not> tp_published x \<and> tp_status x \<noteq> ''filtered'')) \<or>
    (\<exists>x. r = Inr x \<and> (\<exists>target entries T written s1 s2 a. R s s1 \<and> entries \<noteq> [] \<and>
      output_wikipages (tr_renderer K) entries = Inr written \<and> written \<noteq> [] \<and>
      publish (snd target) entries s1 = (s2, a) \<and>
      (if a = Inr True
       then \<exists>y. after_publication K target entries T s2 = (s', y) \<and> (tp_published x \<longleftrightarrow> (\<exists>z. y = Inr z))
       else s' = s2 \<and> \<not> tp_published x \<and> (tp_status x = ''filtered'' \<longleftrightarrow> a = Inr False))))"
  using process_page_settled [OF assms(1), of publish s depth page]
  unfolding assms(2) settled_def publishes_page_def fst_conv snd_conv .

theorem page_is_published_once_witness:
  "\<exists>x target entries s1. process_page small_translator small_publish 1 (''en'', ''x'') [] = ([''x'', ''stored''], Inr x) \<and>
    tp_published x \<and> entries \<noteq> [] \<and> small_publish (snd (target :: wiki_page)) entries [] = (s1, Inr True)"
proof -
  obtain x where x: "process_page small_translator small_publish 1 (''en'', ''x'') [] = ([''x'', ''stored''], Inr x)"
    and published: "tp_published x" using small_process by blast
  from page_is_published_once [OF small_still x] show ?thesis
  proof (elim disjE exE conjE, goal_cases)
    case (2 x' target entries T written s1 s2 a)
    then have "entries \<noteq> []" "small_publish (snd target) entries [] = (s2, Inr True)" by (simp_all add: small_publish_def)
    note facts = x published this
    show ?case
      by (rule exI [of _ x], rule exI [of _ target], rule exI [of _ entries], rule exI [of _ s2], intro conjI; rule facts)
  qed simp
qed

text \<open>
  C39: The page checker finds the source of a page that was translated.  Without configured processors, every
  translated entry has definitions, no two the same, and is credited to the page it comes from;
  and when the entries are rendered, the text contains the credit, so that a check of it never
  answers that its source cannot be determined.
\<close>

theorem translated_page_names_its_source:
  assumes "tr_static K = Some []" and "creditable page"
    and "translate_wiktionary_page K page content s = (s', Inr (entries, T))" and "entries \<noteq> []"
    and "output_wikipages (tr_renderer K) entries = Inr written"
  shows "(\<forall>e \<in> set entries. we_definitions e \<noteq> [] \<and> distinct (we_definitions e) \<and> tw_origin e = Some (fst page)) \<and>
    contains written (credit (fst page) (snd page)) \<and> parse_mg_wiktionary written \<noteq> None"
proof -
  let ?c = "credit (fst page) (snd page)"
  obtain es where es: "entries = map (credited page) es" "list_all translated_well es"
    using translated_page_entries [OF assms(1,3)] by blast
  have "\<forall>e \<in> set entries. we_definitions e \<noteq> [] \<and> distinct (we_definitions e) \<and> tw_origin e = Some (fst page)"
    using es by (auto simp: credited_def translated_well_def list_all_iff)
  moreover have "contains written ?c"
  proof (rule page_contains_credit [OF assms(5,4)])
    show "\<forall>e \<in> set entries. has_credit ?c e" using es(1) credited_has_credit by auto
    show "?c \<noteq> []" "\<not> py_space (hd ?c)" "\<not> py_space (last ?c)"
      by (simp_all add: credit_def py_space_def code_def)
    have "\<not> is_newline x" if "letter x" for x
      using that by (auto simp: letter_def lower_char_def is_newline_def Let_def)
    then have l: "\<forall>x \<in> set (fst page) \<union> set (snd page). \<not> is_newline x"
      using assms(2) by (auto simp: creditable_def list_all_iff)
    have f: "\<forall>x \<in> set ''{{wikibolana|'' \<union> set ''|'' \<union> set ''}}''. \<not> is_newline x"
      by (simp add: is_newline_def code_def)
    show "\<forall>x \<in> set ?c. \<not> is_newline x"
      using l f unfolding credit_def set_append by blast
  qed
  ultimately show ?thesis using credit_is_found [OF assms(2)] by blast
qed

theorem translated_page_names_its_source_witness:
  "\<exists>w. output_wikipages small_renderer [small_output] = Inr w \<and> parse_mg_wiktionary w \<noteq> None"
proof -
  obtain w where w: "output_wikipages small_renderer [small_output] = Inr w" using small_written by blast
  have K: "tr_static small_translator = Some []" "tr_renderer small_translator = small_renderer"
    by (simp_all add: small_translator_def)
  show ?thesis
    using translated_page_names_its_source [OF K(1) small_page small_translation _ w [folded K(2)]] w by blast
qed

text \<open>
  C40: A reference that is left out shifts the pairs.  Where the first reference of a section is one that
  \<open>translate_references\<close> skips, every reference is paired with the translation of the one after it,
  so that the template of the wiki is created with the text of another template.
\<close>

theorem skipped_reference_shifts_pairs:
  assumes "skipped_reference x" and "dget name d = JList (map JStr (x # refs))"
    and "translate_references (tr_reference K language) (map JStr refs) s = (s', Inr answers)"
  shows "translate_section K language name (d, T) s =
    (s', Inr (dset name (JList (map JStr answers)) d, add_pairs (zip (x # refs) answers) T))"
proof -
  have has: "dhas name d" using assms(2) by (auto simp: dget_def dhas_def split: option.splits)
  have skip: "\<not> startswith (strip x) ''{{''" using assms(1) by (simp add: skipped_reference_def)
  have strs: "strs_of (map JStr xs) = xs" for xs by (induction xs) (auto simp: strs_of_def)
  have "strs_of (JStr x # map JStr refs) = x # refs" using strs [of "x # refs"] by simp
  with has skip assms show ?thesis by (simp add: translate_section_def sbind_def sreturn_def)
qed

theorem skipped_reference_shifts_pairs_witness:
  "\<exists>d. translate_section small_translator ''en'' ''reference''
      ([(''reference'', JList [JStr ''<references/>'', JStr ''{{R:a}}'', JStr ''{{R:b}}''])], []) [] =
    ([], Inr (d, [(''<references/>'', ''{{t:a}}''), (''{{R:a}}'', ''{{t:b}}'')]))"
proof -
  have skip: "skipped_reference ''<references/>''" by code_simp
  have start: "startswith (strip ''{{R:a}}'') ''{{''" "startswith (strip ''{{R:b}}'') ''{{''" by code_simp+
  have data: "dget ''reference'' [(''reference'', JList [JStr ''<references/>'', JStr ''{{R:a}}'', JStr ''{{R:b}}''])] =
      JList (map JStr (''<references/>'' # [''{{R:a}}'', ''{{R:b}}'']))" by (simp add: dget_def)
  have refs: "translate_references (tr_reference small_translator ''en'') (map JStr [''{{R:a}}'', ''{{R:b}}'']) [] =
      ([], Inr [''{{t:a}}'', ''{{t:b}}''])"
    using start by (simp add: small_translator_def sbind_def sreturn_def)
  show ?thesis using skipped_reference_shifts_pairs [OF skip data refs, of "[]"] by (simp add: add_pairs_def)
qed

end
